(* ===== verification/Prelude.thy ===== *)
theory Prelude
  imports Main "HOL-Library.Sublist"
begin

text \<open>
  What every theory of the development shares: Go strings as byte lists, the error values of the
  program as one datatype, results as sums, and the functions of Go's package
  \<^verbatim>\<open>strings\<close> that the program calls, with the rewrite rules that carry the proofs.

  A Go \<^verbatim>\<open>string\<close> and a \<^verbatim>\<open>[]byte\<close> are both a list of bytes; an
  Isabelle \<^typ>\<open>char\<close> is a byte, so both are \<^typ>\<open>string\<close>.
  A Go error is modelled by what \<^verbatim>\<open>errors.Is\<close> can see of it: the sentinel
  at the end of its chain of \<^verbatim>\<open>%w\<close> wrappers. Errors that wrap no sentinel of the
  program are \<open>ErrOther\<close> with the constant part of their message.
\<close>

section \<open>Collections of rewrite rules\<close>

named_theorems go_simps \<open>rewrite rules for the functions of Go's standard library\<close>
named_theorems accessor_simps \<open>unfolding rules of one-line accessors and option setters\<close>

section \<open>Errors and results\<close>

datatype error =
    ErrCookieNotFound
  | ErrExpiredAccessToken
  | ErrInvalidState
  | ErrNoSessionData
  | ErrNoAccessToken
  | ErrSessionInactive
  | ErrKeyNotFound
  | ErrUnexpected
  | ErrAcquireLock
  | ErrOpenIDClient
  | ErrOpenIDServer
  | ErrInvalidSecurityLevel
  | ErrInvalidLocale
  | ErrInvalidLoginParameter
  | ErrNoCookie
  | ErrContext
  | ErrOther string

type_synonym bytes = string
type_synonym 'a result = "error + 'a"

text \<open>A Go function that returns only an \<^verbatim>\<open>error\<close>: \<open>None\<close> is \<^verbatim>\<open>nil\<close>.\<close>

type_synonym err = "error option"

definition is_ok :: "'a result \<Rightarrow> bool" where
  "is_ok r = (case r of Inl _ \<Rightarrow> False | Inr _ \<Rightarrow> True)"

lemma is_ok_simps [simp]: "is_ok (Inr x)" "\<not> is_ok (Inl e)"
  by (simp_all add: is_ok_def)

lemma is_ok_iff: "is_ok r \<longleftrightarrow> (\<exists>x. r = Inr x)"
  by (cases r) simp_all

lemma result_cases [case_names Err Ok]:
  assumes "\<And>e. r = Inl e \<Longrightarrow> P" and "\<And>x. r = Inr x \<Longrightarrow> P"
  shows P
  using assms by (cases r) auto

section \<open>Package strings\<close>

definition HasPrefix :: "string \<Rightarrow> string \<Rightarrow> bool" where
  "HasPrefix s p \<longleftrightarrow> take (length p) s = p"

definition HasSuffix :: "string \<Rightarrow> string \<Rightarrow> bool" where
  "HasSuffix s p \<longleftrightarrow> length p \<le> length s \<and> drop (length s - length p) s = p"

definition TrimSuffix :: "string \<Rightarrow> string \<Rightarrow> string" where
  "TrimSuffix s p = (if HasSuffix s p then take (length s - length p) s else s)"

text \<open>\<^verbatim>\<open>strings.TrimRight(s, cutset)\<close> for a cutset of one byte.\<close>

definition TrimRight :: "string \<Rightarrow> char \<Rightarrow> string" where
  "TrimRight s c = rev (dropWhile (\<lambda>x. x = c) (rev s))"

fun join_with :: "string \<Rightarrow> string list \<Rightarrow> string" where
  "join_with sep [] = []"
| "join_with sep [x] = x"
| "join_with sep (x # y # xs) = x @ sep @ join_with sep (y # xs)"

lemma HasPrefix_iff: "HasPrefix s p \<longleftrightarrow> (\<exists>t. s = p @ t)"
  by (metis HasPrefix_def append_eq_conv_conj append_take_drop_id)

lemma HasPrefix_prefix: "HasPrefix s p \<longleftrightarrow> prefix p s"
  by (simp add: HasPrefix_iff prefix_def)

lemma HasPrefix_append [simp, go_simps]: "HasPrefix (p @ t) p"
  by (auto simp: HasPrefix_iff)

lemma HasPrefix_Nil [simp, go_simps]: "HasPrefix s []"
  by (simp add: HasPrefix_def)

lemma HasPrefix_length: "HasPrefix s p \<Longrightarrow> length p \<le> length s"
  by (auto simp: HasPrefix_iff)

lemma HasPrefix_comparable: "HasPrefix s p \<Longrightarrow> HasPrefix s q \<Longrightarrow> length p = length q \<Longrightarrow> p = q"
  by (simp add: HasPrefix_def)

lemma HasSuffix_iff: "HasSuffix s p \<longleftrightarrow> (\<exists>t. s = t @ p)"
proof
  assume "HasSuffix s p"
  then show "\<exists>t. s = t @ p"
    by (metis HasSuffix_def append_take_drop_id)
qed (auto simp: HasSuffix_def)

lemma TrimSuffix_append [simp, go_simps]: "TrimSuffix (t @ p) p = t"
  by (auto simp: TrimSuffix_def HasSuffix_iff)

lemma TrimRight_Nil [simp, go_simps]: "TrimRight [] c = []"
  by (simp add: TrimRight_def)

lemma TrimRight_snoc [simp, go_simps]:
  "TrimRight (s @ [x]) c = (if x = c then TrimRight s c else s @ [x])"
  by (simp add: TrimRight_def)

lemma TrimRight_no_trailing: "TrimRight s c \<noteq> [] \<Longrightarrow> last (TrimRight s c) \<noteq> c"
  by (induction s rule: rev_induct) auto

lemma TrimRight_idem [simp]: "TrimRight (TrimRight s c) c = TrimRight s c"
  by (induction s rule: rev_induct) auto

lemma TrimRight_decomp: "\<exists>n. s = TrimRight s c @ replicate n c"
proof (induction s rule: rev_induct)
  case (snoc x xs)
  then obtain n where n: "xs = TrimRight xs c @ replicate n c" by blast
  show ?case
  proof (cases "x = c")
    case True
    with n have "xs @ [x] = TrimRight (xs @ [x]) c @ replicate (Suc n) c"
      by (metis TrimRight_snoc append_assoc replicate_append_same replicate_Suc)
    then show ?thesis by blast
  next
    case False
    then have "xs @ [x] = TrimRight (xs @ [x]) c @ replicate 0 c" by simp
    then show ?thesis by blast
  qed
qed simp

section \<open>Lists\<close>

text \<open>Concatenating with a separator that does not occur in the first part is injective.\<close>

lemma append_sep_inject:
  assumes "c \<notin> set xs" "c \<notin> set xs'" "xs @ c # ys = xs' @ c # ys'"
  shows "xs = xs' \<and> ys = ys'"
  using assms
proof (induction xs arbitrary: xs')
  case Nil
  then show ?case by (cases xs') auto
next
  case (Cons x xs)
  then show ?case by (cases xs') auto
qed

text \<open>The deduplication loop with a \<^verbatim>\<open>seen\<close> map: first occurrences, in order.\<close>

fun dedup_acc :: "'a list \<Rightarrow> 'a list \<Rightarrow> 'a list" where
  "dedup_acc seen [] = []"
| "dedup_acc seen (x # xs) =
     (if x \<in> set seen then dedup_acc seen xs else x # dedup_acc (x # seen) xs)"

lemma set_dedup_acc: "set (dedup_acc seen xs) = set xs - set seen"
  by (induction xs arbitrary: seen) auto

lemma distinct_dedup_acc: "distinct (dedup_acc seen xs)"
  by (induction xs arbitrary: seen) (auto simp: set_dedup_acc)

end
