(* ===== verification/GoBase64.thy ===== *)
theory GoBase64
  imports Prelude
begin

text \<open>
  Go's package \<^verbatim>\<open>encoding/base64\<close> as the program uses it: \<^verbatim>\<open>StdEncoding\<close> (padded) for
  ciphertexts in cookies and the session store, \<^verbatim>\<open>RawURLEncoding\<close> (no padding) for redirect
  targets, generated identifiers and PKCE challenges. Decoding skips newlines, accepts any value in
  the unused trailing bits and refuses everything else, as the library's default mode does.
\<close>

section \<open>Codecs\<close>

text \<open>What the program relies on wherever it encodes a value and decodes it again.\<close>

locale codec =
  fixes encode :: "string \<Rightarrow> string"
    and decode :: "string \<Rightarrow> string result"
  assumes decode_encode: "decode (encode s) = Inr s"
begin

lemma encode_inject: "encode s = encode t \<longleftrightarrow> s = t"
  by (metis decode_encode sum.inject(2))

lemma decode_ok: "is_ok (decode (encode s))"
  by (simp add: decode_encode)

end

section \<open>Encodings\<close>

record b64_encoding =
  b64_alphabet :: string
  b64_padded :: bool

definition StdEncoding :: b64_encoding where
  "StdEncoding = \<lparr> b64_alphabet = ''ABCDEFGHIJKLMNOPQRSTUVWXYZabcdefghijklmnopqrstuvwxyz0123456789+/'',
     b64_padded = True \<rparr>"

definition RawURLEncoding :: b64_encoding where
  "RawURLEncoding = \<lparr> b64_alphabet = ''ABCDEFGHIJKLMNOPQRSTUVWXYZabcdefghijklmnopqrstuvwxyz0123456789-_'',
     b64_padded = False \<rparr>"

definition b64_digit :: "b64_encoding \<Rightarrow> nat \<Rightarrow> char" where
  "b64_digit e n = b64_alphabet e ! n"

definition b64_value :: "b64_encoding \<Rightarrow> char \<Rightarrow> nat option" where
  "b64_value e = map_of (zip (b64_alphabet e) [0..<64])"

definition byte_val :: "char \<Rightarrow> nat" where
  "byte_val c = of_char c"

definition val_byte :: "nat \<Rightarrow> char" where
  "val_byte n = char_of n"

definition b64_pad :: "b64_encoding \<Rightarrow> nat \<Rightarrow> string" where
  "b64_pad e n = (if b64_padded e then replicate n (CHR ''='') else [])"

fun EncodeToString :: "b64_encoding \<Rightarrow> string \<Rightarrow> string" where
  "EncodeToString e [] = []"
| "EncodeToString e [a] =
     [b64_digit e (byte_val a div 4), b64_digit e (byte_val a mod 4 * 16)] @ b64_pad e 2"
| "EncodeToString e [a, b] =
     [b64_digit e (byte_val a div 4), b64_digit e (byte_val a mod 4 * 16 + byte_val b div 16),
      b64_digit e (byte_val b mod 16 * 4)] @ b64_pad e 1"
| "EncodeToString e (a # b # c # rest) =
     b64_digit e (byte_val a div 4) # b64_digit e (byte_val a mod 4 * 16 + byte_val b div 16) #
     b64_digit e (byte_val b mod 16 * 4 + byte_val c div 64) # b64_digit e (byte_val c mod 64) #
     EncodeToString e rest"

text \<open>The bytes of a quantum of two, three or four digits.\<close>

definition quantum2 :: "nat \<Rightarrow> nat \<Rightarrow> string" where
  "quantum2 x y = [val_byte (x * 4 + y div 16)]"

definition quantum3 :: "nat \<Rightarrow> nat \<Rightarrow> nat \<Rightarrow> string" where
  "quantum3 x y z = [val_byte (x * 4 + y div 16), val_byte (y mod 16 * 16 + z div 4)]"

definition quantum4 :: "nat \<Rightarrow> nat \<Rightarrow> nat \<Rightarrow> nat \<Rightarrow> string" where
  "quantum4 x y z w = quantum3 x y z @ [val_byte (z mod 4 * 64 + w)]"

fun decode_quanta :: "b64_encoding \<Rightarrow> string \<Rightarrow> string option" where
  "decode_quanta e [] = Some []"
| "decode_quanta e [a] = None"
| "decode_quanta e [a, b] =
     (if b64_padded e then None else
      (case (b64_value e a, b64_value e b) of
         (Some x, Some y) \<Rightarrow> Some (quantum2 x y)
       | _ \<Rightarrow> None))"
| "decode_quanta e [a, b, c] =
     (if b64_padded e then None else
      (case (b64_value e a, b64_value e b, b64_value e c) of
         (Some x, Some y, Some z) \<Rightarrow> Some (quantum3 x y z)
       | _ \<Rightarrow> None))"
| "decode_quanta e (a # b # c # d # rest) =
     (case (b64_value e a, b64_value e b) of
        (Some x, Some y) \<Rightarrow>
          (case b64_value e c of
             Some z \<Rightarrow>
               (case b64_value e d of
                  Some w \<Rightarrow> map_option ((@) (quantum4 x y z w)) (decode_quanta e rest)
                | None \<Rightarrow> if b64_padded e \<and> d = CHR ''='' \<and> rest = []
                          then Some (quantum3 x y z) else None)
           | None \<Rightarrow> if b64_padded e \<and> c = CHR ''='' \<and> d = CHR ''='' \<and> rest = []
                     then Some (quantum2 x y) else None)
      | _ \<Rightarrow> None)"

definition newline :: "char \<Rightarrow> bool" where
  "newline c \<longleftrightarrow> c = CHR 0x0A \<or> c = CHR 0x0D"

definition DecodeString :: "b64_encoding \<Rightarrow> string \<Rightarrow> string result" where
  "DecodeString e s = (case decode_quanta e (filter (\<lambda>c. \<not> newline c) s) of
     None \<Rightarrow> Inl (ErrOther ''illegal base64 data'') | Some bs \<Rightarrow> Inr bs)"

section \<open>Round trip\<close>

definition good_encoding :: "b64_encoding \<Rightarrow> bool" where
  "good_encoding e \<longleftrightarrow> length (b64_alphabet e) = 64 \<and> distinct (b64_alphabet e)
     \<and> CHR ''='' \<notin> set (b64_alphabet e) \<and> list_all (\<lambda>c. \<not> newline c) (b64_alphabet e)"

lemma good_encodings: "good_encoding StdEncoding" "good_encoding RawURLEncoding"
  by (simp_all add: good_encoding_def StdEncoding_def RawURLEncoding_def newline_def)

lemma byte_val_less: "byte_val c < 256"
  by (simp add: byte_val_def)

lemma val_byte_inverse [simp]: "val_byte (byte_val c) = c"
  by (simp add: byte_val_def val_byte_def)

lemma byte_val_inject [simp]: "byte_val c = byte_val d \<longleftrightarrow> c = d"
  by (metis val_byte_inverse)

lemma b64_value_digit: "good_encoding e \<Longrightarrow> n < 64 \<Longrightarrow> b64_value e (b64_digit e n) = Some n"
  by (simp add: good_encoding_def b64_value_def b64_digit_def map_of_zip_nth)

lemma b64_value_pad: "good_encoding e \<Longrightarrow> b64_value e (CHR ''='') = None"
  by (simp add: good_encoding_def b64_value_def map_of_zip_is_None)

lemma b64_digit_in: "good_encoding e \<Longrightarrow> n < 64 \<Longrightarrow> b64_digit e n \<in> set (b64_alphabet e)"
  by (simp add: good_encoding_def b64_digit_def)

lemma b64_pad_simps [simp]:
  "b64_pad e 2 = (if b64_padded e then ''=='' else [])"
  "b64_pad e (Suc 0) = (if b64_padded e then ''='' else [])"
  by (simp_all add: b64_pad_def numeral_2_eq_2)

lemma div_mod_digit:
  "r < k \<Longrightarrow> (q * k + r) div k = (q :: nat)" "r < k \<Longrightarrow> (q * k + r) mod k = r"
  by simp_all

lemma digits_byte:
  "byte_val a div 4 < 64" "byte_val a mod 4 * 16 + byte_val b div 16 < 64"
  "byte_val b mod 16 * 4 + byte_val c div 64 < 64" "byte_val c mod 64 < 64"
  "byte_val a mod 4 * 16 < 64" "byte_val b mod 16 * 4 < 64"
  using byte_val_less[of a] byte_val_less[of b] byte_val_less[of c] by linarith+

lemma quantum_digits:
  "quantum2 (byte_val a div 4) (byte_val a mod 4 * 16) = [a]"
  "quantum3 (byte_val a div 4) (byte_val a mod 4 * 16 + byte_val b div 16) (byte_val b mod 16 * 4) = [a, b]"
  "quantum4 (byte_val a div 4) (byte_val a mod 4 * 16 + byte_val b div 16)
     (byte_val b mod 16 * 4 + byte_val c div 64) (byte_val c mod 64) = [a, b, c]"
proof -
  have l: "byte_val b div 16 < 16" "byte_val c div 64 < 4"
    using byte_val_less[of b] byte_val_less[of c] by (simp_all add: less_mult_imp_div_less)
  have 1: "byte_val a div 4 * 4 + (byte_val a mod 4 * 16) div 16 = byte_val a" by simp
  have 2: "byte_val a div 4 * 4 + (byte_val a mod 4 * 16 + byte_val b div 16) div 16 = byte_val a"
    "(byte_val a mod 4 * 16 + byte_val b div 16) mod 16 * 16 + (byte_val b mod 16 * 4) div 4 = byte_val b"
    using l by (simp_all add: div_mod_digit)
  have 3: "(byte_val a mod 4 * 16 + byte_val b div 16) mod 16 * 16
      + (byte_val b mod 16 * 4 + byte_val c div 64) div 4 = byte_val b"
    "(byte_val b mod 16 * 4 + byte_val c div 64) mod 4 * 64 + byte_val c mod 64 = byte_val c"
    using l by (simp_all add: div_mod_digit)
  show "quantum2 (byte_val a div 4) (byte_val a mod 4 * 16) = [a]"
    "quantum3 (byte_val a div 4) (byte_val a mod 4 * 16 + byte_val b div 16) (byte_val b mod 16 * 4) = [a, b]"
    "quantum4 (byte_val a div 4) (byte_val a mod 4 * 16 + byte_val b div 16)
       (byte_val b mod 16 * 4 + byte_val c div 64) (byte_val c mod 64) = [a, b, c]"
    by (simp_all only: quantum2_def quantum3_def quantum4_def 1 2 3 val_byte_inverse append.simps)
qed

lemma EncodeToString_chars:
  "good_encoding e \<Longrightarrow> set (EncodeToString e s) \<subseteq>
     set (b64_alphabet e) \<union> (if b64_padded e then {CHR ''=''} else {})"
proof (induction e s rule: EncodeToString.induct)
  case (4 e a b c rest)
  then show ?case by (simp add: b64_digit_in digits_byte)
qed (simp_all add: b64_digit_in digits_byte)

lemma EncodeToString_no_newline:
  "good_encoding e \<Longrightarrow> filter (\<lambda>c. \<not> newline c) (EncodeToString e s) = EncodeToString e s"
  using EncodeToString_chars[of e s]
  by (auto simp: filter_id_conv good_encoding_def list_all_iff newline_def split: if_splits)

lemma decode_quanta_encode: "good_encoding e \<Longrightarrow> decode_quanta e (EncodeToString e s) = Some s"
proof (induction e s rule: EncodeToString.induct)
  case (2 e a)
  then show ?case
    by (cases "b64_padded e")
      (simp_all add: b64_value_digit b64_value_pad digits_byte quantum_digits)
next
  case (3 e a b)
  then show ?case
    by (cases "b64_padded e")
      (simp_all add: b64_value_digit b64_value_pad digits_byte quantum_digits)
next
  case (4 e a b c rest)
  then show ?case by (simp add: b64_value_digit digits_byte quantum_digits)
qed simp

lemma DecodeString_EncodeToString: "good_encoding e \<Longrightarrow> DecodeString e (EncodeToString e s) = Inr s"
  by (simp add: DecodeString_def EncodeToString_no_newline decode_quanta_encode)

interpretation std64: codec "EncodeToString StdEncoding" "DecodeString StdEncoding"
  by unfold_locales (rule DecodeString_EncodeToString[OF good_encodings(1)])

interpretation url64: codec "EncodeToString RawURLEncoding" "DecodeString RawURLEncoding"
  by unfold_locales (rule DecodeString_EncodeToString[OF good_encodings(2)])

declare std64.decode_encode [simp] url64.decode_encode [simp]

text \<open>Encoded text is empty only for the empty string, and URL-safe text has URL-safe characters only.\<close>

lemma EncodeToString_Nil_iff [simp]: "EncodeToString e s = [] \<longleftrightarrow> s = []"
  by (cases "(e, s)" rule: EncodeToString.cases) simp_all

definition url_safe :: "char \<Rightarrow> bool" where
  "url_safe c \<longleftrightarrow> c \<in> set (b64_alphabet RawURLEncoding)"

lemma padded_simps [simp]: "b64_padded StdEncoding" "\<not> b64_padded RawURLEncoding"
  by (simp_all add: StdEncoding_def RawURLEncoding_def)

lemma RawURL_url_safe: "c \<in> set (EncodeToString RawURLEncoding s) \<Longrightarrow> url_safe c"
  using EncodeToString_chars[OF good_encodings(2), of s] by (auto simp: url_safe_def)

end
