(* ===== verification/GoCipher.thy ===== *)
theory GoCipher
  imports GoBase64 "HOL-Library.Word"
begin

unbundle bit_operations_syntax

text \<open>
  The packages \<^verbatim>\<open>crypto/aes\<close> and \<^verbatim>\<open>crypto/cipher\<close> as the program uses them: the AES block
  cipher (FIPS 197) for keys of 16, 24 or 32 bytes, and Galois/counter mode (NIST SP 800-38D) with
  12-byte nonces, 16-byte tags and no additional data. The one fact the program rests on is proved
  here: opening what was sealed under the same key and nonce gives the plaintext back.
\<close>

section \<open>Bytes and words\<close>

type_synonym byte = "8 word"

definition to_byte :: "char \<Rightarrow> byte" where "to_byte c = of_nat (byte_val c)"
definition of_byte :: "byte \<Rightarrow> char" where "of_byte b = val_byte (unat b)"

text \<open>Big-endian bytes of a number, and the number of big-endian bytes.\<close>

definition be_bytes :: "nat \<Rightarrow> nat \<Rightarrow> string" where
  "be_bytes n v = map (\<lambda>i. val_byte (v div 256 ^ (n - 1 - i) mod 256)) [0..<n]"

definition be_value :: "string \<Rightarrow> nat" where
  "be_value s = foldl (\<lambda>v c. v * 256 + byte_val c) 0 s"

definition xor_bytes :: "string \<Rightarrow> string \<Rightarrow> string" where
  "xor_bytes xs ks = map2 (\<lambda>x k. of_byte (to_byte x XOR to_byte k)) xs ks"

section \<open>AES\<close>

definition sbox_table :: "byte list" where
  "sbox_table =
    [0x63, 0x7c, 0x77, 0x7b, 0xf2, 0x6b, 0x6f, 0xc5, 0x30, 0x01, 0x67, 0x2b, 0xfe, 0xd7, 0xab, 0x76,
     0xca, 0x82, 0xc9, 0x7d, 0xfa, 0x59, 0x47, 0xf0, 0xad, 0xd4, 0xa2, 0xaf, 0x9c, 0xa4, 0x72, 0xc0,
     0xb7, 0xfd, 0x93, 0x26, 0x36, 0x3f, 0xf7, 0xcc, 0x34, 0xa5, 0xe5, 0xf1, 0x71, 0xd8, 0x31, 0x15,
     0x04, 0xc7, 0x23, 0xc3, 0x18, 0x96, 0x05, 0x9a, 0x07, 0x12, 0x80, 0xe2, 0xeb, 0x27, 0xb2, 0x75,
     0x09, 0x83, 0x2c, 0x1a, 0x1b, 0x6e, 0x5a, 0xa0, 0x52, 0x3b, 0xd6, 0xb3, 0x29, 0xe3, 0x2f, 0x84,
     0x53, 0xd1, 0x00, 0xed, 0x20, 0xfc, 0xb1, 0x5b, 0x6a, 0xcb, 0xbe, 0x39, 0x4a, 0x4c, 0x58, 0xcf,
     0xd0, 0xef, 0xaa, 0xfb, 0x43, 0x4d, 0x33, 0x85, 0x45, 0xf9, 0x02, 0x7f, 0x50, 0x3c, 0x9f, 0xa8,
     0x51, 0xa3, 0x40, 0x8f, 0x92, 0x9d, 0x38, 0xf5, 0xbc, 0xb6, 0xda, 0x21, 0x10, 0xff, 0xf3, 0xd2,
     0xcd, 0x0c, 0x13, 0xec, 0x5f, 0x97, 0x44, 0x17, 0xc4, 0xa7, 0x7e, 0x3d, 0x64, 0x5d, 0x19, 0x73,
     0x60, 0x81, 0x4f, 0xdc, 0x22, 0x2a, 0x90, 0x88, 0x46, 0xee, 0xb8, 0x14, 0xde, 0x5e, 0x0b, 0xdb,
     0xe0, 0x32, 0x3a, 0x0a, 0x49, 0x06, 0x24, 0x5c, 0xc2, 0xd3, 0xac, 0x62, 0x91, 0x95, 0xe4, 0x79,
     0xe7, 0xc8, 0x37, 0x6d, 0x8d, 0xd5, 0x4e, 0xa9, 0x6c, 0x56, 0xf4, 0xea, 0x65, 0x7a, 0xae, 0x08,
     0xba, 0x78, 0x25, 0x2e, 0x1c, 0xa6, 0xb4, 0xc6, 0xe8, 0xdd, 0x74, 0x1f, 0x4b, 0xbd, 0x8b, 0x8a,
     0x70, 0x3e, 0xb5, 0x66, 0x48, 0x03, 0xf6, 0x0e, 0x61, 0x35, 0x57, 0xb9, 0x86, 0xc1, 0x1d, 0x9e,
     0xe1, 0xf8, 0x98, 0x11, 0x69, 0xd9, 0x8e, 0x94, 0x9b, 0x1e, 0x87, 0xe9, 0xce, 0x55, 0x28, 0xdf,
     0x8c, 0xa1, 0x89, 0x0d, 0xbf, 0xe6, 0x42, 0x68, 0x41, 0x99, 0x2d, 0x0f, 0xb0, 0x54, 0xbb, 0x16]"

definition sbox :: "byte \<Rightarrow> byte" where "sbox b = sbox_table ! unat b"

definition xtime :: "byte \<Rightarrow> byte" where
  "xtime b = (if bit b 7 then push_bit 1 b XOR 0x1b else push_bit 1 b)"

definition SubWord :: "byte list \<Rightarrow> byte list" where "SubWord w = map sbox w"
definition RotWord :: "byte list \<Rightarrow> byte list" where "RotWord w = rotate1 w"

fun rcon :: "nat \<Rightarrow> byte" where
  "rcon 0 = 0"
| "rcon (Suc 0) = 1"
| "rcon (Suc (Suc n)) = xtime (rcon (Suc n))"

text \<open>Key expansion: \<open>n\<close> more words after the list \<open>ws\<close>.\<close>

primrec expand_key :: "nat \<Rightarrow> nat \<Rightarrow> byte list list \<Rightarrow> byte list list" where
  "expand_key nk 0 ws = ws"
| "expand_key nk (Suc n) ws =
     (let i = length ws; t = last ws;
          t' = (if i mod nk = 0 then map2 (XOR) (SubWord (RotWord t)) [rcon (i div nk), 0, 0, 0]
                else if 6 < nk \<and> i mod nk = 4 then SubWord t else t)
      in expand_key nk n (ws @ [map2 (XOR) (ws ! (i - nk)) t']))"

definition key_words :: "string \<Rightarrow> byte list list" where
  "key_words key = map (\<lambda>i. map to_byte (take 4 (drop (4 * i) key))) [0..<length key div 4]"

definition round_keys :: "string \<Rightarrow> byte list list" where
  "round_keys key = (let nk = length key div 4; ws = expand_key nk (4 * (nk + 7) - nk) (key_words key)
     in map (\<lambda>r. concat (take 4 (drop (4 * r) ws))) [0..<nk + 7])"

definition ShiftRows :: "byte list \<Rightarrow> byte list" where
  "ShiftRows s = map (\<lambda>i. s ! (i mod 4 + 4 * ((i div 4 + i mod 4) mod 4))) [0..<16]"

definition MixColumns :: "byte list \<Rightarrow> byte list" where
  "MixColumns s = map (\<lambda>i. let c = 4 * (i div 4); r = i mod 4;
       a = s ! (c + r); b = s ! (c + (r + 1) mod 4)
     in xtime a XOR (xtime b XOR b) XOR s ! (c + (r + 2) mod 4) XOR s ! (c + (r + 3) mod 4)) [0..<16]"

definition AddRoundKey :: "byte list \<Rightarrow> byte list \<Rightarrow> byte list" where
  "AddRoundKey k s = map (\<lambda>i. s ! i XOR k ! i) [0..<16]"

definition aes_rounds :: "byte list list \<Rightarrow> byte list \<Rightarrow> byte list" where
  "aes_rounds ks s = AddRoundKey (last ks) (ShiftRows (map sbox
     (fold (\<lambda>k s. AddRoundKey k (MixColumns (ShiftRows (map sbox s)))) (butlast (tl ks))
        (AddRoundKey (hd ks) s))))"

definition aes_encrypt :: "string \<Rightarrow> string \<Rightarrow> string" where
  "aes_encrypt key block = map of_byte (aes_rounds (round_keys key) (map to_byte block))"

text \<open>\<^verbatim>\<open>aes.NewCipher\<close> accepts three key sizes.\<close>

definition aes_key_ok :: "string \<Rightarrow> bool" where
  "aes_key_ok key \<longleftrightarrow> length key = 16 \<or> length key = 24 \<or> length key = 32"

section \<open>Galois/counter mode\<close>

definition gf_step :: "128 word \<Rightarrow> nat \<Rightarrow> 128 word \<times> 128 word \<Rightarrow> 128 word \<times> 128 word" where
  "gf_step x i zv = (case zv of (z, v) \<Rightarrow>
     (if bit x (127 - i) then z XOR v else z,
      if bit v 0 then drop_bit 1 v XOR push_bit 120 0xe1 else drop_bit 1 v))"

definition gf_mult :: "128 word \<Rightarrow> 128 word \<Rightarrow> 128 word" where
  "gf_mult x y = fst (fold (gf_step x) [0..<128] (0, y))"

text \<open>The hash of a text cut into blocks of 16 bytes, the last one filled up with zero bytes.\<close>

function ghash :: "128 word \<Rightarrow> 128 word \<Rightarrow> string \<Rightarrow> 128 word" where
  "ghash h y s = (if s = [] then y else
     ghash h (gf_mult (y XOR of_nat (be_value (take 16 s @ replicate (16 - length s) (CHR 0x00)))) h)
       (drop 16 s))"
  by pat_completeness auto
termination
  by (relation "measure (\<lambda>(h, y, s). length s)") auto

declare ghash.simps [simp del]

text \<open>Counter mode from a given counter value on; the counter wraps at 32 bits.\<close>

function gctr :: "(string \<Rightarrow> string) \<Rightarrow> string \<Rightarrow> 32 word \<Rightarrow> string \<Rightarrow> string" where
  "gctr blk nonce ctr s = (if s = [] then [] else
     xor_bytes (take 16 s) (blk (nonce @ be_bytes 4 (unat ctr))) @ gctr blk nonce (ctr + 1) (drop 16 s))"
  by pat_completeness auto
termination
  by (relation "measure (\<lambda>(blk, nonce, ctr, s). length s)") auto

declare gctr.simps [simp del]

definition gcm_tag :: "(string \<Rightarrow> string) \<Rightarrow> string \<Rightarrow> string \<Rightarrow> string" where
  "gcm_tag blk nonce c =
     (let h = of_nat (be_value (blk (replicate 16 (CHR 0x00))));
          y = ghash h 0 c;
          s = gf_mult (y XOR of_nat (8 * length c)) h
      in be_bytes 16 (unat (s XOR of_nat (be_value (blk (nonce @ be_bytes 4 1))))))"

definition gcm_Seal :: "(string \<Rightarrow> string) \<Rightarrow> string \<Rightarrow> string \<Rightarrow> string" where
  "gcm_Seal blk nonce plaintext =
     (let c = gctr blk nonce 2 plaintext in c @ gcm_tag blk nonce c)"

definition gcm_Open :: "(string \<Rightarrow> string) \<Rightarrow> string \<Rightarrow> string \<Rightarrow> string result" where
  "gcm_Open blk nonce ciphertext =
     (if length ciphertext < 16 then Inl (ErrOther ''cipher: message authentication failed'')
      else let c = take (length ciphertext - 16) ciphertext; tag = drop (length ciphertext - 16) ciphertext
        in if tag = gcm_tag blk nonce c then Inr (gctr blk nonce 2 c)
           else Inl (ErrOther ''cipher: message authentication failed''))"

section \<open>Opening what was sealed\<close>

lemma to_byte_of_byte [simp]: "to_byte (of_byte b) = b"
proof -
  have "unat b < 256" using unsigned_less[of b] by simp
  then show ?thesis by (simp add: to_byte_def of_byte_def byte_val_def val_byte_def)
qed

lemma of_byte_to_byte [simp]: "of_byte (to_byte c) = c"
  using byte_val_less[of c] by (simp add: to_byte_def of_byte_def unsigned_of_nat take_bit_nat_eq_self)

lemma length_be_bytes [simp]: "length (be_bytes n v) = n"
  by (simp add: be_bytes_def)

lemma length_aes_encrypt [simp]: "length (aes_encrypt key block) = 16"
  by (simp add: aes_encrypt_def aes_rounds_def AddRoundKey_def)

lemma length_xor_bytes [simp]: "length (xor_bytes xs ks) = min (length xs) (length ks)"
  by (simp add: xor_bytes_def)

lemma xor_bytes_inverse: "length xs \<le> length ks \<Longrightarrow> xor_bytes (xor_bytes xs ks) ks = xs"
  by (rule nth_equalityI) (simp_all add: xor_bytes_def xor.assoc)

lemma length_gcm_tag [simp]: "length (gcm_tag blk nonce c) = 16"
  by (simp add: gcm_tag_def Let_def)

lemma length_gctr: "(\<And>b. length (blk b) = 16) \<Longrightarrow> length (gctr blk nonce ctr s) = length s"
proof (induction blk nonce ctr s rule: gctr.induct)
  case (1 blk nonce ctr s)
  then show ?case by (simp add: gctr.simps[of blk nonce ctr s] min_def)
qed

lemma gctr_involution:
  "(\<And>b. length (blk b) = 16) \<Longrightarrow> gctr blk nonce ctr (gctr blk nonce ctr s) = s"
proof (induction blk nonce ctr s rule: gctr.induct)
  case (1 blk nonce ctr s)
  show ?case
  proof (cases "s = []")
    case True
    then show ?thesis by (simp add: gctr.simps)
  next
    case False
    let ?k = "blk (nonce @ be_bytes 4 (unat ctr))"
    let ?x = "xor_bytes (take 16 s) ?k" and ?r = "gctr blk nonce (ctr + 1) (drop 16 s)"
    have g: "gctr blk nonce ctr s = ?x @ ?r" using False by (simp add: gctr.simps[of blk nonce ctr s])
    have "0 < length ?x" using False "1.prems" by simp
    then have ne: "?x @ ?r \<noteq> []" by (metis append_is_Nil_conv less_irrefl list.size(3))
    have split: "take 16 (?x @ ?r) = ?x \<and> drop 16 (?x @ ?r) = ?r"
      using length_gctr[of blk nonce "ctr + 1" "drop 16 s"] "1.prems"
      by (cases "length s \<le> 16") simp_all
    have "gctr blk nonce ctr (?x @ ?r) = xor_bytes ?x ?k @ gctr blk nonce (ctr + 1) ?r"
      by (simp only: gctr.simps[of blk nonce ctr "?x @ ?r"] ne split if_False)
    also have "\<dots> = take 16 s @ drop 16 s"
      using "1.IH"[OF False "1.prems"] "1.prems" by (simp add: xor_bytes_inverse)
    finally show ?thesis by (simp add: g)
  qed
qed

lemma gcm_Open_Seal:
  "(\<And>b. length (blk b) = 16) \<Longrightarrow> gcm_Open blk nonce (gcm_Seal blk nonce p) = Inr p"
  by (simp add: gcm_Open_def gcm_Seal_def Let_def gctr_involution)

lemma length_gcm_Seal:
  "(\<And>b. length (blk b) = 16) \<Longrightarrow> length (gcm_Seal blk nonce p) = length p + 16"
  by (simp add: gcm_Seal_def Let_def length_gctr)

end
