(* ===== verification/GoTime.thy ===== *)
theory GoTime
  imports Complex_Main "HOL-Library.Log_Nat" Prelude
begin

text \<open>
  The part of Go's package \<^verbatim>\<open>time\<close> that the program uses. A \<^verbatim>\<open>time.Time\<close> is the
  number of nanoseconds since the zero value (year 1), as an unbounded integer: no instant the
  program computes leaves the range of the implementation. A \<^verbatim>\<open>time.Duration\<close> is a signed
  64-bit count of nanoseconds, so its arithmetic wraps, written out with \<open>wrap64\<close>, and
  \<^verbatim>\<open>Time.Sub\<close> saturates. \<^verbatim>\<open>Duration.Seconds\<close> is a float64, rounded to nearest even at
  53 bits of precision, as the conversion to whole seconds depends on it.
\<close>

section \<open>Durations and instants\<close>

type_synonym time = int
type_synonym duration = int

definition wrap64 :: "int \<Rightarrow> int" where
  "wrap64 x = (x + 2 ^ 63) mod 2 ^ 64 - 2 ^ 63"

definition minDuration :: duration where "minDuration = - (2 ^ 63)"
definition maxDuration :: duration where "maxDuration = 2 ^ 63 - 1"

definition Millisecond :: duration where "Millisecond = 1000000"
definition Second :: duration where "Second = 1000000000"
definition Minute :: duration where "Minute = 60 * Second"
definition Hour :: duration where "Hour = 60 * Minute"

lemmas duration_consts = Millisecond_def Second_def Minute_def Hour_def

definition is_duration :: "int \<Rightarrow> bool" where
  "is_duration d \<longleftrightarrow> minDuration \<le> d \<and> d \<le> maxDuration"

text \<open>Go's integer division truncates towards zero.\<close>

definition go_quot :: "int \<Rightarrow> int \<Rightarrow> int" where
  "go_quot a b = sgn a * sgn b * (\<bar>a\<bar> div \<bar>b\<bar>)"

definition go_rem :: "int \<Rightarrow> int \<Rightarrow> int" where
  "go_rem a b = a - b * go_quot a b"

definition dur_mul :: "int \<Rightarrow> int \<Rightarrow> duration" where
  "dur_mul a b = wrap64 (a * b)"

definition Time_Add :: "time \<Rightarrow> duration \<Rightarrow> time" where
  "Time_Add t d = t + d"

definition Time_Sub :: "time \<Rightarrow> time \<Rightarrow> duration" where
  "Time_Sub t u = (let d = t - u in
     if d < minDuration then minDuration else if maxDuration < d then maxDuration else d)"

definition Time_After :: "time \<Rightarrow> time \<Rightarrow> bool" where "Time_After t u \<longleftrightarrow> u < t"
definition Time_Before :: "time \<Rightarrow> time \<Rightarrow> bool" where "Time_Before t u \<longleftrightarrow> t < u"
definition Time_IsZero :: "time \<Rightarrow> bool" where "Time_IsZero t \<longleftrightarrow> t = 0"

text \<open>\<^verbatim>\<open>time.Until(t)\<close>, with the clock reading it takes.\<close>

definition time_Until :: "time \<Rightarrow> time \<Rightarrow> duration" where
  "time_Until now t = Time_Sub t now"

lemmas [accessor_simps] = Time_Add_def Time_After_def Time_Before_def Time_IsZero_def

lemma wrap64_range: "is_duration (wrap64 x)"
proof -
  have "0 \<le> (x + 2 ^ 63) mod 2 ^ 64" and "(x + 2 ^ 63) mod 2 ^ 64 < 2 ^ 64"
    by simp_all
  then show ?thesis
    unfolding is_duration_def wrap64_def minDuration_def maxDuration_def by simp
qed

lemma wrap64_id [simp]: "is_duration x \<Longrightarrow> wrap64 x = x"
  unfolding is_duration_def wrap64_def minDuration_def maxDuration_def
  by (simp add: mod_pos_pos_trivial)

lemma Time_Sub_range: "is_duration (Time_Sub t u)"
  by (simp add: Time_Sub_def is_duration_def minDuration_def maxDuration_def Let_def)

lemma Time_Sub_exact [simp]: "is_duration (t - u) \<Longrightarrow> Time_Sub t u = t - u"
  by (simp add: Time_Sub_def is_duration_def Let_def)

lemma Time_Sub_mono: "t \<le> t' \<Longrightarrow> Time_Sub t u \<le> Time_Sub t' u"
  by (simp add: Time_Sub_def minDuration_def maxDuration_def Let_def)

lemma Time_Sub_nonpos: "t \<le> u \<Longrightarrow> Time_Sub t u \<le> 0"
  by (simp add: Time_Sub_def minDuration_def maxDuration_def Let_def)

lemma Time_Sub_nonneg: "u \<le> t \<Longrightarrow> 0 \<le> Time_Sub t u"
  by (simp add: Time_Sub_def minDuration_def maxDuration_def Let_def)

lemma Time_Sub_le: "u \<le> t \<Longrightarrow> Time_Sub t u \<le> t - u"
  by (simp add: Time_Sub_def minDuration_def maxDuration_def Let_def)

lemma go_quot_nonneg: "0 \<le> a \<Longrightarrow> 0 < b \<Longrightarrow> go_quot a b = a div b"
  by (cases "a = 0") (simp_all add: go_quot_def)

lemma go_rem_nonneg: "0 \<le> a \<Longrightarrow> 0 < b \<Longrightarrow> go_rem a b = a mod b"
  by (simp add: go_rem_def go_quot_nonneg minus_mult_div_eq_mod)

lemma go_quot_nonpos: "a \<le> 0 \<Longrightarrow> 0 < b \<Longrightarrow> go_quot a b \<le> 0"
  by (cases "a = 0") (simp_all add: go_quot_def div_int_pos_iff)

section \<open>Seconds as a float64\<close>

text \<open>
  Rounding of a rational to a float64 in the normal range, which holds every value that
  \<^verbatim>\<open>Duration.Seconds\<close> meets (between one nanosecond and less than three hundred years).
  \<open>binexp x\<close> is the exponent \<open>e\<close> with \<open>2 powi e \<le> x < 2 powi (e + 1)\<close>.
\<close>

definition round_half_even :: "rat \<Rightarrow> int" where
  "round_half_even x = (let f = \<lfloor>x\<rfloor>; r = x - of_int f in
     if r < 1 / 2 then f else if 1 / 2 < r then f + 1 else if even f then f else f + 1)"

definition binexp :: "rat \<Rightarrow> int" where
  "binexp x = (case quotient_of x of (p, q) \<Rightarrow>
     let e = bitlen p - bitlen q in if 2 powi e \<le> x then e else e - 1)"

definition round_pos :: "rat \<Rightarrow> rat" where
  "round_pos x = (let k = 52 - binexp x in of_int (round_half_even (x * 2 powi k)) / 2 powi k)"

definition float64_round :: "rat \<Rightarrow> rat" where
  "float64_round x = (if x = 0 then 0 else if x < 0 then - round_pos (- x) else round_pos x)"

definition Duration_Seconds :: "duration \<Rightarrow> rat" where
  "Duration_Seconds d = float64_round
     (of_int (go_quot d Second) + float64_round (of_int (go_rem d Second) / 1000000000))"

text \<open>The conversion \<^verbatim>\<open>int64(f)\<close> truncates.\<close>

definition int64_of_float :: "rat \<Rightarrow> int" where
  "int64_of_float x = (if 0 \<le> x then \<lfloor>x\<rfloor> else \<lceil>x\<rceil>)"

subsection \<open>Rounding error\<close>

lemma round_half_even_le: "of_int n \<le> x \<Longrightarrow> n \<le> round_half_even x"
  using le_floor_iff[of n x] by (auto simp: round_half_even_def Let_def)

lemma round_half_even_ge: "x \<le> of_int n \<Longrightarrow> round_half_even x \<le> n"
proof -
  assume x: "x \<le> of_int n"
  show ?thesis
  proof (cases "\<lfloor>x\<rfloor> = n")
    case True
    with x have "x = of_int n" by linarith
    then show ?thesis by (simp add: round_half_even_def)
  next
    case False
    with x have "\<lfloor>x\<rfloor> + 1 \<le> n" by linarith
    then show ?thesis by (auto simp: round_half_even_def Let_def)
  qed
qed

lemma round_half_even_err: "\<bar>of_int (round_half_even x) - x\<bar> \<le> 1 / 2"
proof -
  define f where "f = (of_int \<lfloor>x\<rfloor> :: rat)"
  have f: "f \<le> x" "x < f + 1" using floor_correct[of x] by (simp_all add: f_def)
  have "of_int (round_half_even x) = f \<and> x - f \<le> 1 / 2 \<or>
        of_int (round_half_even x) = f + 1 \<and> 1 / 2 \<le> x - f"
    by (simp add: round_half_even_def Let_def f_def)
  with f show ?thesis by linarith
qed

lemma powi_le_of_bitlen:
  assumes "0 < (n :: int)"
  shows "2 powi (bitlen n - 1) \<le> (of_int n :: rat)" "(of_int n :: rat) < 2 powi (bitlen n)"
proof -
  have b: "2 ^ nat (bitlen n - 1) \<le> n" "n < 2 ^ nat (bitlen n)" "0 < bitlen n"
    using bitlen_bounds[OF assms] assms by (auto simp: bitlen_alt_def)
  have "(of_int (2 ^ nat (bitlen n - 1)) :: rat) \<le> of_int n"
    and "(of_int n :: rat) < of_int (2 ^ nat (bitlen n))"
    using b by (simp_all only: of_int_le_iff of_int_less_iff)
  with b(3) show "2 powi (bitlen n - 1) \<le> (of_int n :: rat)" "(of_int n :: rat) < 2 powi (bitlen n)"
    by (simp_all add: power_int_def)
qed

lemma binexp_bounds:
  assumes "0 < x"
  shows "2 powi (binexp x) \<le> x" "x < 2 powi (binexp x + 1)"
proof -
  obtain p q where pq: "quotient_of x = (p, q)" by (cases "quotient_of x")
  have q: "0 < q" using pq by (rule quotient_of_denom_pos)
  have x: "x = of_int p / of_int q" using pq by (rule quotient_of_div)
  with assms q have p: "0 < p" by (simp add: zero_less_divide_iff)
  define e where "e = bitlen p - bitlen q"
  have "(2 powi (bitlen p - 1) :: rat) / 2 powi (bitlen q) < x"
    unfolding x using p q powi_le_of_bitlen[OF p] powi_le_of_bitlen[OF q]
    by (intro frac_less2) auto
  then have lo: "2 powi (e - 1) < x"
    by (simp add: e_def power_int_diff power_int_add algebra_simps)
  have "x < 2 powi (bitlen p) / 2 powi (bitlen q - 1)"
    unfolding x using p q powi_le_of_bitlen[OF p] powi_le_of_bitlen[OF q]
    by (intro frac_less) auto
  then have hi: "x < 2 powi (e + 1)"
    by (simp add: e_def power_int_diff power_int_add algebra_simps)
  have "binexp x = (if 2 powi e \<le> x then e else e - 1)"
    by (simp add: binexp_def pq e_def Let_def)
  with lo hi show "2 powi (binexp x) \<le> x" "x < 2 powi (binexp x + 1)"
    by (auto simp: not_le)
qed

lemma binexp_less: "0 < x \<Longrightarrow> x < 2 powi k \<Longrightarrow> binexp x < k"
proof (rule ccontr)
  assume "0 < x" "x < 2 powi k" "\<not> binexp x < k"
  moreover from this have "(2 :: rat) powi k \<le> 2 powi (binexp x)"
    by (intro power_int_increasing) auto
  ultimately show False using binexp_bounds(1)[of x] by simp
qed

text \<open>The rounding error is at most half a unit in the last place.\<close>

lemma round_pos_err:
  assumes "0 < x" "x < 2 powi k"
  shows "\<bar>round_pos x - x\<bar> \<le> 2 powi (k - 54)"
proof -
  define j where "j = 52 - binexp x"
  have g: "0 < (2 powi j :: rat)" by simp
  have "\<bar>of_int (round_half_even (x * 2 powi j)) - x * 2 powi j\<bar> / 2 powi j \<le> 1 / 2 / 2 powi j"
    using round_half_even_err g by (intro divide_right_mono) auto
  moreover have "round_pos x - x = (of_int (round_half_even (x * 2 powi j)) - x * 2 powi j) / 2 powi j"
    using g by (simp add: round_pos_def j_def[symmetric] Let_def field_simps)
  ultimately have "\<bar>round_pos x - x\<bar> \<le> 1 / 2 / 2 powi j"
    using g by (simp add: abs_divide)
  also have "\<dots> = 2 powi (- 1 - j)" by (simp add: power_int_diff field_simps)
  also have "\<dots> \<le> 2 powi (k - 54)"
    using binexp_less[OF assms] by (intro power_int_increasing) (auto simp: j_def)
  finally show ?thesis .
qed

text \<open>Rounding does not cross an integer that is small enough to be a float64 itself.\<close>

lemma round_pos_int_bounds:
  assumes "0 < x" "x < 2 powi 52"
  shows "of_int n \<le> x \<Longrightarrow> of_int n \<le> round_pos x" "x \<le> of_int n \<Longrightarrow> round_pos x \<le> of_int n"
proof -
  define j where "j = nat (52 - binexp x)"
  have j: "52 - binexp x = int j" using binexp_less[OF assms] by (simp add: j_def)
  have r: "round_pos x = of_int (round_half_even (x * 2 ^ j)) / 2 ^ j"
    by (simp add: round_pos_def j Let_def power_int_def)
  show "of_int n \<le> round_pos x" if "of_int n \<le> x"
  proof -
    have "n * 2 ^ j \<le> round_half_even (x * 2 ^ j)"
      by (rule round_half_even_le) (use that in simp)
    then have "(of_int (n * 2 ^ j) :: rat) \<le> of_int (round_half_even (x * 2 ^ j))"
      by (simp only: of_int_le_iff)
    then show ?thesis by (simp add: r field_simps)
  qed
  show "round_pos x \<le> of_int n" if "x \<le> of_int n"
  proof -
    have "round_half_even (x * 2 ^ j) \<le> n * 2 ^ j"
      by (rule round_half_even_ge) (use that in simp)
    then have "(of_int (round_half_even (x * 2 ^ j)) :: rat) \<le> of_int (n * 2 ^ j)"
      by (simp only: of_int_le_iff)
    then show ?thesis by (simp add: r field_simps)
  qed
qed

text \<open>
  The fractional part: below one second it stays below one second, by almost a nanosecond.
\<close>

lemma float64_fraction:
  assumes "0 \<le> n" "n < 1000000000"
  defines "q \<equiv> float64_round (of_int n / 1000000000)"
  shows "0 \<le> q" "q \<le> 1 - 1 / 1000000000 + 2 powi (- 54)"
proof -
  let ?x = "(of_int n / 1000000000 :: rat)"
  have n: "(of_int n :: rat) \<le> 999999999" using assms(2) by simp
  have "0 \<le> q \<and> q \<le> 1 - 1 / 1000000000 + 2 powi (- 54)"
  proof (cases "n = 0")
    case True
    then show ?thesis by (simp add: q_def float64_round_def power_int_def)
  next
    case False
    with assms(1) have x: "0 < ?x" "?x < 2 powi 0" "?x < 2 powi 52"
      using n by (simp_all add: power_int_def)
    have q: "q = round_pos ?x" using x(1) by (simp add: q_def float64_round_def)
    have "0 \<le> q" unfolding q using round_pos_int_bounds(1)[OF x(1,3), of 0] x(1) by simp
    moreover have "\<bar>q - ?x\<bar> \<le> 2 powi (- 54)" unfolding q using round_pos_err[OF x(1,2)] by simp
    ultimately show ?thesis using n by linarith
  qed
  then show "0 \<le> q" "q \<le> 1 - 1 / 1000000000 + 2 powi (- 54)" by simp_all
qed

lemma Duration_Seconds_bounds:
  assumes "0 \<le> d" "d \<le> maxDuration"
  shows "of_int (d div Second) \<le> Duration_Seconds d" "Duration_Seconds d \<le> of_int (d div Second) + 1"
    and "d div Second < 2 ^ 24 \<Longrightarrow> Duration_Seconds d < of_int (d div Second) + 1"
proof -
  define s n q where "s = d div Second" and "n = d mod Second"
    and "q = float64_round (of_int n / 1000000000)"
  have sn: "0 \<le> s" "0 \<le> n" "n < 1000000000" "s < 2 ^ 34"
    using assms by (simp_all add: s_def n_def Second_def maxDuration_def)
  note q = float64_fraction[OF sn(2,3), folded q_def]
  have q1: "q < 1" using q(2) by (simp add: power_int_def power_divide)
  have D: "Duration_Seconds d = float64_round (of_int s + q)"
    using assms by (simp add: Duration_Seconds_def go_quot_nonneg go_rem_nonneg s_def n_def q_def Second_def)
  have s34: "(of_int s :: rat) + 1 \<le> 2 ^ 34"
  proof -
    have "(of_int (s + 1) :: rat) \<le> of_int (2 ^ 34)" using sn(4) by (simp only: of_int_le_iff)
    then show ?thesis by simp
  qed
  have "of_int s \<le> Duration_Seconds d \<and> Duration_Seconds d \<le> of_int s + 1 \<and>
     (s < 2 ^ 24 \<longrightarrow> Duration_Seconds d < of_int s + 1)"
  proof (cases "of_int s + q = 0")
    case True
    then show ?thesis using sn(1) q(1) by (simp add: D float64_round_def)
  next
    case False
    then have x: "0 < of_int s + q" using sn(1) q(1) by (simp add: order_less_le)
    have x52: "of_int s + q < 2 powi 52" using s34 q1 by (simp add: power_int_def)
    have F: "Duration_Seconds d = round_pos (of_int s + q)" using x by (simp add: D float64_round_def)
    have lo: "of_int s \<le> Duration_Seconds d"
      unfolding F by (rule round_pos_int_bounds(1)[OF x x52]) (use q in simp)
    have "round_pos (of_int s + q) \<le> of_int (s + 1)"
      by (rule round_pos_int_bounds(2)[OF x x52]) (use q1 in simp)
    then have hi: "Duration_Seconds d \<le> of_int s + 1" by (simp add: F)
    have "Duration_Seconds d < of_int s + 1" if "s < 2 ^ 24"
    proof -
      have "(of_int (s + 1) :: rat) \<le> of_int (2 ^ 24)" using that by (simp only: of_int_le_iff)
      with q1 have "of_int s + q < 2 powi 24" by (simp add: power_int_def)
      from round_pos_err[OF x this] have "\<bar>Duration_Seconds d - (of_int s + q)\<bar> \<le> 2 powi (- 30)"
        by (simp add: F)
      moreover have "(2 :: rat) powi (- 30) = 1 / 1073741824"
        by (simp add: power_int_def power_divide)
      ultimately have "Duration_Seconds d \<le> of_int s + q + 1 / 1073741824" by linarith
      moreover have "q \<le> 1 - 1 / 1000000000 + 1 / 18014398509481984"
        using q(2) by (simp add: power_int_def power_divide)
      ultimately show ?thesis by linarith
    qed
    with lo hi show ?thesis by blast
  qed
  then show "of_int (d div Second) \<le> Duration_Seconds d"
    "Duration_Seconds d \<le> of_int (d div Second) + 1"
    "d div Second < 2 ^ 24 \<Longrightarrow> Duration_Seconds d < of_int (d div Second) + 1"
    by (simp_all add: s_def)
qed

lemma float64_round_nonpos:
  assumes "x \<le> 0"
  shows "float64_round x \<le> 0"
proof -
  have "0 \<le> round_pos y" if "0 < y" for y
    using that round_half_even_le[of 0 "y * 2 powi (52 - binexp y)"]
    by (simp add: round_pos_def Let_def)
  with assms show ?thesis by (auto simp: float64_round_def)
qed

lemma go_rem_nonpos: "a \<le> 0 \<Longrightarrow> 0 < b \<Longrightarrow> go_rem a b \<le> 0"
proof -
  assume "a \<le> 0" "0 < b"
  then have "go_rem a b = - (\<bar>a\<bar> mod b)"
    by (cases "a = 0") (simp_all add: go_rem_def go_quot_def minus_mult_div_eq_mod [symmetric])
  then show ?thesis using \<open>0 < b\<close> by simp
qed

lemma Duration_Seconds_nonpos:
  assumes "d \<le> 0"
  shows "Duration_Seconds d \<le> 0"
proof -
  have "go_quot d Second \<le> 0" "go_rem d Second \<le> 0"
    using assms by (simp_all add: go_quot_nonpos go_rem_nonpos Second_def)
  then show ?thesis unfolding Duration_Seconds_def
    by (intro float64_round_nonpos add_nonpos_nonpos) (simp_all add: divide_le_0_iff)
qed

text \<open>Whole seconds, as the program takes them from a duration.\<close>

lemma int64_Seconds_bounds:
  assumes "0 \<le> d" "d \<le> maxDuration"
  shows "d div Second \<le> int64_of_float (Duration_Seconds d)"
    and "int64_of_float (Duration_Seconds d) \<le> d div Second + 1"
    and "d div Second < 2 ^ 24 \<Longrightarrow> int64_of_float (Duration_Seconds d) = d div Second"
proof -
  have s: "0 \<le> d div Second" using assms by (simp add: Second_def)
  note B = Duration_Seconds_bounds[OF assms]
  have 0: "0 \<le> Duration_Seconds d" using s B(1) by (meson of_int_0_le_iff order_trans)
  then have i: "int64_of_float (Duration_Seconds d) = \<lfloor>Duration_Seconds d\<rfloor>"
    by (simp add: int64_of_float_def)
  show lo: "d div Second \<le> int64_of_float (Duration_Seconds d)"
    using B(1) by (simp add: i le_floor_iff)
  show "int64_of_float (Duration_Seconds d) \<le> d div Second + 1"
    using B(2) unfolding i by (simp add: floor_le_iff)
  show "int64_of_float (Duration_Seconds d) = d div Second" if "d div Second < 2 ^ 24"
    using B(1) B(3)[OF that] unfolding i by (simp add: floor_eq_iff)
qed

lemma int64_Seconds_nonpos: "d \<le> 0 \<Longrightarrow> int64_of_float (Duration_Seconds d) \<le> 0"
  using Duration_Seconds_nonpos[of d] by (auto simp: int64_of_float_def ceiling_le_iff)

end
