(* ===== verification/World.thy ===== *)
theory World
  imports GoTime
begin

text \<open>
  What the program reads from outside, as one record that every effectful operation takes and
  returns: the clock, the random source, the servers it calls over HTTP, the decisions of the
  backoff that its retries are given, the waiting for a lock, the metrics it counts, when the
  provider's keys were last refreshed, and the state of the session store. The clock, the random source, the servers and the backoffs are arbitrary
  functions of a counter that each use advances, so a theorem about an operation holds for every
  behaviour of its environment.
\<close>

section \<open>The record\<close>

text \<open>An outgoing HTTP request, and the response as far as the program looks at it.\<close>

record http_out =
  out_method :: string
  out_url :: string
  out_headers :: "(string \<times> string) list"
  out_form :: "(string \<times> string) list"

record http_in =
  in_status :: int
  in_body :: "string result"

text \<open>
  What the backoff of one \<^verbatim>\<open>retry.Do\<close> will answer: stop after the next attempt, allow
  one more, or find the request's context done before the attempt.
\<close>

datatype backoff = Stop | Next backoff | Cancelled

text \<open>
  What happens while \<^verbatim>\<open>Handler.Refresh\<close> waits for the lock: the request's context is done,
  the timeout fires, or the ticker fires; before a tick, other requests may have changed the store.
\<close>

datatype 's lock_wait = WaitDone | WaitTimeout | WaitTick "'s \<Rightarrow> 's" "'s lock_wait"

record 's world =
  clock :: "nat \<Rightarrow> time"
  ticks :: nat
  entropy_ok :: "nat \<Rightarrow> bool"
  entropy :: "nat \<Rightarrow> nat \<Rightarrow> char"
  draws :: nat
  remote :: "nat \<Rightarrow> http_out \<Rightarrow> http_in result"
  calls :: nat
  backoffs :: "nat \<Rightarrow> backoff"
  dos :: nat
  waits :: "nat \<Rightarrow> 's lock_wait"
  locks :: nat
  logins :: nat
  logouts :: "string \<Rightarrow> nat"
  lastRefresh :: time
  store :: 's

text \<open>
  A quiet environment to evaluate examples in: the clock stands still at a given instant, the random
  source yields zero bytes, no server answers, nothing is retried and the first lock attempt is
  immediate.
\<close>

definition quiet_world :: "time \<Rightarrow> 's \<Rightarrow> 's world" where
  "quiet_world t s = \<lparr> clock = (\<lambda>_. t), ticks = 0, entropy_ok = (\<lambda>_. True), entropy = (\<lambda>_ _. CHR 0x00),
     draws = 0, remote = (\<lambda>_ _. Inl (ErrOther ''connection refused'')), calls = 0,
     backoffs = (\<lambda>_. Stop), dos = 0, waits = (\<lambda>_. WaitTick id WaitTimeout), locks = 0,
     logins = 0, logouts = (\<lambda>_. 0), lastRefresh = 0, store = s \<rparr>"

section \<open>Operations\<close>

definition time_Now :: "'s world \<Rightarrow> time \<times> 's world" where
  "time_Now w = (clock w (ticks w), w\<lparr> ticks := Suc (ticks w) \<rparr>)"

text \<open>\<open>n\<close> random bytes: \<^verbatim>\<open>io.ReadFull(rand.Reader, ...)\<close> and \<^verbatim>\<open>keygen.Keygen\<close>.\<close>

definition rand_Read :: "nat \<Rightarrow> 's world \<Rightarrow> bytes result \<times> 's world" where
  "rand_Read n w =
     (if entropy_ok w (draws w) then Inr (map (entropy w (draws w)) [0..<n])
      else Inl (ErrOther ''reading rand.Reader''), w\<lparr> draws := Suc (draws w) \<rparr>)"

definition http_Do :: "http_out \<Rightarrow> 's world \<Rightarrow> http_in result \<times> 's world" where
  "http_Do req w = (remote w (calls w) req, w\<lparr> calls := Suc (calls w) \<rparr>)"

text \<open>
  \<^verbatim>\<open>retry.Do\<close>: the function is tried until it succeeds, fails with an error that is not
  marked retryable, or the backoff stops; the last error is the result, unwrapped.
\<close>

datatype 'a attempt = Success 'a | Permanent error | Retryable error

fun retry_loop :: "backoff \<Rightarrow> ('w \<Rightarrow> 'a attempt \<times> 'w) \<Rightarrow> 'w \<Rightarrow> 'a result \<times> 'w" where
  "retry_loop Cancelled f w = (Inl ErrContext, w)"
| "retry_loop Stop f w =
     (case f w of
        (Success a, w') \<Rightarrow> (Inr a, w')
      | (Permanent e, w') \<Rightarrow> (Inl e, w')
      | (Retryable e, w') \<Rightarrow> (Inl e, w'))"
| "retry_loop (Next b) f w =
     (case f w of
        (Success a, w') \<Rightarrow> (Inr a, w')
      | (Permanent e, w') \<Rightarrow> (Inl e, w')
      | (Retryable e, w') \<Rightarrow> retry_loop b f w')"

definition retry_Do :: "('s world \<Rightarrow> 'a attempt \<times> 's world) \<Rightarrow> 's world \<Rightarrow> 'a result \<times> 's world" where
  "retry_Do f w = retry_loop (backoffs w (dos w)) f (w\<lparr> dos := Suc (dos w) \<rparr>)"

section \<open>What an operation leaves alone\<close>

text \<open>
  \<open>same_env w w'\<close>: the environment's functions are the same, and the clock has not been
  turned back. \<open>same_store\<close> also fixes the store.
\<close>

definition same_env :: "'s world \<Rightarrow> 's world \<Rightarrow> bool" where
  "same_env w w' \<longleftrightarrow> clock w' = clock w \<and> ticks w \<le> ticks w' \<and> entropy_ok w' = entropy_ok w
     \<and> entropy w' = entropy w \<and> remote w' = remote w \<and> calls w \<le> calls w'
     \<and> backoffs w' = backoffs w \<and> waits w' = waits w"

named_theorems env_intros \<open>every operation keeps the environment\<close>

lemma same_env_refl [simp, intro]: "same_env w w"
  by (simp add: same_env_def)

lemma same_env_trans [trans]: "same_env w w' \<Longrightarrow> same_env w' w'' \<Longrightarrow> same_env w w''"
  by (auto simp: same_env_def)

lemma same_env_upd [simp, intro]:
  "same_env w (w\<lparr> ticks := Suc (ticks w) \<rparr>)" "same_env w (w\<lparr> draws := n \<rparr>)"
  "same_env w (w\<lparr> calls := Suc (calls w) \<rparr>)" "same_env w (w\<lparr> dos := n \<rparr>)"
  "same_env w (w\<lparr> locks := n \<rparr>)" "same_env w (w\<lparr> store := s \<rparr>)"
  "same_env w (w\<lparr> logins := n \<rparr>)" "same_env w (w\<lparr> logouts := l \<rparr>)"
  "same_env w (w\<lparr> lastRefresh := n \<rparr>)"
  by (simp_all add: same_env_def)

lemma time_Now_simps [simp]:
  "fst (time_Now w) = clock w (ticks w)" "snd (time_Now w) = w\<lparr> ticks := Suc (ticks w) \<rparr>"
  by (simp_all add: time_Now_def)

lemma time_Now_store [simp]: "store (snd (time_Now w)) = store w"
  by simp

lemma time_Now_env [env_intros]: "time_Now w = (t, w') \<Longrightarrow> same_env w w' \<and> store w' = store w"
  by (auto simp: time_Now_def)

lemma rand_Read_env [env_intros]: "rand_Read n w = (r, w') \<Longrightarrow> same_env w w' \<and> store w' = store w"
  by (auto simp: rand_Read_def)

lemma rand_Read_length: "rand_Read n w = (Inr bs, w') \<Longrightarrow> length bs = n"
  by (auto simp: rand_Read_def split: if_splits)

lemma http_Do_env [env_intros]: "http_Do req w = (r, w') \<Longrightarrow> same_env w w' \<and> store w' = store w"
  by (auto simp: http_Do_def)

text \<open>
  A relation between worlds that is reflexive and transitive and that one attempt keeps is kept by
  the whole loop.
\<close>

lemma retry_loop_rel:
  assumes "retry_loop b f w = (r, w')"
    and "\<And>w. R w w" and "\<And>u v w. R u v \<Longrightarrow> R v w \<Longrightarrow> R u w"
    and "\<And>v a v'. f v = (a, v') \<Longrightarrow> R v v'"
  shows "R w w'"
  using assms(1)
proof (induction b arbitrary: w)
  case Cancelled
  then show ?case using assms(2) by simp
next
  case Stop
  then show ?case by (auto split: prod.splits attempt.splits dest: assms(4))
next
  case (Next b)
  obtain a v where f: "f w = (a, v)" by (cases "f w")
  then have R: "R w v" by (rule assms(4))
  show ?case
  proof (cases a)
    case (Retryable e)
    with Next f have "R v w'" by simp
    with R show ?thesis by (rule assms(3))
  qed (use Next f R in auto)
qed

text \<open>
  A successful loop ends in a successful attempt, from a world that failed attempts (or nothing)
  led to.
\<close>

lemma retry_loop_Ok:
  assumes "retry_loop b f w = (Inr a, w')"
    and "\<And>w. R w w" and "\<And>u v w. R u v \<Longrightarrow> R v w \<Longrightarrow> R u w"
    and "\<And>v e v'. f v = (Retryable e, v') \<Longrightarrow> R v v'"
  shows "\<exists>v. R w v \<and> f v = (Success a, w')"
  using assms(1)
proof (induction b arbitrary: w)
  case Cancelled
  then show ?case by simp
next
  case Stop
  then show ?case using assms(2) by (auto split: prod.splits attempt.splits)
next
  case (Next b)
  obtain x v where f: "f w = (x, v)" by (cases "f w")
  show ?case
  proof (cases x)
    case (Success a')
    with Next.prems f assms(2)[of w] show ?thesis by auto
  next
    case (Permanent e)
    with Next.prems f show ?thesis by simp
  next
    case (Retryable e)
    with Next.prems f have "retry_loop b f v = (Inr a, w')" by simp
    then obtain u where "R v u" "f u = (Success a, w')" using Next.IH by blast
    moreover have "R w v" using f Retryable assms(4)[of w e v] by simp
    ultimately show ?thesis using assms(3)[of w v u] by blast
  qed
qed

text \<open>The error of a failed loop is the context's or that of an attempt.\<close>

lemma retry_loop_Err:
  assumes "retry_loop b f w = (Inl e, w')"
    and "\<And>w. R w w" and "\<And>u v w. R u v \<Longrightarrow> R v w \<Longrightarrow> R u w"
    and "\<And>v e v'. f v = (Retryable e, v') \<Longrightarrow> R v v'"
  shows "(e = ErrContext \<and> R w w') \<or>
    (\<exists>v. R w v \<and> (f v = (Permanent e, w') \<or> f v = (Retryable e, w')))"
  using assms(1)
proof (induction b arbitrary: w)
  case Cancelled
  then show ?case using assms(2) by simp
next
  case Stop
  then show ?case using assms(2) by (auto split: prod.splits attempt.splits)
next
  case (Next b)
  obtain x v where f: "f w = (x, v)" by (cases "f w")
  show ?case
  proof (cases x)
    case (Success a')
    with Next.prems f show ?thesis by simp
  next
    case (Permanent e')
    with Next.prems f assms(2)[of w] show ?thesis by auto
  next
    case (Retryable e')
    with Next.prems f have "retry_loop b f v = (Inl e, w')" by simp
    moreover have "R w v" using f Retryable assms(4)[of w e' v] by simp
    ultimately show ?thesis using Next.IH[of v] assms(3)[of w v] by blast
  qed
qed

text \<open>An attempt that cannot fail retryably is made exactly once, unless the context is done.\<close>

lemma retry_loop_once:
  assumes "f w = (Success a, w')"
  shows "retry_loop b f w = (if b = Cancelled then (Inl ErrContext, w) else (Inr a, w'))"
  using assms by (cases b) simp_all

lemma retry_loop_fail_once:
  assumes "f w = (Permanent e, w')"
  shows "retry_loop b f w = (if b = Cancelled then (Inl ErrContext, w) else (Inl e, w'))"
  using assms by (cases b) simp_all

end
