(* ===== verification/Crypto.thy ===== *)
theory Crypto
  imports GoCipher World
begin

text \<open>
  \<^verbatim>\<open>pkg/crypto/crypter.go\<close>: AES-GCM encryption under a nonce made of the clock and four random
  bytes, and the choice of the encryption key. The interface \<^verbatim>\<open>Crypter\<close> is the locale
  \<open>crypter_iface\<close>; the struct \<^verbatim>\<open>crypter\<close> is its interpretation.
\<close>

section \<open>The interface\<close>

locale crypter_iface =
  fixes Encrypt :: "bytes \<Rightarrow> 'w \<Rightarrow> bytes result \<times> 'w"
    and Decrypt :: "bytes \<Rightarrow> bytes result"
  assumes Decrypt_Encrypt: "Encrypt p w = (Inr c, w') \<Longrightarrow> Decrypt c = Inr p"
begin

text \<open>Everything the program encrypts it also encodes in base64, and undoes both when reading.\<close>

lemma sealed_base64:
  assumes "Encrypt p w = (Inr c, w')"
  shows "(case DecodeString StdEncoding (EncodeToString StdEncoding c) of
            Inl e \<Rightarrow> Inl e | Inr ct \<Rightarrow> Decrypt ct) = Inr p"
  using Decrypt_Encrypt[OF assms] by simp

text \<open>Ciphertexts of different plaintexts differ, whatever the worlds they were made in.\<close>

lemma Encrypt_inject:
  "Encrypt p w = (Inr c, w') \<Longrightarrow> Encrypt q v = (Inr c, v') \<Longrightarrow> p = q"
  by (drule Decrypt_Encrypt, drule Decrypt_Encrypt) simp

end

section \<open>The crypter\<close>

record crypter =
  key :: bytes

definition NewCrypter :: "bytes \<Rightarrow> crypter" where
  "NewCrypter k = \<lparr> key = k \<rparr>"

text \<open>\<^verbatim>\<open>Time.UnixNano\<close>: nanoseconds since 1970 in 64 bits.\<close>

definition UnixNano :: "time \<Rightarrow> int" where
  "UnixNano t = wrap64 (t - 62135596800 * Second)"

definition IV :: "'s world \<Rightarrow> bytes result \<times> 's world" where
  "IV w = (let (now, w1) = time_Now w; buf = be_bytes 8 (nat (UnixNano now mod 2 ^ 64)) in
     case rand_Read 4 w1 of
       (Inl e, w2) \<Rightarrow> (Inl e, w2)
     | (Inr random, w2) \<Rightarrow> (Inr (buf @ random), w2))"

definition Crypter_Encrypt :: "crypter \<Rightarrow> bytes \<Rightarrow> 's world \<Rightarrow> bytes result \<times> 's world" where
  "Crypter_Encrypt c plaintext w =
     (if \<not> aes_key_ok (key c) then (Inl (ErrOther ''crypto/aes: invalid key size''), w)
      else case IV w of
        (Inl e, w1) \<Rightarrow> (Inl e, w1)
      | (Inr nonce, w1) \<Rightarrow> (Inr (nonce @ gcm_Seal (aes_encrypt (key c)) nonce plaintext), w1))"

definition Crypter_Decrypt :: "crypter \<Rightarrow> bytes \<Rightarrow> bytes result" where
  "Crypter_Decrypt c ciphertext =
     (if length ciphertext \<le> 12 then Inl (ErrOther ''string is too short'')
      else if \<not> aes_key_ok (key c) then Inl (ErrOther ''crypto/aes: invalid key size'')
      else gcm_Open (aes_encrypt (key c)) (take 12 ciphertext) (drop 12 ciphertext))"

text \<open>\<^verbatim>\<open>EncryptionKeyOrGenerate\<close>, from the configured key in base64.\<close>

definition EncryptionKeyOrGenerate :: "string \<Rightarrow> 's world \<Rightarrow> bytes result \<times> 's world" where
  "EncryptionKeyOrGenerate cfg_key w =
     (case DecodeString StdEncoding cfg_key of
        Inl e \<Rightarrow> if length cfg_key > 0 then (Inl (ErrOther ''decode encryption key''), w)
                 else (case rand_Read 32 w of
                         (Inl e, w1) \<Rightarrow> (Inl (ErrOther ''generate random encryption key''), w1)
                       | (Inr k, w1) \<Rightarrow> (Inr k, w1))
      | Inr k \<Rightarrow> if length k = 0
                 then (case rand_Read 32 w of
                         (Inl e, w1) \<Rightarrow> (Inl (ErrOther ''generate random encryption key''), w1)
                       | (Inr k, w1) \<Rightarrow> (Inr k, w1))
                 else (Inr k, w))"

section \<open>Correctness\<close>

lemma IV_length: "IV w = (Inr n, w') \<Longrightarrow> length n = 12"
  by (auto simp: IV_def Let_def split: prod.splits sum.splits dest!: rand_Read_length)

lemma IV_env [env_intros]: "IV w = (r, w') \<Longrightarrow> same_env w w' \<and> store w' = store w"
proof -
  assume iv: "IV w = (r, w')"
  obtain x w2 where r: "rand_Read 4 (snd (time_Now w)) = (x, w2)" by fastforce
  have "w' = w2" using iv r by (auto simp: IV_def Let_def time_Now_def split: sum.splits)
  moreover have "same_env w (snd (time_Now w))" by simp
  ultimately show ?thesis using rand_Read_env[OF r] by (auto intro: same_env_trans)
qed

lemma Crypter_Encrypt_env [env_intros]:
  "Crypter_Encrypt c p w = (r, w') \<Longrightarrow> same_env w w' \<and> store w' = store w"
  by (auto simp: Crypter_Encrypt_def split: if_splits prod.splits sum.splits dest!: IV_env)

lemma Crypter_Decrypt_Encrypt:
  assumes "Crypter_Encrypt c p w = (Inr ct, w')"
  shows "Crypter_Decrypt c ct = Inr p"
proof -
  from assms obtain nonce where k: "aes_key_ok (key c)" and iv: "IV w = (Inr nonce, w')"
    and ct: "ct = nonce @ gcm_Seal (aes_encrypt (key c)) nonce p"
    by (auto simp: Crypter_Encrypt_def split: if_splits prod.splits sum.splits)
  have "length nonce = 12" using iv by (rule IV_length)
  then show ?thesis
    using k by (simp add: Crypter_Decrypt_def ct length_gcm_Seal gcm_Open_Seal)
qed

interpretation aes_gcm: crypter_iface "Crypter_Encrypt c" "Crypter_Decrypt c" for c
  by unfold_locales (rule Crypter_Decrypt_Encrypt)

lemma Crypter_Encrypt_total:
  assumes "aes_key_ok (key c)" "entropy_ok w (draws w)"
  obtains ct w' where "Crypter_Encrypt c p w = (Inr ct, w')"
  using assms by (auto simp: Crypter_Encrypt_def IV_def Let_def time_Now_def rand_Read_def)

text \<open>
  Decryption inverts encryption, for every key, plaintext, clock and random source; encryption
  fails only for a key of the wrong size or when the random source fails.
\<close>

theorem crypter_round_trip:
  "case Crypter_Encrypt c p w of
     (Inr ct, w') \<Rightarrow> Crypter_Decrypt c ct = Inr p \<and> length ct = 12 + length p + 16
   | (Inl e, w') \<Rightarrow> \<not> (aes_key_ok (key c) \<and> entropy_ok w (draws w))"
proof (cases "Crypter_Encrypt c p w")
  case (Pair r w')
  show ?thesis
  proof (cases r)
    case (Inl e)
    then show ?thesis using Pair Crypter_Encrypt_total[of c w p] by fastforce
  next
    case (Inr ct)
    have "Crypter_Decrypt c ct = Inr p" using Pair Inr by (simp add: aes_gcm.Decrypt_Encrypt)
    moreover have "length ct = 12 + length p + 16"
      using Pair Inr IV_length[of w]
      by (auto simp: Crypter_Encrypt_def length_gcm_Seal split: if_splits prod.splits sum.splits)
    ultimately show ?thesis using Pair Inr by simp
  qed
qed

text \<open>
  The key the program runs with: a configured key is used as it is, and only if it is valid
  base64; without one, 32 random bytes are drawn, which is a valid AES key.
\<close>

theorem encryption_key_correct:
  assumes "EncryptionKeyOrGenerate cfg_key w = (Inr k, w')"
  shows "(DecodeString StdEncoding cfg_key = Inr k \<and> k \<noteq> [] \<and> w' = w) \<or>
    (length k = 32 \<and> aes_key_ok k \<and>
     (cfg_key = [] \<or> DecodeString StdEncoding cfg_key = Inr []))"
  using assms
  by (auto simp: EncryptionKeyOrGenerate_def aes_key_ok_def
      split: sum.splits prod.splits if_splits dest!: rand_Read_length)

theorem encryption_key_correct_witness:
  "EncryptionKeyOrGenerate ''YWJj'' (quiet_world 0 ()) = (Inr ''abc'', quiet_world 0 ())
     \<and> DecodeString StdEncoding ''YWJj'' = Inr ''abc''"
proof -
  have "DecodeString StdEncoding ''YWJj'' = Inr ''abc''" by code_simp
  then have e: "EncryptionKeyOrGenerate ''YWJj'' (quiet_world 0 ()) = (Inr ''abc'', quiet_world 0 ())"
    by (simp add: EncryptionKeyOrGenerate_def)
  with encryption_key_correct[OF e] show ?thesis by simp
qed

end
