(* ===== verification/GoURL.thy ===== *)
theory GoURL
  imports GoBase64 "HOL-Library.Char_ord" "HOL-Library.List_Lexorder"
begin

text \<open>
  Go's packages \<^verbatim>\<open>net/url\<close> and \<^verbatim>\<open>path\<close> as the program uses them (Go 1.19): escaping and
  unescaping per component, \<^verbatim>\<open>url.Parse\<close> and \<^verbatim>\<open>URL.String\<close>, query parsing and
  encoding, and \<^verbatim>\<open>path.Clean\<close> and \<^verbatim>\<open>path.Join\<close>. The round trips of query strings are
  proved here; what the program does with redirect targets rests on them.
\<close>

section \<open>Cutting strings\<close>

definition cut_before :: "char \<Rightarrow> string \<Rightarrow> string" where
  "cut_before c s = takeWhile (\<lambda>x. x \<noteq> c) s"

definition cut_after :: "char \<Rightarrow> string \<Rightarrow> string" where
  "cut_after c s = tl (dropWhile (\<lambda>x. x \<noteq> c) s)"

definition cut_from :: "char \<Rightarrow> string \<Rightarrow> string" where
  "cut_from c s = dropWhile (\<lambda>x. x \<noteq> c) s"

text \<open>The parts before and after the last occurrence of a character that does occur.\<close>

definition before_last :: "char \<Rightarrow> string \<Rightarrow> string" where
  "before_last c s = rev (tl (dropWhile (\<lambda>x. x \<noteq> c) (rev s)))"

definition after_last :: "char \<Rightarrow> string \<Rightarrow> string" where
  "after_last c s = rev (takeWhile (\<lambda>x. x \<noteq> c) (rev s))"

fun split_on :: "char \<Rightarrow> string \<Rightarrow> string list" where
  "split_on c [] = [[]]"
| "split_on c (x # xs) = (if x = c then [] # split_on c xs
     else (case split_on c xs of [] \<Rightarrow> [[x]] | y # ys \<Rightarrow> (x # y) # ys))"

section \<open>Escaping\<close>

datatype url_mode =
    encodePath | encodePathSegment | encodeHost | encodeZone
  | encodeUserPassword | encodeQueryComponent | encodeFragment

definition is_digit :: "char \<Rightarrow> bool" where
  "is_digit c \<longleftrightarrow> 48 \<le> byte_val c \<and> byte_val c \<le> 57"

definition is_alpha :: "char \<Rightarrow> bool" where
  "is_alpha c \<longleftrightarrow> 65 \<le> byte_val c \<and> byte_val c \<le> 90 \<or> 97 \<le> byte_val c \<and> byte_val c \<le> 122"

definition ishex :: "char \<Rightarrow> bool" where
  "ishex c \<longleftrightarrow> is_digit c \<or> 97 \<le> byte_val c \<and> byte_val c \<le> 102 \<or> 65 \<le> byte_val c \<and> byte_val c \<le> 70"

definition unhex :: "char \<Rightarrow> nat" where
  "unhex c = (if is_digit c then byte_val c - 48
     else if 97 \<le> byte_val c \<and> byte_val c \<le> 102 then byte_val c - 87
     else if 65 \<le> byte_val c \<and> byte_val c \<le> 70 then byte_val c - 55 else 0)"

definition upperhex :: "nat \<Rightarrow> char" where
  "upperhex n = (if n < 10 then val_byte (48 + n) else val_byte (55 + n))"

definition lowerhex :: "nat \<Rightarrow> char" where
  "lowerhex n = (if n < 10 then val_byte (48 + n) else val_byte (87 + n))"

definition shouldEscape :: "char \<Rightarrow> url_mode \<Rightarrow> bool" where
  "shouldEscape c mode =
     (if is_alpha c \<or> is_digit c then False
      else if (mode = encodeHost \<or> mode = encodeZone) \<and> c \<in> set ''!$&()*+,;=:[]<>'' \<union> {CHR 0x27, CHR 0x22} then False
      else if c \<in> set ''-_.~'' then False
      else if c \<in> set ''$&+,/:;=?@'' \<and> mode \<notin> {encodeHost, encodeZone} then
        (case mode of
           encodePath \<Rightarrow> c = CHR ''?''
         | encodePathSegment \<Rightarrow> c \<in> set ''/;,?''
         | encodeUserPassword \<Rightarrow> c \<in> set ''@/?:''
         | encodeQueryComponent \<Rightarrow> True
         | _ \<Rightarrow> False)
      else if mode = encodeFragment \<and> c \<in> set ''!()*'' then False
      else True)"

definition bad_escape :: "'a result" where
  "bad_escape = Inl (ErrOther ''invalid URL escape'')"

fun unescape :: "url_mode \<Rightarrow> string \<Rightarrow> string result" where
  "unescape mode [] = Inr []"
| "unescape mode (c # cs) =
     (if c = CHR ''%'' then
        (case cs of
           a # b # rest \<Rightarrow>
             (if \<not> ishex a \<or> \<not> ishex b then bad_escape
              else if mode = encodeHost \<and> unhex a < 8 \<and> [a, b] \<noteq> ''25'' then bad_escape
              else if mode = encodeZone \<and> [a, b] \<noteq> ''25''
                   \<and> val_byte (unhex a * 16 + unhex b) \<noteq> CHR 0x20
                   \<and> shouldEscape (val_byte (unhex a * 16 + unhex b)) encodeHost then bad_escape
              else (case unescape mode rest of
                      Inl e \<Rightarrow> Inl e
                    | Inr r \<Rightarrow> Inr (val_byte (unhex a * 16 + unhex b) # r)))
         | _ \<Rightarrow> bad_escape)
      else if (mode = encodeHost \<or> mode = encodeZone) \<and> byte_val c < 128 \<and> shouldEscape c mode
        then Inl (ErrOther ''invalid character in host name'')
      else (case unescape mode cs of
              Inl e \<Rightarrow> Inl e
            | Inr r \<Rightarrow> Inr ((if c = CHR ''+'' \<and> mode = encodeQueryComponent then CHR 0x20 else c) # r)))"

definition escape_char :: "url_mode \<Rightarrow> char \<Rightarrow> string" where
  "escape_char mode c =
     (if c = CHR 0x20 \<and> mode = encodeQueryComponent then ''+''
      else if shouldEscape c mode
        then [CHR ''%'', upperhex (byte_val c div 16), upperhex (byte_val c mod 16)]
      else [c])"

definition escape :: "url_mode \<Rightarrow> string \<Rightarrow> string" where
  "escape mode s = concat (map (escape_char mode) s)"

definition QueryEscape :: "string \<Rightarrow> string" where "QueryEscape s = escape encodeQueryComponent s"
definition QueryUnescape :: "string \<Rightarrow> string result" where "QueryUnescape s = unescape encodeQueryComponent s"

section \<open>Query values\<close>

text \<open>
  \<^verbatim>\<open>url.Values\<close>, a map from keys to lists of values, as the list of its entries; entries
  of one key are in the order in which they were added.
\<close>

type_synonym url_values = "(string \<times> string) list"

definition Values_Get :: "url_values \<Rightarrow> string \<Rightarrow> string" where
  "Values_Get v k = (case map_of v k of None \<Rightarrow> [] | Some x \<Rightarrow> x)"

definition Values_Add :: "url_values \<Rightarrow> string \<Rightarrow> string \<Rightarrow> url_values" where
  "Values_Add v k x = v @ [(k, x)]"

definition Values_Set :: "url_values \<Rightarrow> string \<Rightarrow> string \<Rightarrow> url_values" where
  "Values_Set v k x = filter (\<lambda>p. fst p \<noteq> k) v @ [(k, x)]"

definition encode_pair :: "string \<times> string \<Rightarrow> string" where
  "encode_pair p = QueryEscape (fst p) @ ''='' @ QueryEscape (snd p)"

definition Values_Encode :: "url_values \<Rightarrow> string" where
  "Values_Encode v = join_with ''&'' (map encode_pair (sort_key fst v))"

definition parse_pair :: "string \<Rightarrow> url_values" where
  "parse_pair s =
     (if CHR '';'' \<in> set s then [] else if s = [] then []
      else case (QueryUnescape (cut_before (CHR ''='') s), QueryUnescape (cut_after (CHR ''='') s)) of
             (Inr k, Inr x) \<Rightarrow> [(k, x)]
           | _ \<Rightarrow> [])"

text \<open>The entries \<^verbatim>\<open>ParseQuery\<close> stores; \<^verbatim>\<open>URL.Query\<close> ignores the error it may also return.\<close>

definition ParseQuery :: "string \<Rightarrow> url_values" where
  "ParseQuery s = concat (map parse_pair (split_on (CHR ''&'') s))"

section \<open>URLs\<close>

record userinfo =
  username :: string
  password :: "string option"

record url =
  Scheme :: string
  Opaque :: string
  User :: "userinfo option"
  Host :: string
  Path :: string
  RawPath :: string
  OmitHost :: bool
  ForceQuery :: bool
  RawQuery :: string
  Fragment :: string
  RawFragment :: string

definition empty_url :: url where
  "empty_url = \<lparr> Scheme = [], Opaque = [], User = None, Host = [], Path = [], RawPath = [],
     OmitHost = False, ForceQuery = False, RawQuery = [], Fragment = [], RawFragment = [] \<rparr>"

definition url_error :: "string \<Rightarrow> 'a result" where "url_error s = Inl (ErrOther s)"

definition to_lower :: "char \<Rightarrow> char" where
  "to_lower c = (if 65 \<le> byte_val c \<and> byte_val c \<le> 90 then val_byte (byte_val c + 32) else c)"

text \<open>\<^verbatim>\<open>getScheme\<close>, from position \<open>i > 0\<close> on with the characters read so far.\<close>

fun getScheme_from :: "string \<Rightarrow> string \<Rightarrow> string \<Rightarrow> (string \<times> string) result" where
  "getScheme_from raw acc [] = Inr ([], raw)"
| "getScheme_from raw acc (c # cs) =
     (if is_alpha c then getScheme_from raw (acc @ [c]) cs
      else if is_digit c \<or> c \<in> set ''+-.'' then
        (if acc = [] then Inr ([], raw) else getScheme_from raw (acc @ [c]) cs)
      else if c = CHR '':'' then
        (if acc = [] then url_error ''missing protocol scheme'' else Inr (acc, cs))
      else Inr ([], raw))"

definition getScheme :: "string \<Rightarrow> (string \<times> string) result" where
  "getScheme raw = getScheme_from raw [] raw"

definition validOptionalPort :: "string \<Rightarrow> bool" where
  "validOptionalPort p \<longleftrightarrow> p = [] \<or> hd p = CHR '':'' \<and> list_all is_digit (tl p)"

definition validUserinfo :: "string \<Rightarrow> bool" where
  "validUserinfo s = list_all (\<lambda>c. is_alpha c \<or> is_digit c
     \<or> c \<in> set ''-._:~!$&()*+,;=%@'' \<or> c = CHR 0x27) s"

text \<open>The index of the first occurrence of \<^verbatim>\<open>%25\<close>.\<close>

fun zone_index :: "string \<Rightarrow> nat option" where
  "zone_index [] = None"
| "zone_index (c # cs) =
     (if HasPrefix (c # cs) ''%25'' then Some 0 else map_option Suc (zone_index cs))"

definition parseHost :: "string \<Rightarrow> string result" where
  "parseHost host =
     (if HasPrefix host ''['' then
        (if CHR '']'' \<notin> set host then url_error ''missing ] in host''
         else if \<not> validOptionalPort (after_last (CHR '']'') host) then url_error ''invalid port after host''
         else let i = length (before_last (CHR '']'') host) in
           (case zone_index (take i host) of
              Some z \<Rightarrow>
                (case (unescape encodeHost (take z host), unescape encodeZone (drop z (take i host)),
                       unescape encodeHost (drop i host)) of
                   (Inr a, Inr b, Inr c) \<Rightarrow> Inr (a @ b @ c)
                 | (Inl e, _, _) \<Rightarrow> Inl e
                 | (_, Inl e, _) \<Rightarrow> Inl e
                 | (_, _, Inl e) \<Rightarrow> Inl e)
            | None \<Rightarrow> unescape encodeHost host))
      else if CHR '':'' \<in> set host \<and> \<not> validOptionalPort (CHR '':'' # after_last (CHR '':'') host)
        then url_error ''invalid port after host''
      else unescape encodeHost host)"

definition parseAuthority :: "string \<Rightarrow> (userinfo option \<times> string) result" where
  "parseAuthority authority =
     (if CHR ''@'' \<notin> set authority then
        (case parseHost authority of Inl e \<Rightarrow> Inl e | Inr h \<Rightarrow> Inr (None, h))
      else
        (case parseHost (after_last (CHR ''@'') authority) of
           Inl e \<Rightarrow> Inl e
         | Inr h \<Rightarrow>
             (let ui = before_last (CHR ''@'') authority in
              if \<not> validUserinfo ui then url_error ''net/url: invalid userinfo''
              else if CHR '':'' \<notin> set ui then
                (case unescape encodeUserPassword ui of
                   Inl e \<Rightarrow> Inl e
                 | Inr n \<Rightarrow> Inr (Some \<lparr> username = n, password = None \<rparr>, h))
              else
                (case (unescape encodeUserPassword (cut_before (CHR '':'') ui),
                       unescape encodeUserPassword (cut_after (CHR '':'') ui)) of
                   (Inr n, Inr p) \<Rightarrow> Inr (Some \<lparr> username = n, password = Some p \<rparr>, h)
                 | (Inl e, _) \<Rightarrow> Inl e
                 | (_, Inl e) \<Rightarrow> Inl e))))"

definition setPath :: "url \<Rightarrow> string \<Rightarrow> url result" where
  "setPath u p = (case unescape encodePath p of
     Inl e \<Rightarrow> Inl e
   | Inr path \<Rightarrow> Inr (u\<lparr> Path := path, RawPath := if p = escape encodePath path then [] else p \<rparr>))"

definition setFragment :: "url \<Rightarrow> string \<Rightarrow> url result" where
  "setFragment u f = (case unescape encodeFragment f of
     Inl e \<Rightarrow> Inl e
   | Inr frag \<Rightarrow> Inr (u\<lparr> Fragment := frag, RawFragment := if f = escape encodeFragment frag then [] else f \<rparr>))"

text \<open>\<^verbatim>\<open>parse(rawURL, false)\<close> after the scheme has been split off, then the whole of it.\<close>

definition parse_rest :: "string \<Rightarrow> string \<Rightarrow> url result" where
  "parse_rest scheme rest0 =
     (let force = HasSuffix rest0 ''?'' \<and> count_list rest0 (CHR ''?'') = 1;
          rest = cut_before (CHR ''?'') rest0;
          u = empty_url\<lparr> Scheme := scheme, ForceQuery := force,
                RawQuery := if force then [] else cut_after (CHR ''?'') rest0 \<rparr>
      in if \<not> HasPrefix rest ''/'' \<and> scheme \<noteq> [] then Inr (u\<lparr> Opaque := rest \<rparr>)
         else if \<not> HasPrefix rest ''/'' \<and> CHR '':'' \<in> set (cut_before (CHR ''/'') rest)
           then url_error ''first path segment in URL cannot contain colon''
         else if (scheme \<noteq> [] \<or> \<not> HasPrefix rest ''///'') \<and> HasPrefix rest ''//'' then
           (case parseAuthority (cut_before (CHR ''/'') (drop 2 rest)) of
              Inl e \<Rightarrow> Inl e
            | Inr (user, host) \<Rightarrow>
                setPath (u\<lparr> User := user, Host := host \<rparr>) (cut_from (CHR ''/'') (drop 2 rest)))
         else setPath (u\<lparr> OmitHost := scheme \<noteq> [] \<and> HasPrefix rest ''/'' \<rparr>) rest)"

definition url_parse :: "string \<Rightarrow> url result" where
  "url_parse raw =
     (if list_ex (\<lambda>c. byte_val c < 32 \<or> byte_val c = 127) raw
        then url_error ''net/url: invalid control character in URL''
      else if raw = ''*'' then Inr (empty_url\<lparr> Path := ''*'' \<rparr>)
      else case getScheme raw of
             Inl e \<Rightarrow> Inl e
           | Inr (s, rest) \<Rightarrow> parse_rest (map to_lower s) rest)"

definition Parse :: "string \<Rightarrow> url result" where
  "Parse raw =
     (case url_parse (cut_before (CHR ''#'') raw) of
        Inl e \<Rightarrow> Inl e
      | Inr u \<Rightarrow> if cut_after (CHR ''#'') raw = [] then Inr u
                 else setFragment u (cut_after (CHR ''#'') raw))"

definition validEncoded :: "url_mode \<Rightarrow> string \<Rightarrow> bool" where
  "validEncoded mode s = list_all (\<lambda>c. c \<in> set ''!$&()*+,;=:@[]%'' \<or> c = CHR 0x27
     \<or> \<not> shouldEscape c mode) s"

definition EscapedPath :: "url \<Rightarrow> string" where
  "EscapedPath u =
     (if RawPath u \<noteq> [] \<and> validEncoded encodePath (RawPath u)
         \<and> unescape encodePath (RawPath u) = Inr (Path u) then RawPath u
      else if Path u = ''*'' then ''*'' else escape encodePath (Path u))"

definition EscapedFragment :: "url \<Rightarrow> string" where
  "EscapedFragment u =
     (if RawFragment u \<noteq> [] \<and> validEncoded encodeFragment (RawFragment u)
         \<and> unescape encodeFragment (RawFragment u) = Inr (Fragment u) then RawFragment u
      else escape encodeFragment (Fragment u))"

definition Userinfo_String :: "userinfo \<Rightarrow> string" where
  "Userinfo_String u = escape encodeUserPassword (username u) @
     (case password u of None \<Rightarrow> [] | Some p \<Rightarrow> CHR '':'' # escape encodeUserPassword p)"

definition authority_String :: "url \<Rightarrow> string" where
  "authority_String u =
     (if (Scheme u \<noteq> [] \<or> Host u \<noteq> [] \<or> User u \<noteq> None)
         \<and> \<not> (OmitHost u \<and> Host u = [] \<and> User u = None) then
        (if Host u \<noteq> [] \<or> Path u \<noteq> [] \<or> User u \<noteq> None then ''//'' else []) @
        (case User u of None \<Rightarrow> [] | Some ui \<Rightarrow> Userinfo_String ui @ ''@'') @
        (if Host u \<noteq> [] then escape encodeHost (Host u) else [])
      else [])"

definition URL_String :: "url \<Rightarrow> string" where
  "URL_String u =
     (let pre = (if Scheme u \<noteq> [] then Scheme u @ '':'' else []);
          hier = (if Opaque u \<noteq> [] then Opaque u
            else let auth = authority_String u; path = EscapedPath u in
              auth @
              (if path \<noteq> [] \<and> hd path \<noteq> CHR ''/'' \<and> Host u \<noteq> [] then ''/'' else []) @
              (if pre @ auth = [] \<and> \<not> (path \<noteq> [] \<and> hd path \<noteq> CHR ''/'' \<and> Host u \<noteq> [])
                  \<and> CHR '':'' \<in> set (cut_before (CHR ''/'') path) then ''./'' else []) @
              path)
      in pre @ hier @
         (if ForceQuery u \<or> RawQuery u \<noteq> [] then CHR ''?'' # RawQuery u else []) @
         (if Fragment u \<noteq> [] then CHR ''#'' # EscapedFragment u else []))"

definition URL_Query :: "url \<Rightarrow> url_values" where
  "URL_Query u = ParseQuery (RawQuery u)"

section \<open>Package path\<close>

fun clean_elems :: "bool \<Rightarrow> string list \<Rightarrow> string list \<Rightarrow> string list" where
  "clean_elems rooted st [] = rev st"
| "clean_elems rooted st (e # es) =
     (if e = [] \<or> e = ''.'' then clean_elems rooted st es
      else if e = ''..'' then
        (case st of
           [] \<Rightarrow> clean_elems rooted (if rooted then [] else [''..'']) es
         | x # xs \<Rightarrow> if x = ''..'' then clean_elems rooted (''..'' # st) es else clean_elems rooted xs es)
      else clean_elems rooted (e # st) es)"

definition path_Clean :: "string \<Rightarrow> string" where
  "path_Clean p =
     (if p = [] then ''.''
      else let rooted = hd p = CHR ''/''; es = clean_elems rooted [] (split_on (CHR ''/'') p) in
        if rooted then CHR ''/'' # join_with ''/'' es
        else if es = [] then ''.'' else join_with ''/'' es)"

definition path_Join :: "string list \<Rightarrow> string" where
  "path_Join es = (let ne = filter (\<lambda>e. e \<noteq> []) es in
     if ne = [] then [] else path_Clean (join_with ''/'' ne))"

section \<open>Round trips\<close>

lemma upperhex_props:
  assumes "n < 16"
  shows "unhex (upperhex n) = n" "ishex (upperhex n)"
proof -
  have "n \<in> {0..<16}" using assms by simp
  then have "n \<in> set [0..<16]" by simp
  then have "unhex (upperhex n) = n \<and> ishex (upperhex n)"
    by (auto simp: upperhex_def unhex_def ishex_def is_digit_def byte_val_def val_byte_def upt_rec)
  then show "unhex (upperhex n) = n" "ishex (upperhex n)" by simp_all
qed

lemma byte_hex: "val_byte (byte_val c div 16 * 16 + byte_val c mod 16) = c"
  by simp

lemma byte_val_hex_less: "byte_val c div 16 < 16" "byte_val c mod 16 < 16"
  using byte_val_less[of c] by (simp_all add: less_mult_imp_div_less)

definition plain_mode :: "url_mode \<Rightarrow> bool" where
  "plain_mode m \<longleftrightarrow> m \<noteq> encodeHost \<and> m \<noteq> encodeZone"

lemma shouldEscape_percent: "shouldEscape (CHR ''%'') m"
  by (simp add: shouldEscape_def is_alpha_def is_digit_def byte_val_def)

lemma shouldEscape_query:
  "shouldEscape c encodeQueryComponent \<longleftrightarrow> \<not> (is_alpha c \<or> is_digit c \<or> c \<in> set ''-_.~'')"
  by (auto simp: shouldEscape_def)

lemma unescape_escape_char:
  assumes "plain_mode m"
  shows "unescape m (escape_char m c @ r) =
    (case unescape m r of Inl e \<Rightarrow> Inl e | Inr t \<Rightarrow> Inr (c # t))"
proof (cases "c = CHR 0x20 \<and> m = encodeQueryComponent")
  case True
  then show ?thesis by (auto simp: escape_char_def split: sum.splits)
next
  case False
  show ?thesis
  proof (cases "shouldEscape c m")
    case True
    have e: "escape_char m c = [CHR ''%'', upperhex (byte_val c div 16), upperhex (byte_val c mod 16)]"
      using True False by (auto simp: escape_char_def)
    have "m \<noteq> encodeHost" "m \<noteq> encodeZone" using assms by (auto simp: plain_mode_def)
    then show ?thesis
      by (simp add: e upperhex_props[OF byte_val_hex_less(1)] upperhex_props[OF byte_val_hex_less(2)] byte_hex
          split: sum.splits)
  next
    case no: False
    then have "c \<noteq> CHR ''%''" using shouldEscape_percent by blast
    moreover have "m = encodeQueryComponent \<Longrightarrow> c \<noteq> CHR ''+''"
      using no by (auto simp: shouldEscape_query is_alpha_def is_digit_def byte_val_def)
    moreover have "escape_char m c = [c]" using no False by (auto simp: escape_char_def)
    ultimately show ?thesis using assms by (auto simp: plain_mode_def)
  qed
qed

lemma unescape_escape: "plain_mode m \<Longrightarrow> unescape m (escape m s) = Inr s"
  by (induction s) (simp_all add: escape_def unescape_escape_char)

lemma QueryUnescape_QueryEscape [simp]: "QueryUnescape (QueryEscape s) = Inr s"
  by (simp add: QueryUnescape_def QueryEscape_def unescape_escape plain_mode_def)

interpretation query_codec: codec QueryEscape QueryUnescape
  by unfold_locales simp

text \<open>Query-escaped text is free of the characters that structure a query, a URL or a path.\<close>

definition query_char :: "char \<Rightarrow> bool" where
  "query_char c \<longleftrightarrow> is_alpha c \<or> is_digit c \<or> c \<in> set ''-_.~%+''"

lemma upperhex_query_char: "n < 16 \<Longrightarrow> query_char (upperhex n)"
proof -
  assume "n < 16"
  then have "n \<in> set [0..<16]" by simp
  then show ?thesis
    by (auto simp: upperhex_def query_char_def is_alpha_def is_digit_def byte_val_def val_byte_def upt_rec)
qed

lemma QueryEscape_query_char: "c \<in> set (QueryEscape s) \<Longrightarrow> query_char c"
proof -
  have "query_char d" if "d \<in> set (escape_char encodeQueryComponent x)" for d x
  proof (cases "x = CHR 0x20 \<or> shouldEscape x encodeQueryComponent")
    case True
    then show ?thesis
      using that upperhex_query_char[OF byte_val_hex_less(1)] upperhex_query_char[OF byte_val_hex_less(2)]
      by (auto simp: escape_char_def query_char_def split: if_splits)
  next
    case False
    then show ?thesis using that by (auto simp: escape_char_def shouldEscape_query query_char_def)
  qed
  then show "c \<in> set (QueryEscape s) \<Longrightarrow> query_char c"
    by (auto simp: QueryEscape_def escape_def)
qed

lemma query_char_not:
  "\<not> query_char (CHR ''&'')" "\<not> query_char (CHR ''='')" "\<not> query_char (CHR '';'')"
  "\<not> query_char (CHR ''?'')" "\<not> query_char (CHR ''#'')" "\<not> query_char (CHR ''/'')"
  "\<not> query_char (CHR '':'')"
  by (simp_all add: query_char_def is_alpha_def is_digit_def byte_val_def)

lemma QueryEscape_free:
  "CHR ''&'' \<notin> set (QueryEscape s)" "CHR ''='' \<notin> set (QueryEscape s)" "CHR '';'' \<notin> set (QueryEscape s)"
  using QueryEscape_query_char query_char_not by blast+

lemma parse_pair_encode [simp]: "parse_pair (encode_pair p) = [p]"
proof -
  have "cut_before (CHR ''='') (encode_pair p) = QueryEscape (fst p)"
    "cut_after (CHR ''='') (encode_pair p) = QueryEscape (snd p)"
    using QueryEscape_free(2) by (auto simp: encode_pair_def cut_before_def cut_after_def
        takeWhile_append dropWhile_append)
  then show ?thesis
    by (simp add: parse_pair_def QueryEscape_free encode_pair_def)
qed

lemma split_on_free [simp]: "c \<notin> set s \<Longrightarrow> split_on c s = [s]"
  by (induction s) auto

lemma split_on_append: "c \<notin> set s \<Longrightarrow> split_on c (s @ c # t) = s # split_on c t"
  by (induction s) auto

lemma split_on_join:
  "xs \<noteq> [] \<Longrightarrow> (\<And>x. x \<in> set xs \<Longrightarrow> c \<notin> set x) \<Longrightarrow> split_on c (join_with [c] xs) = xs"
  by (induction "[c]" xs rule: join_with.induct) (auto simp: split_on_append)

lemma encode_pair_free: "CHR ''&'' \<notin> set (encode_pair p)"
  using QueryEscape_free(1) by (auto simp: encode_pair_def)

lemma ParseQuery_Encode: "ParseQuery (Values_Encode v) = sort_key fst v"
proof (cases "v = []")
  case True
  then show ?thesis by (simp add: Values_Encode_def ParseQuery_def parse_pair_def)
next
  case False
  then have "sort_key fst v \<noteq> []" by (metis length_0_conv length_sort)
  then have "split_on (CHR ''&'') (Values_Encode v) = map encode_pair (sort_key fst v)"
    unfolding Values_Encode_def by (intro split_on_join) (auto simp: encode_pair_free)
  then show ?thesis by (simp add: ParseQuery_def o_def concat_map_singleton)
qed

text \<open>Looking a key up in an encoded and parsed query gives what the values held.\<close>

lemma map_of_filter_key: "map_of (filter (\<lambda>p. fst p = k) v) k = map_of v k"
  by (induction v) auto

lemma map_of_sort_key: "map_of (sort_key fst v) k = map_of v k"
proof -
  have "filter (\<lambda>p. fst p = k) (sort_key fst v) = filter (\<lambda>p. fst p = k) v"
    by (rule sort_key_stable)
  then show ?thesis by (metis map_of_filter_key)
qed

lemma Values_Get_Parse_Encode [simp]: "Values_Get (ParseQuery (Values_Encode v)) k = Values_Get v k"
  by (simp add: ParseQuery_Encode Values_Get_def map_of_sort_key)

lemma Values_Get_Set [simp]:
  "Values_Get (Values_Set v k x) k' = (if k' = k then x else Values_Get v k')"
  by (induction v) (auto simp: Values_Get_def Values_Set_def split: option.splits)

end
