(* ===== verification/SessionMetadata.thy ===== *)
theory SessionMetadata
  imports GoTime
begin

text \<open>
  The time bookkeeping of a session, \<^verbatim>\<open>pkg/session/data.go\<close>: the structs
  \<^verbatim>\<open>Metadata\<close>, \<^verbatim>\<open>MetadataSession\<close>, \<^verbatim>\<open>MetadataTokens\<close> and their verbose forms, and
  every method on them. A method that reads the clock takes one instant per reading, in the order
  of evaluation; embedding of a struct is extension of its record.
\<close>

section \<open>Structs\<close>

definition RefreshMinInterval :: duration where "RefreshMinInterval = 1 * Minute"
definition RefreshLeeway :: duration where "RefreshLeeway = 5 * Minute"

record MetadataSession =
  CreatedAt :: time
  EndsAt :: time
  TimeoutAt :: time

record MetadataTokens =
  ExpireAt :: time
  RefreshedAt :: time

record Metadata =
  md_Session :: MetadataSession
  md_Tokens :: MetadataTokens

record MetadataSessionVerbose = MetadataSession +
  EndsInSeconds :: int
  Active :: bool
  TimeoutInSeconds :: int

record MetadataTokensVerbose = MetadataTokens +
  ExpireInSeconds :: int

record MetadataTokensVerboseWithRefresh = MetadataTokensVerbose +
  NextAutoRefreshInSeconds :: int
  mt_RefreshCooldown :: bool
  RefreshCooldownSeconds :: int

record MetadataVerbose =
  mv_Session :: MetadataSessionVerbose
  mv_Tokens :: MetadataTokensVerbose

record MetadataVerboseWithRefresh =
  mr_Session :: MetadataSessionVerbose
  mr_Tokens :: MetadataTokensVerboseWithRefresh

section \<open>Methods\<close>

definition NewMetadata :: "time \<Rightarrow> duration \<Rightarrow> duration \<Rightarrow> Metadata" where
  "NewMetadata now expiresIn endsIn =
     \<lparr> md_Session = \<lparr> CreatedAt = now, EndsAt = Time_Add now endsIn, TimeoutAt = 0 \<rparr>,
       md_Tokens = \<lparr> ExpireAt = Time_Add now expiresIn, RefreshedAt = now \<rparr> \<rparr>"

definition IsExpired :: "time \<Rightarrow> Metadata \<Rightarrow> bool" where
  "IsExpired now m = Time_After now (ExpireAt (md_Tokens m))"

definition TokenLifetime :: "Metadata \<Rightarrow> duration" where
  "TokenLifetime m = Time_Sub (ExpireAt (md_Tokens m)) (RefreshedAt (md_Tokens m))"

definition RefreshCooldown :: "Metadata \<Rightarrow> time" where
  "RefreshCooldown m =
     (let refreshed = RefreshedAt (md_Tokens m); tokenLifetime = TokenLifetime m in
      if tokenLifetime \<le> RefreshMinInterval * 2
      then Time_Add refreshed (go_quot tokenLifetime 2)
      else Time_Add refreshed RefreshMinInterval)"

definition IsRefreshOnCooldown :: "time \<Rightarrow> Metadata \<Rightarrow> bool" where
  "IsRefreshOnCooldown now m = Time_Before now (RefreshCooldown m)"

definition NextRefresh :: "time \<Rightarrow> Metadata \<Rightarrow> time" where
  "NextRefresh now m =
     (let next = Time_Add (ExpireAt (md_Tokens m)) (- RefreshLeeway) in
      if Time_Before next now then RefreshCooldown m else next)"

definition Metadata_Refresh :: "time \<Rightarrow> int \<Rightarrow> Metadata \<Rightarrow> Metadata" where
  "Metadata_Refresh now nextExpirySeconds m =
     m\<lparr> md_Tokens := \<lparr> ExpireAt = Time_Add now (dur_mul nextExpirySeconds Second), RefreshedAt = now \<rparr> \<rparr>"

text \<open>
  \<^verbatim>\<open>ShouldRefresh\<close> reads the clock three times: for the cooldown check, for the
  left-hand side of \<^verbatim>\<open>After\<close>, and inside \<^verbatim>\<open>NextRefresh\<close>.
\<close>

definition ShouldRefresh :: "time \<Rightarrow> time \<Rightarrow> time \<Rightarrow> Metadata \<Rightarrow> bool" where
  "ShouldRefresh now1 now2 now3 m =
     (if IsRefreshOnCooldown now1 m then False else Time_After now2 (NextRefresh now3 m))"

definition ExtendTimeout :: "time \<Rightarrow> duration \<Rightarrow> Metadata \<Rightarrow> Metadata" where
  "ExtendTimeout now d m =
     m\<lparr> md_Session := (md_Session m)\<lparr> TimeoutAt := Time_Add now d \<rparr> \<rparr>"

definition IsTimedOut :: "time \<Rightarrow> Metadata \<Rightarrow> bool" where
  "IsTimedOut now m =
     (if Time_IsZero (TimeoutAt (md_Session m)) then False
      else Time_After now (TimeoutAt (md_Session m)))"

definition WithTimeout :: "time \<Rightarrow> duration \<Rightarrow> Metadata \<Rightarrow> Metadata" where
  "WithTimeout now timeoutIn m =
     m\<lparr> md_Session := (md_Session m)\<lparr> TimeoutAt := Time_Add now timeoutIn \<rparr> \<rparr>"

definition toSeconds :: "duration \<Rightarrow> int" where
  "toSeconds d = (let i = int64_of_float (Duration_Seconds d) in if i \<le> 0 then 0 else i)"

text \<open>\<^verbatim>\<open>Verbose\<close> reads the clock once itself and, unless the timeout is zero, once in \<^verbatim>\<open>IsTimedOut\<close>.\<close>

definition Verbose :: "time \<Rightarrow> time \<Rightarrow> Metadata \<Rightarrow> MetadataVerbose" where
  "Verbose now now' m =
     (let expireTime = ExpireAt (md_Tokens m);
          endTime = EndsAt (md_Session m);
          timeoutTime = TimeoutAt (md_Session m);
          mv = \<lparr> mv_Session = MetadataSession.extend (md_Session m)
                   (MetadataSessionVerbose.fields (toSeconds (Time_Sub endTime now))
                      (\<not> IsTimedOut now' m) (toSeconds (Time_Sub timeoutTime now))),
                 mv_Tokens = MetadataTokens.extend (md_Tokens m)
                   (MetadataTokensVerbose.fields (toSeconds (Time_Sub expireTime now))) \<rparr>
      in if Time_IsZero timeoutTime
         then mv\<lparr> mv_Session := (mv_Session mv)\<lparr> TimeoutInSeconds := - 1 \<rparr> \<rparr> else mv)"

text \<open>
  \<^verbatim>\<open>VerboseWithRefresh\<close>: its own reading, the two of \<^verbatim>\<open>Verbose\<close>, the one of
  \<^verbatim>\<open>NextRefresh\<close>, and the one of \<^verbatim>\<open>IsRefreshOnCooldown\<close>.
\<close>

definition VerboseWithRefresh ::
    "time \<Rightarrow> time \<Rightarrow> time \<Rightarrow> time \<Rightarrow> time \<Rightarrow> Metadata \<Rightarrow> MetadataVerboseWithRefresh" where
  "VerboseWithRefresh now now1 now1' now2 now3 m =
     (let verbose = Verbose now1 now1' m; nextRefreshTime = NextRefresh now2 m in
      \<lparr> mr_Session = mv_Session verbose,
        mr_Tokens = MetadataTokensVerbose.extend (mv_Tokens verbose)
          (MetadataTokensVerboseWithRefresh.fields (toSeconds (Time_Sub nextRefreshTime now))
             (IsRefreshOnCooldown now3 m) (toSeconds (Time_Sub (RefreshCooldown m) now))) \<rparr>)"

section \<open>Rewriting\<close>

lemmas interval_consts = RefreshMinInterval_def RefreshLeeway_def duration_consts

lemma NewMetadata_fields [simp]:
  "md_Session (NewMetadata now e l) = \<lparr> CreatedAt = now, EndsAt = now + l, TimeoutAt = 0 \<rparr>"
  "md_Tokens (NewMetadata now e l) = \<lparr> ExpireAt = now + e, RefreshedAt = now \<rparr>"
  by (simp_all add: NewMetadata_def accessor_simps)

lemma Metadata_Refresh_fields [simp]:
  "md_Session (Metadata_Refresh now n m) = md_Session m"
  "RefreshedAt (md_Tokens (Metadata_Refresh now n m)) = now"
  "ExpireAt (md_Tokens (Metadata_Refresh now n m)) = now + dur_mul n Second"
  by (simp_all add: Metadata_Refresh_def accessor_simps)

lemma ExtendTimeout_fields [simp]:
  "md_Tokens (ExtendTimeout now d m) = md_Tokens m"
  "TimeoutAt (md_Session (ExtendTimeout now d m)) = now + d"
  "EndsAt (md_Session (ExtendTimeout now d m)) = EndsAt (md_Session m)"
  "CreatedAt (md_Session (ExtendTimeout now d m)) = CreatedAt (md_Session m)"
  by (simp_all add: ExtendTimeout_def accessor_simps)

lemma WithTimeout_eq: "WithTimeout = ExtendTimeout"
  by (simp add: fun_eq_iff WithTimeout_def ExtendTimeout_def)

lemma IsExpired_iff [simp]: "IsExpired now m \<longleftrightarrow> ExpireAt (md_Tokens m) < now"
  by (simp add: IsExpired_def accessor_simps)

lemma IsRefreshOnCooldown_iff: "IsRefreshOnCooldown now m \<longleftrightarrow> now < RefreshCooldown m"
  by (simp add: IsRefreshOnCooldown_def accessor_simps)

lemma IsTimedOut_iff:
  "IsTimedOut now m \<longleftrightarrow> TimeoutAt (md_Session m) \<noteq> 0 \<and> TimeoutAt (md_Session m) < now"
  by (simp add: IsTimedOut_def accessor_simps)

lemma toSeconds_range: "0 \<le> toSeconds d"
  by (simp add: toSeconds_def Let_def)

lemma toSeconds_nonpos [simp]: "d \<le> 0 \<Longrightarrow> toSeconds d = 0"
  using int64_Seconds_nonpos[of d] by (simp add: toSeconds_def Let_def)

section \<open>Correctness\<close>

subsection \<open>The refresh cooldown\<close>

lemma TokenLifetime_nonneg:
  "RefreshedAt (md_Tokens m) \<le> ExpireAt (md_Tokens m) \<Longrightarrow>
     0 \<le> TokenLifetime m \<and> TokenLifetime m \<le> ExpireAt (md_Tokens m) - RefreshedAt (md_Tokens m)"
  by (simp add: TokenLifetime_def Time_Sub_nonneg Time_Sub_le)

lemma RefreshCooldown_eq:
  "RefreshedAt (md_Tokens m) \<le> ExpireAt (md_Tokens m) \<Longrightarrow>
     RefreshCooldown m = RefreshedAt (md_Tokens m) + min (TokenLifetime m div 2) RefreshMinInterval"
  using TokenLifetime_nonneg[of m]
  by (auto simp: RefreshCooldown_def Let_def accessor_simps go_quot_nonneg interval_consts min_def)

text \<open>
  Tokens can always be refreshed again before they expire: for tokens that expire no earlier
  than they were refreshed, the cooldown ends at or after the last refresh, at most one minute after
  it, and at the latest half way to the expiry.
\<close>

theorem refresh_cooldown_bounds:
  assumes "RefreshedAt (md_Tokens m) \<le> ExpireAt (md_Tokens m)"
  shows "RefreshedAt (md_Tokens m) \<le> RefreshCooldown m
    \<and> RefreshCooldown m \<le> RefreshedAt (md_Tokens m) + 60 * Second
    \<and> 2 * (RefreshCooldown m - RefreshedAt (md_Tokens m))
           \<le> ExpireAt (md_Tokens m) - RefreshedAt (md_Tokens m)"
proof -
  let ?l = "TokenLifetime m" and ?r = "RefreshedAt (md_Tokens m)" and ?e = "ExpireAt (md_Tokens m)"
  have l: "0 \<le> ?l" "?l \<le> ?e - ?r" using TokenLifetime_nonneg[OF assms] by simp_all
  have c: "RefreshCooldown m = ?r + min (?l div 2) RefreshMinInterval"
    using assms by (rule RefreshCooldown_eq)
  have "?r \<le> RefreshCooldown m" using l by (simp add: c interval_consts)
  moreover have "RefreshCooldown m \<le> ?r + 60 * Second" by (simp add: c interval_consts)
  moreover have "2 * (RefreshCooldown m - ?r) \<le> ?e - ?r"
  proof -
    have "2 * min (?l div 2) RefreshMinInterval \<le> 2 * (?l div 2)" by simp
    also have "\<dots> \<le> ?e - ?r" using l(2) by presburger
    finally show ?thesis by (simp add: c)
  qed
  ultimately show ?thesis by blast
qed

theorem refresh_cooldown_bounds_witness:
  "RefreshCooldown (NewMetadata 100 (90 * Second) Hour) = 100 + 45 * Second
    \<and> 2 * (RefreshCooldown (NewMetadata 100 (90 * Second) Hour) - 100) \<le> 90 * Second"
proof -
  have h: "RefreshedAt (md_Tokens (NewMetadata 100 (90 * Second) Hour))
             \<le> ExpireAt (md_Tokens (NewMetadata 100 (90 * Second) Hour))"
    by (simp add: duration_consts)
  show ?thesis
    using refresh_cooldown_bounds[OF h] RefreshCooldown_eq[OF h]
    by (simp add: TokenLifetime_def is_duration_def minDuration_def maxDuration_def interval_consts)
qed

subsection \<open>When a refresh is due\<close>

text \<open>
  The automatic refresh, over readings of a clock that does not run backwards: it happens
  exactly when the cooldown has passed at the first two readings (strictly, at the second) and the
  tokens are within five minutes of their expiry at the third. In particular tokens are never
  refreshed automatically earlier than five minutes before they expire.
\<close>

theorem should_refresh_iff:
  assumes "now1 \<le> now2" "now2 \<le> now3"
  shows "ShouldRefresh now1 now2 now3 m \<longleftrightarrow>
     RefreshCooldown m \<le> now1 \<and> RefreshCooldown m < now2 \<and>
     ExpireAt (md_Tokens m) - 5 * 60 * Second < now3"
  using assms
  by (auto simp: ShouldRefresh_def IsRefreshOnCooldown_iff NextRefresh_def Let_def accessor_simps
      interval_consts)

theorem should_refresh_iff_witness:
  "ShouldRefresh (400 * Second) (400 * Second) (401 * Second)
     (NewMetadata 0 (600 * Second) Hour)"
proof -
  let ?m = "NewMetadata 0 (600 * Second) Hour"
  have "RefreshCooldown ?m = 60 * Second"
    using RefreshCooldown_eq[of ?m]
    by (simp add: TokenLifetime_def is_duration_def minDuration_def maxDuration_def interval_consts)
  then show ?thesis
    using should_refresh_iff[of "400 * Second" "400 * Second" "401 * Second" ?m]
    by (simp add: duration_consts)
qed

subsection \<open>Refreshing\<close>

lemma dur_mul_Second_exact:
  "- 9223372036 \<le> n \<Longrightarrow> n \<le> 9223372036 \<Longrightarrow> dur_mul n Second = n * Second"
  unfolding dur_mul_def
  by (rule wrap64_id) (simp add: is_duration_def minDuration_def maxDuration_def Second_def)

text \<open>
  A refresh with a lifetime that fits a duration puts the expiry that many seconds after the
  instant of the refresh, keeps the session's own lifetime and timeout, and puts further refreshes
  on cooldown for half the lifetime or one minute, whichever is shorter.
\<close>

theorem metadata_refresh_correct:
  fixes now :: time and m :: Metadata
  assumes "0 \<le> n" "n \<le> 9223372036"
  defines "m' \<equiv> Metadata_Refresh now n m"
  shows "ExpireAt (md_Tokens m') = now + n * Second \<and> md_Session m' = md_Session m
    \<and> (\<forall>t. IsRefreshOnCooldown t m' \<longleftrightarrow> t < now + min (n * Second div 2) (60 * Second))"
proof -
  have e: "ExpireAt (md_Tokens m') = now + n * Second"
    using assms(1,2) by (simp add: m'_def dur_mul_Second_exact)
  have r: "RefreshedAt (md_Tokens m') = now" by (simp add: m'_def)
  have "TokenLifetime m' = n * Second"
    using assms(1,2)
    by (simp add: TokenLifetime_def e r is_duration_def minDuration_def maxDuration_def Second_def)
  moreover have "RefreshCooldown m' = RefreshedAt (md_Tokens m') + min (TokenLifetime m' div 2) RefreshMinInterval"
    using assms(1) by (intro RefreshCooldown_eq) (simp add: e r Second_def)
  ultimately have "RefreshCooldown m' = now + min (n * Second div 2) (60 * Second)"
    by (simp add: r interval_consts)
  then show ?thesis
    using e by (simp add: IsRefreshOnCooldown_iff m'_def)
qed

theorem metadata_refresh_correct_witness:
  "ExpireAt (md_Tokens (Metadata_Refresh 7 3600 (NewMetadata 0 0 Hour))) = 7 + 3600 * Second"
  using metadata_refresh_correct[of 3600 7 "NewMetadata 0 0 Hour"] by simp

text \<open>
  The lifetime wraps around: the first lifetime that does not fit a duration, 9223372037
  seconds, gives tokens that are already expired at the instant they are refreshed.
\<close>

theorem metadata_refresh_overflow:
  "IsExpired now (Metadata_Refresh now 9223372037 m)"
  by (simp add: dur_mul_def wrap64_def Second_def)

subsection \<open>The verbose forms\<close>

text \<open>
  Whole seconds of a duration: zero for none or a negative one, otherwise the number of
  complete seconds, where the float64 rounding may only ever add one, and adds nothing below
  194 days (2\<open>^\<close>24 seconds).
\<close>

theorem toSeconds_correct:
  assumes "is_duration d"
  shows "(d \<le> 0 \<longrightarrow> toSeconds d = 0)
    \<and> (0 \<le> d \<longrightarrow> d div Second \<le> toSeconds d \<and> toSeconds d \<le> d div Second + 1)
    \<and> (0 \<le> d \<and> d div Second < 2 ^ 24 \<longrightarrow> toSeconds d = d div Second)"
proof (cases "0 \<le> d")
  case True
  have "d \<le> maxDuration" using assms by (simp add: is_duration_def)
  note b = int64_Seconds_bounds[OF True this]
  have "0 \<le> d div Second" using True by (simp add: Second_def)
  then have "(0 \<le> d \<longrightarrow> d div Second \<le> toSeconds d \<and> toSeconds d \<le> d div Second + 1)
    \<and> (0 \<le> d \<and> d div Second < 2 ^ 24 \<longrightarrow> toSeconds d = d div Second)"
    using b by (auto simp: toSeconds_def Let_def)
  then show ?thesis by simp
next
  case False
  then show ?thesis by simp
qed

theorem toSeconds_correct_witness: "toSeconds (90 * Second + 999999999) = 90"
proof -
  have "is_duration (90 * Second + 999999999)"
    by (simp add: is_duration_def minDuration_def maxDuration_def Second_def)
  from toSeconds_correct[OF this] show ?thesis by (simp add: Second_def)
qed

text \<open>
  The reported session state, with the two clock readings that produce it:
  \<^verbatim>\<open>timeout_in_seconds\<close> is -1 exactly for a session without a timeout, which is always
  active; otherwise the session is active until its timeout has passed, and a session that had timed
  out at the first reading has no seconds left. The other counters are never negative, and the plain
  fields are those of the session.
\<close>

theorem verbose_correct:
  fixes now now' :: time and m :: Metadata
  defines "v \<equiv> Verbose now now' m"
  shows "(TimeoutInSeconds (mv_Session v) = - 1 \<longleftrightarrow> TimeoutAt (md_Session m) = 0)
    \<and> (Active (mv_Session v) \<longleftrightarrow> TimeoutAt (md_Session m) = 0 \<or> now' \<le> TimeoutAt (md_Session m))
    \<and> (TimeoutAt (md_Session m) \<noteq> 0 \<and> TimeoutAt (md_Session m) \<le> now \<longrightarrow>
          TimeoutInSeconds (mv_Session v) = 0)
    \<and> 0 \<le> EndsInSeconds (mv_Session v) \<and> 0 \<le> ExpireInSeconds (mv_Tokens v)
    \<and> MetadataSession.truncate (mv_Session v) = md_Session m
    \<and> MetadataTokens.truncate (mv_Tokens v) = md_Tokens m"
proof -
  have "toSeconds d \<noteq> - 1" for d using toSeconds_range[of d] by simp
  then show ?thesis
    by (auto simp: v_def Verbose_def Let_def IsTimedOut_iff toSeconds_range Time_Sub_nonpos
        accessor_simps MetadataSession.defs MetadataSessionVerbose.defs
        MetadataTokens.defs MetadataTokensVerbose.defs)
qed

theorem verbose_correct_witness:
  "TimeoutInSeconds (mv_Session (Verbose 5 6 (WithTimeout 1 2 (NewMetadata 1 10 20)))) = 0"
  using verbose_correct[of 5 6 "WithTimeout 1 2 (NewMetadata 1 10 20)"] by (simp add: WithTimeout_eq)

end
