(* ===== verification/Http.thy ===== *)
theory Http
  imports GoURL SessionMetadata
begin

text \<open>
  The part of \<^verbatim>\<open>net/http\<close> that the handlers see. A request is its method, URL, host, headers and
  cookies, with the values the middlewares put into its context (\<^verbatim>\<open>pkg/middleware/context.go\<close>).
  A response is what has been written so far; as in the library, headers and cookies set after the
  status line has been written are lost, and only the first status counts.
\<close>

section \<open>Requests\<close>

text \<open>\<^verbatim>\<open>ingress.Ingress\<close> embeds a URL.\<close>

type_synonym ingress = url

record request =
  Method :: string
  req_URL :: url
  req_Host :: string
  Header :: "string \<rightharpoonup> string"
  Cookies :: "(string \<times> string) list"
  ctx_AccessToken :: "string option"
  ctx_Ingress :: "ingress option"
  ctx_Path :: "string option"
  ctx_RequestID :: string

definition Header_Get :: "request \<Rightarrow> string \<Rightarrow> string" where
  "Header_Get r k = (case Header r k of None \<Rightarrow> [] | Some v \<Rightarrow> v)"

text \<open>\<^verbatim>\<open>Request.Cookie\<close>: the first cookie of that name.\<close>

definition Request_Cookie :: "request \<Rightarrow> string \<Rightarrow> string result" where
  "Request_Cookie r name = (case map_of (Cookies r) name of None \<Rightarrow> Inl ErrNoCookie | Some v \<Rightarrow> Inr v)"

definition req_Query :: "request \<Rightarrow> url_values" where
  "req_Query r = URL_Query (req_URL r)"

subsection \<open>Values in the request's context\<close>

definition AccessTokenFrom :: "request \<Rightarrow> string option" where "AccessTokenFrom r = ctx_AccessToken r"
definition WithAccessToken :: "request \<Rightarrow> string \<Rightarrow> request" where
  "WithAccessToken r t = r\<lparr> ctx_AccessToken := Some t \<rparr>"
definition IngressFrom :: "request \<Rightarrow> ingress option" where "IngressFrom r = ctx_Ingress r"
definition WithIngress :: "request \<Rightarrow> ingress \<Rightarrow> request" where
  "WithIngress r i = r\<lparr> ctx_Ingress := Some i \<rparr>"
definition PathFrom :: "request \<Rightarrow> string option" where "PathFrom r = ctx_Path r"
definition WithPath :: "request \<Rightarrow> string \<Rightarrow> request" where
  "WithPath r p = r\<lparr> ctx_Path := Some p \<rparr>"

lemmas [accessor_simps] =
  AccessTokenFrom_def WithAccessToken_def IngressFrom_def WithIngress_def PathFrom_def WithPath_def

section \<open>Responses\<close>

datatype same_site = SameSiteUnset | SameSiteDefaultMode | SameSiteLaxMode | SameSiteStrictMode | SameSiteNoneMode

record cookie =
  ck_Name :: string
  ck_Value :: string
  ck_Path :: string
  ck_Domain :: string
  ck_Expires :: time
  ck_MaxAge :: int
  ck_HttpOnly :: bool
  ck_Secure :: bool
  ck_SameSite :: same_site

text \<open>What a handler writes to the body: an error page with its two fields, JSON metadata, or text.\<close>

datatype body =
    ErrorPage string string
  | JsonMetadata MetadataVerbose
  | JsonMetadataWithRefresh MetadataVerboseWithRefresh
  | Text string

record response =
  Status :: "int option"
  SetCookies :: "cookie list"
  Location :: "string option"
  ContentType :: "string option"
  Body :: "body list"

definition new_response :: response where
  "new_response = \<lparr> Status = None, SetCookies = [], Location = None, ContentType = None, Body = [] \<rparr>"

definition WriteHeader :: "int \<Rightarrow> response \<Rightarrow> response" where
  "WriteHeader code rw = (if Status rw = None then rw\<lparr> Status := Some code \<rparr> else rw)"

definition http_SetCookie :: "cookie \<Rightarrow> response \<Rightarrow> response" where
  "http_SetCookie c rw = (if Status rw = None then rw\<lparr> SetCookies := SetCookies rw @ [c] \<rparr> else rw)"

definition set_Location :: "string \<Rightarrow> response \<Rightarrow> response" where
  "set_Location l rw = (if Status rw = None then rw\<lparr> Location := Some l \<rparr> else rw)"

definition set_ContentType :: "string \<Rightarrow> response \<Rightarrow> response" where
  "set_ContentType t rw = (if Status rw = None then rw\<lparr> ContentType := Some t \<rparr> else rw)"

text \<open>Writing a body sends the status 200 if no status was written before.\<close>

definition Write_Body :: "body \<Rightarrow> response \<Rightarrow> response" where
  "Write_Body b rw = (WriteHeader 200 rw)\<lparr> Body := Body rw @ [b] \<rparr>"

subsection \<open>Redirects\<close>

definition hexEscapeNonASCII :: "string \<Rightarrow> string" where
  "hexEscapeNonASCII s = concat (map (\<lambda>c. if 128 \<le> byte_val c
     then [CHR ''%'', lowerhex (byte_val c div 16), lowerhex (byte_val c mod 16)] else [c]) s)"

text \<open>The directory part of \<^verbatim>\<open>path.Split\<close>.\<close>

definition path_Dir :: "string \<Rightarrow> string" where
  "path_Dir p = rev (dropWhile (\<lambda>c. c \<noteq> CHR ''/'') (rev p))"

definition clean_target :: "string \<Rightarrow> string" where
  "clean_target url =
     (let p = cut_before (CHR ''?'') url; q = cut_from (CHR ''?'') url; cl = path_Clean p in
      (if HasSuffix p ''/'' \<and> \<not> HasSuffix cl ''/'' then cl @ ''/'' else cl) @ q)"

text \<open>
  The target that \<^verbatim>\<open>http.Redirect\<close> puts into the Location header: a target without scheme and
  host is made absolute against the request's path and cleaned, any other is left as it is.
\<close>

definition redirect_target :: "string \<Rightarrow> string \<Rightarrow> string" where
  "redirect_target oldpath url =
     (case Parse url of
        Inl _ \<Rightarrow> url
      | Inr u \<Rightarrow>
          if Scheme u = [] \<and> Host u = [] then
            clean_target (if url = [] \<or> hd url \<noteq> CHR ''/''
              then path_Dir (if oldpath = [] then ''/'' else oldpath) @ url else url)
          else url)"

definition http_Redirect :: "request \<Rightarrow> string \<Rightarrow> int \<Rightarrow> response \<Rightarrow> response" where
  "http_Redirect r url code rw =
     (let target = redirect_target (Path (req_URL r)) url;
          hadCT = ContentType rw \<noteq> None;
          rw1 = set_Location (hexEscapeNonASCII target) rw;
          rw2 = (if \<not> hadCT \<and> (Method r = ''GET'' \<or> Method r = ''HEAD'')
                 then set_ContentType ''text/html; charset=utf-8'' rw1 else rw1);
          rw3 = WriteHeader code rw2
      in if \<not> hadCT \<and> Method r = ''GET'' then Write_Body (Text target) rw3 else rw3)"

definition http_NotFound :: "response \<Rightarrow> response" where
  "http_NotFound rw = Write_Body (Text ''404 page not found'')
     (WriteHeader 404 (set_ContentType ''text/plain; charset=utf-8'' rw))"

section \<open>Rewriting\<close>

lemma new_response_simps [simp]:
  "Status new_response = None" "SetCookies new_response = []" "Location new_response = None"
  "ContentType new_response = None" "Body new_response = []"
  by (simp_all add: new_response_def)

lemma http_SetCookie_simps [simp]:
  "Status (http_SetCookie c rw) = Status rw" "Location (http_SetCookie c rw) = Location rw"
  "ContentType (http_SetCookie c rw) = ContentType rw" "Body (http_SetCookie c rw) = Body rw"
  "SetCookies (http_SetCookie c rw) = (if Status rw = None then SetCookies rw @ [c] else SetCookies rw)"
  by (simp_all add: http_SetCookie_def)

lemma WriteHeader_simps [simp]:
  "Status (WriteHeader code rw) = (case Status rw of None \<Rightarrow> Some code | s \<Rightarrow> s)"
  "SetCookies (WriteHeader code rw) = SetCookies rw" "Location (WriteHeader code rw) = Location rw"
  "ContentType (WriteHeader code rw) = ContentType rw" "Body (WriteHeader code rw) = Body rw"
  by (auto simp: WriteHeader_def split: option.splits)

lemma Write_Body_simps [simp]:
  "Status (Write_Body b rw) = (case Status rw of None \<Rightarrow> Some 200 | s \<Rightarrow> s)"
  "SetCookies (Write_Body b rw) = SetCookies rw" "Location (Write_Body b rw) = Location rw"
  "ContentType (Write_Body b rw) = ContentType rw" "Body (Write_Body b rw) = Body rw @ [b]"
  by (simp_all add: Write_Body_def)

lemma set_header_simps [simp]:
  "Status (set_Location l rw) = Status rw" "Status (set_ContentType t rw) = Status rw"
  "SetCookies (set_Location l rw) = SetCookies rw" "SetCookies (set_ContentType t rw) = SetCookies rw"
  "Location (set_ContentType t rw) = Location rw" "ContentType (set_Location l rw) = ContentType rw"
  "Body (set_Location l rw) = Body rw" "Body (set_ContentType t rw) = Body rw"
  "Location (set_Location l rw) = (if Status rw = None then Some l else Location rw)"
  "ContentType (set_ContentType t rw) = (if Status rw = None then Some t else ContentType rw)"
  by (simp_all add: set_Location_def set_ContentType_def)

lemma http_Redirect_simps [simp]:
  "SetCookies (http_Redirect r url code rw) = SetCookies rw"
  "Status (http_Redirect r url code rw) = (case Status rw of None \<Rightarrow> Some code | s \<Rightarrow> s)"
  "Location (http_Redirect r url code rw) = (if Status rw = None
     then Some (hexEscapeNonASCII (redirect_target (Path (req_URL r)) url)) else Location rw)"
  by (simp_all add: http_Redirect_def Let_def split: option.splits)

end
