(* ===== verification/Cookie.thy ===== *)
theory Cookie
  imports Crypto Http
begin

text \<open>
  \<^verbatim>\<open>pkg/cookie\<close>: the options of the program's cookies, and making, encrypting, reading and
  clearing them.
\<close>

section \<open>Options\<close>

definition cookie_Session :: string where "cookie_Session = ''io.nais.wonderwall.session''"
definition cookie_Login :: string where "cookie_Login = ''io.nais.wonderwall.callback''"
definition cookie_LoginLegacy :: string where "cookie_LoginLegacy = ''io.nais.wonderwall.callback.legacy''"
definition cookie_Retry :: string where "cookie_Retry = ''io.nais.wonderwall.retry''"

record options =
  ExpiresIn :: duration
  opt_Domain :: string
  opt_Path :: string
  opt_SameSite :: same_site
  opt_Secure :: bool

definition DefaultOptions :: options where
  "DefaultOptions = \<lparr> ExpiresIn = 0, opt_Domain = [], opt_Path = [], opt_SameSite = SameSiteLaxMode,
     opt_Secure = True \<rparr>"

definition Options_WithDomain :: "string \<Rightarrow> options \<Rightarrow> options" where
  "Options_WithDomain d o' = o'\<lparr> opt_Domain := d \<rparr>"
definition Options_WithExpiresIn :: "duration \<Rightarrow> options \<Rightarrow> options" where
  "Options_WithExpiresIn d o' = o'\<lparr> ExpiresIn := d \<rparr>"
definition Options_WithPath :: "string \<Rightarrow> options \<Rightarrow> options" where
  "Options_WithPath p o' = o'\<lparr> opt_Path := p \<rparr>"
definition Options_WithSameSite :: "same_site \<Rightarrow> options \<Rightarrow> options" where
  "Options_WithSameSite s o' = o'\<lparr> opt_SameSite := s \<rparr>"
definition Options_WithSecure :: "bool \<Rightarrow> options \<Rightarrow> options" where
  "Options_WithSecure s o' = o'\<lparr> opt_Secure := s \<rparr>"

lemmas [accessor_simps] = Options_WithDomain_def Options_WithExpiresIn_def Options_WithPath_def
  Options_WithSameSite_def Options_WithSecure_def

section \<open>Cookies\<close>

definition cookie_Make :: "string \<Rightarrow> string \<Rightarrow> options \<Rightarrow> time \<Rightarrow> cookie" where
  "cookie_Make name v opts now =
     \<lparr> ck_Name = name, ck_Value = v,
       ck_Path = (if length (opt_Path opts) > 0 then opt_Path opts else ''/''),
       ck_Domain = (if length (opt_Domain opts) > 0 then opt_Domain opts else []),
       ck_Expires = Time_Add now (ExpiresIn opts),
       ck_MaxAge = int64_of_float (Duration_Seconds (ExpiresIn opts)),
       ck_HttpOnly = True, ck_Secure = opt_Secure opts, ck_SameSite = opt_SameSite opts \<rparr>"

text \<open>\<^verbatim>\<open>time.Unix(0, 0)\<close> as an instant.\<close>

definition unix_epoch :: time where "unix_epoch = 62135596800 * Second"

definition cookie_Clear :: "string \<Rightarrow> options \<Rightarrow> response \<Rightarrow> response" where
  "cookie_Clear name opts rw = http_SetCookie
     \<lparr> ck_Name = name, ck_Value = [],
       ck_Path = (if length (opt_Path opts) > 0 then opt_Path opts else ''/''),
       ck_Domain = (if length (opt_Domain opts) > 0 then opt_Domain opts else []),
       ck_Expires = unix_epoch, ck_MaxAge = - 1,
       ck_HttpOnly = True, ck_Secure = opt_Secure opts, ck_SameSite = opt_SameSite opts \<rparr> rw"

definition UnsetExpiry :: "cookie \<Rightarrow> cookie" where
  "UnsetExpiry c = c\<lparr> ck_MaxAge := 0, ck_Expires := 0 \<rparr>"

definition Cookie_Encrypt :: "crypter \<Rightarrow> cookie \<Rightarrow> 's world \<Rightarrow> cookie result \<times> 's world" where
  "Cookie_Encrypt crypter c w =
     (case Crypter_Encrypt crypter (ck_Value c) w of
        (Inl e, w1) \<Rightarrow> (Inl e, w1)
      | (Inr ciphertext, w1) \<Rightarrow> (Inr (c\<lparr> ck_Value := EncodeToString StdEncoding ciphertext \<rparr>), w1))"

definition Cookie_Decrypt :: "crypter \<Rightarrow> string \<Rightarrow> string result" where
  "Cookie_Decrypt crypter v =
     (case DecodeString StdEncoding v of
        Inl e \<Rightarrow> Inl e
      | Inr ciphertext \<Rightarrow>
          (case Crypter_Decrypt crypter ciphertext of Inl e \<Rightarrow> Inl e | Inr plaintext \<Rightarrow> Inr plaintext))"

definition cookie_Get :: "request \<Rightarrow> string \<Rightarrow> string result" where
  "cookie_Get r name = Request_Cookie r name"

definition GetDecrypted :: "request \<Rightarrow> string \<Rightarrow> crypter \<Rightarrow> string result" where
  "GetDecrypted r name crypter =
     (case cookie_Get r name of Inl e \<Rightarrow> Inl e | Inr v \<Rightarrow> Cookie_Decrypt crypter v)"

definition EncryptAndSet ::
    "string \<Rightarrow> string \<Rightarrow> options \<Rightarrow> crypter \<Rightarrow> 's world \<Rightarrow> response \<Rightarrow> err \<times> 's world \<times> response" where
  "EncryptAndSet name v opts crypter w rw =
     (let (now, w1) = time_Now w in
      case Cookie_Encrypt crypter (cookie_Make name v opts now) w1 of
        (Inl e, w2) \<Rightarrow> (Some e, w2, rw)
      | (Inr c, w2) \<Rightarrow> (None, w2, http_SetCookie c rw))"

section \<open>The browser\<close>

text \<open>
  What a user agent keeps of a response, as far as names and values go (it is not code of the
  program but what the program's cookies are for): a cookie with a negative \<^verbatim>\<open>Max-Age\<close> is removed,
  any other replaces what was stored under its name.
\<close>

definition store_cookie :: "(string \<times> string) list \<Rightarrow> cookie \<Rightarrow> (string \<times> string) list" where
  "store_cookie jar c = (let rest = filter (\<lambda>p. fst p \<noteq> ck_Name c) jar in
     if ck_MaxAge c < 0 then rest else (ck_Name c, ck_Value c) # rest)"

definition browser_cookies :: "(string \<times> string) list \<Rightarrow> response \<Rightarrow> (string \<times> string) list" where
  "browser_cookies jar rw = foldl store_cookie jar (SetCookies rw)"

section \<open>Correctness\<close>

lemma cookie_Clear_simps [simp]:
  "Status (cookie_Clear n opts rw) = Status rw" "Location (cookie_Clear n opts rw) = Location rw"
  "ContentType (cookie_Clear n opts rw) = ContentType rw" "Body (cookie_Clear n opts rw) = Body rw"
  by (simp_all add: cookie_Clear_def)

lemma Cookie_Encrypt_env [env_intros]:
  "Cookie_Encrypt crypter c w = (r, w') \<Longrightarrow> same_env w w' \<and> store w' = store w"
  by (auto simp: Cookie_Encrypt_def split: prod.splits sum.splits dest!: Crypter_Encrypt_env)

lemma Cookie_Encrypt_Ok:
  assumes "Cookie_Encrypt crypter c w = (Inr c', w')"
  shows "Cookie_Decrypt crypter (ck_Value c') = Inr (ck_Value c)"
    and "c' = c\<lparr> ck_Value := ck_Value c' \<rparr>"
  using assms aes_gcm.Decrypt_Encrypt[of crypter "ck_Value c" w]
  by (auto simp: Cookie_Encrypt_def Cookie_Decrypt_def split: prod.splits sum.splits)

lemma EncryptAndSet_env:
  "EncryptAndSet n v opts crypter w rw = (r, w', rw') \<Longrightarrow> same_env w w' \<and> store w' = store w"
proof -
  assume a: "EncryptAndSet n v opts crypter w rw = (r, w', rw')"
  obtain x w2 where c: "Cookie_Encrypt crypter (cookie_Make n v opts (fst (time_Now w))) (snd (time_Now w)) = (x, w2)"
    by fastforce
  have "w' = w2" using a c by (auto simp: EncryptAndSet_def Let_def time_Now_def split: sum.splits)
  with Cookie_Encrypt_env[OF c] show ?thesis by (auto intro: same_env_trans)
qed

lemma EncryptAndSet_Ok:
  assumes "EncryptAndSet n v opts crypter w rw = (None, w', rw')" "Status rw = None"
  obtains c where "SetCookies rw' = SetCookies rw @ [c]" "ck_Name c = n"
    "Cookie_Decrypt crypter (ck_Value c) = Inr v"
    "c = (cookie_Make n v opts (clock w (ticks w)))\<lparr> ck_Value := ck_Value c \<rparr>"
    "rw' = http_SetCookie c rw"
proof -
  obtain c where c: "Cookie_Encrypt crypter (cookie_Make n v opts (clock w (ticks w)))
      (w\<lparr> ticks := Suc (ticks w) \<rparr>) = (Inr c, w')" and rw: "rw' = http_SetCookie c rw"
    using assms(1) by (auto simp: EncryptAndSet_def Let_def time_Now_def split: prod.splits sum.splits)
  note e = Cookie_Encrypt_Ok[OF c]
  have "ck_Name c = ck_Name ((cookie_Make n v opts (clock w (ticks w)))\<lparr> ck_Value := ck_Value c \<rparr>)"
    using e(2) by simp
  then have "ck_Name c = n" by (simp add: cookie_Make_def)
  moreover have "Cookie_Decrypt crypter (ck_Value c) = Inr v" using e(1) by (simp add: cookie_Make_def)
  ultimately show thesis using e(2) assms(2) by (intro that[of c]) (simp_all add: rw)
qed

lemma EncryptAndSet_total:
  assumes "aes_key_ok (key crypter)" "entropy_ok w (draws w)"
  obtains w' rw' where "EncryptAndSet n v opts crypter w rw = (None, w', rw')"
proof -
  have "entropy_ok (w\<lparr> ticks := Suc (ticks w) \<rparr>) (draws (w\<lparr> ticks := Suc (ticks w) \<rparr>))" using assms(2) by simp
  from Crypter_Encrypt_total[OF assms(1) this] obtain ct w1 where
    "Crypter_Encrypt crypter v (w\<lparr> ticks := Suc (ticks w) \<rparr>) = (Inr ct, w1)" .
  then show thesis
    by (intro that) (simp add: EncryptAndSet_def Cookie_Encrypt_def time_Now_def cookie_Make_def)
qed

lemma EncryptAndSet_Err:
  "EncryptAndSet n v opts crypter w rw = (Some e, w', rw') \<Longrightarrow> rw' = rw"
  by (auto simp: EncryptAndSet_def Let_def split: prod.splits sum.splits)

lemma map_of_filter_neq: "map_of (filter (\<lambda>p. fst p \<noteq> k) xs) k' = (if k' = k then None else map_of xs k')"
  by (induction xs) auto

lemma map_of_store_cookie:
  "map_of (store_cookie jar c) n =
     (if n = ck_Name c then (if ck_MaxAge c < 0 then None else Some (ck_Value c)) else map_of jar n)"
  by (simp add: store_cookie_def Let_def map_of_filter_neq)

lemma browser_cookies_simps [simp]:
  "Status rw = None \<Longrightarrow> map_of (browser_cookies jar (http_SetCookie c rw)) n =
     (if n = ck_Name c then (if ck_MaxAge c < 0 then None else Some (ck_Value c)) else map_of (browser_cookies jar rw) n)"
  "Status rw = None \<Longrightarrow> map_of (browser_cookies jar (cookie_Clear m opts rw)) n =
     (if n = m then None else map_of (browser_cookies jar rw) n)"
  "browser_cookies jar (http_Redirect r u code rw) = browser_cookies jar rw"
  "browser_cookies jar (WriteHeader code rw) = browser_cookies jar rw"
  "browser_cookies jar (Write_Body b rw) = browser_cookies jar rw"
  "browser_cookies jar (set_ContentType t rw) = browser_cookies jar rw"
  "browser_cookies jar new_response = jar"
  by (simp_all add: browser_cookies_def map_of_store_cookie cookie_Clear_def)

lemma EncryptAndSet_jar:
  assumes "EncryptAndSet n v opts crypter w rw = (None, w', rw')"
    and "Status rw = None" and "0 \<le> ExpiresIn opts" and "is_duration (ExpiresIn opts)"
  obtains cv where "map_of (browser_cookies jar rw') n = Some cv" "Cookie_Decrypt crypter cv = Inr v"
    "\<And>n'. n' \<noteq> n \<Longrightarrow> map_of (browser_cookies jar rw') n' = map_of (browser_cookies jar rw) n'"
    "Status rw' = None" "Location rw' = Location rw" "Body rw' = Body rw"
proof -
  obtain c where c: "SetCookies rw' = SetCookies rw @ [c]" "ck_Name c = n"
      "Cookie_Decrypt crypter (ck_Value c) = Inr v"
      "c = (cookie_Make n v opts (clock w (ticks w)))\<lparr> ck_Value := ck_Value c \<rparr>" "rw' = http_SetCookie c rw"
    using assms(1,2) by (rule EncryptAndSet_Ok)
  have "ck_MaxAge c = ck_MaxAge ((cookie_Make n v opts (clock w (ticks w)))\<lparr> ck_Value := ck_Value c \<rparr>)"
    using c(4) by simp
  also have "\<dots> = int64_of_float (Duration_Seconds (ExpiresIn opts))" by (simp add: cookie_Make_def)
  finally have "ck_MaxAge c = int64_of_float (Duration_Seconds (ExpiresIn opts))" .
  moreover have "0 \<le> ExpiresIn opts div Second" using assms(3) by (simp add: Second_def)
  moreover have "ExpiresIn opts \<le> maxDuration" using assms(4) by (simp add: is_duration_def)
  ultimately have "\<not> ck_MaxAge c < 0" using int64_Seconds_bounds(1)[of "ExpiresIn opts"] assms(3) by linarith
  then show thesis using c assms(2) by (intro that[of "ck_Value c"]) simp_all
qed

text \<open>
  A cookie that was encrypted and set comes back: if the user agent stores the response's
  cookies and presents them with the next request, the program decrypts the value it set, provided
  the cookie's lifetime is not negative.
\<close>

theorem cookie_round_trip:
  assumes "EncryptAndSet n v opts crypter w rw = (None, w', rw')"
    and "Status rw = None" and "0 \<le> ExpiresIn opts" and "is_duration (ExpiresIn opts)"
    and "Cookies r = browser_cookies jar rw'"
  shows "GetDecrypted r n crypter = Inr v"
proof -
  obtain cv where "map_of (browser_cookies jar rw') n = Some cv" "Cookie_Decrypt crypter cv = Inr v"
    using EncryptAndSet_jar[OF assms(1-4), of jar] by blast
  then show ?thesis using assms(5) by (simp add: GetDecrypted_def cookie_Get_def Request_Cookie_def)
qed

theorem cookie_round_trip_witness:
  "\<exists>w' rw' r. EncryptAndSet ''c'' ''v'' DefaultOptions \<lparr> key = replicate 32 CHR 0x00 \<rparr> (quiet_world 0 ())
       new_response = (None, w', rw')
     \<and> GetDecrypted r ''c'' \<lparr> key = replicate 32 CHR 0x00 \<rparr> = Inr ''v''"
proof -
  let ?c = "\<lparr> key = replicate 32 CHR 0x00 \<rparr>"
  have "aes_key_ok (key ?c)" "entropy_ok (quiet_world 0 ()) (draws (quiet_world 0 ()))"
    by (simp_all add: aes_key_ok_def quiet_world_def)
  then obtain w' rw' where e:
      "EncryptAndSet ''c'' ''v'' DefaultOptions ?c (quiet_world 0 ()) new_response = (None, w', rw')"
    by (rule EncryptAndSet_total)
  obtain r :: request where r: "Cookies r = browser_cookies [] rw'" by (metis request.select_convs(5))
  have "GetDecrypted r ''c'' ?c = Inr ''v''"
    by (rule cookie_round_trip[OF e _ _ _ r]) (simp_all add: DefaultOptions_def is_duration_def maxDuration_def minDuration_def)
  with e show ?thesis by blast
qed

text \<open>
  Clearing a cookie makes the user agent forget it, and no other: its expiry lies in the past,
  its lifetime is negative, and it has the name, path and domain the cookie was set with.
\<close>

theorem cookie_clear_correct:
  assumes "Status rw = None"
  shows "map_of (browser_cookies jar (cookie_Clear n opts rw)) n' =
      (if n' = n then None else map_of (browser_cookies jar rw) n')
    \<and> ck_Path (last (SetCookies (cookie_Clear n opts rw))) = ck_Path (cookie_Make n v opts now)
    \<and> ck_Domain (last (SetCookies (cookie_Clear n opts rw))) = ck_Domain (cookie_Make n v opts now)"
  using assms by (simp add: browser_cookies_def cookie_Clear_def map_of_store_cookie cookie_Make_def)

theorem cookie_clear_correct_witness:
  "map_of (browser_cookies [(''a'', ''1''), (''b'', ''2'')] (cookie_Clear ''a'' DefaultOptions new_response)) ''a'' = None
   \<and> map_of (browser_cookies [(''a'', ''1''), (''b'', ''2'')] (cookie_Clear ''a'' DefaultOptions new_response)) ''b''
       = Some ''2''"
proof -
  note c = cookie_clear_correct[of new_response "[(''a'', ''1''), (''b'', ''2'')]" "''a''" DefaultOptions, THEN conjunct1]
  have "browser_cookies jar new_response = jar" for jar by (simp add: browser_cookies_def)
  then show ?thesis using c[of "''a''"] c[of "''b''"] by simp
qed

end
