(* ===== verification/HandlerURL.thy ===== *)
theory HandlerURL
  imports Http
begin

text \<open>
  \<^verbatim>\<open>pkg/handler/url/url.go\<close> and \<^verbatim>\<open>pkg/router/paths\<close>: where a user is sent after login, the login
  URL with its encoded target, and the callback URLs of the program.
\<close>

section \<open>Paths\<close>

definition paths_OAuth2 :: string where "paths_OAuth2 = ''/oauth2''"
definition paths_Login :: string where "paths_Login = ''/login''"
definition paths_LoginCallback :: string where "paths_LoginCallback = ''/callback''"
definition paths_Logout :: string where "paths_Logout = ''/logout''"
definition paths_LogoutCallback :: string where "paths_LogoutCallback = ''/logout/callback''"
definition paths_LogoutFrontChannel :: string where "paths_LogoutFrontChannel = ''/logout/frontchannel''"
definition paths_LogoutLocal :: string where "paths_LogoutLocal = ''/logout/local''"
definition paths_Session :: string where "paths_Session = ''/session''"
definition paths_SessionRefresh :: string where "paths_SessionRefresh = ''/session/refresh''"

lemmas paths_defs = paths_OAuth2_def paths_Login_def paths_LoginCallback_def paths_Logout_def
  paths_LogoutCallback_def paths_LogoutFrontChannel_def paths_LogoutLocal_def paths_Session_def paths_SessionRefresh_def

definition RedirectURLParameter :: string where "RedirectURLParameter = ''redirect''"
definition RedirectURLEncodedParameter :: string where "RedirectURLEncodedParameter = ''redirect-encoded''"

section \<open>Redirect targets\<close>

definition RedirectEncoded :: "string \<Rightarrow> string" where
  "RedirectEncoded s = EncodeToString RawURLEncoding s"

definition RedirectDecoded :: "request \<Rightarrow> string" where
  "RedirectDecoded r =
     (let paramValue = Values_Get (req_Query r) RedirectURLEncodedParameter in
      if length paramValue = 0 then []
      else case DecodeString RawURLEncoding paramValue of Inr bytes \<Rightarrow> bytes | Inl _ \<Rightarrow> [])"

text \<open>The ingress path that \<^verbatim>\<open>CanonicalRedirect\<close> falls back to, and the redirect before it is parsed.\<close>

definition ingress_path :: "request \<Rightarrow> string" where
  "ingress_path r = (case PathFrom r of None \<Rightarrow> ''/'' | Some p \<Rightarrow> if length p = 0 then ''/'' else p)"

definition redirect_value :: "request \<Rightarrow> string" where
  "redirect_value r =
     (let redirect = ingress_path r;
          redirectParam = Values_Get (req_Query r) RedirectURLParameter;
          redirect = (if length redirectParam > 0 then redirectParam else redirect);
          redirectEncoded = RedirectDecoded r
      in if length redirectEncoded > 0 then redirectEncoded else redirect)"

definition CanonicalRedirect :: "request \<Rightarrow> string" where
  "CanonicalRedirect r =
     (case QueryUnescape (redirect_value r) of
        Inl _ \<Rightarrow> ingress_path r
      | Inr redirect \<Rightarrow>
          (case Parse redirect of
             Inl _ \<Rightarrow> ingress_path r
           | Inr parsed \<Rightarrow>
               let parsed = parsed\<lparr> Scheme := [], Host := [] \<rparr>;
                   redirect = URL_String parsed;
                   redirect = (if length (Path parsed) = 0 then ''/'' else redirect)
               in if length redirect = 0 then ingress_path r else redirect))"

definition LoginURL :: "string \<Rightarrow> string \<Rightarrow> string" where
  "LoginURL pfx redirectTarget =
     (let u = empty_url\<lparr> Path := path_Join [pfx, paths_OAuth2, paths_Login] \<rparr>;
          v = Values_Set [] RedirectURLEncodedParameter (RedirectEncoded redirectTarget)
      in URL_String (u\<lparr> RawQuery := Values_Encode v \<rparr>))"

section \<open>Callback URLs\<close>

definition makeCallbackURL :: "request \<Rightarrow> string \<Rightarrow> string result" where
  "makeCallbackURL r callbackPath =
     (case IngressFrom r of
        None \<Rightarrow> Inl (ErrOther ''request host does not match any configured ingresses'')
      | Some match \<Rightarrow> Inr (URL_String (empty_url\<lparr> Host := Host match,
          Path := path_Join [Path match, paths_OAuth2, callbackPath], Scheme := Scheme match \<rparr>)))"

definition LoginCallbackURL :: "request \<Rightarrow> string result" where
  "LoginCallbackURL r = makeCallbackURL r paths_LoginCallback"

definition LogoutCallbackURL :: "request \<Rightarrow> string result" where
  "LogoutCallbackURL r = makeCallbackURL r paths_LogoutCallback"

section \<open>Where a redirect leads\<close>

text \<open>
  A location that a user agent resolves against the origin it came from: it starts with a path, and
  not with the two slashes that introduce a host.
\<close>

definition same_origin :: "string \<Rightarrow> bool" where
  "same_origin s \<longleftrightarrow> s \<noteq> [] \<and> hd s \<in> {CHR ''/'', CHR ''%'', CHR ''.''} \<and> \<not> HasPrefix s ''//''"

lemma escape_char_path: "escape_char encodePath c = [c] \<or> hd (escape_char encodePath c) = CHR ''%''"
  by (auto simp: escape_char_def)

lemma escape_Cons: "escape m (c # s) = escape_char m c @ escape m s"
  by (simp add: escape_def)

lemma escape_char_ne: "escape_char m c \<noteq> []"
  by (simp add: escape_char_def)

lemma slash_path: "escape_char encodePath (CHR ''/'') = ''/''"
  by (simp add: escape_char_def shouldEscape_def is_alpha_def is_digit_def byte_val_def)

lemma HasPrefix_slashes: "HasPrefix s ''//'' \<longleftrightarrow> (\<exists>t. s = CHR ''/'' # CHR ''/'' # t)"
  by (auto simp: HasPrefix_iff)

lemma unescape_path_Cons:
  assumes "c \<noteq> CHR ''%''" "unescape encodePath (c # t) = Inr s"
  shows "\<exists>s'. unescape encodePath t = Inr s' \<and> s = c # s'"
  using assms by (auto simp: bad_escape_def split: if_splits sum.splits)

lemma EscapedPath_same_origin:
  assumes "Path u = CHR ''/'' # p" "\<not> HasPrefix (Path u) ''//''"
  shows "same_origin (EscapedPath u)"
proof -
  have esc: "same_origin (escape encodePath (Path u))"
  proof (cases p)
    case Nil
    then show ?thesis using assms by (simp add: escape_Cons slash_path same_origin_def HasPrefix_slashes) (simp add: escape_def)
  next
    case (Cons c q)
    then have "c \<noteq> CHR ''/''" using assms by (auto simp: HasPrefix_slashes)
    then show ?thesis using assms Cons escape_char_path[of c] escape_char_ne[of encodePath c]
      by (cases "escape_char encodePath c") (auto simp: escape_Cons slash_path same_origin_def HasPrefix_slashes)
  qed
  have raw: "same_origin (RawPath u)" if r: "RawPath u \<noteq> []" "unescape encodePath (RawPath u) = Inr (Path u)"
  proof -
    obtain c t where ct: "RawPath u = c # t" using r by (cases "RawPath u") auto
    show ?thesis
    proof (cases "c = CHR ''%''")
      case False
      then obtain s' where s': "unescape encodePath t = Inr s'" "Path u = c # s'"
        using r unescape_path_Cons[of c t] by (auto simp: ct)
      then have "c = CHR ''/''" using assms by simp
      moreover have "\<not> HasPrefix (c # t) ''//''"
      proof
        assume "HasPrefix (c # t) ''//''"
        then obtain t' where "t = CHR ''/'' # t'" by (auto simp: HasPrefix_slashes)
        then obtain s'' where "s' = CHR ''/'' # s''" using s' unescape_path_Cons[of "CHR ''/''" t'] by auto
        then show False using assms s' by (auto simp: HasPrefix_slashes)
      qed
      ultimately show ?thesis by (simp add: same_origin_def ct)
    qed (simp add: same_origin_def ct HasPrefix_slashes)
  qed
  show ?thesis using esc raw assms by (auto simp: EscapedPath_def)
qed

lemma setPath_simps: "setPath u p = Inr v \<Longrightarrow> Opaque v = Opaque u"
  by (auto simp: setPath_def split: sum.splits)

lemma setFragment_simps: "setFragment u p = Inr v \<Longrightarrow> Opaque v = Opaque u \<and> Path v = Path u"
  by (auto simp: setFragment_def split: sum.splits)

lemma parse_rest_opaque: "parse_rest s r = Inr u \<Longrightarrow> Opaque u \<noteq> [] \<Longrightarrow> Path u = []"
  by (auto simp: parse_rest_def Let_def url_error_def empty_url_def split: if_splits sum.splits prod.splits
      dest!: setPath_simps)

lemma Parse_opaque:
  assumes "Parse s = Inr u" "Opaque u \<noteq> []"
  shows "Path u = []"
proof -
  obtain v where v: "url_parse (cut_before (CHR ''#'') s) = Inr v" "Opaque v = Opaque u" "Path v = Path u"
    using assms(1) by (auto simp: Parse_def split: sum.splits if_splits dest: setFragment_simps)
  then show ?thesis
    using assms(2) parse_rest_opaque
    by (auto simp: url_parse_def url_error_def empty_url_def split: if_splits sum.splits prod.splits)
qed

lemma same_origin_append: "same_origin s \<Longrightarrow> t = [] \<or> hd t \<in> {CHR ''?'', CHR ''#''} \<Longrightarrow> same_origin (s @ t)"
  by (cases s; cases "tl s"; cases t) (auto simp: same_origin_def HasPrefix_slashes)

lemma URL_String_same_origin:
  assumes "Scheme u = []" "Host u = []" "User u = None" "Opaque u = []"
    and "Path u = CHR ''/'' # p" "\<not> HasPrefix (Path u) ''//''"
  shows "same_origin (URL_String u)"
proof -
  define dot where "dot = (if CHR '':'' \<in> set (cut_before (CHR ''/'') (EscapedPath u)) then ''./'' else [])"
  define q where "q = (if ForceQuery u \<or> RawQuery u \<noteq> [] then CHR ''?'' # RawQuery u else []) @
         (if Fragment u \<noteq> [] then CHR ''#'' # EscapedFragment u else [])"
  have e: "same_origin (EscapedPath u)" using assms(5,6) by (rule EscapedPath_same_origin)
  have "URL_String u = (dot @ EscapedPath u) @ q"
    using assms(1-4) by (simp add: URL_String_def Let_def authority_String_def dot_def q_def)
  moreover have "same_origin (dot @ EscapedPath u)"
    using e by (auto simp: dot_def same_origin_def HasPrefix_slashes)
  moreover have "q = [] \<or> hd q \<in> {CHR ''?'', CHR ''#''}" by (auto simp: q_def)
  ultimately show ?thesis using same_origin_append by metis
qed

text \<open>
  Where a login leads afterwards: if the requested redirect, decoded and parsed, has an absolute
  path that does not start with two slashes and no user information, the canonical redirect stays on
  the origin of the program, whatever scheme and host were asked for; an unparsable redirect gives the
  ingress path, and a redirect without a path the root.
\<close>

theorem canonical_redirect_local:
  assumes "\<And>u. QueryUnescape (redirect_value r) = Inr s \<Longrightarrow> Parse s = Inr u \<Longrightarrow>
      Path u = [] \<or> (User u = None \<and> hd (Path u) = CHR ''/'' \<and> \<not> HasPrefix (Path u) ''//'')"
    and "QueryUnescape (redirect_value r) = Inr s" and "same_origin (ingress_path r)"
  shows "same_origin (CanonicalRedirect r)
    \<and> (\<not> is_ok (Parse s) \<longrightarrow> CanonicalRedirect r = ingress_path r)
    \<and> (\<forall>u. Parse s = Inr u \<and> Path u = [] \<longrightarrow> CanonicalRedirect r = ''/'')"
proof (cases "Parse s")
  case (Inl e)
  then show ?thesis using assms by (simp add: CanonicalRedirect_def)
next
  case (Inr u)
  let ?u = "u\<lparr> Scheme := [], Host := [] \<rparr>"
  show ?thesis
  proof (cases "Path u = []")
    case True
    then have "CanonicalRedirect r = ''/''" using Inr assms(2) by (simp add: CanonicalRedirect_def)
    then show ?thesis using Inr by (simp add: same_origin_def HasPrefix_slashes)
  next
    case False
    then obtain p where p: "User u = None" "Path u = CHR ''/'' # p" "\<not> HasPrefix (Path u) ''//''"
      using assms(1)[OF assms(2) Inr] by (cases "Path u") auto
    have "same_origin (URL_String ?u)"
      using p False Parse_opaque[OF Inr] by (intro URL_String_same_origin[of ?u p]) auto
    moreover from this have "URL_String ?u \<noteq> []" by (simp add: same_origin_def)
    ultimately have "CanonicalRedirect r = URL_String ?u"
      using False Inr assms(2) by (simp add: CanonicalRedirect_def Let_def)
    then show ?thesis using \<open>same_origin (URL_String ?u)\<close> False Inr by simp
  qed
qed

definition login_request :: "string \<Rightarrow> request" where
  "login_request query = \<lparr> Method = ''GET'', req_URL = empty_url\<lparr> Path := ''/oauth2/login'', RawQuery := query \<rparr>,
     req_Host = ''app.example'', Header = Map.empty, Cookies = [], ctx_AccessToken = None, ctx_Ingress = None,
     ctx_Path = Some [], ctx_RequestID = [] \<rparr>"

theorem canonical_redirect_local_witness:
  "same_origin (CanonicalRedirect (login_request ''redirect=https://evil.example/path''))
   \<and> CanonicalRedirect (login_request ''redirect=https://evil.example/path'') = ''/path''"
proof -
  let ?r = "login_request ''redirect=https://evil.example/path''"
  have 1: "QueryUnescape (redirect_value ?r) = Inr ''https://evil.example/path''" by code_simp
  have 2: "Parse ''https://evil.example/path'' = Inr (empty_url\<lparr> Scheme := ''https'', Host := ''evil.example'', Path := ''/path'' \<rparr>)"
    by code_simp
  have 3: "same_origin (ingress_path ?r)" by code_simp
  have "CanonicalRedirect ?r = ''/path''" by code_simp
  moreover have "same_origin (CanonicalRedirect ?r)"
    by (rule canonical_redirect_local[THEN conjunct1, OF _ 1 3])
      (use 2 in \<open>auto simp: empty_url_def HasPrefix_slashes\<close>)
  ultimately show ?thesis by blast
qed


section \<open>The login URL\<close>

lemma cut_after_append: "c \<notin> set s \<Longrightarrow> cut_after c (s @ c # t) = t"
  by (induction s) (auto simp: cut_after_def)

lemma escape_path_free: "CHR ''?'' \<notin> set (escape encodePath s)" "CHR ''#'' \<notin> set (escape encodePath s)"
proof -
  have q: "shouldEscape (CHR ''?'') encodePath" "shouldEscape (CHR ''#'') encodePath"
    by (simp_all add: shouldEscape_def is_alpha_def is_digit_def byte_val_def)
  have h: "\<not> query_char (CHR ''?'')" "\<not> query_char (CHR ''#'')"
    by (simp_all add: query_char_def is_alpha_def is_digit_def byte_val_def)
  have "CHR ''?'' \<notin> set (escape_char encodePath c) \<and> CHR ''#'' \<notin> set (escape_char encodePath c)" for c
    using q h upperhex_query_char[OF byte_val_hex_less(1)[of c]] upperhex_query_char[OF byte_val_hex_less(2)[of c]]
    unfolding escape_char_def by auto
  then show "CHR ''?'' \<notin> set (escape encodePath s)" "CHR ''#'' \<notin> set (escape encodePath s)"
    by (auto simp: escape_def)
qed

lemma LoginURL_RedirectDecoded:
  assumes "RawQuery (req_URL r) = cut_after (CHR ''?'') (LoginURL pfx target)"
  shows "RedirectDecoded r = target"
proof -
  define v where "v = [(RedirectURLEncodedParameter, RedirectEncoded target)]"
  define p where "p = EscapedPath (empty_url\<lparr> Path := path_Join [pfx, paths_OAuth2, paths_Login] \<rparr>)"
  have p: "EscapedPath (empty_url\<lparr> Path := path_Join [pfx, paths_OAuth2, paths_Login], RawQuery := q \<rparr>) = p" for q
    by (simp add: p_def EscapedPath_def)
  have free: "CHR ''?'' \<notin> set p" using escape_path_free by (auto simp: p_def EscapedPath_def empty_url_def)
  have "Values_Encode v \<noteq> []"
    by (simp add: v_def Values_Encode_def encode_pair_def)
  then obtain d where d: "LoginURL pfx target = (d @ p) @ CHR ''?'' # Values_Encode v" "CHR ''?'' \<notin> set d"
    using p by (auto simp: LoginURL_def URL_String_def Let_def authority_String_def empty_url_def Values_Set_def v_def)
  then have "cut_after (CHR ''?'') (LoginURL pfx target) = Values_Encode v"
    using free cut_after_append[of _ "d @ p"] by simp
  then have "Values_Get (req_Query r) RedirectURLEncodedParameter = RedirectEncoded target"
    using assms by (simp add: req_Query_def URL_Query_def) (simp add: v_def Values_Get_def)
  then show ?thesis by (simp add: RedirectDecoded_def RedirectEncoded_def)
qed

text \<open>
  The target of a login survives the login URL: whatever target the program puts into
  \<^verbatim>\<open>redirect-encoded\<close>, the login handler decodes the same target from the query of that URL, below
  every ingress path.
\<close>

theorem login_url_round_trip:
  assumes "RawQuery (req_URL r) = cut_after (CHR ''?'') (LoginURL pfx target)"
  shows "RedirectDecoded r = target"
  using assms by (rule LoginURL_RedirectDecoded)

theorem login_url_round_trip_witness:
  "RedirectDecoded (login_request (cut_after (CHR ''?'') (LoginURL ''/app'' ''/path?a=b&c=%2F''))) = ''/path?a=b&c=%2F''"
  by (rule login_url_round_trip[of _ "''/app''"]) (simp add: login_request_def)

lemma path_Join_ne: "e \<noteq> [] \<Longrightarrow> path_Join [p, e, q] \<noteq> []"
proof -
  assume e: "e \<noteq> []"
  have "path_Clean s \<noteq> []" for s
  proof -
    have "join_with ''/'' es \<noteq> []" if "es \<noteq> []" "[] \<notin> set es" for es
      using that by (induction "''/''" es rule: join_with.induct) auto
    moreover have "[] \<notin> set (clean_elems r st es)" if "[] \<notin> set st" for r st es
      using that by (induction r st es rule: clean_elems.induct) (auto split: list.splits)
    ultimately show ?thesis by (simp add: path_Clean_def Let_def)
  qed
  then show ?thesis using e by (simp add: path_Join_def Let_def)
qed

lemma callback_prefix:
  assumes "e \<noteq> []" "Scheme i \<noteq> []" "Host i \<noteq> []"
  shows "HasPrefix (URL_String (empty_url\<lparr> Host := Host i, Path := path_Join [Path i, e, c], Scheme := Scheme i \<rparr>))
    (Scheme i @ ''://'' @ escape encodeHost (Host i) @ ''/'')"
proof -
  let ?u = "empty_url\<lparr> Host := Host i, Path := path_Join [Path i, e, c], Scheme := Scheme i \<rparr>"
  have ne: "path_Join [Path i, e, c] \<noteq> []" using assms(1) by (rule path_Join_ne)
  then obtain x xs where x: "EscapedPath ?u = x # xs"
    using escape_char_ne by (cases "path_Join [Path i, e, c]"; cases "EscapedPath ?u")
      (auto simp: EscapedPath_def empty_url_def escape_Cons split: if_splits)
  have "URL_String ?u = (Scheme i @ ''://'' @ escape encodeHost (Host i)) @ (if x \<noteq> CHR ''/'' then ''/'' else []) @ x # xs"
    unfolding URL_String_def Let_def x using assms ne by (simp add: authority_String_def empty_url_def)
  then show ?thesis by (auto simp: HasPrefix_iff)
qed

text \<open>
  The callback URL registered with the provider: it is built on the matching ingress and fails
  exactly when the request came through none.
\<close>

theorem callback_url_correct:
  "case IngressFrom r of
      None \<Rightarrow> \<not> is_ok (LoginCallbackURL r) \<and> \<not> is_ok (LogoutCallbackURL r)
    | Some i \<Rightarrow> \<exists>login logout. LoginCallbackURL r = Inr login \<and> LogoutCallbackURL r = Inr logout
        \<and> (Scheme i \<noteq> [] \<and> Host i \<noteq> [] \<longrightarrow>
             HasPrefix login (Scheme i @ ''://'' @ escape encodeHost (Host i) @ ''/'')
           \<and> HasPrefix logout (Scheme i @ ''://'' @ escape encodeHost (Host i) @ ''/''))"
proof (cases "IngressFrom r")
  case None
  then show ?thesis by (simp add: LoginCallbackURL_def LogoutCallbackURL_def makeCallbackURL_def)
next
  case (Some i)
  then show ?thesis
    using callback_prefix[of paths_OAuth2 i paths_LoginCallback] callback_prefix[of paths_OAuth2 i paths_LogoutCallback]
    by (simp add: LoginCallbackURL_def LogoutCallbackURL_def makeCallbackURL_def paths_OAuth2_def)
qed

theorem callback_url_correct_witness:
  "LoginCallbackURL ((login_request [])\<lparr> ctx_Ingress := Some (empty_url\<lparr> Scheme := ''https'', Host := ''h'', Path := ''/app'' \<rparr>) \<rparr>)
     = Inr ''https://h/app/oauth2/callback'' \<and> HasPrefix ''https://h/app/oauth2/callback'' ''https://h/''"
proof -
  let ?i = "empty_url\<lparr> Scheme := ''https'', Host := ''h'', Path := ''/app'' \<rparr>"
  let ?r = "(login_request [])\<lparr> ctx_Ingress := Some ?i \<rparr>"
  have l: "LoginCallbackURL ?r = Inr ''https://h/app/oauth2/callback''" by code_simp
  have "escape encodeHost ''h'' = ''h''" by code_simp
  then show ?thesis using callback_url_correct[of ?r] l by (auto simp: accessor_simps)
qed

end
