(* ===== verification/GoRFC3339.thy ===== *)
theory GoRFC3339
  imports GoURL GoTime
begin

text \<open>
  The text form of \<^verbatim>\<open>time.Time\<close> in JSON: \<^verbatim>\<open>MarshalJSON\<close> writes RFC 3339 with as many
  fractional digits as needed, and fails outside the years 0 to 9999; \<^verbatim>\<open>UnmarshalJSON\<close> parses
  the quoted literal. An instant is a number of nanoseconds since 0001-01-01T00:00:00Z; instants are
  written in UTC (the process runs in UTC).
\<close>

section \<open>The calendar\<close>

definition leap_year :: "int \<Rightarrow> bool" where
  "leap_year y \<longleftrightarrow> y mod 4 = 0 \<and> (y mod 100 \<noteq> 0 \<or> y mod 400 = 0)"

definition month_lengths :: "bool \<Rightarrow> int list" where
  "month_lengths leap = [31, if leap then 29 else 28, 31, 30, 31, 30, 31, 31, 30, 31, 30, 31]"

text \<open>Days from 0001-01-01 to the first day of a year.\<close>

definition days_before :: "int \<Rightarrow> int" where
  "days_before y = (let p = y - 1 in 365 * p + p div 4 - p div 100 + p div 400)"

text \<open>The year and the day of the year, by cycles of 400, 100, 4 and 1 years, as \<^verbatim>\<open>absDate\<close> does.\<close>

definition year_of :: "int \<Rightarrow> int \<times> int" where
  "year_of d =
     (let n400 = d div 146097; r = d mod 146097;
          n100 = min 3 (r div 36524); r1 = r - 36524 * n100;
          n4 = r1 div 1461; r2 = r1 mod 1461;
          n1 = min 3 (r2 div 365)
      in (400 * n400 + 100 * n100 + 4 * n4 + n1 + 1, r2 - 365 * n1))"

fun month_of :: "int list \<Rightarrow> int \<Rightarrow> int \<Rightarrow> int \<times> int" where
  "month_of [] m d = (m, d + 1)"
| "month_of (l # ls) m d = (if d < l then (m, d + 1) else month_of ls (m + 1) (d - l))"

definition civil :: "int \<Rightarrow> int \<times> int \<times> int" where
  "civil d = (let (y, yd) = year_of d; (m, dd) = month_of (month_lengths (leap_year y)) 1 yd in (y, m, dd))"

definition days_of :: "int \<Rightarrow> int \<Rightarrow> int \<Rightarrow> int" where
  "days_of y m d = days_before y + sum_list (take (nat (m - 1)) (month_lengths (leap_year y))) + d - 1"

section \<open>Printing\<close>

definition digit :: "int \<Rightarrow> char" where
  "digit n = val_byte (48 + nat n)"

fun digits :: "nat \<Rightarrow> int \<Rightarrow> string" where
  "digits 0 n = []"
| "digits (Suc k) n = digits k (n div 10) @ [digit (n mod 10)]"

definition fraction :: "int \<Rightarrow> string" where
  "fraction ns = (let f = TrimRight (digits 9 ns) (CHR ''0'') in if f = [] then [] else CHR ''.'' # f)"

definition day_ns :: int where "day_ns = 86400 * 1000000000"

definition Time_MarshalJSON :: "time \<Rightarrow> string result" where
  "Time_MarshalJSON t =
     (let (y, m, d) = civil (t div day_ns); s = (t mod day_ns) div 1000000000; ns = t mod 1000000000 in
      if y < 0 \<or> 10000 \<le> y then Inl (ErrOther ''Time.MarshalJSON: year outside of range [0,9999]'')
      else Inr (CHR 0x22 # digits 4 y @ ''-'' @ digits 2 m @ CHR ''-'' # digits 2 d @ ''T''
        @ digits 2 (s div 3600) @ '':'' @ digits 2 (s div 60 mod 60) @ '':'' @ digits 2 (s mod 60)
        @ fraction ns @ [CHR ''Z'', CHR 0x22]))"

section \<open>Parsing\<close>

definition digit_val :: "char \<Rightarrow> int" where
  "digit_val c = int (byte_val c) - 48"

definition digits_val :: "string \<Rightarrow> int" where
  "digits_val s = foldl (\<lambda>n c. n * 10 + digit_val c) 0 s"

definition lit :: "char \<Rightarrow> string \<Rightarrow> string option" where
  "lit c s = (case s of [] \<Rightarrow> None | x # t \<Rightarrow> if x = c then Some t else None)"

text \<open>\<^verbatim>\<open>getnum\<close>: one or two digits; two are required when \<open>fixed\<close>.\<close>

definition getnum :: "bool \<Rightarrow> string \<Rightarrow> (int \<times> string) option" where
  "getnum fixed s =
     (case s of
        [] \<Rightarrow> None
      | a # t \<Rightarrow>
          if \<not> is_digit a then None
          else case t of
            [] \<Rightarrow> if fixed then None else Some (digit_val a, t)
          | b # u \<Rightarrow> if is_digit b then Some (digit_val a * 10 + digit_val b, u)
                    else if fixed then None else Some (digit_val a, t))"

definition getyear :: "string \<Rightarrow> (int \<times> string) option" where
  "getyear s = (if length s < 4 \<or> \<not> list_all is_digit (take 4 s) then None
     else Some (digits_val (take 4 s), drop 4 s))"

definition getfraction :: "string \<Rightarrow> int \<times> string" where
  "getfraction s =
     (case s of
        c # a # t \<Rightarrow>
          if (c = CHR ''.'' \<or> c = CHR '','') \<and> is_digit a then
            let ds = takeWhile is_digit (a # t); v = take 9 ds in
            (digits_val v * 10 ^ (9 - length v), dropWhile is_digit (a # t))
          else (0, s)
      | _ \<Rightarrow> (0, s))"

text \<open>\<^verbatim>\<open>atoi\<close> of the two bytes of an hour or minute offset.\<close>

definition atoi2 :: "char \<Rightarrow> char \<Rightarrow> int option" where
  "atoi2 a b =
     (if \<not> is_digit b then None
      else if is_digit a then Some (digit_val a * 10 + digit_val b)
      else if a = CHR ''+'' then Some (digit_val b)
      else if a = CHR ''-'' then Some (- digit_val b)
      else None)"

text \<open>The zone offset in seconds: \<^verbatim>\<open>Z\<close>, or a sign, hours, a colon and minutes.\<close>

definition getzone :: "string \<Rightarrow> (int \<times> string) option" where
  "getzone s =
     (case s of
        [] \<Rightarrow> None
      | c # t \<Rightarrow>
          if c = CHR ''Z'' then Some (0, t)
          else case t of
            h1 # h2 # co # m1 # m2 # u \<Rightarrow>
              if co \<noteq> CHR '':'' then None
              else (case (atoi2 h1 h2, atoi2 m1 m2) of
                 (Some h, Some m) \<Rightarrow>
                   if c = CHR ''+'' then Some ((h * 60 + m) * 60, u)
                   else if c = CHR ''-'' then Some (- ((h * 60 + m) * 60), u) else None
               | _ \<Rightarrow> None)
          | _ \<Rightarrow> None)"

definition date_ok :: "int \<Rightarrow> int \<Rightarrow> int \<Rightarrow> bool" where
  "date_ok y m d \<longleftrightarrow> 1 \<le> m \<and> m \<le> 12 \<and> 1 \<le> d \<and> d \<le> month_lengths (leap_year y) ! nat (m - 1)"

definition parse_date :: "string \<Rightarrow> ((int \<times> int \<times> int) \<times> string) option" where
  "parse_date s0 =
     (case getyear s0 of None \<Rightarrow> None | Some (y, s1) \<Rightarrow>
      case lit (CHR ''-'') s1 of None \<Rightarrow> None | Some s2 \<Rightarrow>
      case getnum True s2 of None \<Rightarrow> None | Some (m, s3) \<Rightarrow>
      case lit (CHR ''-'') s3 of None \<Rightarrow> None | Some s4 \<Rightarrow>
      case getnum True s4 of None \<Rightarrow> None | Some (d, s5) \<Rightarrow> Some ((y, m, d), s5))"

definition parse_clock :: "string \<Rightarrow> ((int \<times> int \<times> int) \<times> string) option" where
  "parse_clock s0 =
     (case getnum False s0 of None \<Rightarrow> None | Some (h, s1) \<Rightarrow>
      case lit (CHR '':'') s1 of None \<Rightarrow> None | Some s2 \<Rightarrow>
      case getnum True s2 of None \<Rightarrow> None | Some (mi, s3) \<Rightarrow>
      case lit (CHR '':'') s3 of None \<Rightarrow> None | Some s4 \<Rightarrow>
      case getnum True s4 of None \<Rightarrow> None | Some (se, s5) \<Rightarrow>
        if h < 24 \<and> mi < 60 \<and> se < 60 then Some ((h, mi, se), s5) else None)"

definition Time_UnmarshalJSON :: "string \<Rightarrow> time result" where
  "Time_UnmarshalJSON s =
     (let bad = Inl (ErrOther ''parsing time'') in
      case lit (CHR 0x22) s of None \<Rightarrow> bad | Some s0 \<Rightarrow>
      case parse_date s0 of None \<Rightarrow> bad | Some ((y, m, d), s1) \<Rightarrow>
      case lit (CHR ''T'') s1 of None \<Rightarrow> bad | Some s2 \<Rightarrow>
      case parse_clock s2 of None \<Rightarrow> bad | Some ((h, mi, se), s3) \<Rightarrow>
      case getfraction s3 of (ns, s4) \<Rightarrow>
      case getzone s4 of None \<Rightarrow> bad | Some (zone, s5) \<Rightarrow>
        if s5 = [CHR 0x22] \<and> date_ok y m d
        then Inr (days_of y m d * day_ns + ((h * 60 + mi) * 60 + se - zone) * 1000000000 + ns)
        else bad)"

section \<open>The calendar's round trip\<close>

lemma year_of_parts:
  assumes "year_of d = (y, yd)"
  obtains a b c e :: int where "y = 400 * a + 100 * b + 4 * c + e + 1"
    "d = 146097 * a + 36524 * b + 1461 * c + 365 * e + yd"
    "0 \<le> b" "b \<le> 3" "0 \<le> c" "c \<le> 24" "0 \<le> e" "e \<le> 3" "0 \<le> yd" "yd \<le> 365"
    "yd = 365 \<longrightarrow> e = 3 \<and> (c = 24 \<longrightarrow> b = 3)"
proof -
  define a r where "a = d div 146097" and "r = d mod 146097"
  define q b r1 where "q = r div 36524" and "b = min 3 q" and "r1 = r - 36524 * b"
  define c r2 where "c = r1 div 1461" and "r2 = r1 mod 1461"
  define p e where "p = r2 div 365" and "e = min 3 p"
  have y: "y = 400 * a + 100 * b + 4 * c + e + 1" "yd = r2 - 365 * e"
    using assms unfolding year_of_def Let_def prod.inject
    by (simp_all only: a_def r_def q_def b_def r1_def c_def r2_def p_def e_def)
  have r: "0 \<le> r" "r < 146097" "d = 146097 * a + r" by (simp_all add: a_def r_def)
  obtain s where s: "r = 36524 * q + s" "0 \<le> s" "s < 36524"
    by (rule that[of "r mod 36524"]) (simp_all add: q_def)
  have b: "0 \<le> b" "b \<le> 3" "0 \<le> r1" "r1 \<le> 36524" "r1 = 36524 \<longrightarrow> b = 3"
    using r(1,2) s unfolding b_def r1_def min_def by auto
  have c: "0 \<le> r2" "r2 < 1461" "r1 = 1461 * c + r2" by (simp_all add: c_def r2_def)
  obtain t where t: "r2 = 365 * p + t" "0 \<le> t" "t < 365"
    by (rule that[of "r2 mod 365"]) (simp_all add: p_def)
  have e: "0 \<le> e" "e \<le> 3" "0 \<le> r2 - 365 * e" "r2 - 365 * e \<le> 365" "r2 - 365 * e = 365 \<longrightarrow> r2 = 1460 \<and> e = 3"
    using c(1,2) t unfolding e_def min_def by auto
  show thesis
  proof (rule that[of a b c e])
    show "d = 146097 * a + 36524 * b + 1461 * c + 365 * e + yd"
      using r(3) c(3) y(2) r1_def by linarith
    show "0 \<le> c" "c \<le> 24" using b(3,4) c by linarith+
    show "yd = 365 \<longrightarrow> e = 3 \<and> (c = 24 \<longrightarrow> b = 3)"
      using e(5) c(3) b(5) y(2) by auto
  qed (use y b e in auto)
qed

lemma sum_month_lengths: "sum_list (month_lengths l) = (if l then 366 else 365)"
  by (simp add: month_lengths_def)

lemma year_of_bounds:
  assumes "year_of d = (y, yd)"
  shows "days_before y + yd = d" "0 \<le> yd" "yd < sum_list (month_lengths (leap_year y))"
proof -
  obtain a b c e where p: "y = 400 * a + 100 * b + 4 * c + e + 1"
      "d = 146097 * a + 36524 * b + 1461 * c + 365 * e + yd"
      "0 \<le> b" "b \<le> 3" "0 \<le> c" "c \<le> 24" "0 \<le> e" "e \<le> 3" "0 \<le> yd" "yd \<le> 365"
      "yd = 365 \<longrightarrow> e = 3 \<and> (c = 24 \<longrightarrow> b = 3)"
    using assms by (rule year_of_parts)
  let ?p = "400 * a + 100 * b + 4 * c + e"
  have "?p div 4 = 100 * a + 25 * b + c" by (rule int_div_pos_eq[of _ _ _ e]) (use p(7,8) in simp_all)
  moreover have "?p div 100 = 4 * a + b" by (rule int_div_pos_eq[of _ _ _ "4 * c + e"]) (use p(5-8) in simp_all)
  moreover have "?p div 400 = a" by (rule int_div_pos_eq[of _ _ _ "100 * b + 4 * c + e"]) (use p(3-8) in simp_all)
  ultimately show "days_before y + yd = d" using p(1,2) by (simp add: days_before_def Let_def)
  show "0 \<le> yd" by (rule p(9))
  show "yd < sum_list (month_lengths (leap_year y))"
  proof (cases "yd = 365")
    case True
    then have e: "e = 3" "c = 24 \<longrightarrow> b = 3" using p(11) by auto
    have "y = 4 * (100 * a + 25 * b + c + 1)" using p(1) e by simp
    then have 4: "y mod 4 = 0" by simp
    have "y mod 400 = 0" if "y mod 100 = 0"
    proof -
      have "y = 100 * (4 * a + b) + (4 * c + 4)" using p(1) e by simp
      then have "y mod 100 = (4 * c + 4) mod 100" by (simp only: mod_mult_self4)
      with that have "(4 * c + 4) mod 100 = 0" by simp
      then have "\<not> 4 * c + 4 < 100" using p(5) mod_pos_pos_trivial[of "4 * c + 4" 100] by linarith
      with p(6) have "c = 24" by simp
      with e have "y = 400 * (a + 1)" using p(1) by simp
      then show ?thesis by simp
    qed
    with 4 have "leap_year y" by (auto simp: leap_year_def)
    then show ?thesis using True by (simp add: sum_month_lengths)
  next
    case False
    then show ?thesis using p(10) by (simp add: sum_month_lengths)
  qed
qed

lemma month_of_bounds:
  assumes "month_of ls m d = (m', d')" "0 \<le> d" "d < sum_list ls"
  shows "m \<le> m' \<and> m' < m + int (length ls) \<and> 1 \<le> d' \<and> d' \<le> ls ! nat (m' - m)
    \<and> sum_list (take (nat (m' - m)) ls) + d' - 1 = d"
  using assms
proof (induction ls arbitrary: m d)
  case (Cons l ls)
  show ?case
  proof (cases "d < l")
    case True
    then show ?thesis using Cons.prems by auto
  next
    case False
    then have "m + 1 \<le> m' \<and> m' < m + 1 + int (length ls) \<and> 1 \<le> d' \<and> d' \<le> ls ! nat (m' - (m + 1))
      \<and> sum_list (take (nat (m' - (m + 1))) ls) + d' - 1 = d - l"
      using Cons.prems by (intro Cons.IH) auto
    moreover from this have "nat (m' - m) = Suc (nat (m' - (m + 1)))" by linarith
    ultimately show ?thesis by auto
  qed
qed simp

lemma civil_correct:
  assumes "civil n = (y, m, d)"
  shows "days_of y m d = n" "1 \<le> m" "m \<le> 12" "1 \<le> d" "d \<le> month_lengths (leap_year y) ! nat (m - 1)" "d \<le> 31"
proof -
  obtain yd where y: "year_of n = (y, yd)" and m: "month_of (month_lengths (leap_year y)) 1 yd = (m, d)"
    using assms by (auto simp: civil_def split: prod.splits)
  note yb = year_of_bounds[OF y]
  note mb = month_of_bounds[OF m yb(2,3)]
  show "days_of y m d = n" using mb yb(1) by (simp add: days_of_def)
  have l: "length (month_lengths (leap_year y)) = 12" by (simp add: month_lengths_def)
  show b: "1 \<le> m" "m \<le> 12" "1 \<le> d" and d: "d \<le> month_lengths (leap_year y) ! nat (m - 1)"
    using mb l by simp_all
  have "nat (m - 1) < 12" using b by linarith
  then have "month_lengths (leap_year y) ! nat (m - 1) \<in> set (month_lengths (leap_year y))"
    using l by (intro nth_mem) simp
  then have "month_lengths (leap_year y) ! nat (m - 1) \<le> 31" by (auto simp: month_lengths_def split: if_splits)
  with d show "d \<le> 31" by linarith
qed

section \<open>Printing and parsing\<close>

lemma digit_simps:
  assumes "0 \<le> n" "n < 10"
  shows "is_digit (digit n)" "digit_val (digit n) = n"
  using assms by (simp_all add: digit_def is_digit_def digit_val_def byte_val_def val_byte_def)

lemma length_digits [simp]: "length (digits k n) = k"
  by (induction k arbitrary: n) auto

lemma all_digits: "list_all is_digit (digits k n)"
  by (induction k arbitrary: n) (auto simp: digit_simps)

lemma digits_val_append: "digits_val (s @ t) = digits_val s * 10 ^ length t + digits_val t"
proof (induction t rule: rev_induct)
  case (snoc c t)
  then show ?case
    unfolding append_assoc[symmetric] by (simp add: digits_val_def algebra_simps)
qed (simp add: digits_val_def)

lemma digits_val_digits: "0 \<le> n \<Longrightarrow> digits_val (digits k n) = n mod 10 ^ k"
proof (induction k arbitrary: n)
  case (Suc k)
  have "digits_val (digits (Suc k) n) = (n div 10 mod 10 ^ k) * 10 + n mod 10"
    using Suc by (simp add: digits_val_append digits_val_def[of "[_]"] digit_simps)
  also have "\<dots> = n mod 10 ^ Suc k" using zmod_zmult2_eq[of "10 ^ k" n 10] by simp
  finally show ?case .
qed (simp add: digits_val_def)

lemma getyear_digits: "0 \<le> y \<Longrightarrow> y < 10000 \<Longrightarrow> getyear (digits 4 y @ s) = Some (y, s)"
  using all_digits[of 4 y] digits_val_digits[of y 4] by (simp add: getyear_def)

lemma getnum_digits:
  assumes "0 \<le> n" "n < 100"
  shows "getnum f (digits 2 n @ s) = Some (n, s)"
proof -
  have "digits 2 n = [digit (n div 10), digit (n mod 10)]"
    using assms by (simp add: numeral_2_eq_2)
  moreover have "0 \<le> n div 10" "n div 10 < 10" "0 \<le> n mod 10" "n mod 10 < 10" using assms by auto
  ultimately show ?thesis using assms by (simp add: getnum_def digit_simps)
qed

lemma digits_val_zeros: "digits_val (replicate k (CHR ''0'')) = 0"
  by (induction k) (simp_all add: digits_val_def digit_val_def byte_val_def flip: replicate_append_same)

lemma not_digit_Z: "\<not> is_digit (CHR ''Z'')" "\<not> is_digit (CHR ''.'')"
  by (simp_all add: is_digit_def byte_val_def)

lemma getfraction_fraction:
  assumes "0 \<le> ns" "ns < 1000000000"
  shows "getfraction (fraction ns @ CHR ''Z'' # s) = (ns, CHR ''Z'' # s)"
proof -
  define f where "f = TrimRight (digits 9 ns) (CHR ''0'')"
  obtain k where k: "digits 9 ns = f @ replicate k (CHR ''0'')" using TrimRight_decomp f_def by blast
  have len: "length f + k = 9" using arg_cong[OF k, of length] by simp
  have v: "digits_val f * 10 ^ k = ns"
    using digits_val_digits[of ns 9] assms by (simp add: k digits_val_append digits_val_zeros)
  have dig: "list_all is_digit f" using all_digits[of 9 ns] by (simp add: k)
  show ?thesis
  proof (cases f)
    case Nil
    then have "ns = 0" using v by (simp add: digits_val_def)
    moreover have "fraction ns = []" using Nil by (simp add: fraction_def flip: f_def)
    ultimately show ?thesis by (cases s) (simp_all add: getfraction_def)
  next
    case (Cons a t)
    then have d: "is_digit a" "\<forall>x \<in> set (a # t). is_digit x" using dig by (auto simp: list_all_iff)
    have tw: "takeWhile is_digit ((a # t) @ CHR ''Z'' # s) = a # t"
      "dropWhile is_digit ((a # t) @ CHR ''Z'' # s) = CHR ''Z'' # s"
      using d(2) by (simp_all add: takeWhile_append dropWhile_append not_digit_Z)
    have k9: "9 - length (a # t) = k" "length (a # t) \<le> 9" using len Cons by auto
    have fr: "fraction ns = CHR ''.'' # a # t" using Cons by (simp add: fraction_def flip: f_def)
    have "getfraction (fraction ns @ CHR ''Z'' # s) =
        (digits_val (a # t) * 10 ^ (9 - length (a # t)), CHR ''Z'' # s)"
      using tw d(1) k9(2) by (simp add: fr getfraction_def Let_def)
    then show ?thesis unfolding k9(1) using v Cons by simp
  qed
qed

text \<open>The clock's part of a day.\<close>

lemma clock_parts:
  fixes t :: int
  defines "s \<equiv> (t mod day_ns) div 1000000000"
  shows "0 \<le> s" "s < 86400"
    "(t div day_ns) * day_ns + s * 1000000000 + t mod 1000000000 = t"
proof -
  have day: "day_ns = 1000000000 * 86400" by (simp add: day_ns_def)
  have s: "s = (t div 1000000000) mod 86400" unfolding s_def day using zmod_zmult2_eq[of 86400 t 1000000000]
    by simp
  then show "0 \<le> s" "s < 86400" by simp_all
  have "t div day_ns = t div 1000000000 div 86400" unfolding day by (simp add: zdiv_zmult2_eq)
  then have "(t div day_ns) * 86400 + s = t div 1000000000" unfolding s by simp
  then have "((t div day_ns) * 86400 + s) * 1000000000 + t mod 1000000000 = t" by simp
  then show "(t div day_ns) * day_ns + s * 1000000000 + t mod 1000000000 = t"
    unfolding day by (simp add: algebra_simps)
qed

lemma parse_date_digits:
  assumes "0 \<le> y" "y < 10000" "1 \<le> m" "m \<le> 12" "1 \<le> d" "d \<le> 31"
  shows "parse_date (digits 4 y @ CHR ''-'' # digits 2 m @ CHR ''-'' # digits 2 d @ s) = Some ((y, m, d), s)"
  using assms by (simp add: parse_date_def getyear_digits getnum_digits lit_def)

lemma parse_clock_digits:
  assumes "0 \<le> h" "h < 24" "0 \<le> m" "m < 60" "0 \<le> se" "se < 60"
  shows "parse_clock (digits 2 h @ CHR '':'' # digits 2 m @ CHR '':'' # digits 2 se @ s) = Some ((h, m, se), s)"
  using assms by (simp add: parse_clock_def getnum_digits lit_def)

lemma sexagesimal:
  fixes s :: int
  assumes "0 \<le> s" "s < 86400"
  shows "0 \<le> s div 3600" "s div 3600 < 24" "((s div 3600) * 60 + s div 60 mod 60) * 60 + s mod 60 = s"
proof -
  show "0 \<le> s div 3600" "s div 3600 < 24" using assms by auto
  have "s div 3600 = s div 60 div 60" using zdiv_zmult2_eq[of 60 s 60] by simp
  then have "(s div 3600) * 60 + s div 60 mod 60 = s div 60" by simp
  then show "((s div 3600) * 60 + s div 60 mod 60) * 60 + s mod 60 = s" by simp
qed

lemma Time_Unmarshal_Marshal:
  assumes "Time_MarshalJSON t = Inr s"
  shows "Time_UnmarshalJSON s = Inr t"
proof -
  obtain y m d where c: "civil (t div day_ns) = (y, m, d)" by (metis prod_cases3)
  note cc = civil_correct[OF c]
  define se where "se = (t mod day_ns) div 1000000000"
  define h mi sec where "h = se div 3600" and "mi = se div 60 mod 60" and "sec = se mod 60"
  note cp = clock_parts[of t, folded se_def]
  note sx = sexagesimal[OF cp(1,2), folded h_def mi_def sec_def]
  have y: "0 \<le> y" "y < 10000" using assms c by (auto simp: Time_MarshalJSON_def Let_def split: if_splits)
  have s: "s = CHR 0x22 # (digits 4 y @ ''-'' @ digits 2 m @ CHR ''-'' # digits 2 d @ CHR ''T'' #
      (digits 2 h @ '':'' @ digits 2 mi @ '':'' @ digits 2 sec @ (fraction (t mod 1000000000) @ [CHR ''Z'', CHR 0x22])))"
    using assms c y unfolding h_def mi_def sec_def se_def
    by (simp add: Time_MarshalJSON_def Let_def)
  have pd: "parse_date (digits 4 y @ CHR ''-'' # digits 2 m @ CHR ''-'' # digits 2 d @ u) = Some ((y, m, d), u)" for u
    using y cc by (intro parse_date_digits) auto
  have pc: "parse_clock (digits 2 h @ CHR '':'' # digits 2 mi @ CHR '':'' # digits 2 sec @ u) = Some ((h, mi, sec), u)" for u
    using sx by (intro parse_clock_digits) (auto simp: mi_def sec_def)
  have fr: "getfraction (fraction (t mod 1000000000) @ [CHR ''Z'', CHR 0x22]) = (t mod 1000000000, [CHR ''Z'', CHR 0x22])"
    by (rule getfraction_fraction) simp_all
  have "date_ok y m d" using cc by (simp add: date_ok_def)
  then have "Time_UnmarshalJSON s = Inr (days_of y m d * day_ns + ((h * 60 + mi) * 60 + sec - 0) * 1000000000
      + t mod 1000000000)"
    unfolding s Time_UnmarshalJSON_def Let_def lit_def
    by (simp add: pd pc fr getzone_def)
  then show ?thesis using cc(1) sx(3) cp(3) by simp
qed

text \<open>Every instant of the years 1 to 9999 can be written.\<close>

lemma year_of_range:
  assumes "year_of d = (y, yd)" "0 \<le> d" "d < 3652059"
  shows "1 \<le> y" "y \<le> 9999"
proof -
  obtain a b c e where p: "y = 400 * a + 100 * b + 4 * c + e + 1"
      "d = 146097 * a + 36524 * b + 1461 * c + 365 * e + yd"
      "0 \<le> b" "b \<le> 3" "0 \<le> c" "c \<le> 24" "0 \<le> e" "e \<le> 3" "0 \<le> yd" "yd \<le> 365"
    using assms(1) by (rule year_of_parts)
  have "0 \<le> a" using p assms(2) by linarith
  then show "1 \<le> y" using p by linarith
  have "a \<le> 24" using p assms(3) by linarith
  moreover have "\<not> (a = 24 \<and> b = 3 \<and> c = 24 \<and> e = 3)" using p(2,9) assms(3) by auto
  moreover have "a = 24 \<and> b = 3 \<and> c = 24 \<and> e = 3" if "9999 < y" "a \<le> 24"
  proof -
    have "a = 24" using that p by linarith
    moreover from this have "b = 3" using that p by linarith
    moreover from calculation have "c = 24" using that p by linarith
    ultimately show ?thesis using that p by linarith
  qed
  ultimately show "y \<le> 9999" by linarith
qed

lemma Time_MarshalJSON_ok:
  assumes "0 \<le> t" "t < 3652059 * day_ns"
  shows "\<exists>s. Time_MarshalJSON t = Inr s"
proof -
  obtain y m d where c: "civil (t div day_ns) = (y, m, d)" by (metis prod_cases3)
  then obtain yd where y: "year_of (t div day_ns) = (y, yd)" by (auto simp: civil_def split: prod.splits)
  have "0 \<le> t div day_ns" "t div day_ns < 3652059"
    using assms by (simp_all add: day_ns_def)
  with year_of_range[OF y] show ?thesis by (simp add: Time_MarshalJSON_def c Let_def)
qed

end
