(* ===== verification/GoJSON.thy ===== *)
theory GoJSON
  imports GoRFC3339
begin

text \<open>
  Go's \<^verbatim>\<open>encoding/json\<close> as the program uses it: \<^verbatim>\<open>Marshal\<close> of structs of strings, times and
  nested structs, and \<^verbatim>\<open>Unmarshal\<close> of any text into such a struct. A string value is kept as the
  literal's raw text, because \<^verbatim>\<open>time.Time\<close> parses the raw literal while a string field decodes it.
  Decoding into a struct matches keys exactly or else case-insensitively, ignores unknown keys and
  null, decodes duplicates in order and reports a value of the wrong type as an error.
\<close>

section \<open>Values and text\<close>

datatype json = JNull | JBool bool | JNum string | JStr string | JArr "json list" | JObj "(string \<times> json) list"

fun skip_ws :: "string \<Rightarrow> string" where
  "skip_ws [] = []"
| "skip_ws (c # s) = (if byte_val c \<in> {32, 9, 13, 10} then skip_ws s else c # s)"

definition expect :: "char \<Rightarrow> string \<Rightarrow> string option" where
  "expect c s = lit c (skip_ws s)"

definition escape_letter :: "char \<Rightarrow> bool" where
  "escape_letter c \<longleftrightarrow> byte_val c \<in> {34, 92, 47, 98, 102, 110, 114, 116}"

text \<open>The raw text of a string literal up to its closing quote, and what follows.\<close>

fun scan_string :: "string \<Rightarrow> (string \<times> string) option" where
  "scan_string [] = None"
| "scan_string (c # s) =
     (if c = CHR 0x22 then Some ([], s)
      else if c = CHR 0x5C then
        (case s of
           [] \<Rightarrow> None
         | e # t \<Rightarrow>
             if escape_letter e then map_option (\<lambda>(r, u). (c # e # r, u)) (scan_string t)
             else if e = CHR ''u'' then
               (case t of
                  h1 # h2 # h3 # h4 # v \<Rightarrow>
                    if ishex h1 \<and> ishex h2 \<and> ishex h3 \<and> ishex h4
                    then map_option (\<lambda>(r, u). (c # e # h1 # h2 # h3 # h4 # r, u)) (scan_string v) else None
                | _ \<Rightarrow> None)
             else None)
      else if byte_val c < 32 then None
      else map_option (\<lambda>(r, u). (c # r, u)) (scan_string s))"

text \<open>A number literal: sign, integer part without leading zeros, fraction, exponent.\<close>

definition scan_int :: "string \<Rightarrow> (string \<times> string) option" where
  "scan_int s =
     (case s of
        [] \<Rightarrow> None
      | c # t \<Rightarrow> if c = CHR ''0'' then Some ([c], t)
                else if is_digit c then Some (takeWhile is_digit s, dropWhile is_digit s) else None)"

definition scan_frac :: "string \<Rightarrow> (string \<times> string) option" where
  "scan_frac s =
     (case s of
        [] \<Rightarrow> Some ([], [])
      | c # t \<Rightarrow> if c = CHR ''.''
                then (if takeWhile is_digit t = [] then None
                      else Some (c # takeWhile is_digit t, dropWhile is_digit t))
                else Some ([], s))"

definition scan_exp :: "string \<Rightarrow> (string \<times> string) option" where
  "scan_exp s =
     (case s of
        [] \<Rightarrow> Some ([], [])
      | c # t \<Rightarrow>
          if c = CHR ''e'' \<or> c = CHR ''E'' then
            let sg = (case t of [] \<Rightarrow> [] | x # _ \<Rightarrow> if x = CHR ''+'' \<or> x = CHR ''-'' then [x] else []);
                u = drop (length sg) t in
            if takeWhile is_digit u = [] then None
            else Some (c # sg @ takeWhile is_digit u, dropWhile is_digit u)
          else Some ([], s))"

definition scan_number :: "string \<Rightarrow> (string \<times> string) option" where
  "scan_number s =
     (let sg = (case s of [] \<Rightarrow> [] | x # _ \<Rightarrow> if x = CHR ''-'' then [x] else []) in
      case scan_int (drop (length sg) s) of None \<Rightarrow> None | Some (i, s1) \<Rightarrow>
      case scan_frac s1 of None \<Rightarrow> None | Some (f, s2) \<Rightarrow>
      case scan_exp s2 of None \<Rightarrow> None | Some (e, s3) \<Rightarrow> Some (sg @ i @ f @ e, s3))"

definition scan_literal :: "string \<Rightarrow> 'a \<Rightarrow> string \<Rightarrow> ('a \<times> string) option" where
  "scan_literal l v s = (if HasPrefix s l then Some (v, drop (length l) s) else None)"

text \<open>
  The parser. \<open>d\<close> is how deep values may still nest (the library stops at 10000); the fuel is the
  length of the text, of which every call consumes at least one byte.
\<close>

fun parse_value :: "nat \<Rightarrow> nat \<Rightarrow> string \<Rightarrow> (json \<times> string) option"
  and parse_members :: "nat \<Rightarrow> nat \<Rightarrow> string \<Rightarrow> ((string \<times> json) list \<times> string) option"
  and parse_elems :: "nat \<Rightarrow> nat \<Rightarrow> string \<Rightarrow> (json list \<times> string) option" where
  "parse_value 0 d s = None"
| "parse_value (Suc n) d s =
     (case skip_ws s of
        [] \<Rightarrow> None
      | c # t \<Rightarrow>
          if c = CHR ''{'' then
            (if d = 0 then None
             else case expect (CHR ''}'') t of
               Some u \<Rightarrow> Some (JObj [], u)
             | None \<Rightarrow> map_option (\<lambda>(ms, u). (JObj ms, u)) (parse_members n (d - 1) t))
          else if c = CHR ''['' then
            (if d = 0 then None
             else case expect (CHR '']'') t of
               Some u \<Rightarrow> Some (JArr [], u)
             | None \<Rightarrow> map_option (\<lambda>(vs, u). (JArr vs, u)) (parse_elems n (d - 1) t))
          else if c = CHR 0x22 then map_option (\<lambda>(r, u). (JStr r, u)) (scan_string t)
          else if c = CHR ''t'' then scan_literal ''true'' (JBool True) (c # t)
          else if c = CHR ''f'' then scan_literal ''false'' (JBool False) (c # t)
          else if c = CHR ''n'' then scan_literal ''null'' JNull (c # t)
          else map_option (\<lambda>(r, u). (JNum r, u)) (scan_number (c # t)))"
| "parse_members 0 d s = None"
| "parse_members (Suc n) d s =
     (case expect (CHR 0x22) s of None \<Rightarrow> None | Some t \<Rightarrow>
      case scan_string t of None \<Rightarrow> None | Some (k, u) \<Rightarrow>
      case expect (CHR '':'') u of None \<Rightarrow> None | Some u1 \<Rightarrow>
      case parse_value n d u1 of None \<Rightarrow> None | Some (v, u2) \<Rightarrow>
      case expect (CHR '','') u2 of
        Some u3 \<Rightarrow> map_option (\<lambda>(ms, r). ((k, v) # ms, r)) (parse_members n d u3)
      | None \<Rightarrow> map_option (\<lambda>r. ([(k, v)], r)) (expect (CHR ''}'') u2))"
| "parse_elems 0 d s = None"
| "parse_elems (Suc n) d s =
     (case parse_value n d s of None \<Rightarrow> None | Some (v, u) \<Rightarrow>
      case expect (CHR '','') u of
        Some u1 \<Rightarrow> map_option (\<lambda>(vs, r). (v # vs, r)) (parse_elems n d u1)
      | None \<Rightarrow> map_option (\<lambda>r. ([v], r)) (expect (CHR '']'') u))"

definition json_parse :: "string \<Rightarrow> json result" where
  "json_parse s =
     (case parse_value (Suc (length s)) 10000 s of
        Some (v, r) \<Rightarrow> if skip_ws r = [] then Inr v else Inl (ErrOther ''invalid character after top-level value'')
      | None \<Rightarrow> Inl (ErrOther ''invalid character''))"

fun json_print :: "json \<Rightarrow> string"
  and print_members :: "(string \<times> json) list \<Rightarrow> string"
  and print_elems :: "json list \<Rightarrow> string" where
  "json_print JNull = ''null''"
| "json_print (JBool b) = (if b then ''true'' else ''false'')"
| "json_print (JNum s) = s"
| "json_print (JStr r) = CHR 0x22 # r @ [CHR 0x22]"
| "json_print (JArr vs) = CHR ''['' # print_elems vs @ '']''"
| "json_print (JObj ms) = CHR ''{'' # print_members ms @ ''}''"
| "print_members [] = []"
| "print_members ((k, v) # ms) =
     CHR 0x22 # k @ CHR 0x22 # CHR '':'' # json_print v @ (if ms = [] then [] else CHR '','' # print_members ms)"
| "print_elems [] = []"
| "print_elems (v # vs) = json_print v @ (if vs = [] then [] else CHR '','' # print_elems vs)"

section \<open>Strings\<close>

definition cont_byte :: "nat \<Rightarrow> nat \<Rightarrow> string \<Rightarrow> nat \<Rightarrow> bool" where
  "cont_byte lo hi s i \<longleftrightarrow> i < length s \<and> lo \<le> byte_val (s ! i) \<and> byte_val (s ! i) \<le> hi"

text \<open>The length of the UTF-8 sequence a text starts with; 0 if it starts with none.\<close>

definition utf8_size :: "string \<Rightarrow> nat" where
  "utf8_size s =
     (if s = [] then 0
      else let b = byte_val (hd s); c = cont_byte 128 191 s in
        if b < 128 then 1
        else if 194 \<le> b \<and> b \<le> 223 then (if c 1 then 2 else 0)
        else if b = 224 then (if cont_byte 160 191 s 1 \<and> c 2 then 3 else 0)
        else if b = 237 then (if cont_byte 128 159 s 1 \<and> c 2 then 3 else 0)
        else if 225 \<le> b \<and> b \<le> 239 then (if c 1 \<and> c 2 then 3 else 0)
        else if b = 240 then (if cont_byte 144 191 s 1 \<and> c 2 \<and> c 3 then 4 else 0)
        else if 241 \<le> b \<and> b \<le> 243 then (if c 1 \<and> c 2 \<and> c 3 then 4 else 0)
        else if b = 244 then (if cont_byte 128 143 s 1 \<and> c 2 \<and> c 3 then 4 else 0)
        else 0)"

fun valid_utf8 :: "string \<Rightarrow> bool" where
  "valid_utf8 [] = True"
| "valid_utf8 (c # s) = (utf8_size (c # s) \<noteq> 0 \<and> valid_utf8 (drop (utf8_size (c # s) - 1) s))"

definition escape_ascii :: "char \<Rightarrow> string" where
  "escape_ascii c =
     (let b = byte_val c in
      if b = 34 \<or> b = 92 then [CHR 0x5C, c]
      else if b = 10 then [CHR 0x5C, CHR ''n'']
      else if b = 13 then [CHR 0x5C, CHR ''r'']
      else if b = 9 then [CHR 0x5C, CHR ''t'']
      else if b < 32 \<or> b = 60 \<or> b = 62 \<or> b = 38
      then [CHR 0x5C, CHR ''u'', CHR ''0'', CHR ''0'', lowerhex (b div 16), lowerhex (b mod 16)]
      else [c])"

definition rune_bad :: string where "rune_bad = [CHR 0xEF, CHR 0xBF, CHR 0xBD]"
definition line_sep :: string where "line_sep = [CHR 0xE2, CHR 0x80, CHR 0xA8]"
definition para_sep :: string where "para_sep = [CHR 0xE2, CHR 0x80, CHR 0xA9]"

definition escape_multi :: "string \<Rightarrow> string" where
  "escape_multi s =
     (if s = line_sep then CHR 0x5C # ''u2028'' else if s = para_sep then CHR 0x5C # ''u2029'' else s)"

text \<open>The text between the quotes that \<^verbatim>\<open>Marshal\<close> writes for a string.\<close>

fun json_escape :: "string \<Rightarrow> string" where
  "json_escape [] = []"
| "json_escape (c # s) =
     (let n = utf8_size (c # s) in
      if n = 0 then CHR 0x5C # ''ufffd'' @ json_escape s
      else if n = 1 then escape_ascii c @ json_escape s
      else escape_multi (take n (c # s)) @ json_escape (drop (n - 1) s))"

definition EncodeRune :: "nat \<Rightarrow> string" where
  "EncodeRune r =
     (if r < 128 then [val_byte r]
      else if r < 2048 then [val_byte (192 + r div 64), val_byte (128 + r mod 64)]
      else if 55296 \<le> r \<and> r \<le> 57343 \<or> 1114111 < r then rune_bad
      else if r < 65536 then [val_byte (224 + r div 4096), val_byte (128 + r div 64 mod 64), val_byte (128 + r mod 64)]
      else [val_byte (240 + r div 262144), val_byte (128 + r div 4096 mod 64),
            val_byte (128 + r div 64 mod 64), val_byte (128 + r mod 64)])"

definition unescape_letter :: "char \<Rightarrow> char" where
  "unescape_letter c =
     (if c = CHR ''b'' then CHR 0x08 else if c = CHR ''f'' then CHR 0x0C else if c = CHR ''n'' then CHR 0x0A
      else if c = CHR ''r'' then CHR 0x0D else if c = CHR ''t'' then CHR 0x09 else c)"

text \<open>\<^verbatim>\<open>getu4\<close>: the code unit of an escape at the start of the text.\<close>

definition getu4 :: "string \<Rightarrow> nat option" where
  "getu4 s =
     (if 6 \<le> length s \<and> s ! 0 = CHR 0x5C \<and> s ! 1 = CHR ''u'' \<and> list_all ishex (take 4 (drop 2 s))
      then Some (foldl (\<lambda>n c. n * 16 + unhex c) 0 (take 4 (drop 2 s))) else None)"

text \<open>The rune an escaped code unit stands for, and how many bytes follow the escape as its second half.\<close>

definition unicode_escape :: "nat \<Rightarrow> string \<Rightarrow> string \<times> nat" where
  "unicode_escape u rest =
     (if 55296 \<le> u \<and> u < 57344 then
        (case getu4 rest of
           Some v \<Rightarrow> if u < 56320 \<and> 56320 \<le> v \<and> v < 57344
                     then (EncodeRune ((u - 55296) * 1024 + (v - 56320) + 65536), 6) else (rune_bad, 0)
         | None \<Rightarrow> (rune_bad, 0))
      else (EncodeRune u, 0))"

fun json_unquote :: "string \<Rightarrow> string" where
  "json_unquote [] = []"
| "json_unquote (c # s) =
     (if c = CHR 0x5C then
        (case getu4 (c # s) of
           Some u \<Rightarrow> (case unicode_escape u (drop 5 s) of (r, k) \<Rightarrow> r @ json_unquote (drop (5 + k) s))
         | None \<Rightarrow> (case s of [] \<Rightarrow> [] | e # t \<Rightarrow> unescape_letter e # json_unquote t))
      else let n = utf8_size (c # s) in
        if n = 0 then rune_bad @ json_unquote s
        else take n (c # s) @ json_unquote (drop (n - 1) s))"

section \<open>Structs\<close>

type_synonym 'a field = "string \<times> (json \<Rightarrow> 'a \<Rightarrow> 'a result)"

text \<open>The case folding of keys: ASCII letters, and the two letters that fold to \<^verbatim>\<open>s\<close> and \<^verbatim>\<open>k\<close>.\<close>

fun fold_key :: "string \<Rightarrow> string" where
  "fold_key [] = []"
| "fold_key (a # s) =
     (case s of
        b # t \<Rightarrow>
          if a = CHR 0xC5 \<and> b = CHR 0xBF then CHR ''s'' # fold_key t
          else (case t of
             c # u \<Rightarrow> if a = CHR 0xE2 \<and> b = CHR 0x84 \<and> c = CHR 0xAA then CHR ''k'' # fold_key u
                      else to_lower a # fold_key s
           | [] \<Rightarrow> to_lower a # fold_key s)
      | [] \<Rightarrow> [to_lower a])"

definition find_field :: "'a field list \<Rightarrow> string \<Rightarrow> (json \<Rightarrow> 'a \<Rightarrow> 'a result) option" where
  "find_field fs k =
     (case map_of fs k of
        Some f \<Rightarrow> Some f
      | None \<Rightarrow> map_option snd (find (\<lambda>f. fold_key (fst f) = fold_key k) fs))"

fun decode_members :: "'a field list \<Rightarrow> (string \<times> json) list \<Rightarrow> 'a \<Rightarrow> 'a result" where
  "decode_members fs [] x = Inr x"
| "decode_members fs ((k, v) # ms) x =
     (case find_field fs (json_unquote k) of
        None \<Rightarrow> decode_members fs ms x
      | Some f \<Rightarrow> (case f v x of Inl e \<Rightarrow> Inl e | Inr y \<Rightarrow> decode_members fs ms y))"

definition type_error :: "'a result" where "type_error = Inl (ErrOther ''json: cannot unmarshal value'')"

definition decode_struct :: "'a field list \<Rightarrow> json \<Rightarrow> 'a \<Rightarrow> 'a result" where
  "decode_struct fs v x =
     (case v of JNull \<Rightarrow> Inr x | JObj ms \<Rightarrow> decode_members fs ms x | _ \<Rightarrow> type_error)"

definition string_field :: "string \<Rightarrow> (string \<Rightarrow> 'a \<Rightarrow> 'a) \<Rightarrow> 'a field" where
  "string_field k upd = (k, \<lambda>v x. case v of JNull \<Rightarrow> Inr x | JStr r \<Rightarrow> Inr (upd (json_unquote r) x) | _ \<Rightarrow> type_error)"

definition ParseInt64 :: "string \<Rightarrow> int option" where
  "ParseInt64 s =
     (let neg = (s \<noteq> [] \<and> hd s = CHR ''-''); ds = (if neg then tl s else s);
          v = (if neg then - digits_val ds else digits_val ds) in
      if ds \<noteq> [] \<and> list_all is_digit ds \<and> is_duration v then Some v else None)"

definition int_field :: "string \<Rightarrow> (int \<Rightarrow> 'a \<Rightarrow> 'a) \<Rightarrow> 'a field" where
  "int_field k upd = (k, \<lambda>v x. case v of JNull \<Rightarrow> Inr x
     | JNum s \<Rightarrow> (case ParseInt64 s of Some i \<Rightarrow> Inr (upd i x) | None \<Rightarrow> type_error) | _ \<Rightarrow> type_error)"

definition time_field :: "string \<Rightarrow> (time \<Rightarrow> 'a \<Rightarrow> 'a) \<Rightarrow> 'a field" where
  "time_field k upd = (k, \<lambda>v x. case v of JNull \<Rightarrow> Inr x
     | _ \<Rightarrow> (case Time_UnmarshalJSON (json_print v) of Inl e \<Rightarrow> Inl e | Inr t \<Rightarrow> Inr (upd t x)))"

definition struct_field :: "string \<Rightarrow> 'b field list \<Rightarrow> ('a \<Rightarrow> 'b) \<Rightarrow> ('b \<Rightarrow> 'a \<Rightarrow> 'a) \<Rightarrow> 'a field" where
  "struct_field k fs get upd = (k, \<lambda>v x. case decode_struct fs v (get x) of Inl e \<Rightarrow> Inl e | Inr y \<Rightarrow> Inr (upd y x))"

definition bool_field :: "string \<Rightarrow> (bool \<Rightarrow> 'a \<Rightarrow> 'a) \<Rightarrow> 'a field" where
  "bool_field k upd = (k, \<lambda>v x. case v of JNull \<Rightarrow> Inr x | JBool b \<Rightarrow> Inr (upd b x) | _ \<Rightarrow> type_error)"

text \<open>A slice of strings: null sets it to nil, and a null element is the empty string.\<close>

fun decode_strings :: "json list \<Rightarrow> string list result" where
  "decode_strings [] = Inr []"
| "decode_strings (v # vs) =
     (case decode_strings vs of Inl e \<Rightarrow> Inl e | Inr ss \<Rightarrow>
        (case v of JNull \<Rightarrow> Inr ([] # ss) | JStr r \<Rightarrow> Inr (json_unquote r # ss) | _ \<Rightarrow> type_error))"

definition strings_field :: "string \<Rightarrow> (string list \<Rightarrow> 'a \<Rightarrow> 'a) \<Rightarrow> 'a field" where
  "strings_field k upd = (k, \<lambda>v x. case v of JNull \<Rightarrow> Inr (upd [] x)
     | JArr vs \<Rightarrow> (case decode_strings vs of Inl e \<Rightarrow> Inl e | Inr ss \<Rightarrow> Inr (upd ss x)) | _ \<Rightarrow> type_error)"

definition json_Unmarshal :: "'a field list \<Rightarrow> string \<Rightarrow> 'a \<Rightarrow> 'a result" where
  "json_Unmarshal fs s x = (case json_parse s of Inl e \<Rightarrow> Inl e | Inr v \<Rightarrow> decode_struct fs v x)"

text \<open>\<^verbatim>\<open>Decoder.Decode\<close> reads one value and leaves what follows it.\<close>

definition json_Decode :: "'a field list \<Rightarrow> string \<Rightarrow> 'a \<Rightarrow> 'a result" where
  "json_Decode fs s x =
     (case parse_value (Suc (length s)) 10000 s of
        Some (v, _) \<Rightarrow> decode_struct fs v x
      | None \<Rightarrow> Inl (ErrOther ''invalid character''))"

text \<open>The members that \<^verbatim>\<open>Marshal\<close> writes; a time is its own literal, from which the quotes are cut.\<close>

definition string_member :: "string \<Rightarrow> string \<Rightarrow> string \<times> json" where
  "string_member k s = (k, JStr (json_escape s))"

definition time_member :: "string \<Rightarrow> string \<Rightarrow> string \<times> json" where
  "time_member k l = (k, JStr (butlast (tl l)))"

section \<open>String literals come back\<close>

text \<open>A piece of raw text that the scanner passes over as a whole.\<close>

definition raw_chunk :: "string \<Rightarrow> bool" where
  "raw_chunk c \<longleftrightarrow> (\<forall>t. scan_string (c @ t) = map_option (\<lambda>(r, u). (c @ r, u)) (scan_string t))"

definition plain_char :: "char \<Rightarrow> bool" where
  "plain_char c \<longleftrightarrow> 32 \<le> byte_val c \<and> c \<noteq> CHR 0x22 \<and> c \<noteq> CHR 0x5C"

lemma raw_chunk_Nil [simp]: "raw_chunk []"
  by (simp add: raw_chunk_def option.map_ident_strong)

lemma raw_chunk_append: "raw_chunk c \<Longrightarrow> raw_chunk d \<Longrightarrow> raw_chunk (c @ d)"
  by (auto simp: raw_chunk_def option.map_comp comp_def intro!: option.map_cong0)

lemma raw_chunk_plain: "list_all plain_char s \<Longrightarrow> raw_chunk s"
proof (induction s)
  case (Cons c s)
  have "raw_chunk [c]" using Cons.prems by (simp add: raw_chunk_def plain_char_def)
  with Cons show ?case using raw_chunk_append[of "[c]" s] by simp
qed simp

lemma scan_string_chunk: "raw_chunk r \<Longrightarrow> scan_string (r @ CHR 0x22 # t) = Some (r, t)"
  by (simp add: raw_chunk_def)

lemma lowerhex_props:
  assumes "n < 16"
  shows "ishex (lowerhex n)" "unhex (lowerhex n) = n"
proof -
  have "n \<in> set [0..<16]" using assms by simp
  then have "ishex (lowerhex n) \<and> unhex (lowerhex n) = n"
    by (auto simp: lowerhex_def unhex_def ishex_def is_digit_def byte_val_def val_byte_def upt_rec)
  then show "ishex (lowerhex n)" "unhex (lowerhex n) = n" by simp_all
qed

lemma ishex_zero: "ishex (CHR ''0'')" "unhex (CHR ''0'') = 0"
  by (simp_all add: ishex_def unhex_def is_digit_def byte_val_def)

lemma raw_chunk_u:
  assumes "ishex a" "ishex b" "ishex c" "ishex d"
  shows "raw_chunk [CHR 0x5C, CHR ''u'', a, b, c, d]"
proof -
  have "\<not> escape_letter (CHR ''u'')" by (simp add: escape_letter_def byte_val_def)
  then show ?thesis using assms by (simp add: raw_chunk_def)
qed

lemma raw_chunk_letter: "escape_letter e \<Longrightarrow> raw_chunk [CHR 0x5C, e]"
  by (simp add: raw_chunk_def)

lemma escape_chunks: "raw_chunk [CHR 0x5C, CHR ''n'']" "raw_chunk [CHR 0x5C, CHR ''r'']"
    "raw_chunk [CHR 0x5C, CHR ''t'']" "raw_chunk [CHR 0x5C, CHR 0x22]" "raw_chunk [CHR 0x5C, CHR 0x5C]"
  by (rule raw_chunk_letter; simp add: escape_letter_def byte_val_def)+

lemma byte_val_quote:
  "byte_val c = 34 \<longleftrightarrow> c = CHR 0x22" "byte_val c = 92 \<longleftrightarrow> c = CHR 0x5C"
  "byte_val c = 10 \<longleftrightarrow> c = CHR 0x0A" "byte_val c = 13 \<longleftrightarrow> c = CHR 0x0D" "byte_val c = 9 \<longleftrightarrow> c = CHR 0x09"
  using byte_val_inject[of c "CHR 0x22"] byte_val_inject[of c "CHR 0x5C"] byte_val_inject[of c "CHR 0x0A"]
    byte_val_inject[of c "CHR 0x0D"] byte_val_inject[of c "CHR 0x09"]
  by (simp_all add: byte_val_def)

lemma raw_chunk_escape_ascii: "raw_chunk (escape_ascii c)"
proof -
  have h: "byte_val c div 16 < 16" "byte_val c mod 16 < 16" by (rule byte_val_hex_less)+
  show ?thesis
    unfolding escape_ascii_def Let_def
    using raw_chunk_u[OF ishex_zero(1) ishex_zero(1) lowerhex_props(1)[OF h(1)] lowerhex_props(1)[OF h(2)]]
    by (auto simp: escape_chunks byte_val_quote plain_char_def raw_chunk_plain[of "[c]"])
qed

lemma cont_byte_take:
  "i < n \<Longrightarrow> n \<le> length s \<Longrightarrow> cont_byte lo hi (take n s @ t) i = cont_byte lo hi s i"
  by (simp add: cont_byte_def nth_append)

lemma utf8_size_length: "utf8_size s \<le> length s"
  by (auto simp: utf8_size_def Let_def cont_byte_def Suc_le_eq neq_Nil_conv)

lemma utf8_size_take:
  assumes "utf8_size s = n" "n \<noteq> 0"
  shows "utf8_size (take n s @ t) = n"
proof -
  have l: "n \<le> length s" using assms utf8_size_length by blast
  have "hd (take n s @ t) = hd s" "take n s @ t \<noteq> []" "s \<noteq> []"
    using assms l by (auto simp: hd_append utf8_size_def)
  then show ?thesis
    using assms l cont_byte_take[OF _ l, of 1] cont_byte_take[OF _ l, of 2] cont_byte_take[OF _ l, of 3]
    unfolding utf8_size_def Let_def by (auto split: if_splits)
qed

lemma utf8_multi_plain:
  assumes "utf8_size s = n" "1 < n" "i < n"
  shows "128 \<le> byte_val (s ! i)"
proof -
  have "s \<noteq> []" using assms by (auto simp: utf8_size_def)
  moreover have "i = 0 \<or> i = 1 \<or> i = 2 \<or> i = 3" 
    using assms by (auto simp: utf8_size_def Let_def split: if_splits)
  ultimately show ?thesis
    using assms by (auto simp: utf8_size_def Let_def cont_byte_def hd_conv_nth split: if_splits)
qed

lemma list_all_take_nth: "n \<le> length s \<Longrightarrow> list_all P (take n s) \<longleftrightarrow> (\<forall>i<n. P (s ! i))"
  by (simp add: list_all_length)

lemma plain_high: "128 \<le> byte_val c \<Longrightarrow> plain_char c"
  by (auto simp: plain_char_def byte_val_def)

lemma raw_chunk_escape_multi:
  assumes "utf8_size s = n" "1 < n"
  shows "raw_chunk (escape_multi (take n s))"
proof -
  have "n \<le> length s" using assms utf8_size_length by blast
  then have "raw_chunk (take n s)"
    using utf8_multi_plain[OF assms] by (intro raw_chunk_plain) (simp add: list_all_take_nth plain_high)
  moreover have "raw_chunk (CHR 0x5C # ''u2028'')" "raw_chunk (CHR 0x5C # ''u2029'')"
    by (rule raw_chunk_u; simp add: ishex_def is_digit_def byte_val_def)+
  ultimately show ?thesis by (simp add: escape_multi_def)
qed

lemma raw_chunk_escape: "raw_chunk (json_escape s)"
proof (induction s rule: json_escape.induct)
  case (2 c s)
  define n where "n = utf8_size (c # s)"
  have f: "raw_chunk (CHR 0x5C # ''ufffd'')"
    by (rule raw_chunk_u) (simp_all add: ishex_def is_digit_def byte_val_def)
  consider "n = 0" | "n = 1" | "1 < n" by linarith
  then show ?case
  proof cases
    case 1
    then show ?thesis using 2(1)[OF n_def] raw_chunk_append[OF f] by (simp add: Let_def flip: n_def)
  next
    case 2
    then show ?thesis using "2.IH"(2)[OF n_def] raw_chunk_append[OF raw_chunk_escape_ascii]
      by (simp add: Let_def flip: n_def)
  next
    case 3
    then show ?thesis
      using "2.IH"(3)[OF n_def] raw_chunk_append[OF raw_chunk_escape_multi[OF n_def[symmetric]]]
      by (simp add: Let_def flip: n_def)
  qed
qed simp

subsection \<open>Decoding\<close>

lemma getu4_u:
  assumes "ishex a" "ishex b" "ishex c" "ishex d"
  shows "getu4 (CHR 0x5C # CHR ''u'' # a # b # c # d # t) =
    Some (((unhex a * 16 + unhex b) * 16 + unhex c) * 16 + unhex d)"
  using assms by (simp add: getu4_def)

lemma unquote_u:
  assumes "ishex a" "ishex b" "ishex c" "ishex d"
    and "u = ((unhex a * 16 + unhex b) * 16 + unhex c) * 16 + unhex d" "u < 55296"
  shows "json_unquote (CHR 0x5C # CHR ''u'' # a # b # c # d # t) = EncodeRune u @ json_unquote t"
  using assms(5,6) by (simp add: getu4_u[OF assms(1-4)] unicode_escape_def)

lemma unquote_letter:
  "e \<noteq> CHR ''u'' \<Longrightarrow> json_unquote (CHR 0x5C # e # t) = unescape_letter e # json_unquote t"
  by (simp add: getu4_def)

lemma utf8_size_ascii: "utf8_size (c # s) = 1 \<longleftrightarrow> byte_val c < 128"
  by (auto simp: utf8_size_def Let_def)

lemma unquote_ascii:
  "byte_val c < 128 \<Longrightarrow> c \<noteq> CHR 0x5C \<Longrightarrow> json_unquote (c # t) = c # json_unquote t"
  using utf8_size_ascii[of c t] by simp

lemma unquote_escape_ascii:
  assumes "byte_val c < 128"
  shows "json_unquote (escape_ascii c @ t) = c # json_unquote t"
proof -
  have h: "byte_val c div 16 < 16" "byte_val c mod 16 < 16" by (rule byte_val_hex_less)+
  have u: "json_unquote ([CHR 0x5C, CHR ''u'', CHR ''0'', CHR ''0'', lowerhex (byte_val c div 16),
      lowerhex (byte_val c mod 16)] @ t) = c # json_unquote t"
    using unquote_u[OF ishex_zero(1) ishex_zero(1) lowerhex_props(1)[OF h(1)] lowerhex_props(1)[OF h(2)], of "byte_val c"]
      assms by (simp add: lowerhex_props h ishex_zero EncodeRune_def del: json_unquote.simps)
  consider "byte_val c = 34" | "byte_val c = 92" | "byte_val c = 10" | "byte_val c = 13" | "byte_val c = 9"
    | "byte_val c \<notin> {34, 92, 10, 13, 9}" "byte_val c < 32 \<or> byte_val c = 60 \<or> byte_val c = 62 \<or> byte_val c = 38"
    | "byte_val c \<notin> {34, 92, 10, 13, 9}" "\<not> (byte_val c < 32 \<or> byte_val c = 60 \<or> byte_val c = 62 \<or> byte_val c = 38)"
    by blast
  then show ?thesis
  proof cases
    case 6
    then have "escape_ascii c = [CHR 0x5C, CHR ''u'', CHR ''0'', CHR ''0'', lowerhex (byte_val c div 16),
      lowerhex (byte_val c mod 16)]" by (auto simp: escape_ascii_def Let_def)
    then show ?thesis using u by metis
  next
    case 7
    then have "escape_ascii c = [c]" "c \<noteq> CHR 0x5C" by (auto simp: escape_ascii_def Let_def byte_val_quote)
    then show ?thesis using unquote_ascii[OF assms] by simp
  qed (simp_all add: escape_ascii_def unquote_letter unescape_letter_def byte_val_quote del: json_unquote.simps)
qed

lemma EncodeRune_seps: "EncodeRune 8232 = line_sep" "EncodeRune 8233 = para_sep"
proof -
  have "val_byte 226 = CHR 0xE2" "val_byte 128 = CHR 0x80" "val_byte 168 = CHR 0xA8" "val_byte 169 = CHR 0xA9"
    using val_byte_inverse[of "CHR 0xE2"] val_byte_inverse[of "CHR 0x80"] val_byte_inverse[of "CHR 0xA8"]
      val_byte_inverse[of "CHR 0xA9"] by (simp_all add: byte_val_def)
  then show "EncodeRune 8232 = line_sep" "EncodeRune 8233 = para_sep"
    by (simp_all add: EncodeRune_def line_sep_def para_sep_def)
qed

lemma unquote_escape_multi:
  assumes "utf8_size s = n" "1 < n"
  shows "json_unquote (escape_multi (take n s) @ t) = take n s @ json_unquote t"
proof -
  have l: "n \<le> length s" using assms utf8_size_length by blast
  then have hi: "128 \<le> byte_val (hd (take n s))"
    using utf8_multi_plain[OF assms, of 0] assms(2) by (cases s) auto
  have "json_unquote (take n s @ t) = take n s @ json_unquote t"
  proof (cases "take n s @ t")
    case Nil
    then show ?thesis using l assms(2) by auto
  next
    case (Cons c u)
    then have c: "hd (take n s) = c" using l assms(2) by (cases s) (auto simp: take_Cons')
    then have "c \<noteq> CHR 0x5C" using hi by (auto simp: byte_val_def)
    moreover have "utf8_size (c # u) = n" using utf8_size_take[OF assms(1), of t] assms(2) Cons by simp
    ultimately have "json_unquote (c # u) = take n (c # u) @ json_unquote (drop (n - 1) u)"
      using assms(2) by simp
    moreover have "take n (c # u) = take n s" "drop n (c # u) = t" by (simp_all only: Cons[symmetric]) (use l in simp_all)
    moreover have "drop n (c # u) = drop (n - 1) u" using assms(2) by (cases n) simp_all
    ultimately show ?thesis using Cons by simp
  qed
  moreover have "json_unquote (CHR 0x5C # ''u2028'' @ t) = line_sep @ json_unquote t"
    "json_unquote (CHR 0x5C # ''u2029'' @ t) = para_sep @ json_unquote t"
    using unquote_u[of "CHR ''2''" "CHR ''0''" "CHR ''2''" "CHR ''8''" 8232 t]
      unquote_u[of "CHR ''2''" "CHR ''0''" "CHR ''2''" "CHR ''9''" 8233 t]
    by (simp_all add: ishex_def unhex_def is_digit_def byte_val_def EncodeRune_seps del: json_unquote.simps)
  ultimately show ?thesis by (simp add: escape_multi_def del: json_unquote.simps)
qed

lemma json_unquote_escape: "valid_utf8 s \<Longrightarrow> json_unquote (json_escape s) = s"
proof (induction s rule: json_escape.induct)
  case (2 c s)
  define n where "n = utf8_size (c # s)"
  have n: "n \<noteq> 0" "valid_utf8 (drop (n - 1) s)" using 2(4) by (simp_all add: n_def)
  show ?case
  proof (cases "n = 1")
    case True
    then have "byte_val c < 128" using utf8_size_ascii n_def by simp
    then show ?thesis using True "2.IH"(2)[OF n_def] n
      by (simp add: Let_def unquote_escape_ascii del: json_unquote.simps flip: n_def)
  next
    case False
    then have "1 < n" using n by simp
    then show ?thesis
      using "2.IH"(3)[OF n_def] n unquote_escape_multi[OF n_def[symmetric]]
      by (simp add: Let_def take_Cons' del: json_unquote.simps flip: n_def)
  qed
qed simp

section \<open>Printed values come back\<close>

text \<open>
  The values that \<^verbatim>\<open>Marshal\<close> writes for the program's structs: strings and objects of them, nested
  at most \<open>d\<close> deep.
\<close>

fun plain_json :: "nat \<Rightarrow> json \<Rightarrow> bool"
  and plain_members :: "nat \<Rightarrow> (string \<times> json) list \<Rightarrow> bool" where
  "plain_json d (JStr r) = raw_chunk r"
| "plain_json d (JObj ms) = (d \<noteq> 0 \<and> plain_members (d - 1) ms)"
| "plain_json d v = False"
| "plain_members d [] = True"
| "plain_members d ((k, v) # ms) = (raw_chunk k \<and> plain_json d v \<and> plain_members d ms)"

lemma skip_ws_punct [simp]:
  "skip_ws (CHR 0x22 # s) = CHR 0x22 # s" "skip_ws (CHR ''{'' # s) = CHR ''{'' # s"
  "skip_ws (CHR ''}'' # s) = CHR ''}'' # s" "skip_ws (CHR '','' # s) = CHR '','' # s"
  "skip_ws (CHR '':'' # s) = CHR '':'' # s"
  by (simp_all add: byte_val_def)

declare skip_ws.simps(2) [simp del] scan_string.simps(2) [simp del]

lemma parse_print:
  "plain_json d v \<Longrightarrow> length (json_print v) \<le> n \<Longrightarrow> parse_value n d (json_print v @ rest) = Some (v, rest)"
  "plain_members d ms \<Longrightarrow> ms \<noteq> [] \<Longrightarrow> length (print_members ms) \<le> n \<Longrightarrow>
     parse_members n d (print_members ms @ CHR ''}'' # rest) = Some (ms, rest)"
proof (induction d v and d ms arbitrary: n rest and n rest rule: plain_json_plain_members.induct)
  case (1 d r)
  then obtain m where "n = Suc m" by (cases n) auto
  then show ?case using 1 by (simp add: scan_string_chunk)
next
  case (2 d ms)
  then obtain m where n: "n = Suc m" by (cases n) auto
  show ?case
  proof (cases ms)
    case Nil
    then show ?thesis using 2 n by (simp add: expect_def lit_def)
  next
    case (Cons p ps)
    then obtain k v where p: "ms = (k, v) # ps" by (cases p) auto
    have "expect (CHR ''}'') (print_members ms @ CHR ''}'' # rest) = None"
      by (simp add: p expect_def lit_def)
    moreover have "parse_members m (d - 1) (print_members ms @ CHR ''}'' # rest) = Some (ms, rest)"
      using 2 n Cons by (intro "2.IH") auto
    ultimately show ?thesis using 2(2) n by simp
  qed
next
  case (5 d k v ms)
  then obtain m where n: "n = Suc m" by (cases n) auto
  have k: "raw_chunk k" using 5 by simp
  have v: "parse_value m d (json_print v @ u) = Some (v, u)" for u
    using 5 n by (intro "5.IH"(1)) auto
  show ?case
  proof (cases "ms = []")
    case True
    then show ?thesis using n v k by (simp add: expect_def lit_def scan_string_chunk)
  next
    case False
    have "parse_members m d (print_members ms @ CHR ''}'' # rest) = Some (ms, rest)"
      using 5 n False by (intro "5.IH"(2)) auto
    then show ?thesis using n v k False by (simp add: expect_def lit_def scan_string_chunk)
  qed
qed simp_all

lemma json_parse_print: "plain_json 10000 v \<Longrightarrow> json_parse (json_print v) = Inr v"
  using parse_print(1)[of 10000 v "Suc (length (json_print v))" "[]"]
  by (simp add: json_parse_def del: parse_value.simps)

section \<open>Structs come back\<close>

text \<open>Keys of the program's structs: letters and underscores, which need no escaping.\<close>

definition plain_key :: "string \<Rightarrow> bool" where
  "plain_key k \<longleftrightarrow> list_all (\<lambda>c. plain_char c \<and> byte_val c < 128) k"

lemma plain_key_chunk: "plain_key k \<Longrightarrow> raw_chunk k"
  by (rule raw_chunk_plain) (auto simp: plain_key_def list_all_iff)

lemma plain_key_unquote: "plain_key k \<Longrightarrow> json_unquote k = k"
proof (induction k)
  case (Cons c k)
  then have "byte_val c < 128" "c \<noteq> CHR 0x5C" "plain_key k" by (auto simp: plain_key_def plain_char_def)
  then show ?case using unquote_ascii Cons.IH by (simp del: json_unquote.simps)
qed simp

lemma decode_members_Cons:
  assumes "plain_key k" "map_of fs k = Some f"
  shows "decode_members fs ((k, v) # ms) x = (case f v x of Inl e \<Rightarrow> Inl e | Inr y \<Rightarrow> decode_members fs ms y)"
  using assms by (simp add: plain_key_unquote find_field_def)

lemma json_Unmarshal_print:
  assumes "plain_members 9999 ms"
  shows "json_Unmarshal fs (json_print (JObj ms)) x = decode_members fs ms x"
  using assms by (simp add: json_Unmarshal_def json_parse_print decode_struct_def del: json_print.simps)

text \<open>The literal of a time is one plain string.\<close>

lemma plain_digits: "list_all plain_char (digits k n)"
proof -
  have "plain_char c" if "is_digit c" for c using that byte_val_quote(1,2)[of c]
    unfolding is_digit_def plain_char_def by linarith
  then show ?thesis using all_digits[of k n] by (simp add: list_all_iff)
qed

lemma plain_fraction: "list_all plain_char (fraction n)"
proof -
  obtain k where "digits 9 n = TrimRight (digits 9 n) (CHR ''0'') @ replicate k (CHR ''0'')"
    using TrimRight_decomp by blast
  then have "list_all plain_char (TrimRight (digits 9 n) (CHR ''0''))"
    using plain_digits[of 9 n] by (metis list_all_append)
  then show ?thesis by (simp add: fraction_def Let_def plain_char_def byte_val_def)
qed

lemma time_literal:
  assumes "Time_MarshalJSON t = Inr l"
  shows "raw_chunk (butlast (tl l))" "json_print (JStr (butlast (tl l))) = l"
proof -
  obtain y m d where c: "civil (t div day_ns) = (y, m, d)" by (metis prod_cases3)
  define s where "s = (t mod day_ns) div 1000000000"
  define k where "k = digits 4 y @ ''-'' @ digits 2 m @ ''-'' @ digits 2 d @ ''T'' @ digits 2 (s div 3600) @ '':''
    @ digits 2 (s div 60 mod 60) @ '':'' @ digits 2 (s mod 60) @ fraction (t mod 1000000000) @ ''Z''"
  have "l = CHR 0x22 # k @ [CHR 0x22]"
    using assms unfolding Time_MarshalJSON_def Let_def c prod.case k_def s_def by (simp split: if_splits)
  moreover have "list_all plain_char ''-''" "list_all plain_char ''T''" "list_all plain_char '':''" "list_all plain_char ''Z''"
    by (simp_all add: plain_char_def byte_val_def)
  then have "list_all plain_char k" unfolding k_def by (simp only: list_all_append plain_digits plain_fraction simp_thms)
  ultimately show "raw_chunk (butlast (tl l))" "json_print (JStr (butlast (tl l))) = l"
    by (simp_all add: raw_chunk_plain)
qed

lemma decode_string_member:
  assumes "plain_key k" "map_of fs k = Some (snd (string_field k' upd))" "valid_utf8 s"
  shows "decode_members fs (string_member k s # ms) x = decode_members fs ms (upd s x)"
  using assms by (simp add: string_member_def decode_members_Cons string_field_def json_unquote_escape
      del: decode_members.simps)

lemma decode_time_member:
  assumes "plain_key k" "map_of fs k = Some (snd (time_field k' upd))" "Time_MarshalJSON t = Inr l"
  shows "decode_members fs (time_member k l # ms) x = decode_members fs ms (upd t x)"
  using assms time_literal[OF assms(3)]
  by (simp add: time_member_def decode_members_Cons time_field_def Time_Unmarshal_Marshal
      del: decode_members.simps)

lemma decode_struct_member:
  assumes "plain_key k" "map_of fs k = Some (snd (struct_field k' fs' get upd))"
    "decode_members fs' ms' (get x) = Inr y"
  shows "decode_members fs ((k, JObj ms') # ms) x = decode_members fs ms (upd y x)"
  using assms by (simp add: decode_members_Cons struct_field_def decode_struct_def del: decode_members.simps)

lemma plain_members_string [simp]:
  "plain_members d (string_member k s # ms) \<longleftrightarrow> raw_chunk k \<and> plain_members d ms"
  by (simp add: string_member_def raw_chunk_escape)

lemma plain_members_time:
  "Time_MarshalJSON t = Inr l \<Longrightarrow> plain_members d (time_member k l # ms) \<longleftrightarrow> raw_chunk k \<and> plain_members d ms"
  by (simp add: time_member_def time_literal)

end
