(* ===== verification/Config.thy ===== *)
theory Config
  imports World GoJSON
begin

text \<open>
  The configuration: \<^verbatim>\<open>pkg/config\<close> (the structs, validation, the provider's defaults),
  \<^verbatim>\<open>pkg/openid/scopes\<close> and \<^verbatim>\<open>pkg/openid/config\<close> (the client's and the identity provider's part).
  Parsing a JWK is done by a library and is the parameter \<open>jwk_ParseKey\<close>; a key is represented by
  a string, as nothing looks into it.
\<close>

section \<open>Package config\<close>

record loginstatus_config =
  Enabled :: bool
  CookieDomain :: string
  CookieName :: string
  cfg_ResourceIndicator :: string
  TokenURL :: string

record session_config =
  Inactivity :: bool
  InactivityTimeout :: duration
  MaxLifetime :: duration
  cfg_Refresh :: bool

definition ProviderAzure :: string where "ProviderAzure = ''azure''"
definition ProviderIDPorten :: string where "ProviderIDPorten = ''idporten''"
definition ProviderOpenID :: string where "ProviderOpenID = ''openid''"

record openid_options =
  op_Provider :: string
  op_ClientID :: string
  op_ClientJWK :: string
  op_PostLogoutRedirectURI :: string
  op_Scopes :: "string list"
  op_WellKnownURL :: string
  op_ACRValues :: string
  op_UILocales :: string

record redis_config =
  Address :: string
  Username :: string
  Password :: string
  TLS :: bool

record config =
  BindAddress :: string
  LogFormat :: string
  LogLevel :: string
  MetricsBindAddress :: string
  AutoLogin :: bool
  AutoLoginIgnorePaths :: "string list"
  EncryptionKey :: string
  ErrorPath :: string
  Ingresses :: "string list"
  cfg_Session :: session_config
  UpstreamHost :: string
  cfg_OpenID :: openid_options
  cfg_Redis :: redis_config
  cfg_Loginstatus :: loginstatus_config

definition Config_Validate :: "config \<Rightarrow> err" where
  "Config_Validate c =
     (if Inactivity (cfg_Session c) \<and> \<not> cfg_Refresh (cfg_Session c)
      then Some (ErrOther ''session.inactivity cannot be enabled without session.refresh'') else None)"

section \<open>Scopes\<close>

type_synonym scopes = "string list"

definition DefaultScopes :: scopes where "DefaultScopes = [''openid'']"
definition WithAdditional :: "scopes \<Rightarrow> string list \<Rightarrow> scopes" where "WithAdditional s xs = s @ xs"
definition WithAzureScope :: "scopes \<Rightarrow> string \<Rightarrow> scopes" where
  "WithAzureScope s clientID = s @ [''api://'' @ clientID @ ''/.default'']"
definition WithOfflineAccess :: "scopes \<Rightarrow> scopes" where "WithOfflineAccess s = s @ [''offline_access'']"
definition Scopes_String :: "scopes \<Rightarrow> string" where "Scopes_String s = join_with '' '' s"

section \<open>The client's configuration\<close>

type_synonym jwk_key = string

text \<open>
  \<^verbatim>\<open>azure\<close> and \<^verbatim>\<open>idporten\<close> embed the struct \<^verbatim>\<open>client\<close>; only \<^verbatim>\<open>azure\<close> overrides a method,
  \<^verbatim>\<open>Scopes\<close>.
\<close>

datatype client_kind = PlainClient | AzureClient | IDPortenClient

record client_config =
  cl_kind :: client_kind
  cl_OpenID :: openid_options
  cl_clientJwk :: jwk_key

definition ACRValues :: "client_config \<Rightarrow> string" where "ACRValues c = op_ACRValues (cl_OpenID c)"
definition ClientID :: "client_config \<Rightarrow> string" where "ClientID c = op_ClientID (cl_OpenID c)"
definition ClientJWK :: "client_config \<Rightarrow> jwk_key" where "ClientJWK c = cl_clientJwk c"
definition cfg_PostLogoutRedirectURI :: "client_config \<Rightarrow> string" where
  "cfg_PostLogoutRedirectURI c = op_PostLogoutRedirectURI (cl_OpenID c)"
definition UILocales :: "client_config \<Rightarrow> string" where "UILocales c = op_UILocales (cl_OpenID c)"
definition WellKnownURL :: "client_config \<Rightarrow> string" where "WellKnownURL c = op_WellKnownURL (cl_OpenID c)"

definition Scopes :: "client_config \<Rightarrow> scopes" where
  "Scopes c =
     (case cl_kind c of
        AzureClient \<Rightarrow> WithAdditional (WithOfflineAccess (WithAzureScope DefaultScopes (op_ClientID (cl_OpenID c))))
                        (op_Scopes (cl_OpenID c))
      | _ \<Rightarrow> WithAdditional DefaultScopes (op_Scopes (cl_OpenID c)))"

definition NewClientConfig :: "(string \<Rightarrow> jwk_key result) \<Rightarrow> config \<Rightarrow> client_config result" where
  "NewClientConfig jwk_ParseKey cfg =
     (if length (op_ClientJWK (cfg_OpenID cfg)) = 0 then Inl (ErrOther ''missing required config openid.client-jwk'')
      else case jwk_ParseKey (op_ClientJWK (cfg_OpenID cfg)) of
        Inl e \<Rightarrow> Inl (ErrOther ''parsing client JWK'')
      | Inr clientJwk \<Rightarrow>
          let c = \<lparr> cl_kind = PlainClient, cl_OpenID = cfg_OpenID cfg, cl_clientJwk = clientJwk \<rparr>;
              p = op_Provider (cfg_OpenID cfg) in
          if p = [] then Inl (ErrOther ''missing required config openid.provider'')
          else
            let cc = (if p = ProviderIDPorten then c\<lparr> cl_kind := IDPortenClient \<rparr>
                      else if p = ProviderAzure then c\<lparr> cl_kind := AzureClient \<rparr> else c) in
            if length (ClientID cc) = 0 then Inl (ErrOther ''missing required config openid.client-id'')
            else if length (WellKnownURL cc) = 0 then Inl (ErrOther ''missing required config openid.well-known-url'')
            else Inr cc)"

section \<open>The provider's configuration\<close>

type_synonym supported = "string list"

fun Contains :: "supported \<Rightarrow> string \<Rightarrow> bool" where
  "Contains [] value = False"
| "Contains (allowed # rest) value = (if allowed = value then True else Contains rest value)"

text \<open>\<^verbatim>\<open>ProviderMetadata\<close>: the members of the discovery document that the program reads.\<close>

record ProviderMetadata =
  pm_Issuer :: string
  pm_AuthorizationEndpoint :: string
  pm_TokenEndpoint :: string
  pm_EndSessionEndpoint :: string
  pm_JwksURI :: string
  pm_UILocalesSupported :: supported
  pm_ACRValuesSupported :: supported
  pm_FrontchannelLogoutSupported :: bool
  pm_FrontchannelLogoutSessionSupported :: bool
  pm_CheckSessionIframe :: string

definition empty_metadata :: ProviderMetadata where
  "empty_metadata = \<lparr> pm_Issuer = [], pm_AuthorizationEndpoint = [], pm_TokenEndpoint = [], pm_EndSessionEndpoint = [],
     pm_JwksURI = [], pm_UILocalesSupported = [], pm_ACRValuesSupported = [], pm_FrontchannelLogoutSupported = False,
     pm_FrontchannelLogoutSessionSupported = False, pm_CheckSessionIframe = [] \<rparr>"

text \<open>The other members are decoded too, and a value of the wrong type there is an error as well.\<close>

definition ignored_string :: "string \<Rightarrow> ProviderMetadata field" where "ignored_string k = string_field k (\<lambda>_ x. x)"
definition ignored_strings :: "string \<Rightarrow> ProviderMetadata field" where "ignored_strings k = strings_field k (\<lambda>_ x. x)"
definition ignored_bool :: "string \<Rightarrow> ProviderMetadata field" where "ignored_bool k = bool_field k (\<lambda>_ x. x)"

definition ProviderMetadata_fields :: "ProviderMetadata field list" where
  "ProviderMetadata_fields =
    [string_field ''issuer'' (\<lambda>s x. x\<lparr> pm_Issuer := s \<rparr>),
     string_field ''authorization_endpoint'' (\<lambda>s x. x\<lparr> pm_AuthorizationEndpoint := s \<rparr>),
     ignored_string ''pushed_authorization_request_endpoint'',
     string_field ''token_endpoint'' (\<lambda>s x. x\<lparr> pm_TokenEndpoint := s \<rparr>),
     string_field ''end_session_endpoint'' (\<lambda>s x. x\<lparr> pm_EndSessionEndpoint := s \<rparr>),
     ignored_string ''revocation_endpoint'',
     string_field ''jwks_uri'' (\<lambda>s x. x\<lparr> pm_JwksURI := s \<rparr>),
     ignored_strings ''response_types_supported'', ignored_strings ''response_modes_supported'',
     ignored_strings ''subject_types_supported'', ignored_strings ''id_token_signing_alg_values_supported'',
     ignored_strings ''code_challenge_methods_supported'', ignored_string ''userinfo_endpoint'',
     ignored_strings ''scopes_supported'',
     strings_field ''ui_locales_supported'' (\<lambda>s x. x\<lparr> pm_UILocalesSupported := s \<rparr>),
     strings_field ''acr_values_supported'' (\<lambda>s x. x\<lparr> pm_ACRValuesSupported := s \<rparr>),
     bool_field ''frontchannel_logout_supported'' (\<lambda>b x. x\<lparr> pm_FrontchannelLogoutSupported := b \<rparr>),
     bool_field ''frontchannel_logout_session_supported'' (\<lambda>b x. x\<lparr> pm_FrontchannelLogoutSessionSupported := b \<rparr>),
     ignored_string ''introspection_endpoint'', ignored_strings ''token_endpoint_auth_methods_supported'',
     ignored_bool ''request_parameter_supported'', ignored_bool ''request_uri_parameter_supported'',
     ignored_strings ''request_object_signing_alg_values_supported'',
     string_field ''check_session_iframe'' (\<lambda>s x. x\<lparr> pm_CheckSessionIframe := s \<rparr>)]"

record provider_config =
  pr_endSessionEndpointURL :: url
  pr_metadata :: ProviderMetadata
  pr_name :: string

definition AuthorizationEndpoint :: "provider_config \<Rightarrow> string" where
  "AuthorizationEndpoint p = pm_AuthorizationEndpoint (pr_metadata p)"
definition EndSessionEndpointURL :: "provider_config \<Rightarrow> url" where
  "EndSessionEndpointURL p = pr_endSessionEndpointURL p"
definition TokenEndpoint :: "provider_config \<Rightarrow> string" where
  "TokenEndpoint p = pm_TokenEndpoint (pr_metadata p)"
definition Issuer :: "provider_config \<Rightarrow> string" where "Issuer p = pm_Issuer (pr_metadata p)"
definition JwksURI :: "provider_config \<Rightarrow> string" where "JwksURI p = pm_JwksURI (pr_metadata p)"
definition ACRValuesSupported :: "provider_config \<Rightarrow> supported" where
  "ACRValuesSupported p = pm_ACRValuesSupported (pr_metadata p)"
definition UILocalesSupported :: "provider_config \<Rightarrow> supported" where
  "UILocalesSupported p = pm_UILocalesSupported (pr_metadata p)"
definition Name :: "provider_config \<Rightarrow> string" where "Name p = pr_name p"
definition SessionStateRequired :: "provider_config \<Rightarrow> bool" where
  "SessionStateRequired p = (length (pm_CheckSessionIframe (pr_metadata p)) > 0)"
definition SidClaimRequired :: "provider_config \<Rightarrow> bool" where
  "SidClaimRequired p = (pm_FrontchannelLogoutSupported (pr_metadata p)
     \<and> pm_FrontchannelLogoutSessionSupported (pr_metadata p))"

definition NewProviderConfig :: "config \<Rightarrow> 's world \<Rightarrow> provider_config result \<times> 's world" where
  "NewProviderConfig cfg w =
     (case http_Do \<lparr> out_method = ''GET'', out_url = op_WellKnownURL (cfg_OpenID cfg), out_headers = [], out_form = [] \<rparr> w of
        (Inl e, w1) \<Rightarrow> (Inl (ErrOther ''fetching well known configuration''), w1)
      | (Inr response, w1) \<Rightarrow>
          (case (case in_body response of Inl e \<Rightarrow> Inl e | Inr b \<Rightarrow> json_Decode ProviderMetadata_fields b empty_metadata) of
             Inl e \<Rightarrow> (Inl (ErrOther ''decoding well known configuration''), w1)
           | Inr providerCfg \<Rightarrow>
               let acrValues = op_ACRValues (cfg_OpenID cfg); uiLocales = op_UILocales (cfg_OpenID cfg) in
               if length acrValues > 0 \<and> \<not> Contains (pm_ACRValuesSupported providerCfg) acrValues
               then (Inl (ErrOther ''identity provider does not support openid.acr-values''), w1)
               else if length uiLocales > 0 \<and> \<not> Contains (pm_UILocalesSupported providerCfg) uiLocales
               then (Inl (ErrOther ''identity provider does not support openid.ui-locales''), w1)
               else (case Parse (pm_EndSessionEndpoint providerCfg) of
                  Inl e \<Rightarrow> (Inl (ErrOther ''parsing end session endpoint URL''), w1)
                | Inr u \<Rightarrow> (Inr \<lparr> pr_endSessionEndpointURL = u, pr_metadata = providerCfg,
                             pr_name = op_Provider (cfg_OpenID cfg) \<rparr>, w1))))"

record openid_config =
  Client :: client_config
  Provider :: provider_config

definition NewConfig :: "(string \<Rightarrow> jwk_key result) \<Rightarrow> config \<Rightarrow> 's world \<Rightarrow> openid_config result \<times> 's world" where
  "NewConfig jwk_ParseKey cfg w =
     (case NewClientConfig jwk_ParseKey cfg of
        Inl e \<Rightarrow> (Inl e, w)
      | Inr clientCfg \<Rightarrow>
          (case NewProviderConfig cfg w of
             (Inl e, w1) \<Rightarrow> (Inl e, w1)
           | (Inr providerCfg, w1) \<Rightarrow> (Inr \<lparr> Client = clientCfg, Provider = providerCfg \<rparr>, w1)))"

section \<open>What a valid configuration guarantees\<close>

lemma Contains_iff: "Contains s v \<longleftrightarrow> v \<in> set s"
  by (induction s) auto

text \<open>
  What a configuration that loads guarantees: the client has an identifier and a key, the login
  scopes start with \<^verbatim>\<open>openid\<close> (and ask for offline access at Azure, so that there are refresh
  tokens), and the configured default security level and locale are among the ones the provider supports.
\<close>

theorem new_config_correct:
  assumes "NewConfig jwk_ParseKey cfg w = (Inr oc, w')"
  shows "ClientID (Client oc) \<noteq> [] \<and> jwk_ParseKey (op_ClientJWK (cfg_OpenID cfg)) = Inr (ClientJWK (Client oc))
    \<and> hd (Scopes (Client oc)) = ''openid'' \<and> set (op_Scopes (cfg_OpenID cfg)) \<subseteq> set (Scopes (Client oc))
    \<and> (op_Provider (cfg_OpenID cfg) = ProviderAzure \<longrightarrow> ''offline_access'' \<in> set (Scopes (Client oc)))
    \<and> (ACRValues (Client oc) \<noteq> [] \<longrightarrow> ACRValues (Client oc) \<in> set (ACRValuesSupported (Provider oc)))
    \<and> (UILocales (Client oc) \<noteq> [] \<longrightarrow> UILocales (Client oc) \<in> set (UILocalesSupported (Provider oc)))"
proof -
  obtain cc pc w1 where cc: "NewClientConfig jwk_ParseKey cfg = Inr cc"
      and pc: "NewProviderConfig cfg w = (Inr pc, w1)" and oc: "oc = \<lparr> Client = cc, Provider = pc \<rparr>"
    using assms by (auto simp: NewConfig_def split: sum.splits prod.splits)
  have c: "cl_OpenID cc = cfg_OpenID cfg" "ClientID cc \<noteq> []"
      "jwk_ParseKey (op_ClientJWK (cfg_OpenID cfg)) = Inr (ClientJWK cc)"
      "op_Provider (cfg_OpenID cfg) = ProviderAzure \<longrightarrow> cl_kind cc = AzureClient"
    using cc by (auto simp: NewClientConfig_def Let_def ClientJWK_def ProviderAzure_def ProviderIDPorten_def
        ClientID_def split: sum.splits if_splits)
  have p: "op_ACRValues (cfg_OpenID cfg) = [] \<or> op_ACRValues (cfg_OpenID cfg) \<in> set (ACRValuesSupported pc)"
      "op_UILocales (cfg_OpenID cfg) = [] \<or> op_UILocales (cfg_OpenID cfg) \<in> set (UILocalesSupported pc)"
    using pc by (auto simp: NewProviderConfig_def Let_def ACRValuesSupported_def UILocalesSupported_def Contains_iff
        split: prod.splits sum.splits if_splits)
  show ?thesis
    using c p unfolding oc
    by (auto simp: Scopes_def DefaultScopes_def WithAdditional_def WithOfflineAccess_def WithAzureScope_def
        ACRValues_def UILocales_def split: client_kind.splits)
qed

definition example_config :: config where
  "example_config = \<lparr> BindAddress = ''127.0.0.1:3000'', LogFormat = ''json'', LogLevel = ''info'',
     MetricsBindAddress = ''127.0.0.1:3001'', AutoLogin = False, AutoLoginIgnorePaths = [], EncryptionKey = [], ErrorPath = [],
     Ingresses = [''https://app.example''],
     cfg_Session = \<lparr> Inactivity = True, InactivityTimeout = 30 * Minute, MaxLifetime = Hour, cfg_Refresh = True \<rparr>,
     UpstreamHost = ''127.0.0.1:8080'',
     cfg_OpenID = \<lparr> op_Provider = ''azure'', op_ClientID = ''client'', op_ClientJWK = ''key'',
       op_PostLogoutRedirectURI = [], op_Scopes = [''profile''], op_WellKnownURL = ''https://idp/.well-known'',
       op_ACRValues = ''Level4'', op_UILocales = [] \<rparr>,
     cfg_Redis = \<lparr> Address = [], Username = [], Password = [], TLS = True \<rparr>,
     cfg_Loginstatus = \<lparr> Enabled = False, CookieDomain = [], CookieName = [], cfg_ResourceIndicator = [], TokenURL = [] \<rparr> \<rparr>"

definition example_discovery :: string where
  "example_discovery = ''{'' @ [CHR 0x22] @ ''acr_values_supported'' @ [CHR 0x22] @ '':['' @ [CHR 0x22] @ ''Level4''
     @ [CHR 0x22] @ '']}''"

lemma example_discovery_decodes:
  "json_Decode ProviderMetadata_fields example_discovery empty_metadata =
     Inr (empty_metadata\<lparr> pm_ACRValuesSupported := [''Level4''] \<rparr>)"
  by code_simp

theorem new_config_correct_witness:
  "\<exists>oc w'. NewConfig Inr example_config ((quiet_world 0 ())\<lparr> remote := (\<lambda>_ _. Inr \<lparr> in_status = 200,
       in_body = Inr example_discovery \<rparr>) \<rparr>) = (Inr oc, w')
     \<and> ''offline_access'' \<in> set (Scopes (Client oc)) \<and> ''Level4'' \<in> set (ACRValuesSupported (Provider oc))"
proof -
  let ?w = "(quiet_world 0 ())\<lparr> remote := (\<lambda>_ _. Inr \<lparr> in_status = 200, in_body = Inr example_discovery \<rparr>) \<rparr>"
  have "Parse [] = Inr empty_url" by code_simp
  moreover have "pm_EndSessionEndpoint empty_metadata = []" by (simp add: empty_metadata_def)
  ultimately obtain oc w' where c: "NewConfig Inr example_config ?w = (Inr oc, w')"
      "cl_OpenID (Client oc) = cfg_OpenID example_config"
    by (simp add: NewConfig_def NewClientConfig_def NewProviderConfig_def http_Do_def example_discovery_decodes
        example_config_def ClientID_def WellKnownURL_def ProviderAzure_def ProviderIDPorten_def Let_def)
  then show ?thesis using new_config_correct[OF c(1)]
    by (auto simp: example_config_def ProviderAzure_def ACRValues_def)
qed

end
