(* ===== verification/Tokens.thy ===== *)
theory Tokens
  imports Config Http
begin

text \<open>
  \<^verbatim>\<open>pkg/strings/generator.go\<close>, \<^verbatim>\<open>pkg/jwt\<close>, \<^verbatim>\<open>pkg/openid/tokens.go\<close> and
  \<^verbatim>\<open>pkg/openid/provider\<close>. What the libraries jwx, oauth2 and uuid do is given by the record
  \<open>ext\<close>: parsing and verifying a JWT against a key set, validating its claims, signing an
  assertion, exchanging an authorization code, building the authorization URL, fetching keys. Those
  that talk to a server take the number of the call, so that each call may answer differently.
\<close>

section \<open>Random strings\<close>

definition strings_Generate :: "nat \<Rightarrow> 's world \<Rightarrow> bytes result \<times> 's world" where
  "strings_Generate len w =
     (case rand_Read len w of
        (Inl e, w1) \<Rightarrow> (Inl (ErrOther ''reading rand.Reader''), w1)
      | (Inr b, w1) \<Rightarrow> (Inr b, w1))"

definition GenerateBase64 :: "nat \<Rightarrow> 's world \<Rightarrow> string result \<times> 's world" where
  "GenerateBase64 len w =
     (case strings_Generate len w of
        (Inl e, w1) \<Rightarrow> (Inl e, w1)
      | (Inr b, w1) \<Rightarrow> (Inr (EncodeToString RawURLEncoding b), w1))"

lemma GenerateBase64_env [env_intros]:
  "GenerateBase64 n w = (r, w') \<Longrightarrow> same_env w w' \<and> store w' = store w"
  by (auto simp: GenerateBase64_def strings_Generate_def split: prod.splits sum.splits dest!: rand_Read_env)

lemma GenerateBase64_Ok:
  "GenerateBase64 n w = (Inr s, w') \<Longrightarrow> s = EncodeToString RawURLEncoding (map (entropy w (draws w)) [0..<n])
     \<and> w' = w\<lparr> draws := Suc (draws w) \<rparr>"
  by (auto simp: GenerateBase64_def strings_Generate_def rand_Read_def split: prod.splits sum.splits if_splits)

section \<open>The libraries\<close>

datatype claim_value = ClaimString string | ClaimOther

record lib_token =
  lib_claims :: "string \<rightharpoonup> claim_value"
  lib_expiration :: time

datatype validate_option =
    WithAudience string
  | WithClaimValue string string
  | WithIssuer string
  | WithAcceptableSkew duration
  | WithRequiredClaim string

type_synonym jwks = string

record oauth2_token =
  o2_AccessToken :: string
  o2_Expiry :: time
  o2_RefreshToken :: string
  o2_TokenType :: string
  o2_IDToken :: "string option"

record oauth2_config =
  o2_ClientID :: string
  o2_AuthURL :: string
  o2_TokenURL :: string
  o2_Scopes :: "string list"

record assertion_claims =
  as_iss :: string
  as_sub :: string
  as_aud :: string
  as_iat :: time
  as_exp :: time
  as_jti :: string

record ext =
  jwt_ParseString :: "time \<Rightarrow> duration \<Rightarrow> jwks \<Rightarrow> string \<Rightarrow> lib_token result"
  jwt_Validate :: "time \<Rightarrow> validate_option list \<Rightarrow> lib_token \<Rightarrow> err"
  jwt_Sign :: "assertion_claims \<Rightarrow> jwk_key \<Rightarrow> string result"
  uuid_New :: "nat \<Rightarrow> string"
  oauth2_Exchange :: "nat \<Rightarrow> oauth2_config \<Rightarrow> string \<Rightarrow> (string \<times> string) list \<Rightarrow> oauth2_token result"
  oauth2_AuthCodeURL :: "oauth2_config \<Rightarrow> string \<Rightarrow> (string \<times> string) list \<Rightarrow> string"
  jwk_Cache_Get :: "nat \<Rightarrow> string \<Rightarrow> jwks result"
  jwk_Cache_Refresh :: "nat \<Rightarrow> string \<Rightarrow> jwks result"
  doublestar_Match :: "string \<Rightarrow> string \<Rightarrow> bool result"

text \<open>
  An instance to evaluate examples with: a token is its own text, whose claims are fixed and always
  valid; a code is exchanged for tokens that last an hour from the zero instant; a pattern matches
  itself.
\<close>

definition example_ext :: ext where
  "example_ext = \<lparr>
     jwt_ParseString = (\<lambda>_ _ _ raw. Inr \<lparr> lib_claims = [''sid'' \<mapsto> ClaimString ''sid-1'', ''jti'' \<mapsto> ClaimString raw],
       lib_expiration = Hour \<rparr>),
     jwt_Validate = (\<lambda>_ _ _. None),
     jwt_Sign = (\<lambda>c _. Inr (as_iss c)),
     uuid_New = (\<lambda>_. ''uuid''),
     oauth2_Exchange = (\<lambda>_ _ code _. Inr \<lparr> o2_AccessToken = ''access'', o2_Expiry = Hour, o2_RefreshToken = ''refresh'',
       o2_TokenType = ''Bearer'', o2_IDToken = Some code \<rparr>),
     oauth2_AuthCodeURL = (\<lambda>c state params. o2_AuthURL c @ ''?state='' @ state),
     jwk_Cache_Get = (\<lambda>_ _. Inr ''keys''), jwk_Cache_Refresh = (\<lambda>_ _. Inr ''keys''),
     doublestar_Match = (\<lambda>p s. Inr (p = s)) \<rparr>"

section \<open>Package jwt\<close>

definition AcceptableClockSkew :: duration where "AcceptableClockSkew = 5 * Second"
definition JtiClaim :: string where "JtiClaim = ''jti''"
definition SidClaim :: string where "SidClaim = ''sid''"
definition UtiClaim :: string where "UtiClaim = ''uti''"

record jwt_token =
  serialized :: string
  token :: "lib_token option"

definition NewToken :: "string \<Rightarrow> lib_token \<Rightarrow> jwt_token" where
  "NewToken raw t = \<lparr> serialized = raw, token = Some t \<rparr>"

definition GetStringClaim :: "jwt_token \<Rightarrow> string \<Rightarrow> string result" where
  "GetStringClaim t claim =
     (case token t of
        None \<Rightarrow> Inl (ErrOther ''token is nil'')
      | Some lt \<Rightarrow>
          (case lib_claims lt claim of
             None \<Rightarrow> Inl (ErrOther ''missing required claim in id_token'')
           | Some (ClaimString s) \<Rightarrow> Inr s
           | Some ClaimOther \<Rightarrow> Inl (ErrOther ''claim is not a string'')))"

definition GetStringClaimOrEmpty :: "jwt_token \<Rightarrow> string \<Rightarrow> string" where
  "GetStringClaimOrEmpty t claim = (case GetStringClaim t claim of Inl _ \<Rightarrow> [] | Inr s \<Rightarrow> s)"

definition GetJwtID :: "jwt_token \<Rightarrow> string" where
  "GetJwtID t =
     (let jti = GetStringClaimOrEmpty t JtiClaim; uti = GetStringClaimOrEmpty t UtiClaim in
      if length jti > 0 then jti else uti)"

definition GetSerialized :: "jwt_token \<Rightarrow> string" where "GetSerialized t = serialized t"

definition jwt_Parse :: "ext \<Rightarrow> string \<Rightarrow> jwks \<Rightarrow> 's world \<Rightarrow> lib_token result \<times> 's world" where
  "jwt_Parse x raw jwks w =
     (let (now, w1) = time_Now w in
      case jwt_ParseString x now AcceptableClockSkew jwks raw of
        Inl e \<Rightarrow> (Inl (ErrOther ''parsing jwt''), w1)
      | Inr t \<Rightarrow> (Inr t, w1))"

section \<open>Tokens\<close>

type_synonym IDToken = jwt_token

record tokens =
  tk_AccessToken :: string
  tk_Expiry :: time
  tk_IDToken :: IDToken
  tk_RefreshToken :: string
  tk_TokenType :: string

definition GetSidClaim :: "IDToken \<Rightarrow> string result" where
  "GetSidClaim t = GetStringClaim t SidClaim"

definition validate_options :: "openid_config \<Rightarrow> string \<Rightarrow> validate_option list" where
  "validate_options cfg nonce =
     [WithAudience (ClientID (Client cfg)), WithClaimValue ''nonce'' nonce, WithIssuer (Issuer (Provider cfg)),
      WithAcceptableSkew AcceptableClockSkew]
     @ (if SidClaimRequired (Provider cfg) then [WithRequiredClaim ''sid''] else [])
     @ (if length (ACRValues (Client cfg)) > 0 then [WithRequiredClaim ''acr''] else [])"

definition IDToken_Validate :: "ext \<Rightarrow> IDToken \<Rightarrow> openid_config \<Rightarrow> string \<Rightarrow> 's world \<Rightarrow> err \<times> 's world" where
  "IDToken_Validate x t cfg nonce w =
     (let (now, w1) = time_Now w in
      (case token t of
         None \<Rightarrow> Some (ErrOther ''token is nil'')
       | Some lt \<Rightarrow> jwt_Validate x now (validate_options cfg nonce) lt, w1))"

definition ParseIDToken :: "ext \<Rightarrow> string \<Rightarrow> jwks \<Rightarrow> 's world \<Rightarrow> IDToken result \<times> 's world" where
  "ParseIDToken x raw jwks w =
     (case jwt_Parse x raw jwks w of
        (Inl e, w1) \<Rightarrow> (Inl e, w1)
      | (Inr t, w1) \<Rightarrow> (Inr (NewToken raw t), w1))"

definition ParseIDTokenFrom :: "ext \<Rightarrow> oauth2_token \<Rightarrow> jwks \<Rightarrow> 's world \<Rightarrow> IDToken result \<times> 's world" where
  "ParseIDTokenFrom x src jwks w =
     (case o2_IDToken src of
        None \<Rightarrow> (Inl (ErrOther ''missing id_token in token response''), w)
      | Some raw \<Rightarrow> ParseIDToken x raw jwks w)"

definition NewTokens :: "ext \<Rightarrow> oauth2_token \<Rightarrow> jwks \<Rightarrow> 's world \<Rightarrow> tokens result \<times> 's world" where
  "NewTokens x src jwks w =
     (case ParseIDTokenFrom x src jwks w of
        (Inl e, w1) \<Rightarrow> (Inl (ErrOther ''parsing id_token''), w1)
      | (Inr idToken, w1) \<Rightarrow> (Inr \<lparr> tk_AccessToken = o2_AccessToken src, tk_Expiry = o2_Expiry src,
          tk_IDToken = idToken, tk_RefreshToken = o2_RefreshToken src, tk_TokenType = o2_TokenType src \<rparr>, w1))"

section \<open>The provider's keys\<close>

definition JwkMinimumRefreshInterval :: duration where "JwkMinimumRefreshInterval = 5 * Second"

definition GetPublicJwkSet :: "ext \<Rightarrow> provider_config \<Rightarrow> 's world \<Rightarrow> jwks result \<times> 's world" where
  "GetPublicJwkSet x p w =
     (case jwk_Cache_Get x (calls w) (JwksURI p) of
        Inl e \<Rightarrow> Inl (ErrOther ''provider: fetching jwks'')
      | Inr s \<Rightarrow> Inr s, w\<lparr> calls := Suc (calls w) \<rparr>)"

definition RefreshPublicJwkSet :: "ext \<Rightarrow> provider_config \<Rightarrow> 's world \<Rightarrow> jwks result \<times> 's world" where
  "RefreshPublicJwkSet x p w =
     (let (now, w1) = time_Now w; diff = Time_Sub now (lastRefresh w1) in
      if diff < JwkMinimumRefreshInterval then GetPublicJwkSet x p w1
      else let (now', w2) = time_Now w1; w3 = w2\<lparr> lastRefresh := now' \<rparr> in
        (case jwk_Cache_Refresh x (calls w3) (JwksURI p) of
           Inl e \<Rightarrow> Inl (ErrOther ''provider: refreshing jwks'')
         | Inr s \<Rightarrow> Inr s, w3\<lparr> calls := Suc (calls w3) \<rparr>))"

definition NewJwksProvider :: "ext \<Rightarrow> openid_config \<Rightarrow> 's world \<Rightarrow> provider_config result \<times> 's world" where
  "NewJwksProvider x cfg w =
     (let p = Provider cfg; w1 = w\<lparr> calls := Suc (calls w), lastRefresh := 0 \<rparr> in
      case jwk_Cache_Refresh x (calls w) (JwksURI p) of
        Inl e \<Rightarrow> (Inl (ErrOther ''initial fetch of jwks from provider''), w1)
      | Inr _ \<Rightarrow> (Inr p, w1))"

section \<open>Correctness\<close>

lemma jwt_Parse_env [env_intros]: "jwt_Parse x raw jwks w = (r, w') \<Longrightarrow> same_env w w' \<and> store w' = store w"
  by (auto simp: jwt_Parse_def Let_def time_Now_def split: sum.splits)

lemma NewTokens_env [env_intros]: "NewTokens x src jwks w = (r, w') \<Longrightarrow> same_env w w' \<and> store w' = store w"
  by (auto simp: NewTokens_def ParseIDTokenFrom_def ParseIDToken_def split: prod.splits sum.splits option.splits
      dest!: jwt_Parse_env)

lemma IDToken_Validate_env [env_intros]:
  "IDToken_Validate x t cfg nonce w = (r, w') \<Longrightarrow> same_env w w' \<and> store w' = store w"
  by (auto simp: IDToken_Validate_def Let_def time_Now_def split: option.splits)

lemma GetPublicJwkSet_env [env_intros]: "GetPublicJwkSet x p w = (r, w') \<Longrightarrow> same_env w w' \<and> store w' = store w"
  by (auto simp: GetPublicJwkSet_def split: sum.splits)

lemma RefreshPublicJwkSet_env [env_intros]:
  "RefreshPublicJwkSet x p w = (r, w') \<Longrightarrow> same_env w w' \<and> store w' = store w"
  by (auto simp: RefreshPublicJwkSet_def GetPublicJwkSet_def Let_def time_Now_def same_env_def
      split: sum.splits if_splits)

text \<open>
  The provider is not overwhelmed by refreshes of its keys: a refresh within five seconds of the
  last one reads the cache and leaves the time of the last refresh alone; any later one fetches the
  keys again and records its time, so that the next five seconds are served from the cache.
\<close>

theorem jwks_refresh_limited:
  "let now = clock w (ticks w); (res, w') = RefreshPublicJwkSet x p w in
   (if Time_Sub now (lastRefresh w) < JwkMinimumRefreshInterval
    then lastRefresh w' = lastRefresh w
      \<and> res = fst (GetPublicJwkSet x p w) \<and> calls w' = Suc (calls w)
    else lastRefresh w' = clock w (Suc (ticks w)) \<and> calls w' = Suc (calls w)
      \<and> is_ok res = is_ok (jwk_Cache_Refresh x (calls w) (JwksURI p)))"
  by (auto simp: RefreshPublicJwkSet_def GetPublicJwkSet_def Let_def time_Now_def split: sum.splits)

end
