(* ===== verification/Loginstatus.thy ===== *)
theory Loginstatus
  imports Cookie Tokens
begin

text \<open>
  \<^verbatim>\<open>pkg/loginstatus\<close>: the optional service that turns an access token into an opaque token, kept in
  a cookie of its own for other applications on the domain.
\<close>

section \<open>Operations\<close>

definition LoginserviceCookieName :: string where "LoginserviceCookieName = ''selvbetjening-idtoken''"

record ls_token_response =
  ls_AccessToken :: string
  ls_ExpiresIn :: int

definition ls_token_fields :: "ls_token_response field list" where
  "ls_token_fields = [string_field ''access_token'' (\<lambda>s x. x\<lparr> ls_AccessToken := s \<rparr>),
     int_field ''expires_in'' (\<lambda>i x. x\<lparr> ls_ExpiresIn := i \<rparr>)]"

definition ls_Enabled :: "loginstatus_config \<Rightarrow> bool" where "ls_Enabled c = Enabled c"
definition ls_ResourceIndicator :: "loginstatus_config \<Rightarrow> string" where "ls_ResourceIndicator c = cfg_ResourceIndicator c"
definition NeedsResourceIndicator :: "loginstatus_config \<Rightarrow> bool" where
  "NeedsResourceIndicator c = (ls_Enabled c \<and> length (ls_ResourceIndicator c) > 0)"

definition ls_handleResponse :: "http_in \<Rightarrow> ls_token_response result" where
  "ls_handleResponse resp =
     (case in_body resp of
        Inl e \<Rightarrow> Inl (ErrOther ''reading server response'')
      | Inr body \<Rightarrow>
          if 400 \<le> in_status resp \<and> in_status resp < 500 then Inl (ErrOther ''client error'')
          else if 500 \<le> in_status resp then Inl (ErrOther ''server error'')
          else (case json_Unmarshal ls_token_fields body \<lparr> ls_AccessToken = [], ls_ExpiresIn = 0 \<rparr> of
             Inl e \<Rightarrow> Inl (ErrOther ''unmarshalling token response'')
           | Inr t \<Rightarrow> Inr t))"

definition ls_request :: "string \<Rightarrow> string \<Rightarrow> http_out result" where
  "ls_request url tok =
     (case Parse url of
        Inl e \<Rightarrow> Inl e
      | Inr _ \<Rightarrow> Inr \<lparr> out_method = ''GET'', out_url = url,
          out_headers = [(''Authorization'', ''Bearer '' @ tok), (''Accept'', ''application/json'')], out_form = [] \<rparr>)"

definition ExchangeToken :: "loginstatus_config \<Rightarrow> string \<Rightarrow> 's world \<Rightarrow> ls_token_response result \<times> 's world" where
  "ExchangeToken c accessToken w =
     (case ls_request (TokenURL c) accessToken of
        Inl e \<Rightarrow> (Inl (ErrOther ''creating request''), w)
      | Inr req \<Rightarrow>
          (case http_Do req w of
             (Inl e, w1) \<Rightarrow> (Inl (ErrOther ''performing request''), w1)
           | (Inr resp, w1) \<Rightarrow> (ls_handleResponse resp, w1)))"

definition ls_CookieOptions :: "loginstatus_config \<Rightarrow> options \<Rightarrow> options" where
  "ls_CookieOptions c opts =
     Options_WithPath ''/'' (Options_WithSameSite SameSiteDefaultMode (Options_WithDomain (CookieDomain c) opts))"

definition ls_SetCookie ::
    "loginstatus_config \<Rightarrow> ls_token_response \<Rightarrow> options \<Rightarrow> 's world \<Rightarrow> response \<Rightarrow> 's world \<times> response" where
  "ls_SetCookie c tok opts w rw =
     (let expiresIn = dur_mul (ls_ExpiresIn tok) Second;
          opts = Options_WithExpiresIn expiresIn (ls_CookieOptions c opts);
          (now, w1) = time_Now w
      in (w1, http_SetCookie (cookie_Make (CookieName c) (ls_AccessToken tok) opts now) rw))"

definition HasCookie :: "loginstatus_config \<Rightarrow> request \<Rightarrow> bool" where
  "HasCookie c r = (case Request_Cookie r (CookieName c) of Inl ErrNoCookie \<Rightarrow> False | _ \<Rightarrow> True)"

definition ls_ClearCookie :: "loginstatus_config \<Rightarrow> options \<Rightarrow> response \<Rightarrow> response" where
  "ls_ClearCookie c opts rw =
     (let opts = ls_CookieOptions c opts;
          rw1 = cookie_Clear (CookieName c) opts rw
      in cookie_Clear LoginserviceCookieName (Options_WithSameSite SameSiteNoneMode opts) rw1)"

definition ls_NeedsLogin :: "loginstatus_config \<Rightarrow> request \<Rightarrow> bool" where
  "ls_NeedsLogin c r = (if Enabled c \<and> \<not> HasCookie c r then True else False)"

section \<open>Correctness\<close>

lemma ExchangeToken_env [env_intros]: "ExchangeToken c t w = (r, w') \<Longrightarrow> same_env w w' \<and> store w' = store w"
  by (auto simp: ExchangeToken_def split: sum.splits prod.splits dest!: http_Do_env)

lemma ls_SetCookie_env [env_intros]: "ls_SetCookie c t opts w rw = (w', rw') \<Longrightarrow> same_env w w' \<and> store w' = store w"
  by (auto simp: ls_SetCookie_def Let_def time_Now_def)

lemma ls_SetCookie_simps:
  assumes "ls_SetCookie c t opts w rw = (w', rw')"
  shows "Status rw' = Status rw" "Location rw' = Location rw" "Body rw' = Body rw" "ContentType rw' = ContentType rw"
    "Status rw = None \<Longrightarrow> \<exists>k. SetCookies rw' = SetCookies rw @ [k] \<and> ck_Name k = CookieName c"
  using assms by (auto simp: ls_SetCookie_def Let_def time_Now_def cookie_Make_def)

lemma ls_ClearCookie_simps [simp]:
  "Status (ls_ClearCookie c opts rw) = Status rw" "Location (ls_ClearCookie c opts rw) = Location rw"
  "Body (ls_ClearCookie c opts rw) = Body rw"
  by (simp_all add: ls_ClearCookie_def Let_def)

text \<open>
  The loginstatus cookie does what the login check asks for: once the exchanged token is set and
  the user agent keeps it (its lifetime is not negative), the service no longer asks for a login; after
  clearing, it does again, and the legacy cookie is gone as well.
\<close>

theorem loginstatus_cookie_round_trip:
  assumes "ls_SetCookie c tok opts w rw = (w', rw')" "Status rw = None"
    and "0 \<le> ls_ExpiresIn tok" "ls_ExpiresIn tok \<le> 9223372036"
    and "Cookies r = browser_cookies jar rw'" and "Enabled c"
  shows "\<not> ls_NeedsLogin c r
    \<and> (Cookies r' = browser_cookies (Cookies r) (ls_ClearCookie c opts rw2) \<and> Status rw2 = None \<and> SetCookies rw2 = []
        \<longrightarrow> ls_NeedsLogin c r' \<and> map_of (Cookies r') LoginserviceCookieName = None)"
proof -
  have d: "0 \<le> dur_mul (ls_ExpiresIn tok) Second" "dur_mul (ls_ExpiresIn tok) Second \<le> maxDuration"
    using assms(3,4) by (simp_all add: dur_mul_def Second_def is_duration_def minDuration_def maxDuration_def)
  have "0 \<le> dur_mul (ls_ExpiresIn tok) Second div Second" using d(1) by (simp add: Second_def)
  then have age: "\<not> int64_of_float (Duration_Seconds (dur_mul (ls_ExpiresIn tok) Second)) < 0"
    using int64_Seconds_bounds(1)[OF d] by linarith
  have "map_of (Cookies r) (CookieName c) = Some (ls_AccessToken tok)"
    using assms(1,2,5) age
    by (auto simp: ls_SetCookie_def Let_def time_Now_def browser_cookies_def map_of_store_cookie cookie_Make_def
        Options_WithExpiresIn_def)
  then have 1: "\<not> ls_NeedsLogin c r" by (simp add: ls_NeedsLogin_def HasCookie_def Request_Cookie_def)
  have 2: "map_of (Cookies r') k = None"
    if "Cookies r' = browser_cookies (Cookies r) (ls_ClearCookie c opts rw2)" "Status rw2 = None"
      "k = CookieName c \<or> k = LoginserviceCookieName" for k
    using that by (auto simp: ls_ClearCookie_def Let_def)
  show ?thesis using 1 2[of "CookieName c"] 2[of LoginserviceCookieName] assms(6)
    by (auto simp: ls_NeedsLogin_def HasCookie_def Request_Cookie_def)
qed

theorem loginstatus_cookie_round_trip_witness:
  "\<not> ls_NeedsLogin \<lparr> Enabled = True, CookieDomain = ''nav.no'', CookieName = ''ls'', cfg_ResourceIndicator = [], TokenURL = [] \<rparr>
     \<lparr> Method = ''GET'', req_URL = empty_url, req_Host = [], Header = Map.empty, Cookies = [(''ls'', ''token'')],
       ctx_AccessToken = None, ctx_Ingress = None, ctx_Path = None, ctx_RequestID = [] \<rparr>"
proof -
  let ?c = "\<lparr> Enabled = True, CookieDomain = ''nav.no'', CookieName = ''ls'', cfg_ResourceIndicator = [], TokenURL = [] \<rparr>"
  let ?t = "\<lparr> ls_AccessToken = ''token'', ls_ExpiresIn = 3600 \<rparr>"
  obtain w' rw' where s: "ls_SetCookie ?c ?t DefaultOptions (quiet_world 0 ()) new_response = (w', rw')" by fastforce
  then have "browser_cookies [] rw' = [(''ls'', ''token'')]"
  proof -
    have "\<not> int64_of_float (Duration_Seconds (dur_mul 3600 Second)) < 0" by code_simp
    then show ?thesis using s
      by (auto simp: ls_SetCookie_def Let_def time_Now_def browser_cookies_def store_cookie_def cookie_Make_def
        Options_WithExpiresIn_def)
  qed
  then show ?thesis by (intro loginstatus_cookie_round_trip[THEN conjunct1, OF s, of _ "[]"]) simp_all
qed

end
