(* ===== verification/GoSHA256.thy ===== *)
theory GoSHA256
  imports GoBase64 "HOL-Library.Word"
begin

text \<open>Go's \<^verbatim>\<open>crypto/sha256\<close>, for the PKCE code challenge: FIPS 180-4 on 32-bit words.\<close>

unbundle bit_operations_syntax

type_synonym w32 = "32 word"

definition sha_k :: "w32 list" where
  "sha_k = [
    1116352408, 1899447441, 3049323471, 3921009573, 961987163, 1508970993, 2453635748, 2870763221,
    3624381080, 310598401, 607225278, 1426881987, 1925078388, 2162078206, 2614888103, 3248222580,
    3835390401, 4022224774, 264347078, 604807628, 770255983, 1249150122, 1555081692, 1996064986,
    2554220882, 2821834349, 2952996808, 3210313671, 3336571891, 3584528711, 113926993, 338241895,
    666307205, 773529912, 1294757372, 1396182291, 1695183700, 1986661051, 2177026350, 2456956037,
    2730485921, 2820302411, 3259730800, 3345764771, 3516065817, 3600352804, 4094571909, 275423344,
    430227734, 506948616, 659060556, 883997877, 958139571, 1322822218, 1537002063, 1747873779,
    1955562222, 2024104815, 2227730452, 2361852424, 2428436474, 2756734187, 3204031479, 3329325298]"

definition sha_init :: "w32 list" where
  "sha_init = [1779033703, 3144134277, 1013904242, 2773480762, 1359893119, 2600822924, 528734635, 1541459225]"

definition rotr :: "nat \<Rightarrow> w32 \<Rightarrow> w32" where
  "rotr n x = word_rotr n x"

definition sha_pad :: "bytes \<Rightarrow> bytes" where
  "sha_pad m = m @ [CHR 0x80] @ replicate ((119 - length m mod 64) mod 64) (CHR 0x00)
     @ map (\<lambda>i. val_byte ((8 * length m div 256 ^ (7 - i)) mod 256)) [0..<8]"

fun be_words :: "bytes \<Rightarrow> w32 list" where
  "be_words (a # b # c # d # s) =
     of_nat (((byte_val a * 256 + byte_val b) * 256 + byte_val c) * 256 + byte_val d) # be_words s"
| "be_words _ = []"

text \<open>The message schedule, newest word first.\<close>

fun sha_schedule :: "nat \<Rightarrow> w32 list \<Rightarrow> w32 list" where
  "sha_schedule 0 ws = ws"
| "sha_schedule (Suc n) ws =
     (let s0 = (let x = ws ! 14 in rotr 7 x XOR rotr 18 x XOR drop_bit 3 x);
          s1 = (let x = ws ! 1 in rotr 17 x XOR rotr 19 x XOR drop_bit 10 x)
      in sha_schedule n ((ws ! 15 + s0 + ws ! 6 + s1) # ws))"

fun sha_rounds :: "(w32 \<times> w32) list \<Rightarrow> w32 list \<Rightarrow> w32 list" where
  "sha_rounds ((k, w) # kws) [a, b, c, d, e, f, g, h] =
     (let s1 = rotr 6 e XOR rotr 11 e XOR rotr 25 e;
          ch = (e AND f) XOR ((NOT e) AND g);
          t1 = h + s1 + ch + k + w;
          s0 = rotr 2 a XOR rotr 13 a XOR rotr 22 a;
          maj = (a AND b) XOR (a AND c) XOR (b AND c)
      in sha_rounds kws [t1 + s0 + maj, a, b, c, d + t1, e, f, g])"
| "sha_rounds _ st = st"

fun sha_blocks :: "nat \<Rightarrow> bytes \<Rightarrow> w32 list \<Rightarrow> w32 list" where
  "sha_blocks 0 m st = st"
| "sha_blocks (Suc n) m st =
     (let ws = rev (sha_schedule 48 (rev (be_words (take 64 m)))) in
      sha_blocks n (drop 64 m) (map2 (+) st (sha_rounds (zip sha_k ws) st)))"

definition word_bytes :: "w32 \<Rightarrow> bytes" where
  "word_bytes x = map (\<lambda>i. val_byte (unat x div 256 ^ (3 - i) mod 256)) [0..<4]"

definition sha256_Sum :: "bytes \<Rightarrow> bytes" where
  "sha256_Sum m = (let p = sha_pad m in concat (map word_bytes (sha_blocks (length p div 64) p sha_init)))"

lemma length_sha_rounds: "length st = 8 \<Longrightarrow> length (sha_rounds kws st) = 8"
  by (induction kws st rule: sha_rounds.induct) (auto simp: Let_def)

lemma length_sha_blocks: "length st = 8 \<Longrightarrow> length (sha_blocks n m st) = 8"
  by (induction n arbitrary: m st) (simp_all add: Let_def length_sha_rounds)

lemma length_sha256: "length (sha256_Sum m) = 32"
proof -
  have "length (concat (map word_bytes ws)) = 4 * length ws" for ws
    by (induction ws) (simp_all add: word_bytes_def)
  then show ?thesis by (simp add: sha256_Sum_def Let_def length_sha_blocks sha_init_def)
qed

end
