(* ===== verification/OpenIDClient.thy ===== *)
theory OpenIDClient
  imports HandlerURL Loginstatus GoSHA256
begin

text \<open>
  \<^verbatim>\<open>pkg/openid/client\<close> and \<^verbatim>\<open>pkg/openid/cookies.go\<close>: the OpenID Connect client. Starting a login
  (parameters, PKCE, the login cookie), finishing it (state check, redeeming the code, validating the
  ID token), the refresh grant, and the logout URLs.
\<close>

section \<open>The client\<close>

definition DefaultClientAssertionLifetime :: duration where "DefaultClientAssertionLifetime = 30 * Second"

record client =
  c_cfg :: openid_config
  c_loginstatus :: loginstatus_config
  c_oauth2Config :: oauth2_config

definition NewClient :: "openid_config \<Rightarrow> loginstatus_config \<Rightarrow> client" where
  "NewClient cfg ls = \<lparr> c_cfg = cfg, c_loginstatus = ls,
     c_oauth2Config = \<lparr> o2_ClientID = ClientID (Client cfg), o2_AuthURL = AuthorizationEndpoint (Provider cfg),
       o2_TokenURL = TokenEndpoint (Provider cfg), o2_Scopes = Scopes (Client cfg) \<rparr> \<rparr>"

definition AuthCodeGrant ::
    "ext \<Rightarrow> client \<Rightarrow> string \<Rightarrow> (string \<times> string) list \<Rightarrow> 's world \<Rightarrow> oauth2_token result \<times> 's world" where
  "AuthCodeGrant x c code opts w =
     (oauth2_Exchange x (calls w) (c_oauth2Config c) code opts, w\<lparr> calls := Suc (calls w) \<rparr>)"

definition MakeAssertion :: "ext \<Rightarrow> client \<Rightarrow> duration \<Rightarrow> 's world \<Rightarrow> string result \<times> 's world" where
  "MakeAssertion x c expiration w =
     (let clientCfg = Client (c_cfg c); providerCfg = Provider (c_cfg c);
          (now, w1) = time_Now w;
          t = Time_Add now (- 5 * Second);
          iat = t - t mod Second;
          claims = \<lparr> as_iss = ClientID clientCfg, as_sub = ClientID clientCfg, as_aud = Issuer providerCfg,
            as_iat = iat, as_exp = Time_Add iat expiration, as_jti = uuid_New x (draws w1) \<rparr>;
          w2 = w1\<lparr> draws := Suc (draws w1) \<rparr>
      in case jwt_Sign x claims (ClientJWK clientCfg) of
           Inl e \<Rightarrow> (Inl (ErrOther ''signing client assertion''), w2)
         | Inr encoded \<Rightarrow> (Inr encoded, w2))"

section \<open>The refresh grant\<close>

record TokenResponse =
  tr_AccessToken :: string
  tr_ExpiresIn :: int
  tr_RefreshToken :: string
  tr_TokenType :: string

definition TokenResponse_fields :: "TokenResponse field list" where
  "TokenResponse_fields =
    [string_field ''access_token'' (\<lambda>s x. x\<lparr> tr_AccessToken := s \<rparr>),
     int_field ''expires_in'' (\<lambda>i x. x\<lparr> tr_ExpiresIn := i \<rparr>),
     string_field ''refresh_token'' (\<lambda>s x. x\<lparr> tr_RefreshToken := s \<rparr>),
     string_field ''token_type'' (\<lambda>s x. x\<lparr> tr_TokenType := s \<rparr>)]"

definition empty_TokenResponse :: TokenResponse where
  "empty_TokenResponse = \<lparr> tr_AccessToken = [], tr_ExpiresIn = 0, tr_RefreshToken = [], tr_TokenType = [] \<rparr>"

definition ClientAssertionTypeJwtBearer :: string where
  "ClientAssertionTypeJwtBearer = ''urn:ietf:params:oauth:client-assertion-type:jwt-bearer''"

definition refresh_form :: "client \<Rightarrow> string \<Rightarrow> string \<Rightarrow> url_values" where
  "refresh_form c refreshToken assertion =
     Values_Set (Values_Set (Values_Set (Values_Set (Values_Set []
       ''grant_type'' ''refresh_token'')
       ''refresh_token'' refreshToken)
       ''client_id'' (ClientID (Client (c_cfg c))))
       ''client_assertion'' assertion)
       ''client_assertion_type'' ClientAssertionTypeJwtBearer"

text \<open>The response's status decides: 4xx is a client error, 5xx and above a server error.\<close>

definition handle_token_response :: "http_in \<Rightarrow> TokenResponse result" where
  "handle_token_response resp =
     (case in_body resp of
        Inl e \<Rightarrow> Inl (ErrOther ''reading server response'')
      | Inr body \<Rightarrow>
          if 400 \<le> in_status resp \<and> in_status resp < 500 then Inl ErrOpenIDClient
          else if 500 \<le> in_status resp then Inl ErrOpenIDServer
          else (case json_Unmarshal TokenResponse_fields body empty_TokenResponse of
             Inl e \<Rightarrow> Inl (ErrOther ''unmarshalling token response'')
           | Inr t \<Rightarrow> Inr t))"

definition RefreshGrant :: "ext \<Rightarrow> client \<Rightarrow> string \<Rightarrow> 's world \<Rightarrow> TokenResponse result \<times> 's world" where
  "RefreshGrant x c refreshToken w =
     (case MakeAssertion x c DefaultClientAssertionLifetime w of
        (Inl e, w1) \<Rightarrow> (Inl (ErrOther ''creating client assertion''), w1)
      | (Inr assertion, w1) \<Rightarrow>
          let v = refresh_form c refreshToken assertion; endpoint = TokenEndpoint (Provider (c_cfg c)) in
          (case Parse endpoint of
             Inl e \<Rightarrow> (Inl (ErrOther ''creating request''), w1)
           | Inr _ \<Rightarrow>
               (case http_Do \<lparr> out_method = ''POST'', out_url = endpoint,
                    out_headers = [(''Content-Type'', ''application/x-www-form-urlencoded'')],
                    out_form = ParseQuery (Values_Encode v) \<rparr> w1 of
                  (Inl e, w2) \<Rightarrow> (Inl (ErrOther ''performing request''), w2)
                | (Inr resp, w2) \<Rightarrow> (handle_token_response resp, w2))))"

section \<open>Login\<close>

definition LocaleURLParameter :: string where "LocaleURLParameter = ''locale''"
definition SecurityLevelURLParameter :: string where "SecurityLevelURLParameter = ''level''"

definition LoginParameterMapping :: "string \<Rightarrow> string" where
  "LoginParameterMapping p = (if p = LocaleURLParameter then ''ui_locales''
     else if p = SecurityLevelURLParameter then ''acr_values'' else [])"

definition CodeChallenge :: "string \<Rightarrow> string" where
  "CodeChallenge codeVerifier = EncodeToString RawURLEncoding (sha256_Sum codeVerifier)"

definition LoginURLParameter :: "request \<Rightarrow> string \<Rightarrow> string \<Rightarrow> supported \<Rightarrow> string result" where
  "LoginURLParameter r parameter fallback supported =
     (let value = Values_Get (req_Query r) parameter;
          value = (if length value = 0 then fallback else value)
      in if Contains supported value then Inr value else Inl ErrInvalidLoginParameter)"

definition withParamMapping ::
    "request \<Rightarrow> (string \<times> string) list \<Rightarrow> string \<Rightarrow> string \<Rightarrow> supported \<Rightarrow> (string \<times> string) list result" where
  "withParamMapping r opts param fallback supported =
     (if length fallback = 0 then Inr opts
      else case LoginURLParameter r param fallback supported of
        Inl e \<Rightarrow> Inl e
      | Inr value \<Rightarrow> Inr (opts @ [(LoginParameterMapping param, value)]))"

record loginParameters =
  CodeVerifier :: string
  lp_CodeChallenge :: string
  Nonce :: string
  State :: string

record LoginCookie =
  lc_State :: string
  lc_Nonce :: string
  lc_CodeVerifier :: string
  lc_Referer :: string
  lc_RedirectURI :: string

record Login =
  authCodeURL :: string
  canonicalRedirect :: string
  login_cookie :: LoginCookie
  login_params :: loginParameters

definition newLoginParameters :: "'s world \<Rightarrow> loginParameters result \<times> 's world" where
  "newLoginParameters w =
     (case GenerateBase64 64 w of
        (Inl e, w1) \<Rightarrow> (Inl (ErrOther ''creating code verifier''), w1)
      | (Inr codeVerifier, w1) \<Rightarrow>
          (case GenerateBase64 32 w1 of
             (Inl e, w2) \<Rightarrow> (Inl (ErrOther ''creating nonce''), w2)
           | (Inr nonce, w2) \<Rightarrow>
               (case GenerateBase64 32 w2 of
                  (Inl e, w3) \<Rightarrow> (Inl (ErrOther ''creating state''), w3)
                | (Inr state, w3) \<Rightarrow>
                    (Inr \<lparr> CodeVerifier = codeVerifier, lp_CodeChallenge = CodeChallenge codeVerifier,
                       Nonce = nonce, State = state \<rparr>, w3))))"

definition withSecurityLevel :: "client \<Rightarrow> request \<Rightarrow> (string \<times> string) list \<Rightarrow> (string \<times> string) list result" where
  "withSecurityLevel c r opts = withParamMapping r opts SecurityLevelURLParameter
     (ACRValues (Client (c_cfg c))) (ACRValuesSupported (Provider (c_cfg c)))"

definition withLocale :: "client \<Rightarrow> request \<Rightarrow> (string \<times> string) list \<Rightarrow> (string \<times> string) list result" where
  "withLocale c r opts = withParamMapping r opts LocaleURLParameter
     (UILocales (Client (c_cfg c))) (UILocalesSupported (Provider (c_cfg c)))"

definition auth_options :: "client \<Rightarrow> loginParameters \<Rightarrow> string \<Rightarrow> (string \<times> string) list" where
  "auth_options c p callbackURL =
     [(''nonce'', Nonce p), (''response_mode'', ''query''), (''code_challenge'', lp_CodeChallenge p),
      (''code_challenge_method'', ''S256''), (''redirect_uri'', callbackURL)]
     @ (if NeedsResourceIndicator (c_loginstatus c) then [(''resource'', ls_ResourceIndicator (c_loginstatus c))] else [])"

definition make_authCodeURL :: "ext \<Rightarrow> client \<Rightarrow> loginParameters \<Rightarrow> request \<Rightarrow> string \<Rightarrow> string result" where
  "make_authCodeURL x c p r callbackURL =
     (case withSecurityLevel c r (auth_options c p callbackURL) of
        Inl e \<Rightarrow> Inl ErrInvalidSecurityLevel
      | Inr opts \<Rightarrow>
          (case withLocale c r opts of
             Inl e \<Rightarrow> Inl ErrInvalidLocale
           | Inr opts \<Rightarrow> Inr (oauth2_AuthCodeURL x (c_oauth2Config c) (State p) opts)))"

definition make_cookie :: "loginParameters \<Rightarrow> string \<Rightarrow> string \<Rightarrow> LoginCookie" where
  "make_cookie p referer redirectURI = \<lparr> lc_State = State p, lc_Nonce = Nonce p, lc_CodeVerifier = CodeVerifier p,
     lc_Referer = referer, lc_RedirectURI = redirectURI \<rparr>"

definition NewLogin :: "ext \<Rightarrow> client \<Rightarrow> request \<Rightarrow> 's world \<Rightarrow> Login result \<times> 's world" where
  "NewLogin x c r w =
     (case newLoginParameters w of
        (Inl e, w1) \<Rightarrow> (Inl e, w1)
      | (Inr params, w1) \<Rightarrow>
          (case LoginCallbackURL r of
             Inl e \<Rightarrow> (Inl e, w1)
           | Inr callbackURL \<Rightarrow>
               (case make_authCodeURL x c params r callbackURL of
                  Inl e \<Rightarrow> (Inl e, w1)
                | Inr url \<Rightarrow>
                    let referer = CanonicalRedirect r in
                    (Inr \<lparr> authCodeURL = url, canonicalRedirect = referer,
                       login_cookie = make_cookie params referer callbackURL, login_params = params \<rparr>, w1))))"

definition Client_Login :: "ext \<Rightarrow> client \<Rightarrow> request \<Rightarrow> 's world \<Rightarrow> Login result \<times> 's world" where
  "Client_Login x c r w = NewLogin x c r w"

section \<open>The login cookie\<close>

definition LoginCookie_members :: "LoginCookie \<Rightarrow> (string \<times> json) list" where
  "LoginCookie_members c = [string_member ''state'' (lc_State c), string_member ''nonce'' (lc_Nonce c),
     string_member ''code_verifier'' (lc_CodeVerifier c), string_member ''referer'' (lc_Referer c),
     string_member ''redirect_uri'' (lc_RedirectURI c)]"

definition LoginCookie_fields :: "LoginCookie field list" where
  "LoginCookie_fields =
    [string_field ''state'' (\<lambda>s x. x\<lparr> lc_State := s \<rparr>), string_field ''nonce'' (\<lambda>s x. x\<lparr> lc_Nonce := s \<rparr>),
     string_field ''code_verifier'' (\<lambda>s x. x\<lparr> lc_CodeVerifier := s \<rparr>),
     string_field ''referer'' (\<lambda>s x. x\<lparr> lc_Referer := s \<rparr>),
     string_field ''redirect_uri'' (\<lambda>s x. x\<lparr> lc_RedirectURI := s \<rparr>)]"

definition empty_LoginCookie :: LoginCookie where
  "empty_LoginCookie = \<lparr> lc_State = [], lc_Nonce = [], lc_CodeVerifier = [], lc_Referer = [], lc_RedirectURI = [] \<rparr>"

definition LoginCookie_Marshal :: "LoginCookie \<Rightarrow> string" where
  "LoginCookie_Marshal c = json_print (JObj (LoginCookie_members c))"

definition GetLoginCookie :: "request \<Rightarrow> crypter \<Rightarrow> LoginCookie result" where
  "GetLoginCookie r crypter =
     (case (case GetDecrypted r cookie_Login crypter of
              Inr j \<Rightarrow> Inr j
            | Inl _ \<Rightarrow> GetDecrypted r cookie_LoginLegacy crypter) of
        Inl e \<Rightarrow> Inl e
      | Inr loginCookieJson \<Rightarrow>
          (case json_Unmarshal LoginCookie_fields loginCookieJson empty_LoginCookie of
             Inl e \<Rightarrow> Inl (ErrOther ''unmarshalling'')
           | Inr c \<Rightarrow> Inr c))"

section \<open>The login callback\<close>

record LoginCallback =
  cb_cookie :: LoginCookie
  cb_requestParams :: url_values

definition NewLoginCallback :: "request \<Rightarrow> LoginCookie option \<Rightarrow> LoginCallback result" where
  "NewLoginCallback r cookie =
     (case cookie of
        None \<Rightarrow> Inl (ErrOther ''cookie is nil'')
      | Some c \<Rightarrow>
          if length (lc_RedirectURI c) = 0 then
            (case LoginCallbackURL r of
               Inl e \<Rightarrow> Inl e
             | Inr callbackURL \<Rightarrow> Inr \<lparr> cb_cookie = c\<lparr> lc_RedirectURI := callbackURL \<rparr>, cb_requestParams = req_Query r \<rparr>)
          else Inr \<lparr> cb_cookie = c, cb_requestParams = req_Query r \<rparr>)"

definition IdentityProviderError :: "LoginCallback \<Rightarrow> err" where
  "IdentityProviderError cb = (if Values_Get (cb_requestParams cb) ''error'' \<noteq> []
     then Some (ErrOther ''error from identity provider'') else None)"

definition StateMismatchError :: "LoginCallback \<Rightarrow> err" where
  "StateMismatchError cb =
     (let expectedState = lc_State (cb_cookie cb); actualState = Values_Get (cb_requestParams cb) ''state'' in
      if length actualState \<le> 0 then Some (ErrOther ''missing state parameter in request (possible csrf)'')
      else if expectedState \<noteq> actualState then Some (ErrOther ''state parameter mismatch (possible csrf)'')
      else None)"

definition redeem_options :: "LoginCallback \<Rightarrow> string \<Rightarrow> (string \<times> string) list" where
  "redeem_options cb clientAssertion =
     [(''code_verifier'', lc_CodeVerifier (cb_cookie cb)), (''client_assertion'', clientAssertion),
      (''client_assertion_type'', ClientAssertionTypeJwtBearer), (''redirect_uri'', lc_RedirectURI (cb_cookie cb))]"

definition RedeemTokens :: "ext \<Rightarrow> client \<Rightarrow> LoginCallback \<Rightarrow> 's world \<Rightarrow> tokens result \<times> 's world" where
  "RedeemTokens x c cb w =
     (case MakeAssertion x c DefaultClientAssertionLifetime w of
        (Inl e, w1) \<Rightarrow> (Inl (ErrOther ''creating client assertion''), w1)
      | (Inr clientAssertion, w1) \<Rightarrow>
      (case AuthCodeGrant x c (Values_Get (cb_requestParams cb) ''code'') (redeem_options cb clientAssertion) w1 of
        (Inl e, w2) \<Rightarrow> (Inl (ErrOther ''exchanging authorization code for token''), w2)
      | (Inr rawTokens, w2) \<Rightarrow>
      (case GetPublicJwkSet x (Provider (c_cfg c)) w2 of
        (Inl e, w3) \<Rightarrow> (Inl (ErrOther ''getting jwks''), w3)
      | (Inr jwkSet, w3) \<Rightarrow>
      (case NewTokens x rawTokens jwkSet w3 of
        (Inl e, w4) \<Rightarrow> (case RefreshPublicJwkSet x (Provider (c_cfg c)) w4 of
                         (_, w5) \<Rightarrow> (Inl (ErrOther ''parsing tokens''), w5))
      | (Inr tokens, w4) \<Rightarrow>
      (case IDToken_Validate x (tk_IDToken tokens) (c_cfg c) (lc_Nonce (cb_cookie cb)) w4 of
        (Some e, w5) \<Rightarrow> (Inl (ErrOther ''validating id_token''), w5)
      | (None, w5) \<Rightarrow> (Inr tokens, w5))))))"

section \<open>Logout\<close>

record Logout =
  logoutCallbackURL :: string

definition NewLogout :: "request \<Rightarrow> Logout result" where
  "NewLogout r = (case LogoutCallbackURL r of Inl e \<Rightarrow> Inl e | Inr u \<Rightarrow> Inr \<lparr> logoutCallbackURL = u \<rparr>)"

definition single_logout_url :: "client \<Rightarrow> Logout \<Rightarrow> string \<Rightarrow> url" where
  "single_logout_url c l idToken =
     (let u = EndSessionEndpointURL (Provider (c_cfg c));
          v = Values_Add (URL_Query u) ''post_logout_redirect_uri'' (logoutCallbackURL l);
          v = (if length idToken > 0 then Values_Add v ''id_token_hint'' idToken else v)
      in u\<lparr> RawQuery := Values_Encode v \<rparr>)"

definition SingleLogoutURL :: "client \<Rightarrow> Logout \<Rightarrow> string \<Rightarrow> string" where
  "SingleLogoutURL c l idToken = URL_String (single_logout_url c l idToken)"

definition PostLogoutRedirectURI :: "client \<Rightarrow> request \<Rightarrow> string" where
  "PostLogoutRedirectURI c r =
     (let redirect = cfg_PostLogoutRedirectURI (Client (c_cfg c)) in
      if length redirect > 0 then redirect
      else case IngressFrom r of None \<Rightarrow> ''/'' | Some ingress \<Rightarrow> URL_String ingress)"

definition LogoutFrontchannel_Sid :: "request \<Rightarrow> string" where
  "LogoutFrontchannel_Sid r = Values_Get (req_Query r) ''sid''"

definition MissingSidParameter :: "request \<Rightarrow> bool" where
  "MissingSidParameter r = (length (LogoutFrontchannel_Sid r) \<le> 0)"

section \<open>Environment\<close>

lemma MakeAssertion_env [env_intros]:
  "MakeAssertion x c d w = (r, w') \<Longrightarrow> same_env w w' \<and> store w' = store w \<and> calls w' = calls w"
  by (auto simp: MakeAssertion_def Let_def time_Now_def same_env_def split: sum.splits)

lemma RefreshGrant_env [env_intros]:
  assumes "RefreshGrant x c t w = (r, w')"
  shows "same_env w w' \<and> store w' = store w"
proof -
  obtain a w1 where m: "MakeAssertion x c DefaultClientAssertionLifetime w = (a, w1)" by fastforce
  have "w' = w1 \<or> w' = w1\<lparr> calls := Suc (calls w1) \<rparr>"
    using assms m by (auto simp: RefreshGrant_def Let_def http_Do_def split: sum.splits prod.splits)
  then show ?thesis using MakeAssertion_env[OF m] by (auto simp: same_env_def)
qed

lemma newLoginParameters_env [env_intros]:
  "newLoginParameters w = (r, w') \<Longrightarrow> same_env w w' \<and> store w' = store w"
  by (auto simp: newLoginParameters_def split: prod.splits sum.splits dest!: GenerateBase64_env intro: same_env_trans)

lemma NewLogin_env [env_intros]: "NewLogin x c r w = (l, w') \<Longrightarrow> same_env w w' \<and> store w' = store w"
  by (auto simp: NewLogin_def Let_def split: prod.splits sum.splits dest!: newLoginParameters_env)

lemma AuthCodeGrant_env [env_intros]:
  "AuthCodeGrant x c code opts w = (r, w') \<Longrightarrow> same_env w w' \<and> store w' = store w"
  by (auto simp: AuthCodeGrant_def)

lemma RedeemTokens_env [env_intros]:
  assumes "RedeemTokens x c cb w = (r, w')"
  shows "same_env w w' \<and> store w' = store w"
  using assms unfolding RedeemTokens_def
  by (auto split: prod.splits sum.splits option.splits dest!: MakeAssertion_env AuthCodeGrant_env GetPublicJwkSet_env
      NewTokens_env RefreshPublicJwkSet_env IDToken_Validate_env) (meson same_env_trans)+

section \<open>The refresh grant\<close>

lemma handle_token_response_Err:
  assumes "in_body resp = Inr b"
  shows "handle_token_response resp = Inl ErrOpenIDClient \<longleftrightarrow> 400 \<le> in_status resp \<and> in_status resp < 500"
    "handle_token_response resp = Inl ErrOpenIDServer \<longleftrightarrow> 500 \<le> in_status resp"
  using assms by (auto simp: handle_token_response_def split: sum.splits)

text \<open>The request of a refresh grant, as the provider decodes it.\<close>

definition refresh_request :: "client \<Rightarrow> string \<Rightarrow> string \<Rightarrow> http_out" where
  "refresh_request c refreshToken assertion =
     \<lparr> out_method = ''POST'', out_url = TokenEndpoint (Provider (c_cfg c)),
       out_headers = [(''Content-Type'', ''application/x-www-form-urlencoded'')],
       out_form = ParseQuery (Values_Encode (refresh_form c refreshToken assertion)) \<rparr>"

lemma refresh_request_form:
  "Values_Get (out_form (refresh_request c t a)) ''grant_type'' = ''refresh_token''"
  "Values_Get (out_form (refresh_request c t a)) ''refresh_token'' = t"
  "Values_Get (out_form (refresh_request c t a)) ''client_id'' = ClientID (Client (c_cfg c))"
  "Values_Get (out_form (refresh_request c t a)) ''client_assertion'' = a"
  by (simp_all add: refresh_request_def refresh_form_def)

lemma RefreshGrant_cases:
  assumes "RefreshGrant x c t w = (res, w')"
  obtains (no_call) e where "res = Inl (ErrOther e)" "calls w' = calls w"
  | (call) a w1 where "MakeAssertion x c DefaultClientAssertionLifetime w = (Inr a, w1)" "calls w' = Suc (calls w)"
      "res = (case remote w (calls w) (refresh_request c t a) of
                Inl _ \<Rightarrow> Inl (ErrOther ''performing request'') | Inr resp \<Rightarrow> handle_token_response resp)"
proof -
  obtain a w1 where m: "MakeAssertion x c DefaultClientAssertionLifetime w = (a, w1)" by fastforce
  have w1: "calls w1 = calls w" "remote w1 = remote w" using MakeAssertion_env[OF m] by (auto simp: same_env_def)
  show thesis
  proof (cases a)
    case (Inl e)
    then show thesis using no_call[of "''creating client assertion''"] assms m w1 by (simp add: RefreshGrant_def)
  next
    case (Inr s)
    show thesis
    proof (cases "Parse (TokenEndpoint (Provider (c_cfg c)))")
      case (Inl e)
      then show thesis using no_call[of "''creating request''"] assms m w1 \<open>a = Inr s\<close>
        by (simp add: RefreshGrant_def Let_def)
    next
      case (Inr u)
      have "(res, w') = (case remote w1 (calls w1) (refresh_request c t s) of
          Inl e \<Rightarrow> (Inl (ErrOther ''performing request''), w1\<lparr> calls := Suc (calls w1) \<rparr>)
        | Inr resp \<Rightarrow> (handle_token_response resp, w1\<lparr> calls := Suc (calls w1) \<rparr>))"
        using assms m \<open>a = Inr s\<close> Inr
        by (simp add: RefreshGrant_def Let_def http_Do_def refresh_request_def split: sum.splits)
      then show thesis using call[of s w1] m \<open>a = Inr s\<close> w1 by (auto split: sum.splits)
    qed
  qed
qed

text \<open>How the answer of the token endpoint decides the outcome.\<close>

definition grant_outcome :: "http_in result \<Rightarrow> TokenResponse result \<Rightarrow> bool" where
  "grant_outcome answer res =
     (case answer of
        Inl _ \<Rightarrow> \<exists>e. res = Inl (ErrOther e)
      | Inr resp \<Rightarrow>
          (case in_body resp of
             Inl _ \<Rightarrow> \<exists>e. res = Inl (ErrOther e)
           | Inr body \<Rightarrow>
               (res = Inl ErrOpenIDClient) = (400 \<le> in_status resp \<and> in_status resp < 500)
               \<and> (res = Inl ErrOpenIDServer) = (500 \<le> in_status resp)
               \<and> (\<forall>tr. res = Inr tr \<longrightarrow> in_status resp < 400
                    \<and> json_Unmarshal TokenResponse_fields body empty_TokenResponse = Inr tr)))"

text \<open>
  The refresh grant: at most one request is made; it posts the refresh token, the client's
  identifier and a signed assertion to the token endpoint; and the answer decides the outcome: a
  status in the 400s is a client error, 500 and above a server error, otherwise the token response
  decoded from the body. Every other failure is neither a client nor a server error.
\<close>

theorem refresh_grant_correct:
  "case RefreshGrant x c t w of (res, w') \<Rightarrow>
     store w' = store w \<and>
     ((calls w' = calls w \<and> (\<exists>e. res = Inl (ErrOther e))) \<or>
      (\<exists>req. calls w' = Suc (calls w) \<and> out_method req = ''POST'' \<and> out_url req = TokenEndpoint (Provider (c_cfg c))
         \<and> Values_Get (out_form req) ''grant_type'' = ''refresh_token''
         \<and> Values_Get (out_form req) ''refresh_token'' = t
         \<and> Values_Get (out_form req) ''client_id'' = ClientID (Client (c_cfg c))
         \<and> grant_outcome (remote w (calls w) req) res))"
proof -
  obtain res w' where r: "RefreshGrant x c t w = (res, w')" by fastforce
  have st: "store w' = store w" using RefreshGrant_env[OF r] by simp
  from r show ?thesis
  proof (cases rule: RefreshGrant_cases)
    case (no_call e)
    then show ?thesis using r st by simp
  next
    case (call a w1)
    have "grant_outcome (remote w (calls w) (refresh_request c t a)) res"
      using call(3) by (auto simp: grant_outcome_def handle_token_response_def split: sum.splits)
    moreover have "out_method (refresh_request c t a) = ''POST''"
        "out_url (refresh_request c t a) = TokenEndpoint (Provider (c_cfg c))"
      by (simp_all add: refresh_request_def)
    ultimately show ?thesis unfolding r prod.case using st call(2) refresh_request_form by blast
  qed
qed

section \<open>Login\<close>

lemma newLoginParameters_Ok:
  assumes "newLoginParameters w = (Inr p, w')"
  shows "CodeVerifier p = EncodeToString RawURLEncoding (map (entropy w (draws w)) [0..<64])"
    "Nonce p = EncodeToString RawURLEncoding (map (entropy w (draws w + 1)) [0..<32])"
    "State p = EncodeToString RawURLEncoding (map (entropy w (draws w + 2)) [0..<32])"
    "lp_CodeChallenge p = CodeChallenge (CodeVerifier p)" "w' = w\<lparr> draws := draws w + 3 \<rparr>"
  using assms by (auto simp: newLoginParameters_def split: prod.splits sum.splits dest!: GenerateBase64_Ok)

lemma withParamMapping_Ok:
  assumes "withParamMapping r opts param fallback allowed = Inr opts'"
  shows "\<exists>extra. opts' = opts @ extra \<and> (fallback \<noteq> [] \<longrightarrow> (\<exists>v \<in> set allowed. extra = [(LoginParameterMapping param, v)]
    \<and> v = (if Values_Get (req_Query r) param = [] then fallback else Values_Get (req_Query r) param)))
    \<and> (fallback = [] \<longrightarrow> extra = [])"
  using assms by (auto simp: withParamMapping_def LoginURLParameter_def Let_def Contains_iff split: if_splits sum.splits)

lemma NewLogin_Ok:
  assumes "NewLogin x c r w = (Inr l, w')"
  obtains url where "newLoginParameters w = (Inr (login_params l), w')" "LoginCallbackURL r = Inr url"
    "make_authCodeURL x c (login_params l) r url = Inr (authCodeURL l)"
    "login_cookie l = make_cookie (login_params l) (CanonicalRedirect r) url" "canonicalRedirect l = CanonicalRedirect r"
  using assms by (auto simp: NewLogin_def Let_def split: prod.splits sum.splits)

text \<open>
  A login binds the browser to the authorization request: the state, nonce, PKCE challenge and
  redirect URI that go to the provider are those of the login cookie, with the challenge being the
  SHA-256 of the cookie's verifier; verifier, nonce and state come from three separate draws of 64, 32
  and 32 random bytes; and a security level, when one is configured, is sent along, being the
  requested one or else the default, and one the provider supports.
\<close>

theorem login_binds_request:
  assumes "NewLogin x c r w = (Inr l, w')"
  shows "\<exists>opts. authCodeURL l = oauth2_AuthCodeURL x (c_oauth2Config c) (lc_State (login_cookie l)) opts
    \<and> map_of opts ''nonce'' = Some (lc_Nonce (login_cookie l))
    \<and> map_of opts ''code_challenge'' = Some (CodeChallenge (lc_CodeVerifier (login_cookie l)))
    \<and> map_of opts ''code_challenge_method'' = Some ''S256''
    \<and> map_of opts ''redirect_uri'' = Some (lc_RedirectURI (login_cookie l))
    \<and> LoginCallbackURL r = Inr (lc_RedirectURI (login_cookie l)) \<and> lc_Referer (login_cookie l) = CanonicalRedirect r
    \<and> lc_CodeVerifier (login_cookie l) = EncodeToString RawURLEncoding (map (entropy w (draws w)) [0..<64])
    \<and> lc_Nonce (login_cookie l) = EncodeToString RawURLEncoding (map (entropy w (draws w + 1)) [0..<32])
    \<and> lc_State (login_cookie l) = EncodeToString RawURLEncoding (map (entropy w (draws w + 2)) [0..<32])
    \<and> (ACRValues (Client (c_cfg c)) \<noteq> [] \<longrightarrow> (\<exists>v \<in> set (ACRValuesSupported (Provider (c_cfg c))).
         map_of opts ''acr_values'' = Some v
         \<and> v = (if Values_Get (req_Query r) ''level'' = [] then ACRValues (Client (c_cfg c))
                else Values_Get (req_Query r) ''level'')))"
proof -
  let ?p = "login_params l"
  obtain url where l: "newLoginParameters w = (Inr ?p, w')" "LoginCallbackURL r = Inr url"
    "make_authCodeURL x c ?p r url = Inr (authCodeURL l)"
    "login_cookie l = make_cookie ?p (CanonicalRedirect r) url"
    using assms by (rule NewLogin_Ok)
  obtain o1 o2 where o: "withSecurityLevel c r (auth_options c ?p url) = Inr o1" "withLocale c r o1 = Inr o2"
      "authCodeURL l = oauth2_AuthCodeURL x (c_oauth2Config c) (State ?p) o2"
    using l(3) by (auto simp: make_authCodeURL_def split: sum.splits)
  obtain e1 where e1: "o1 = auth_options c ?p url @ e1"
      "ACRValues (Client (c_cfg c)) \<noteq> [] \<longrightarrow> (\<exists>v \<in> set (ACRValuesSupported (Provider (c_cfg c))).
        e1 = [(LoginParameterMapping SecurityLevelURLParameter, v)]
        \<and> v = (if Values_Get (req_Query r) SecurityLevelURLParameter = [] then ACRValues (Client (c_cfg c))
               else Values_Get (req_Query r) SecurityLevelURLParameter))"
    using withParamMapping_Ok[OF o(1)[unfolded withSecurityLevel_def]] by blast
  obtain e2 where e2: "o2 = o1 @ e2" using withParamMapping_Ok[OF o(2)[unfolded withLocale_def]] by blast
  note p = newLoginParameters_Ok[OF l(1)]
  have acr: "LoginParameterMapping SecurityLevelURLParameter = ''acr_values''"
    by (simp add: LoginParameterMapping_def SecurityLevelURLParameter_def LocaleURLParameter_def)
  have "map_of (auth_options c ?p url @ e) ''nonce'' = Some (Nonce ?p)
      \<and> map_of (auth_options c ?p url @ e) ''code_challenge'' = Some (lp_CodeChallenge ?p)
      \<and> map_of (auth_options c ?p url @ e) ''code_challenge_method'' = Some ''S256''
      \<and> map_of (auth_options c ?p url @ e) ''redirect_uri'' = Some url
      \<and> map_of (auth_options c ?p url @ e) ''acr_values'' = map_of e ''acr_values''" for e
    by (simp add: auth_options_def)
  note m = this[of "e1 @ e2"]
  have k: "lc_State (login_cookie l) = State ?p" "lc_Nonce (login_cookie l) = Nonce ?p"
      "lc_CodeVerifier (login_cookie l) = CodeVerifier ?p" "lc_Referer (login_cookie l) = CanonicalRedirect r"
      "lc_RedirectURI (login_cookie l) = url"
    by (simp_all add: l(4) make_cookie_def)
  have o2: "o2 = auth_options c ?p url @ e1 @ e2" using e2 e1(1) by simp
  have level: "ACRValues (Client (c_cfg c)) \<noteq> [] \<longrightarrow> (\<exists>v \<in> set (ACRValuesSupported (Provider (c_cfg c))).
         map_of o2 ''acr_values'' = Some v
         \<and> v = (if Values_Get (req_Query r) ''level'' = [] then ACRValues (Client (c_cfg c))
                else Values_Get (req_Query r) ''level''))"
  proof
    assume "ACRValues (Client (c_cfg c)) \<noteq> []"
    then obtain v where v: "v \<in> set (ACRValuesSupported (Provider (c_cfg c)))" "e1 = [(''acr_values'', v)]"
        "v = (if Values_Get (req_Query r) ''level'' = [] then ACRValues (Client (c_cfg c))
              else Values_Get (req_Query r) ''level'')"
      using e1(2) unfolding acr unfolding SecurityLevelURLParameter_def by blast
    have "map_of o2 ''acr_values'' = Some v" using m v(2) unfolding o2 by simp
    with v show "\<exists>v \<in> set (ACRValuesSupported (Provider (c_cfg c))). map_of o2 ''acr_values'' = Some v
         \<and> v = (if Values_Get (req_Query r) ''level'' = [] then ACRValues (Client (c_cfg c))
                else Values_Get (req_Query r) ''level'')" by blast
  qed
  show ?thesis
    unfolding k using level o(3) m[folded o2] p l(2) by (intro exI[of _ o2] conjI) (simp_all only:)
qed

text \<open>A configured client to evaluate examples with.\<close>

definition example_openid :: openid_config where
  "example_openid = \<lparr> Client = \<lparr> cl_kind = AzureClient, cl_OpenID = cfg_OpenID example_config, cl_clientJwk = ''key'' \<rparr>,
     Provider = \<lparr> pr_endSessionEndpointURL = empty_url\<lparr> Scheme := ''https'', Host := ''idp'', Path := ''/logout'' \<rparr>,
       pr_metadata = empty_metadata\<lparr> pm_Issuer := ''https://idp'', pm_AuthorizationEndpoint := ''https://idp/auth'',
         pm_TokenEndpoint := ''https://idp/token'', pm_ACRValuesSupported := [''Level4''] \<rparr>,
       pr_name = ''azure'' \<rparr> \<rparr>"

definition example_client :: client where
  "example_client = NewClient example_openid (cfg_Loginstatus example_config)"

definition example_request :: "string \<Rightarrow> string \<Rightarrow> request" where
  "example_request path query = \<lparr> Method = ''GET'', req_URL = empty_url\<lparr> Path := path, RawQuery := query \<rparr>,
     req_Host = ''app.example'', Header = Map.empty, Cookies = [], ctx_AccessToken = None,
     ctx_Ingress = Some (empty_url\<lparr> Scheme := ''https'', Host := ''app.example'' \<rparr>), ctx_Path = Some [], ctx_RequestID = [] \<rparr>"

lemma example_callback_url:
  "LoginCallbackURL (example_request path query) = Inr ''https://app.example/oauth2/callback''"
proof -
  have "path_Join [[], paths_OAuth2, paths_LoginCallback] = ''/oauth2/callback''" by code_simp
  moreover have "URL_String (empty_url\<lparr> Host := ''app.example'', Path := ''/oauth2/callback'', Scheme := ''https'' \<rparr>)
      = ''https://app.example/oauth2/callback''" by code_simp
  ultimately show ?thesis
    by (simp add: LoginCallbackURL_def makeCallbackURL_def example_request_def accessor_simps empty_url_def)
qed

lemma newLoginParameters_total:
  assumes "\<And>n. entropy_ok w n"
  obtains p w' where "newLoginParameters w = (Inr p, w')"
  using assms by (auto simp: newLoginParameters_def GenerateBase64_def strings_Generate_def rand_Read_def)

lemma example_login:
  obtains l w' where
    "NewLogin example_ext example_client (example_request ''/oauth2/login'' []) (quiet_world t s) = (Inr l, w')"
proof -
  have "\<And>n. entropy_ok (quiet_world t s) n" by (simp add: quiet_world_def)
  then obtain p w' where p: "newLoginParameters (quiet_world t s) = (Inr p, w')" by (rule newLoginParameters_total)
  have q: "req_Query (example_request ''/oauth2/login'' []) = []"
    by (simp add: example_request_def req_Query_def URL_Query_def ParseQuery_def parse_pair_def)
  have "make_authCodeURL example_ext example_client p (example_request ''/oauth2/login'' []) url
      = Inr (''https://idp/auth?state='' @ State p)" for url
    by (simp add: make_authCodeURL_def withSecurityLevel_def withLocale_def withParamMapping_def LoginURLParameter_def
        q Values_Get_def example_client_def NewClient_def example_openid_def ACRValues_def ACRValuesSupported_def
        UILocales_def UILocalesSupported_def example_config_def AuthorizationEndpoint_def example_ext_def)
  then show thesis using that p by (simp add: NewLogin_def example_callback_url Let_def)
qed

theorem login_binds_request_witness:
  "\<exists>l w'. NewLogin example_ext example_client (example_request ''/oauth2/login'' []) (quiet_world 0 ()) = (Inr l, w')
     \<and> lc_RedirectURI (login_cookie l) = ''https://app.example/oauth2/callback''"
proof -
  obtain l w' where l: "NewLogin example_ext example_client (example_request ''/oauth2/login'' []) (quiet_world 0 ())
      = (Inr l, w')" by (rule example_login)
  then show ?thesis using login_binds_request[OF l] by (auto simp: example_callback_url)
qed

text \<open>
  A login with a security level or locale that the provider does not support is refused, with the
  error that names which, and no authorization URL is made; the level is checked first.
\<close>

theorem login_refuses_unsupported:
  assumes "newLoginParameters w = (Inr p, w')" "LoginCallbackURL r = Inr url"
  shows "(ACRValues (Client (c_cfg c)) \<noteq> [] \<and> Values_Get (req_Query r) ''level'' \<noteq> []
        \<and> Values_Get (req_Query r) ''level'' \<notin> set (ACRValuesSupported (Provider (c_cfg c)))
      \<longrightarrow> NewLogin x c r w = (Inl ErrInvalidSecurityLevel, w'))
    \<and> (ACRValues (Client (c_cfg c)) = [] \<and> UILocales (Client (c_cfg c)) \<noteq> []
        \<and> Values_Get (req_Query r) ''locale'' \<noteq> []
        \<and> Values_Get (req_Query r) ''locale'' \<notin> set (UILocalesSupported (Provider (c_cfg c)))
      \<longrightarrow> NewLogin x c r w = (Inl ErrInvalidLocale, w'))"
  using assms
  by (auto simp: NewLogin_def make_authCodeURL_def withSecurityLevel_def withLocale_def withParamMapping_def
      LoginURLParameter_def Contains_iff SecurityLevelURLParameter_def LocaleURLParameter_def Let_def)

theorem login_refuses_unsupported_witness:
  "\<exists>w'. NewLogin example_ext example_client (example_request ''/oauth2/login'' ''level=Level9'') (quiet_world 0 ())
     = (Inl ErrInvalidSecurityLevel, w')"
proof -
  have "\<And>n. entropy_ok (quiet_world 0 ()) n" by (simp add: quiet_world_def)
  then obtain p w' where p: "newLoginParameters (quiet_world 0 ()) = (Inr p, w')" by (rule newLoginParameters_total)
  have "Values_Get (req_Query (example_request ''/oauth2/login'' ''level=Level9'')) ''level'' = ''Level9''"
    "ACRValues (Client (c_cfg example_client)) = ''Level4''"
    "ACRValuesSupported (Provider (c_cfg example_client)) = [''Level4'']" by code_simp+
  then show ?thesis
    using login_refuses_unsupported[OF p example_callback_url, of "example_client" "''/oauth2/login''" "''level=Level9''" example_ext]
    by auto
qed

section \<open>The login cookie\<close>

definition valid_LoginCookie :: "LoginCookie \<Rightarrow> bool" where
  "valid_LoginCookie c \<longleftrightarrow> valid_utf8 (lc_State c) \<and> valid_utf8 (lc_Nonce c) \<and> valid_utf8 (lc_CodeVerifier c)
     \<and> valid_utf8 (lc_Referer c) \<and> valid_utf8 (lc_RedirectURI c)"

lemma LoginCookie_keys:
  "plain_key ''state''" "plain_key ''nonce''" "plain_key ''code_verifier''" "plain_key ''referer''" "plain_key ''redirect_uri''"
  by (simp_all add: plain_key_def plain_char_def byte_val_def)

lemma LoginCookie_Unmarshal_Marshal:
  assumes "valid_LoginCookie c"
  shows "json_Unmarshal LoginCookie_fields (LoginCookie_Marshal c) empty_LoginCookie = Inr c"
proof -
  have f: "map_of LoginCookie_fields ''state'' = Some (snd (string_field [] (\<lambda>s x. x\<lparr> lc_State := s \<rparr>)))"
      "map_of LoginCookie_fields ''nonce'' = Some (snd (string_field [] (\<lambda>s x. x\<lparr> lc_Nonce := s \<rparr>)))"
      "map_of LoginCookie_fields ''code_verifier'' = Some (snd (string_field [] (\<lambda>s x. x\<lparr> lc_CodeVerifier := s \<rparr>)))"
      "map_of LoginCookie_fields ''referer'' = Some (snd (string_field [] (\<lambda>s x. x\<lparr> lc_Referer := s \<rparr>)))"
      "map_of LoginCookie_fields ''redirect_uri'' = Some (snd (string_field [] (\<lambda>s x. x\<lparr> lc_RedirectURI := s \<rparr>)))"
    by (simp_all add: LoginCookie_fields_def string_field_def)
  have "plain_members 9999 (LoginCookie_members c)"
    by (simp add: LoginCookie_members_def LoginCookie_keys plain_key_chunk)
  then have "json_Unmarshal LoginCookie_fields (LoginCookie_Marshal c) empty_LoginCookie =
      decode_members LoginCookie_fields (LoginCookie_members c) empty_LoginCookie"
    by (simp add: LoginCookie_Marshal_def json_Unmarshal_print del: json_print.simps)
  also have "\<dots> = Inr c"
    using assms unfolding LoginCookie_members_def valid_LoginCookie_def
    by (simp add: decode_string_member[OF LoginCookie_keys(1) f(1)] decode_string_member[OF LoginCookie_keys(2) f(2)]
        decode_string_member[OF LoginCookie_keys(3) f(3)] decode_string_member[OF LoginCookie_keys(4) f(4)]
        decode_string_member[OF LoginCookie_keys(5) f(5)] empty_LoginCookie_def)
  finally show ?thesis .
qed

section \<open>The callback\<close>

lemma NewLoginCallback_Ok:
  assumes "NewLoginCallback r (Some c) = Inr cb"
  shows "cb_requestParams cb = req_Query r" "lc_State (cb_cookie cb) = lc_State c" "lc_Nonce (cb_cookie cb) = lc_Nonce c"
    "lc_CodeVerifier (cb_cookie cb) = lc_CodeVerifier c" "lc_Referer (cb_cookie cb) = lc_Referer c"
    "lc_RedirectURI c \<noteq> [] \<Longrightarrow> lc_RedirectURI (cb_cookie cb) = lc_RedirectURI c"
  using assms by (auto simp: NewLoginCallback_def split: if_splits sum.splits)

lemma StateMismatchError_None:
  "StateMismatchError cb = None \<longleftrightarrow>
     Values_Get (cb_requestParams cb) ''state'' \<noteq> [] \<and> Values_Get (cb_requestParams cb) ''state'' = lc_State (cb_cookie cb)"
  by (auto simp: StateMismatchError_def Let_def)

text \<open>Everything that must have happened for tokens to come out of a callback.\<close>

lemma RedeemTokens_Ok:
  assumes "RedeemTokens x c cb w = (Inr t, w')"
  obtains assertion n raw keys idt lt now now' where
    "jwt_Sign x \<lparr> as_iss = ClientID (Client (c_cfg c)), as_sub = ClientID (Client (c_cfg c)), as_aud = Issuer (Provider (c_cfg c)),
       as_iat = (clock w (ticks w) - 5 * Second) - (clock w (ticks w) - 5 * Second) mod Second,
       as_exp = (clock w (ticks w) - 5 * Second) - (clock w (ticks w) - 5 * Second) mod Second + 30 * Second,
       as_jti = uuid_New x (draws w) \<rparr> (ClientJWK (Client (c_cfg c))) = Inr assertion"
    "oauth2_Exchange x (calls w) (c_oauth2Config c) (Values_Get (cb_requestParams cb) ''code'') (redeem_options cb assertion) = Inr raw"
    "jwk_Cache_Get x n (JwksURI (Provider (c_cfg c))) = Inr keys"
    "o2_IDToken raw = Some idt" "jwt_ParseString x now AcceptableClockSkew keys idt = Inr lt"
    "jwt_Validate x now' (validate_options (c_cfg c) (lc_Nonce (cb_cookie cb))) lt = None"
    "t = \<lparr> tk_AccessToken = o2_AccessToken raw, tk_Expiry = o2_Expiry raw, tk_IDToken = NewToken idt lt,
       tk_RefreshToken = o2_RefreshToken raw, tk_TokenType = o2_TokenType raw \<rparr>"
proof -
  obtain a w1 where a: "MakeAssertion x c DefaultClientAssertionLifetime w = (Inr a, w1)"
    using assms by (auto simp: RedeemTokens_def split: prod.splits sum.splits)
  obtain raw w2 where raw: "AuthCodeGrant x c (Values_Get (cb_requestParams cb) ''code'') (redeem_options cb a) w1 = (Inr raw, w2)"
    using assms a by (auto simp: RedeemTokens_def split: prod.splits sum.splits)
  obtain keys w3 where keys: "GetPublicJwkSet x (Provider (c_cfg c)) w2 = (Inr keys, w3)"
    using assms a raw by (auto simp: RedeemTokens_def split: prod.splits sum.splits)
  obtain w4 where nt: "NewTokens x raw keys w3 = (Inr t, w4)"
      and val: "IDToken_Validate x (tk_IDToken t) (c_cfg c) (lc_Nonce (cb_cookie cb)) w4 = (None, w')"
    using assms a raw keys by (auto simp: RedeemTokens_def split: prod.splits sum.splits option.splits)
  obtain idt lt where id: "o2_IDToken raw = Some idt"
      "jwt_ParseString x (clock w3 (ticks w3)) AcceptableClockSkew keys idt = Inr lt"
      "t = \<lparr> tk_AccessToken = o2_AccessToken raw, tk_Expiry = o2_Expiry raw, tk_IDToken = NewToken idt lt,
         tk_RefreshToken = o2_RefreshToken raw, tk_TokenType = o2_TokenType raw \<rparr>"
    using nt by (auto simp: NewTokens_def ParseIDTokenFrom_def ParseIDToken_def jwt_Parse_def Let_def time_Now_def
        split: option.splits sum.splits prod.splits)
  have v: "jwt_Validate x (clock w4 (ticks w4)) (validate_options (c_cfg c) (lc_Nonce (cb_cookie cb))) lt = None"
    using val id(3) by (simp add: IDToken_Validate_def Let_def time_Now_def NewToken_def)
  have k: "jwk_Cache_Get x (calls w2) (JwksURI (Provider (c_cfg c))) = Inr keys"
    using keys by (auto simp: GetPublicJwkSet_def split: sum.splits)
  have sg: "jwt_Sign x \<lparr> as_iss = ClientID (Client (c_cfg c)), as_sub = ClientID (Client (c_cfg c)), as_aud = Issuer (Provider (c_cfg c)),
       as_iat = (clock w (ticks w) - 5 * Second) - (clock w (ticks w) - 5 * Second) mod Second,
       as_exp = (clock w (ticks w) - 5 * Second) - (clock w (ticks w) - 5 * Second) mod Second + 30 * Second,
       as_jti = uuid_New x (draws w) \<rparr> (ClientJWK (Client (c_cfg c))) = Inr a"
    using a by (auto simp: MakeAssertion_def Let_def time_Now_def Time_Add_def DefaultClientAssertionLifetime_def
        split: sum.splits)
  have "calls w1 = calls w" using MakeAssertion_env[OF a] by simp
  then have ex: "oauth2_Exchange x (calls w) (c_oauth2Config c) (Values_Get (cb_requestParams cb) ''code'') (redeem_options cb a) = Inr raw"
    using raw by (simp add: AuthCodeGrant_def)
  show thesis using that[OF sg ex k id(1,2) v id(3)] .
qed

text \<open>
  C17: Tokens come out of a callback only if the provider exchanged the request's code, presented with
  the PKCE verifier and redirect URI of the login cookie and a fresh client assertion; the ID token
  was verified against the provider's keys; and its claims were validated for this client's identifier
  as audience, the provider as issuer and the nonce of the login cookie, with the \<^verbatim>\<open>sid\<close> and
  \<^verbatim>\<open>acr\<close> claims required when the configuration asks for them.
\<close>

theorem redeem_tokens_safe:
  assumes "RedeemTokens x c cb w = (Inr t, w')"
  shows "\<exists>assertion n raw keys now now' lt.
      oauth2_Exchange x (calls w) (c_oauth2Config c) (Values_Get (cb_requestParams cb) ''code'')
        [(''code_verifier'', lc_CodeVerifier (cb_cookie cb)), (''client_assertion'', assertion),
         (''client_assertion_type'', ClientAssertionTypeJwtBearer), (''redirect_uri'', lc_RedirectURI (cb_cookie cb))] = Inr raw
    \<and> jwk_Cache_Get x n (JwksURI (Provider (c_cfg c))) = Inr keys
    \<and> o2_IDToken raw = Some (GetSerialized (tk_IDToken t))
    \<and> jwt_ParseString x now AcceptableClockSkew keys (GetSerialized (tk_IDToken t)) = Inr lt
    \<and> jwt_Validate x now'
        ([WithAudience (ClientID (Client (c_cfg c))), WithClaimValue ''nonce'' (lc_Nonce (cb_cookie cb)),
          WithIssuer (Issuer (Provider (c_cfg c))), WithAcceptableSkew AcceptableClockSkew]
         @ (if SidClaimRequired (Provider (c_cfg c)) then [WithRequiredClaim ''sid''] else [])
         @ (if ACRValues (Client (c_cfg c)) \<noteq> [] then [WithRequiredClaim ''acr''] else [])) lt = None
    \<and> token (tk_IDToken t) = Some lt
    \<and> tk_AccessToken t = o2_AccessToken raw \<and> tk_RefreshToken t = o2_RefreshToken raw \<and> tk_Expiry t = o2_Expiry raw"
proof -
  obtain assertion n raw keys idt lt now now' where
    "oauth2_Exchange x (calls w) (c_oauth2Config c) (Values_Get (cb_requestParams cb) ''code'') (redeem_options cb assertion) = Inr raw"
    "jwk_Cache_Get x n (JwksURI (Provider (c_cfg c))) = Inr keys"
    "o2_IDToken raw = Some idt" "jwt_ParseString x now AcceptableClockSkew keys idt = Inr lt"
    "jwt_Validate x now' (validate_options (c_cfg c) (lc_Nonce (cb_cookie cb))) lt = None"
    "t = \<lparr> tk_AccessToken = o2_AccessToken raw, tk_Expiry = o2_Expiry raw, tk_IDToken = NewToken idt lt,
       tk_RefreshToken = o2_RefreshToken raw, tk_TokenType = o2_TokenType raw \<rparr>"
    using assms by (rule RedeemTokens_Ok)
  then show ?thesis
    by (intro exI[of _ assertion] exI[of _ n] exI[of _ raw] exI[of _ keys] exI[of _ now] exI[of _ now'] exI[of _ lt])
      (simp add: redeem_options_def validate_options_def GetSerialized_def NewToken_def)
qed

definition example_callback :: LoginCallback where
  "example_callback = \<lparr> cb_cookie = \<lparr> lc_State = ''state'', lc_Nonce = ''nonce'', lc_CodeVerifier = ''verifier'',
     lc_Referer = ''/'', lc_RedirectURI = ''https://app.example/oauth2/callback'' \<rparr>,
     cb_requestParams = [(''code'', ''code''), (''state'', ''state'')] \<rparr>"

lemma example_redeem:
  obtains t w' where "RedeemTokens example_ext example_client example_callback w = (Inr t, w')"
    "tk_AccessToken t = ''access''" "tk_RefreshToken t = ''refresh''" "tk_Expiry t = Hour"
    "GetSidClaim (tk_IDToken t) = Inr ''sid-1''"
  by (auto simp: RedeemTokens_def MakeAssertion_def Let_def time_Now_def AuthCodeGrant_def GetPublicJwkSet_def
      NewTokens_def ParseIDTokenFrom_def ParseIDToken_def jwt_Parse_def IDToken_Validate_def NewToken_def
      example_ext_def GetSidClaim_def GetStringClaim_def SidClaim_def)

theorem redeem_tokens_safe_witness:
  "\<exists>t w'. RedeemTokens example_ext example_client example_callback (quiet_world 0 ()) = (Inr t, w')
     \<and> o2_AccessToken \<lparr> o2_AccessToken = ''access'', o2_Expiry = Hour, o2_RefreshToken = ''refresh'',
       o2_TokenType = ''Bearer'', o2_IDToken = Some ''code'' \<rparr> = tk_AccessToken t"
proof -
  obtain t w' where t: "RedeemTokens example_ext example_client example_callback (quiet_world 0 ()) = (Inr t, w')"
    by (rule example_redeem)
  then show ?thesis using redeem_tokens_safe[OF t] by (auto simp: example_ext_def)
qed

section \<open>Logout\<close>

text \<open>
  Single logout: the user is sent to the provider's end-session endpoint with the program's
  logout callback, and with the ID token as a hint when there is one, unless the endpoint's own query
  already has such a parameter; scheme, host and path are the endpoint's.
\<close>

theorem single_logout_url_correct:
  assumes "map_of (URL_Query (EndSessionEndpointURL (Provider (c_cfg c)))) ''post_logout_redirect_uri'' = None"
    and "map_of (URL_Query (EndSessionEndpointURL (Provider (c_cfg c)))) ''id_token_hint'' = None"
    and "NewLogout r = Inr l"
  shows "\<exists>u. SingleLogoutURL c l idt = URL_String u
    \<and> Values_Get (URL_Query u) ''post_logout_redirect_uri'' = logoutCallbackURL l
    \<and> LogoutCallbackURL r = Inr (logoutCallbackURL l)
    \<and> Values_Get (URL_Query u) ''id_token_hint'' = idt
    \<and> u\<lparr> RawQuery := [] \<rparr> = (EndSessionEndpointURL (Provider (c_cfg c)))\<lparr> RawQuery := [] \<rparr>"
proof -
  let ?u = "single_logout_url c l idt"
  have "Values_Get (URL_Query ?u) ''post_logout_redirect_uri'' = logoutCallbackURL l"
    "Values_Get (URL_Query ?u) ''id_token_hint'' = idt"
    using assms(1,2)
    by (simp_all add: single_logout_url_def Let_def URL_Query_def) (simp_all add: Values_Get_def Values_Add_def map_add_def)
  moreover have "LogoutCallbackURL r = Inr (logoutCallbackURL l)"
    using assms(3) by (auto simp: NewLogout_def split: sum.splits)
  moreover have "?u\<lparr> RawQuery := [] \<rparr> = (EndSessionEndpointURL (Provider (c_cfg c)))\<lparr> RawQuery := [] \<rparr>"
    by (simp add: single_logout_url_def Let_def)
  ultimately show ?thesis by (intro exI[of _ ?u]) (simp add: SingleLogoutURL_def)
qed

theorem single_logout_url_correct_witness:
  "\<exists>l u. NewLogout (example_request ''/oauth2/logout'' []) = Inr l \<and> SingleLogoutURL example_client l ''idt'' = URL_String u
     \<and> Values_Get (URL_Query u) ''id_token_hint'' = ''idt''"
proof -
  have "URL_Query (EndSessionEndpointURL (Provider (c_cfg example_client))) = []"
    by (simp add: example_client_def NewClient_def example_openid_def EndSessionEndpointURL_def URL_Query_def empty_url_def
        ParseQuery_def parse_pair_def)
  moreover obtain l where l: "NewLogout (example_request ''/oauth2/logout'' []) = Inr l"
    by (auto simp: NewLogout_def LogoutCallbackURL_def makeCallbackURL_def example_request_def accessor_simps)
  ultimately show ?thesis using single_logout_url_correct[OF _ _ l, of example_client "''idt''"] by auto
qed

end
