(* ===== verification/SessionData.thy ===== *)
theory SessionData
  imports Cookie OpenIDClient
begin

text \<open>
  The data of a session, \<^verbatim>\<open>pkg/session/data.go\<close>: the structs \<^verbatim>\<open>Data\<close> and \<^verbatim>\<open>EncryptedData\<close>,
  marshalling to JSON and encryption. The interface between the session handler and the data it stores
  is the locale \<open>sealed_data\<close>.
\<close>

section \<open>Structs\<close>

record Data =
  ExternalSessionID :: string
  AccessToken :: string
  data_IDToken :: string
  RefreshToken :: string
  IDTokenJwtID :: string
  data_Metadata :: Metadata

record EncryptedData =
  enc_Data :: string

definition NewData :: "string \<Rightarrow> tokens \<Rightarrow> Metadata option \<Rightarrow> Data" where
  "NewData externalSessionID tokens metadata =
     \<lparr> ExternalSessionID = externalSessionID, AccessToken = tk_AccessToken tokens,
       data_IDToken = GetSerialized (tk_IDToken tokens), RefreshToken = tk_RefreshToken tokens,
       IDTokenJwtID = GetJwtID (tk_IDToken tokens),
       data_Metadata = (case metadata of Some m \<Rightarrow> m
         | None \<Rightarrow> \<lparr> md_Session = \<lparr> CreatedAt = 0, EndsAt = 0, TimeoutAt = 0 \<rparr>,
                      md_Tokens = \<lparr> ExpireAt = 0, RefreshedAt = 0 \<rparr> \<rparr>) \<rparr>"

definition HasAccessToken :: "Data \<Rightarrow> bool" where "HasAccessToken d = (length (AccessToken d) > 0)"
definition HasRefreshToken :: "Data \<Rightarrow> bool" where "HasRefreshToken d = (length (RefreshToken d) > 0)"

section \<open>JSON\<close>

definition Metadata_members :: "Metadata \<Rightarrow> (string \<times> json) list result" where
  "Metadata_members m =
     (case Time_MarshalJSON (CreatedAt (md_Session m)) of Inl e \<Rightarrow> Inl e | Inr created \<Rightarrow>
      case Time_MarshalJSON (EndsAt (md_Session m)) of Inl e \<Rightarrow> Inl e | Inr ends \<Rightarrow>
      case Time_MarshalJSON (TimeoutAt (md_Session m)) of Inl e \<Rightarrow> Inl e | Inr timeout \<Rightarrow>
      case Time_MarshalJSON (ExpireAt (md_Tokens m)) of Inl e \<Rightarrow> Inl e | Inr expire \<Rightarrow>
      case Time_MarshalJSON (RefreshedAt (md_Tokens m)) of Inl e \<Rightarrow> Inl e | Inr refreshed \<Rightarrow>
        Inr [(''session'', JObj [time_member ''created_at'' created, time_member ''ends_at'' ends, time_member ''timeout_at'' timeout]),
             (''tokens'', JObj [time_member ''expire_at'' expire, time_member ''refreshed_at'' refreshed])])"

definition Data_Marshal :: "Data \<Rightarrow> string result" where
  "Data_Marshal d =
     (case Metadata_members (data_Metadata d) of
        Inl e \<Rightarrow> Inl e
      | Inr ms \<Rightarrow> Inr (json_print (JObj [string_member ''external_session_id'' (ExternalSessionID d),
          string_member ''access_token'' (AccessToken d), string_member ''id_token'' (data_IDToken d),
          string_member ''refresh_token'' (RefreshToken d), string_member ''id_token_jwt_id'' (IDTokenJwtID d),
          (''metadata'', JObj ms)])))"

definition MetadataSession_fields :: "MetadataSession field list" where
  "MetadataSession_fields = [time_field ''created_at'' (\<lambda>t x. x\<lparr> CreatedAt := t \<rparr>),
     time_field ''ends_at'' (\<lambda>t x. x\<lparr> EndsAt := t \<rparr>), time_field ''timeout_at'' (\<lambda>t x. x\<lparr> TimeoutAt := t \<rparr>)]"

definition MetadataTokens_fields :: "MetadataTokens field list" where
  "MetadataTokens_fields = [time_field ''expire_at'' (\<lambda>t x. x\<lparr> ExpireAt := t \<rparr>),
     time_field ''refreshed_at'' (\<lambda>t x. x\<lparr> RefreshedAt := t \<rparr>)]"

definition Metadata_fields :: "Metadata field list" where
  "Metadata_fields = [struct_field ''session'' MetadataSession_fields md_Session (\<lambda>s x. x\<lparr> md_Session := s \<rparr>),
     struct_field ''tokens'' MetadataTokens_fields md_Tokens (\<lambda>s x. x\<lparr> md_Tokens := s \<rparr>)]"

definition Data_fields :: "Data field list" where
  "Data_fields = [string_field ''external_session_id'' (\<lambda>s x. x\<lparr> ExternalSessionID := s \<rparr>),
     string_field ''access_token'' (\<lambda>s x. x\<lparr> AccessToken := s \<rparr>), string_field ''id_token'' (\<lambda>s x. x\<lparr> data_IDToken := s \<rparr>),
     string_field ''refresh_token'' (\<lambda>s x. x\<lparr> RefreshToken := s \<rparr>),
     string_field ''id_token_jwt_id'' (\<lambda>s x. x\<lparr> IDTokenJwtID := s \<rparr>),
     struct_field ''metadata'' Metadata_fields data_Metadata (\<lambda>m x. x\<lparr> data_Metadata := m \<rparr>)]"

definition empty_Data :: Data where
  "empty_Data = \<lparr> ExternalSessionID = [], AccessToken = [], data_IDToken = [], RefreshToken = [], IDTokenJwtID = [],
     data_Metadata = \<lparr> md_Session = \<lparr> CreatedAt = 0, EndsAt = 0, TimeoutAt = 0 \<rparr>, md_Tokens = \<lparr> ExpireAt = 0, RefreshedAt = 0 \<rparr> \<rparr> \<rparr>"

definition Data_Unmarshal :: "string \<Rightarrow> Data result" where
  "Data_Unmarshal s = json_Unmarshal Data_fields s empty_Data"

definition EncryptedData_MarshalBinary :: "EncryptedData \<Rightarrow> string" where
  "EncryptedData_MarshalBinary d = json_print (JObj [string_member ''data'' (enc_Data d)])"

definition EncryptedData_UnmarshalBinary :: "string \<Rightarrow> EncryptedData result" where
  "EncryptedData_UnmarshalBinary s =
     json_Unmarshal [string_field ''data'' (\<lambda>s x. x\<lparr> enc_Data := s \<rparr>)] s \<lparr> enc_Data = [] \<rparr>"

section \<open>Encryption\<close>

definition Data_Encrypt :: "crypter \<Rightarrow> Data \<Rightarrow> 's world \<Rightarrow> EncryptedData result \<times> 's world" where
  "Data_Encrypt crypter d w =
     (case Data_Marshal d of
        Inl e \<Rightarrow> (Inl e, w)
      | Inr bytes \<Rightarrow>
          (case Crypter_Encrypt crypter bytes w of
             (Inl e, w1) \<Rightarrow> (Inl e, w1)
           | (Inr ciphertext, w1) \<Rightarrow> (Inr \<lparr> enc_Data = EncodeToString StdEncoding ciphertext \<rparr>, w1)))"

definition Data_Decrypt :: "crypter \<Rightarrow> EncryptedData \<Rightarrow> Data result" where
  "Data_Decrypt crypter ed =
     (case DecodeString StdEncoding (enc_Data ed) of
        Inl e \<Rightarrow> Inl e
      | Inr ciphertext \<Rightarrow>
          (case Crypter_Decrypt crypter ciphertext of
             Inl e \<Rightarrow> Inl e
           | Inr rawData \<Rightarrow> Data_Unmarshal rawData))"

section \<open>Round trips\<close>

definition valid_Data :: "Data \<Rightarrow> bool" where
  "valid_Data d \<longleftrightarrow> valid_utf8 (ExternalSessionID d) \<and> valid_utf8 (AccessToken d) \<and> valid_utf8 (data_IDToken d)
     \<and> valid_utf8 (RefreshToken d) \<and> valid_utf8 (IDTokenJwtID d)"

lemma Data_keys:
  "plain_key ''external_session_id''" "plain_key ''access_token''" "plain_key ''id_token''" "plain_key ''refresh_token''"
  "plain_key ''id_token_jwt_id''" "plain_key ''metadata''" "plain_key ''session''" "plain_key ''tokens''"
  "plain_key ''created_at''" "plain_key ''ends_at''" "plain_key ''timeout_at''" "plain_key ''expire_at''"
  "plain_key ''refreshed_at''" "plain_key ''data''"
  by (simp_all add: plain_key_def plain_char_def byte_val_def)

lemmas Data_chunks = Data_keys[THEN plain_key_chunk]

lemma Metadata_members_Ok:
  assumes "Metadata_members m = Inr ms"
  obtains cr en ti ex re where
    "ms = [(''session'', JObj [time_member ''created_at'' cr, time_member ''ends_at'' en, time_member ''timeout_at'' ti]),
           (''tokens'', JObj [time_member ''expire_at'' ex, time_member ''refreshed_at'' re])]"
    "Time_MarshalJSON (CreatedAt (md_Session m)) = Inr cr" "Time_MarshalJSON (EndsAt (md_Session m)) = Inr en"
    "Time_MarshalJSON (TimeoutAt (md_Session m)) = Inr ti" "Time_MarshalJSON (ExpireAt (md_Tokens m)) = Inr ex"
    "Time_MarshalJSON (RefreshedAt (md_Tokens m)) = Inr re"
  using assms by (auto simp: Metadata_members_def split: sum.splits)

lemma Metadata_round_trip:
  assumes "Metadata_members m = Inr ms"
  shows "decode_members Metadata_fields ms x = Inr m" "plain_members 9998 ms"
proof -
  obtain cr en ti ex re where ms:
    "ms = [(''session'', JObj [time_member ''created_at'' cr, time_member ''ends_at'' en, time_member ''timeout_at'' ti]),
           (''tokens'', JObj [time_member ''expire_at'' ex, time_member ''refreshed_at'' re])]"
    and t: "Time_MarshalJSON (CreatedAt (md_Session m)) = Inr cr" "Time_MarshalJSON (EndsAt (md_Session m)) = Inr en"
    "Time_MarshalJSON (TimeoutAt (md_Session m)) = Inr ti" "Time_MarshalJSON (ExpireAt (md_Tokens m)) = Inr ex"
    "Time_MarshalJSON (RefreshedAt (md_Tokens m)) = Inr re"
    using assms by (rule Metadata_members_Ok)
  show "plain_members 9998 ms"
    by (simp add: ms plain_members_time[OF t(1)] plain_members_time[OF t(2)] plain_members_time[OF t(3)]
        plain_members_time[OF t(4)] plain_members_time[OF t(5)] Data_chunks)
  have fs: "map_of MetadataSession_fields ''created_at'' = Some (snd (time_field [] (\<lambda>t x. x\<lparr> CreatedAt := t \<rparr>)))"
      "map_of MetadataSession_fields ''ends_at'' = Some (snd (time_field [] (\<lambda>t x. x\<lparr> EndsAt := t \<rparr>)))"
      "map_of MetadataSession_fields ''timeout_at'' = Some (snd (time_field [] (\<lambda>t x. x\<lparr> TimeoutAt := t \<rparr>)))"
    by (simp_all add: MetadataSession_fields_def time_field_def)
  have ft: "map_of MetadataTokens_fields ''expire_at'' = Some (snd (time_field [] (\<lambda>t x. x\<lparr> ExpireAt := t \<rparr>)))"
      "map_of MetadataTokens_fields ''refreshed_at'' = Some (snd (time_field [] (\<lambda>t x. x\<lparr> RefreshedAt := t \<rparr>)))"
    by (simp_all add: MetadataTokens_fields_def time_field_def)
  have s: "decode_members MetadataSession_fields [time_member ''created_at'' cr, time_member ''ends_at'' en,
      time_member ''timeout_at'' ti] y = Inr (md_Session m)" for y
    by (simp add: decode_time_member[OF Data_keys(9) fs(1) t(1)] decode_time_member[OF Data_keys(10) fs(2) t(2)]
        decode_time_member[OF Data_keys(11) fs(3) t(3)])
  have k: "decode_members MetadataTokens_fields [time_member ''expire_at'' ex, time_member ''refreshed_at'' re] y
      = Inr (md_Tokens m)" for y
    by (simp add: decode_time_member[OF Data_keys(12) ft(1) t(4)] decode_time_member[OF Data_keys(13) ft(2) t(5)])
  have fm: "map_of Metadata_fields ''session'' = Some (snd (struct_field [] MetadataSession_fields md_Session (\<lambda>s x. x\<lparr> md_Session := s \<rparr>)))"
      "map_of Metadata_fields ''tokens'' = Some (snd (struct_field [] MetadataTokens_fields md_Tokens (\<lambda>s x. x\<lparr> md_Tokens := s \<rparr>)))"
    by (simp_all add: Metadata_fields_def struct_field_def)
  show "decode_members Metadata_fields ms x = Inr m"
    unfolding ms
    by (simp add: decode_struct_member[OF Data_keys(7) fm(1) s] decode_struct_member[OF Data_keys(8) fm(2) k]
        del: decode_members.simps(2))
qed

text \<open>
  What JSON does to the strings of a session: bytes that are not UTF-8 come back as the replacement
  character, everything else as it was.
\<close>

definition through_json :: "string \<Rightarrow> string" where "through_json s = json_unquote (json_escape s)"

lemma through_json_valid [simp]: "valid_utf8 s \<Longrightarrow> through_json s = s"
  by (simp add: through_json_def json_unquote_escape)

definition through_store :: "Data \<Rightarrow> Data" where
  "through_store d = \<lparr> ExternalSessionID = through_json (ExternalSessionID d), AccessToken = through_json (AccessToken d),
     data_IDToken = through_json (data_IDToken d), RefreshToken = through_json (RefreshToken d),
     IDTokenJwtID = through_json (IDTokenJwtID d), data_Metadata = data_Metadata d \<rparr>"

lemma through_store_valid [simp]: "valid_Data d \<Longrightarrow> through_store d = d"
  by (simp add: through_store_def valid_Data_def)

lemma decode_any_string_member:
  assumes "plain_key k" "map_of fs k = Some (snd (string_field k' upd))"
  shows "decode_members fs (string_member k s # ms) x = decode_members fs ms (upd (through_json s) x)"
  using assms by (simp add: string_member_def decode_members_Cons string_field_def through_json_def del: decode_members.simps)

lemma Data_Unmarshal_Marshal:
  assumes "Data_Marshal d = Inr s"
  shows "Data_Unmarshal s = Inr (through_store d)"
proof -
  obtain ms where ms: "Metadata_members (data_Metadata d) = Inr ms"
      and s: "s = json_print (JObj [string_member ''external_session_id'' (ExternalSessionID d),
          string_member ''access_token'' (AccessToken d), string_member ''id_token'' (data_IDToken d),
          string_member ''refresh_token'' (RefreshToken d), string_member ''id_token_jwt_id'' (IDTokenJwtID d),
          (''metadata'', JObj ms)])"
    using assms by (auto simp: Data_Marshal_def split: sum.splits)
  note mr = Metadata_round_trip[OF ms]
  have f: "map_of Data_fields ''external_session_id'' = Some (snd (string_field [] (\<lambda>s x. x\<lparr> ExternalSessionID := s \<rparr>)))"
      "map_of Data_fields ''access_token'' = Some (snd (string_field [] (\<lambda>s x. x\<lparr> AccessToken := s \<rparr>)))"
      "map_of Data_fields ''id_token'' = Some (snd (string_field [] (\<lambda>s x. x\<lparr> data_IDToken := s \<rparr>)))"
      "map_of Data_fields ''refresh_token'' = Some (snd (string_field [] (\<lambda>s x. x\<lparr> RefreshToken := s \<rparr>)))"
      "map_of Data_fields ''id_token_jwt_id'' = Some (snd (string_field [] (\<lambda>s x. x\<lparr> IDTokenJwtID := s \<rparr>)))"
      "map_of Data_fields ''metadata'' = Some (snd (struct_field [] Metadata_fields data_Metadata (\<lambda>m x. x\<lparr> data_Metadata := m \<rparr>)))"
    by (simp_all add: Data_fields_def string_field_def struct_field_def)
  have "Data_Unmarshal s = decode_members Data_fields [string_member ''external_session_id'' (ExternalSessionID d),
          string_member ''access_token'' (AccessToken d), string_member ''id_token'' (data_IDToken d),
          string_member ''refresh_token'' (RefreshToken d), string_member ''id_token_jwt_id'' (IDTokenJwtID d),
          (''metadata'', JObj ms)] empty_Data"
    unfolding Data_Unmarshal_def s using mr(2) by (intro json_Unmarshal_print) (simp add: Data_chunks)
  also have "\<dots> = Inr (through_store d)"
    by (simp add: decode_any_string_member[OF Data_keys(1) f(1)] decode_any_string_member[OF Data_keys(2) f(2)]
        decode_any_string_member[OF Data_keys(3) f(3)] decode_any_string_member[OF Data_keys(4) f(4)]
        decode_any_string_member[OF Data_keys(5) f(5)] decode_struct_member[OF Data_keys(6) f(6) mr(1)]
        empty_Data_def through_store_def del: decode_members.simps(2))
  finally show ?thesis .
qed

lemma Data_Encrypt_env [env_intros]: "Data_Encrypt c d w = (r, w') \<Longrightarrow> same_env w w' \<and> store w' = store w"
  by (auto simp: Data_Encrypt_def split: sum.splits prod.splits dest!: Crypter_Encrypt_env)

lemma Data_Decrypt_Encrypt:
  assumes "Data_Encrypt c d w = (Inr e, w')"
  shows "Data_Decrypt c e = Inr (through_store d)"
proof -
  obtain b ct where b: "Data_Marshal d = Inr b" "Crypter_Encrypt c b w = (Inr ct, w')"
      "e = \<lparr> enc_Data = EncodeToString StdEncoding ct \<rparr>"
    using assms(1) by (auto simp: Data_Encrypt_def split: sum.splits prod.splits)
  have "Crypter_Decrypt c ct = Inr b" using b(2) by (rule aes_gcm.Decrypt_Encrypt)
  then show ?thesis using b(3) Data_Unmarshal_Marshal[OF b(1)] by (simp add: Data_Decrypt_def)
qed

text \<open>Base64 text is ASCII, so it survives JSON: what is stored in Redis comes back.\<close>

lemma ascii_valid_utf8: "(\<And>c. c \<in> set s \<Longrightarrow> byte_val c < 128) \<Longrightarrow> valid_utf8 s"
proof (induction s)
  case (Cons c s)
  then have "utf8_size (c # s) = 1" using utf8_size_ascii[of c s] by (metis list.set_intros(1))
  with Cons show ?case by simp
qed simp

lemma base64_ascii: "c \<in> set (EncodeToString StdEncoding s) \<Longrightarrow> byte_val c < 128"
proof -
  assume "c \<in> set (EncodeToString StdEncoding s)"
  then have "c \<in> set (b64_alphabet StdEncoding) \<union> {CHR ''=''}"
    using EncodeToString_chars[OF good_encodings(1), of s] by auto
  then show ?thesis by (auto simp: StdEncoding_def byte_val_def)
qed

lemma base64url_ascii: "c \<in> set (EncodeToString RawURLEncoding s) \<Longrightarrow> byte_val c < 128"
proof -
  assume "c \<in> set (EncodeToString RawURLEncoding s)"
  then have "c \<in> set (b64_alphabet RawURLEncoding) \<union> {CHR ''=''}"
    using EncodeToString_chars[OF good_encodings(2), of s] by auto
  then show ?thesis by (auto simp: RawURLEncoding_def byte_val_def)
qed

lemmas base64_valid_utf8 = ascii_valid_utf8[OF base64_ascii] ascii_valid_utf8[OF base64url_ascii]

lemma Data_Encrypt_valid: "Data_Encrypt c d w = (Inr e, w') \<Longrightarrow> valid_utf8 (enc_Data e)"
  by (auto simp: Data_Encrypt_def base64_valid_utf8 split: sum.splits prod.splits)

lemma EncryptedData_round_trip:
  assumes "valid_utf8 (enc_Data e)"
  shows "EncryptedData_UnmarshalBinary (EncryptedData_MarshalBinary e) = Inr e"
proof -
  let ?fs = "[string_field ''data'' (\<lambda>s x. x\<lparr> enc_Data := s \<rparr>)]"
  have f: "map_of ?fs ''data'' = Some (snd (string_field [] (\<lambda>s x. x\<lparr> enc_Data := s \<rparr>)))"
    by (simp add: string_field_def)
  have "EncryptedData_UnmarshalBinary (EncryptedData_MarshalBinary e)
      = decode_members ?fs [string_member ''data'' (enc_Data e)] \<lparr> enc_Data = [] \<rparr>"
    unfolding EncryptedData_UnmarshalBinary_def EncryptedData_MarshalBinary_def
    by (intro json_Unmarshal_print) (simp add: Data_chunks)
  then show ?thesis by (simp add: decode_string_member[OF Data_keys(14) f assms])
qed

section \<open>Sealing\<close>

text \<open>
  What the session handler relies on: what was sealed successfully opens to the same data, as long as
  the data is valid.
\<close>

locale sealed_data =
  fixes seal :: "'d \<Rightarrow> 'w \<Rightarrow> 'e result \<times> 'w"
    and unseal :: "'e \<Rightarrow> 'd result"
    and valid :: "'d \<Rightarrow> bool"
  assumes unseal_seal: "seal d w = (Inr e, w') \<Longrightarrow> valid d \<Longrightarrow> unseal e = Inr d"
begin

lemma seal_inject:
  "seal d w = (Inr e, w') \<Longrightarrow> valid d \<Longrightarrow> seal d' v = (Inr e, v') \<Longrightarrow> valid d' \<Longrightarrow> d = d'"
  by (drule (1) unseal_seal, drule (1) unseal_seal) simp

end

interpretation session_data: sealed_data "Data_Encrypt c" "Data_Decrypt c" valid_Data for c
  by unfold_locales (simp add: Data_Decrypt_Encrypt)

text \<open>Sealing fails only if the random source does, the key is bad, or a time cannot be written.\<close>

definition marshallable :: "Metadata \<Rightarrow> bool" where
  "marshallable m \<longleftrightarrow> (\<forall>t \<in> {CreatedAt (md_Session m), EndsAt (md_Session m), TimeoutAt (md_Session m),
     ExpireAt (md_Tokens m), RefreshedAt (md_Tokens m)}. 0 \<le> t \<and> t < 3652059 * day_ns)"

lemma Data_Marshal_ok: "marshallable (data_Metadata d) \<Longrightarrow> \<exists>s. Data_Marshal d = Inr s"
proof -
  assume m: "marshallable (data_Metadata d)"
  have "\<exists>ms. Metadata_members (data_Metadata d) = Inr ms"
    using Time_MarshalJSON_ok[of "CreatedAt (md_Session (data_Metadata d))"]
      Time_MarshalJSON_ok[of "EndsAt (md_Session (data_Metadata d))"]
      Time_MarshalJSON_ok[of "TimeoutAt (md_Session (data_Metadata d))"]
      Time_MarshalJSON_ok[of "ExpireAt (md_Tokens (data_Metadata d))"]
      Time_MarshalJSON_ok[of "RefreshedAt (md_Tokens (data_Metadata d))"] m
    by (auto simp: marshallable_def Metadata_members_def)
  then show ?thesis by (auto simp: Data_Marshal_def)
qed

lemma Data_Encrypt_total:
  assumes "aes_key_ok (key c)" "entropy_ok w (draws w)" "marshallable (data_Metadata d)"
  obtains e w' where "Data_Encrypt c d w = (Inr e, w')"
proof -
  obtain s where s: "Data_Marshal d = Inr s" using Data_Marshal_ok assms(3) by blast
  obtain ct w' where "Crypter_Encrypt c s w = (Inr ct, w')" using assms(1,2) by (rule Crypter_Encrypt_total)
  then show thesis using that s by (simp add: Data_Encrypt_def)
qed

text \<open>
  C15: Session data survives storage: whatever is encrypted for the store decrypts to the same data,
  for every key, clock and random source, provided its strings are valid UTF-8 (JSON replaces other
  bytes); and the stored form survives the store's own JSON encoding.
\<close>

theorem session_data_round_trip:
  assumes "Data_Encrypt c d w = (Inr e, w')" "valid_Data d"
  shows "Data_Decrypt c e = Inr d \<and> EncryptedData_UnmarshalBinary (EncryptedData_MarshalBinary e) = Inr e"
  using session_data.unseal_seal[OF assms] EncryptedData_round_trip[OF Data_Encrypt_valid[OF assms(1)]] by blast

definition example_data :: Data where
  "example_data = \<lparr> ExternalSessionID = ''sid-1'', AccessToken = ''access'', data_IDToken = ''code'', RefreshToken = ''refresh'',
     IDTokenJwtID = ''code'', data_Metadata = NewMetadata 0 Hour (10 * Hour) \<rparr>"

definition example_crypter :: crypter where "example_crypter = \<lparr> key = replicate 32 (CHR 0x00) \<rparr>"

lemma example_crypter_ok: "aes_key_ok (key example_crypter)"
  by (simp add: example_crypter_def aes_key_ok_def)

lemma example_data_valid: "valid_Data example_data" "marshallable (data_Metadata example_data)"
proof -
  show "valid_Data example_data" by code_simp
  show "marshallable (data_Metadata example_data)"
    by (simp add: example_data_def marshallable_def NewMetadata_def Time_Add_def duration_consts day_ns_def)
qed

theorem session_data_round_trip_witness:
  "\<exists>e w'. Data_Encrypt example_crypter example_data (quiet_world 0 ()) = (Inr e, w')
     \<and> Data_Decrypt example_crypter e = Inr example_data"
proof -
  have "entropy_ok (quiet_world 0 ()) (draws (quiet_world 0 ()))" by (simp add: quiet_world_def)
  then obtain e w' where e: "Data_Encrypt example_crypter example_data (quiet_world 0 ()) = (Inr e, w')"
    using Data_Encrypt_total[OF example_crypter_ok _ example_data_valid(2)] by blast
  then show ?thesis using session_data_round_trip[OF e example_data_valid(1)] by blast
qed

end
