(* ===== verification/SessionStore.thy ===== *)
theory SessionStore
  imports SessionData
begin

text \<open>
  \<^verbatim>\<open>pkg/session/store.go\<close>, \<^verbatim>\<open>store_memory.go\<close>, \<^verbatim>\<open>store_redis.go\<close> and \<^verbatim>\<open>lock.go\<close>: the session store and its locks. The interfaces
  \<^verbatim>\<open>Store\<close> and \<^verbatim>\<open>Lock\<close> are a record of operations; what they promise is the locale
  \<open>session_store\<close>. The in-memory store interprets it outright; the Redis store satisfies it for
  every Redis client that keeps the documented behaviour of the commands it uses.
\<close>

section \<open>The interface\<close>

text \<open>A lock, once acquired, is represented by what is needed to release it.\<close>

type_synonym lock_handle = string

record 's session_store_ops =
  st_Write :: "string \<Rightarrow> EncryptedData \<Rightarrow> duration \<Rightarrow> 's world \<Rightarrow> err \<times> 's world"
  st_Read :: "string \<Rightarrow> 's world \<Rightarrow> EncryptedData result \<times> 's world"
  st_Delete :: "string list \<Rightarrow> 's world \<Rightarrow> err \<times> 's world"
  st_Update :: "string \<Rightarrow> EncryptedData \<Rightarrow> 's world \<Rightarrow> err \<times> 's world"
  st_Acquire :: "string \<Rightarrow> duration \<Rightarrow> 's world \<Rightarrow> lock_handle result \<times> 's world"
  st_Release :: "string \<Rightarrow> lock_handle \<Rightarrow> 's world \<Rightarrow> err \<times> 's world"

definition lockKey :: "string \<Rightarrow> string" where "lockKey ky = ky @ ''.lock''"

lemma lockKey_neq [simp]: "lockKey k \<noteq> k" "k \<noteq> lockKey k"
  by (simp_all add: lockKey_def)

text \<open>What can be stored: the handler only stores base64 text.\<close>

definition storable :: "EncryptedData \<Rightarrow> bool" where "storable e = valid_utf8 (enc_Data e)"

text \<open>A step inside the program: the environment stays and no request is sent to the provider.\<close>

definition local_step :: "'s world \<Rightarrow> 's world \<Rightarrow> bool" where
  "local_step w w' \<longleftrightarrow> same_env w w' \<and> calls w' = calls w"

lemma local_step_refl [simp, intro]: "local_step w w"
  by (simp add: local_step_def)

lemma local_step_trans: "local_step u v \<Longrightarrow> local_step v w \<Longrightarrow> local_step u w"
  by (auto simp: local_step_def intro: same_env_trans)

lemma local_step_upd [simp, intro]:
  "local_step w (w\<lparr> store := s \<rparr>)" "local_step w (w\<lparr> dos := n \<rparr>)" "local_step w (w\<lparr> locks := n \<rparr>)"
  by (simp_all add: local_step_def)

lemma local_step_env: "local_step w w' \<Longrightarrow> same_env w w'"
  by (simp add: local_step_def)

text \<open>
  The contract, in terms of what the store contains: reading returns what is there, and only that;
  writing, updating and deleting change the given keys only, and have their effect when they report
  success, while a reported error leaves open whether they had it; updating requires the key to be there. Locking
  touches nothing but the lock's own key.
\<close>

locale session_store =
  fixes S :: "'s session_store_ops"
    and contents :: "'s \<Rightarrow> string \<rightharpoonup> EncryptedData"
  assumes Read_env: "st_Read S k w = (r, w') \<Longrightarrow> local_step w w' \<and> contents (store w') = contents (store w)"
    and Read_Ok: "st_Read S k w = (Inr v, w') \<Longrightarrow> contents (store w) k = Some v"
    and Read_missing: "st_Read S k w = (Inl ErrKeyNotFound, w') \<Longrightarrow> contents (store w) k = None"
    and Read_errors: "st_Read S k w = (Inl e, w') \<Longrightarrow> e \<in> {ErrKeyNotFound, ErrUnexpected}"
    and Write_env: "st_Write S k v d w = (er, w') \<Longrightarrow> storable v \<Longrightarrow> local_step w w' \<and>
      (contents (store w') = contents (store w) \<or> contents (store w') = (contents (store w))(k \<mapsto> v))"
    and Write_Ok: "st_Write S k v d w = (None, w') \<Longrightarrow> storable v \<Longrightarrow>
      contents (store w') = (contents (store w))(k \<mapsto> v)"
    and Write_errors: "st_Write S k v d w = (Some e, w') \<Longrightarrow> e = ErrUnexpected"
    and Delete_env: "st_Delete S ks w = (er, w') \<Longrightarrow> local_step w w' \<and>
      (\<forall>k. contents (store w') k = contents (store w) k \<or> (k \<in> set ks \<and> contents (store w') k = None))"
    and Delete_Ok: "st_Delete S ks w = (None, w') \<Longrightarrow> contents (store w') = (contents (store w)) |` (- set ks)"
    and Delete_missing: "st_Delete S ks w = (Some ErrKeyNotFound, w') \<Longrightarrow> k \<in> set ks \<Longrightarrow> contents (store w') k = None"
    and Delete_errors: "st_Delete S ks w = (Some e, w') \<Longrightarrow> e \<in> {ErrKeyNotFound, ErrUnexpected}"
    and Update_env: "st_Update S k v w = (er, w') \<Longrightarrow> storable v \<Longrightarrow> local_step w w' \<and>
      (contents (store w') = contents (store w) \<or> contents (store w') = (contents (store w))(k \<mapsto> v))"
    and Update_Ok: "st_Update S k v w = (None, w') \<Longrightarrow> storable v \<Longrightarrow>
      contents (store w) k \<noteq> None \<and> contents (store w') = (contents (store w))(k \<mapsto> v)"
    and Update_missing: "st_Update S k v w = (Some ErrKeyNotFound, w') \<Longrightarrow>
      contents (store w) k = None \<and> contents (store w') = contents (store w)"
    and Update_errors: "st_Update S k v w = (Some e, w') \<Longrightarrow> e \<in> {ErrKeyNotFound, ErrUnexpected}"
    and Acquire_env: "st_Acquire S k d w = (lr, w') \<Longrightarrow> local_step w w' \<and>
      (\<forall>k'. k' \<noteq> lockKey k \<longrightarrow> contents (store w') k' = contents (store w) k')"
    and Release_env: "st_Release S k l w = (er, w') \<Longrightarrow> local_step w w' \<and>
      (\<forall>k'. k' \<noteq> lockKey k \<longrightarrow> contents (store w') k' = contents (store w) k')"
begin

text \<open>Reading after a successful write returns what was written, or fails; it never returns anything else.\<close>

lemma read_after_write:
  assumes "st_Write S k v d w = (None, w')" "storable v" "st_Read S k w' = (r, w'')"
  shows "r = Inr v \<or> r = Inl ErrUnexpected"
proof (cases r)
  case (Inl e)
  then show ?thesis using Read_errors[OF assms(3)[unfolded Inl]] Read_missing[of k w' w''] Write_Ok[OF assms(1,2)] assms(3)
    by auto
next
  case (Inr x)
  then show ?thesis using Read_Ok[OF assms(3)[unfolded Inr]] Write_Ok[OF assms(1,2)] by simp
qed

lemma read_after_delete:
  assumes "st_Delete S ks w = (None, w')" "k \<in> set ks" "st_Read S k w' = (r, w'')"
  shows "\<exists>e. r = Inl e"
  using Read_Ok[of k w' _ w''] Delete_Ok[OF assms(1)] assms(2,3) by (cases r) (auto simp: restrict_map_def)

end

text \<open>A store whose operations do not fail, such as one in memory.\<close>

locale reliable_store = session_store +
  assumes Read_total: "contents (store w) k = Some v \<Longrightarrow> \<exists>w'. st_Read S k w = (Inr v, w')"
    and Read_none: "contents (store w) k = None \<Longrightarrow> \<exists>w'. st_Read S k w = (Inl ErrKeyNotFound, w')"
    and Write_total: "\<exists>w'. st_Write S k v d w = (None, w')"
    and Delete_total: "\<exists>w'. st_Delete S ks w = (None, w')"
    and Acquire_total: "\<exists>l w'. st_Acquire S k d w = (Inr l, w')"
begin

lemma read_write_same:
  assumes "st_Write S k v d w = (None, w')" "storable v"
  shows "\<exists>w''. st_Read S k w' = (Inr v, w'')"
  using Read_total Write_Ok[OF assms] by simp

end

section \<open>The in-memory store\<close>

type_synonym memory = "string \<rightharpoonup> EncryptedData"

definition NewMemory :: memory where "NewMemory = Map.empty"

definition memory_Read :: "string \<Rightarrow> memory world \<Rightarrow> EncryptedData result \<times> memory world" where
  "memory_Read ky w = (case store w ky of None \<Rightarrow> (Inl ErrKeyNotFound, w) | Some data \<Rightarrow> (Inr data, w))"

definition memory_Write :: "string \<Rightarrow> EncryptedData \<Rightarrow> duration \<Rightarrow> memory world \<Rightarrow> err \<times> memory world" where
  "memory_Write ky value expiration w = (None, w\<lparr> store := (store w)(ky \<mapsto> value) \<rparr>)"

definition memory_Delete :: "string list \<Rightarrow> memory world \<Rightarrow> err \<times> memory world" where
  "memory_Delete keys w = (None, w\<lparr> store := foldl (\<lambda>m ky. m(ky := None)) (store w) keys \<rparr>)"

definition memory_Update :: "string \<Rightarrow> EncryptedData \<Rightarrow> memory world \<Rightarrow> err \<times> memory world" where
  "memory_Update ky value w =
     (case memory_Read ky w of
        (Inl e, w1) \<Rightarrow> (Some e, w1)
      | (Inr _, w1) \<Rightarrow> (None, w1\<lparr> store := (store w1)(ky \<mapsto> value) \<rparr>))"

definition NoOpLock_Acquire :: "string \<Rightarrow> duration \<Rightarrow> 's world \<Rightarrow> lock_handle result \<times> 's world" where
  "NoOpLock_Acquire ky d w = (Inr [], w)"

definition NoOpLock_Release :: "string \<Rightarrow> lock_handle \<Rightarrow> 's world \<Rightarrow> err \<times> 's world" where
  "NoOpLock_Release ky l w = (None, w)"

definition memory_store :: "memory session_store_ops" where
  "memory_store = \<lparr> st_Write = memory_Write, st_Read = memory_Read, st_Delete = memory_Delete, st_Update = memory_Update,
     st_Acquire = NoOpLock_Acquire, st_Release = NoOpLock_Release \<rparr>"

lemma foldl_delete: "foldl (\<lambda>m ky. m(ky := None)) m ks = m |` (- set ks)"
  by (induction ks arbitrary: m) (auto simp: restrict_map_def fun_eq_iff)

interpretation memory: reliable_store memory_store "\<lambda>s. s"
  by unfold_locales
    (auto simp: memory_store_def memory_Read_def memory_Write_def memory_Delete_def memory_Update_def NoOpLock_Acquire_def
      NoOpLock_Release_def foldl_delete restrict_map_def split: option.splits)

section \<open>The Redis store\<close>

text \<open>
  The commands of go-redis and redislock that the program uses are the parameter: a reply or an error,
  and the state of the server afterwards. The expiry of a key is an action of the environment.
\<close>

datatype redis_error = Nil_reply | Redis_failure
datatype redis_expiration = Expiration duration | KeepTTL
datatype obtain_error = ErrNotObtained | Obtain_failure

record 'r redis_client =
  rc_Get :: "string \<Rightarrow> 'r \<Rightarrow> (redis_error + string) \<times> 'r"
  rc_Set :: "string \<Rightarrow> string \<Rightarrow> redis_expiration \<Rightarrow> 'r \<Rightarrow> redis_error option \<times> 'r"
  rc_Del :: "string list \<Rightarrow> 'r \<Rightarrow> redis_error option \<times> 'r"
  rl_Obtain :: "string \<Rightarrow> duration \<Rightarrow> 'r \<Rightarrow> (obtain_error + lock_handle) \<times> 'r"
  rl_Release :: "string \<Rightarrow> lock_handle \<Rightarrow> 'r \<Rightarrow> bool \<times> 'r"

definition redis_Read :: "'r redis_client \<Rightarrow> string \<Rightarrow> 'r world \<Rightarrow> EncryptedData result \<times> 'r world" where
  "redis_Read c ky w =
     (case rc_Get c ky (store w) of
        (Inl Nil_reply, s) \<Rightarrow> (Inl ErrKeyNotFound, w\<lparr> store := s \<rparr>)
      | (Inl Redis_failure, s) \<Rightarrow> (Inl ErrUnexpected, w\<lparr> store := s \<rparr>)
      | (Inr bytes, s) \<Rightarrow>
          (case EncryptedData_UnmarshalBinary bytes of
             Inl e \<Rightarrow> (Inl ErrUnexpected, w\<lparr> store := s \<rparr>)
           | Inr encryptedData \<Rightarrow> (Inr encryptedData, w\<lparr> store := s \<rparr>)))"

definition redis_Write :: "'r redis_client \<Rightarrow> string \<Rightarrow> EncryptedData \<Rightarrow> duration \<Rightarrow> 'r world \<Rightarrow> err \<times> 'r world" where
  "redis_Write c ky value expiration w =
     (case rc_Set c ky (EncryptedData_MarshalBinary value) (Expiration expiration) (store w) of
        (None, s) \<Rightarrow> (None, w\<lparr> store := s \<rparr>)
      | (Some _, s) \<Rightarrow> (Some ErrUnexpected, w\<lparr> store := s \<rparr>))"

definition redis_Delete :: "'r redis_client \<Rightarrow> string list \<Rightarrow> 'r world \<Rightarrow> err \<times> 'r world" where
  "redis_Delete c keys w =
     (case rc_Del c keys (store w) of
        (None, s) \<Rightarrow> (None, w\<lparr> store := s \<rparr>)
      | (Some Nil_reply, s) \<Rightarrow> (Some ErrKeyNotFound, w\<lparr> store := s \<rparr>)
      | (Some Redis_failure, s) \<Rightarrow> (Some ErrUnexpected, w\<lparr> store := s \<rparr>))"

text \<open>The second command of an update, once the first has found the entry.\<close>

definition redis_overwrite :: "'r redis_client \<Rightarrow> string \<Rightarrow> EncryptedData \<Rightarrow> 'r world \<Rightarrow> err \<times> 'r world" where
  "redis_overwrite c ky value w =
     (case rc_Set c ky (EncryptedData_MarshalBinary value) KeepTTL (store w) of
        (None, s) \<Rightarrow> (None, w\<lparr> store := s \<rparr>)
      | (Some _, s) \<Rightarrow> (Some ErrUnexpected, w\<lparr> store := s \<rparr>))"

definition redis_Update :: "'r redis_client \<Rightarrow> string \<Rightarrow> EncryptedData \<Rightarrow> 'r world \<Rightarrow> err \<times> 'r world" where
  "redis_Update c ky value w =
     (case redis_Read c ky w of
        (Inl e, w1) \<Rightarrow> (Some e, w1)
      | (Inr _, w1) \<Rightarrow> redis_overwrite c ky value w1)"

definition RedisLock_Acquire :: "'r redis_client \<Rightarrow> string \<Rightarrow> duration \<Rightarrow> 'r world \<Rightarrow> lock_handle result \<times> 'r world" where
  "RedisLock_Acquire c ky d w =
     (case rl_Obtain c (lockKey ky) d (store w) of
        (Inl ErrNotObtained, s) \<Rightarrow> (Inl ErrAcquireLock, w\<lparr> store := s \<rparr>)
      | (Inl Obtain_failure, s) \<Rightarrow> (Inl (ErrOther ''redislock''), w\<lparr> store := s \<rparr>)
      | (Inr lock, s) \<Rightarrow> (Inr lock, w\<lparr> store := s \<rparr>))"

definition RedisLock_Release :: "'r redis_client \<Rightarrow> string \<Rightarrow> lock_handle \<Rightarrow> 'r world \<Rightarrow> err \<times> 'r world" where
  "RedisLock_Release c ky lock w =
     (case rl_Release c (lockKey ky) lock (store w) of
        (True, s) \<Rightarrow> (None, w\<lparr> store := s \<rparr>)
      | (False, s) \<Rightarrow> (Some (ErrOther ''redislock: lock not held''), w\<lparr> store := s \<rparr>))"

definition redis_store :: "'r redis_client \<Rightarrow> 'r session_store_ops" where
  "redis_store c = \<lparr> st_Write = redis_Write c, st_Read = redis_Read c, st_Delete = redis_Delete c, st_Update = redis_Update c,
     st_Acquire = RedisLock_Acquire c, st_Release = RedisLock_Release c \<rparr>"

text \<open>
  What the Redis store relies on, stated on the server's key space \<open>kv\<close>: GET returns the value of the
  key, or nil if there is none; SET and DEL act on their keys only and have their effect when they
  succeed; obtaining and releasing a lock touches the lock's key only.
\<close>

definition redis_laws :: "'r redis_client \<Rightarrow> ('r \<Rightarrow> string \<rightharpoonup> string) \<Rightarrow> bool" where
  "redis_laws c kv \<longleftrightarrow>
     (\<forall>k s r s'. rc_Get c k s = (r, s') \<longrightarrow> kv s' = kv s \<and> (\<forall>v. r = Inr v \<longrightarrow> kv s k = Some v) \<and> (r = Inl Nil_reply \<longrightarrow> kv s k = None))
   \<and> (\<forall>k v ex s r s'. rc_Set c k v ex s = (r, s') \<longrightarrow> (kv s' = (kv s)(k \<mapsto> v) \<or> r \<noteq> None \<and> kv s' = kv s))
   \<and> (\<forall>ks s r s'. rc_Del c ks s = (r, s') \<longrightarrow>
        (\<forall>k. kv s' k = kv s k \<or> (k \<in> set ks \<and> kv s' k = None)) \<and> (r = None \<longrightarrow> kv s' = (kv s) |` (- set ks))
          \<and> (r = Some Nil_reply \<longrightarrow> (\<forall>k \<in> set ks. kv s' k = None)))
   \<and> (\<forall>k d s r s'. rl_Obtain c k d s = (r, s') \<longrightarrow> (\<forall>k'. k' \<noteq> k \<longrightarrow> kv s' k' = kv s k'))
   \<and> (\<forall>l k s r s'. rl_Release c k l s = (r, s') \<longrightarrow> (\<forall>k'. k' \<noteq> k \<longrightarrow> kv s' k' = kv s k'))"

lemma redis_lawsD:
  assumes "redis_laws c kv"
  shows "rc_Get c k s = (r, s') \<Longrightarrow> kv s' = kv s" "rc_Get c k s = (Inr v, s') \<Longrightarrow> kv s k = Some v"
    "rc_Get c k s = (Inl Nil_reply, s') \<Longrightarrow> kv s k = None"
    "rc_Set c k v ex s = (ro, s') \<Longrightarrow> kv s' = (kv s)(k \<mapsto> v) \<or> ro \<noteq> None \<and> kv s' = kv s"
    "rc_Del c ks s = (ro, s') \<Longrightarrow> kv s' k' = kv s k' \<or> (k' \<in> set ks \<and> kv s' k' = None)"
    "rc_Del c ks s = (None, s') \<Longrightarrow> kv s' = (kv s) |` (- set ks)"
    "rl_Obtain c k d s = (lr, s') \<Longrightarrow> k' \<noteq> k \<Longrightarrow> kv s' k' = kv s k'"
    "rl_Release c k l s = (b, s') \<Longrightarrow> k' \<noteq> k \<Longrightarrow> kv s' k' = kv s k'"
    "rc_Del c ks s = (Some Nil_reply, s') \<Longrightarrow> k' \<in> set ks \<Longrightarrow> kv s' k' = None"
proof -
  have g: "\<forall>k s r s'. rc_Get c k s = (r, s') \<longrightarrow> kv s' = kv s \<and> (\<forall>v. r = Inr v \<longrightarrow> kv s k = Some v)
        \<and> (r = Inl Nil_reply \<longrightarrow> kv s k = None)"
    and st: "\<forall>k v ex s r s'. rc_Set c k v ex s = (r, s') \<longrightarrow> (kv s' = (kv s)(k \<mapsto> v) \<or> r \<noteq> None \<and> kv s' = kv s)"
    and d: "\<forall>ks s r s'. rc_Del c ks s = (r, s') \<longrightarrow> (\<forall>k. kv s' k = kv s k \<or> (k \<in> set ks \<and> kv s' k = None))
        \<and> (r = None \<longrightarrow> kv s' = (kv s) |` (- set ks)) \<and> (r = Some Nil_reply \<longrightarrow> (\<forall>k \<in> set ks. kv s' k = None))"
    and o: "\<forall>k d s r s'. rl_Obtain c k d s = (r, s') \<longrightarrow> (\<forall>k'. k' \<noteq> k \<longrightarrow> kv s' k' = kv s k')"
    and rl: "\<forall>l k s r s'. rl_Release c k l s = (r, s') \<longrightarrow> (\<forall>k'. k' \<noteq> k \<longrightarrow> kv s' k' = kv s k')"
    using assms unfolding redis_laws_def by - (elim conjE, assumption)+
  show "rc_Get c k s = (r, s') \<Longrightarrow> kv s' = kv s" "rc_Get c k s = (Inr v, s') \<Longrightarrow> kv s k = Some v"
    "rc_Get c k s = (Inl Nil_reply, s') \<Longrightarrow> kv s k = None" by (simp_all add: g)
  show "rc_Set c k v ex s = (ro, s') \<Longrightarrow> kv s' = (kv s)(k \<mapsto> v) \<or> ro \<noteq> None \<and> kv s' = kv s" using st by metis
  show "rc_Del c ks s = (ro, s') \<Longrightarrow> kv s' k' = kv s k' \<or> (k' \<in> set ks \<and> kv s' k' = None)"
    "rc_Del c ks s = (None, s') \<Longrightarrow> kv s' = (kv s) |` (- set ks)"
    "rc_Del c ks s = (Some Nil_reply, s') \<Longrightarrow> k' \<in> set ks \<Longrightarrow> kv s' k' = None" using d by metis+
  show "rl_Obtain c k d s = (lr, s') \<Longrightarrow> k' \<noteq> k \<Longrightarrow> kv s' k' = kv s k'" using o by metis
  show "rl_Release c k l s = (b, s') \<Longrightarrow> k' \<noteq> k \<Longrightarrow> kv s' k' = kv s k'" using rl by metis
qed

text \<open>The sessions in a Redis server: the values that decode.\<close>

definition redis_contents :: "('r \<Rightarrow> string \<rightharpoonup> string) \<Rightarrow> 'r \<Rightarrow> string \<rightharpoonup> EncryptedData" where
  "redis_contents kv s k =
     (case kv s k of None \<Rightarrow> None
      | Some t \<Rightarrow> (case EncryptedData_UnmarshalBinary t of Inr e \<Rightarrow> Some e | Inl _ \<Rightarrow> None))"

lemma redis_contents_upd:
  assumes "kv s' = (kv s)(k \<mapsto> EncryptedData_MarshalBinary v)" "storable v"
  shows "redis_contents kv s' = (redis_contents kv s)(k \<mapsto> v)"
  using assms EncryptedData_round_trip[of v] by (auto simp: redis_contents_def storable_def fun_eq_iff)

lemma redis_contents_eq: "kv s' k = kv s k \<Longrightarrow> redis_contents kv s' k = redis_contents kv s k"
  by (simp add: redis_contents_def)

lemma redis_contents_cong: "kv s' = kv s \<Longrightarrow> redis_contents kv s' = redis_contents kv s"
  by (rule ext) (simp add: redis_contents_def)

lemma redis_Read_props:
  assumes "redis_laws c kv" "redis_Read c k w = (r, w')"
  shows "local_step w w' \<and> redis_contents kv (store w') = redis_contents kv (store w)"
    "r = Inr v \<Longrightarrow> redis_contents kv (store w) k = Some v" "r = Inl ErrKeyNotFound \<Longrightarrow> redis_contents kv (store w) k = None"
    "r = Inl e \<Longrightarrow> e \<in> {ErrKeyNotFound, ErrUnexpected}"
proof -
  obtain q s' where g: "rc_Get c k (store w) = (q, s')" by fastforce
  have w': "w' = w\<lparr> store := s' \<rparr>" using assms(2) g by (auto simp: redis_Read_def split: sum.splits redis_error.splits)
  then show "local_step w w' \<and> redis_contents kv (store w') = redis_contents kv (store w)"
    using redis_lawsD(1)[OF assms(1) g] by (auto intro: redis_contents_cong)
  show "r = Inr v \<Longrightarrow> redis_contents kv (store w) k = Some v"
    using assms(2) g redis_lawsD(2)[OF assms(1)]
    by (auto simp: redis_Read_def redis_contents_def split: sum.splits redis_error.splits)
  show "r = Inl ErrKeyNotFound \<Longrightarrow> redis_contents kv (store w) k = None"
    using assms(2) g redis_lawsD(3)[OF assms(1)]
    by (auto simp: redis_Read_def redis_contents_def split: sum.splits redis_error.splits)
  show "r = Inl e \<Longrightarrow> e \<in> {ErrKeyNotFound, ErrUnexpected}"
    using assms(2) g by (auto simp: redis_Read_def split: sum.splits redis_error.splits)
qed

lemma redis_Set_props:
  assumes "redis_laws c kv" "rc_Set c k (EncryptedData_MarshalBinary v) ex s = (r, s')" "storable v"
  shows "redis_contents kv s' = (redis_contents kv s)(k \<mapsto> v) \<or> r \<noteq> None \<and> redis_contents kv s' = redis_contents kv s"
  using redis_lawsD(4)[OF assms(1,2)] redis_contents_upd[of kv s' s k v] redis_contents_cong[of kv s' s] assms(3) by auto

lemma redis_Update_cases:
  assumes "redis_Update c k v w = (r, w')"
  obtains (missing) e where "redis_Read c k w = (Inl e, w')" "r = Some e"
  | (set) x w1 q s where "redis_Read c k w = (Inr x, w1)" "rc_Set c k (EncryptedData_MarshalBinary v) KeepTTL (store w1) = (q, s)"
      "w' = w1\<lparr> store := s \<rparr>" "r = (if q = None then None else Some ErrUnexpected)"
  using assms by (auto simp: redis_Update_def redis_overwrite_def split: prod.splits sum.splits option.splits)

lemma redis_Write_props:
  assumes "redis_laws c kv" "redis_Write c k v d w = (r, w')"
  shows "storable v \<Longrightarrow> local_step w w' \<and> (redis_contents kv (store w') = redis_contents kv (store w) \<or>
      redis_contents kv (store w') = (redis_contents kv (store w))(k \<mapsto> v))"
    and "storable v \<Longrightarrow> r = None \<Longrightarrow> redis_contents kv (store w') = (redis_contents kv (store w))(k \<mapsto> v)"
    and "r = Some e \<Longrightarrow> e = ErrUnexpected"
proof -
  obtain q s where s: "rc_Set c k (EncryptedData_MarshalBinary v) (Expiration d) (store w) = (q, s)"
      and w': "w' = w\<lparr> store := s \<rparr>" and r: "r = (if q = None then None else Some ErrUnexpected)"
    using assms(2) by (auto simp: redis_Write_def split: prod.splits option.splits)
  show "storable v \<Longrightarrow> local_step w w' \<and> (redis_contents kv (store w') = redis_contents kv (store w) \<or>
      redis_contents kv (store w') = (redis_contents kv (store w))(k \<mapsto> v))"
    using redis_Set_props[OF assms(1) s] w' by auto
  show "storable v \<Longrightarrow> r = None \<Longrightarrow> redis_contents kv (store w') = (redis_contents kv (store w))(k \<mapsto> v)"
    using redis_Set_props[OF assms(1) s] w' r by (auto split: if_splits)
  show "r = Some e \<Longrightarrow> e = ErrUnexpected" using r by (simp split: if_splits)
qed

lemma redis_Delete_props:
  assumes "redis_laws c kv" "redis_Delete c ks w = (r, w')"
  shows "local_step w w' \<and> (\<forall>k. redis_contents kv (store w') k = redis_contents kv (store w) k
      \<or> (k \<in> set ks \<and> redis_contents kv (store w') k = None))"
    and "r = None \<Longrightarrow> redis_contents kv (store w') = redis_contents kv (store w) |` (- set ks)"
    and "r = Some ErrKeyNotFound \<Longrightarrow> k \<in> set ks \<Longrightarrow> redis_contents kv (store w') k = None"
    and "r = Some e \<Longrightarrow> e \<in> {ErrKeyNotFound, ErrUnexpected}"
proof -
  obtain q s where s: "rc_Del c ks (store w) = (q, s)" and w': "w' = w\<lparr> store := s \<rparr>" and r: "r = None \<longleftrightarrow> q = None"
      "r = Some ErrKeyNotFound \<longleftrightarrow> q = Some Nil_reply"
    using assms(2) by (auto simp: redis_Delete_def split: prod.splits option.splits redis_error.splits)
  have "redis_contents kv s k = redis_contents kv (store w) k \<or> (k \<in> set ks \<and> redis_contents kv s k = None)" for k
    using redis_lawsD(5)[OF assms(1) s, of k] by (auto simp: redis_contents_def)
  then show "local_step w w' \<and> (\<forall>k. redis_contents kv (store w') k = redis_contents kv (store w) k
      \<or> (k \<in> set ks \<and> redis_contents kv (store w') k = None))" using w' by auto
  show "redis_contents kv (store w') = redis_contents kv (store w) |` (- set ks)" if "r = None"
    using redis_lawsD(6)[OF assms(1), of ks "store w" s] s r that w'
    by (auto simp: redis_contents_def restrict_map_def fun_eq_iff)
  show "redis_contents kv (store w') k = None" if "r = Some ErrKeyNotFound" "k \<in> set ks"
    using redis_lawsD(9)[OF assms(1)] s r(2) that w' by (auto simp: redis_contents_def)
  show "r = Some e \<Longrightarrow> e \<in> {ErrKeyNotFound, ErrUnexpected}"
    using assms(2) by (auto simp: redis_Delete_def split: prod.splits option.splits redis_error.splits)
qed

lemma redis_Update_props:
  assumes "redis_laws c kv" "redis_Update c k v w = (r, w')"
  shows "storable v \<Longrightarrow> local_step w w' \<and> (redis_contents kv (store w') = redis_contents kv (store w) \<or>
      redis_contents kv (store w') = (redis_contents kv (store w))(k \<mapsto> v))"
    and "storable v \<Longrightarrow> r = None \<Longrightarrow> redis_contents kv (store w) k \<noteq> None \<and>
      redis_contents kv (store w') = (redis_contents kv (store w))(k \<mapsto> v)"
    and "r = Some ErrKeyNotFound \<Longrightarrow> redis_contents kv (store w) k = None \<and>
      redis_contents kv (store w') = redis_contents kv (store w)"
    and "r = Some e \<Longrightarrow> e \<in> {ErrKeyNotFound, ErrUnexpected}"
proof -
  note read = redis_Read_props[OF assms(1)]
  consider (missing) e' where "redis_Read c k w = (Inl e', w')" "r = Some e'"
    | (set) x w1 q s where "redis_Read c k w = (Inr x, w1)" "w' = w1\<lparr> store := s \<rparr>"
        "rc_Set c k (EncryptedData_MarshalBinary v) KeepTTL (store w1) = (q, s)" "r = (if q = None then None else Some ErrUnexpected)"
    using redis_Update_cases[OF assms(2)] by metis
  note cases = this
  show "local_step w w' \<and> (redis_contents kv (store w') = redis_contents kv (store w) \<or>
      redis_contents kv (store w') = (redis_contents kv (store w))(k \<mapsto> v))" if st: "storable v"
    using cases
  proof cases
    case missing
    then show ?thesis using read(1) by blast
  next
    case set
    show ?thesis using read(1)[OF set(1)] redis_Set_props[OF assms(1) set(3) st] set(2) by (auto intro: local_step_trans)
  qed
  show "redis_contents kv (store w) k \<noteq> None \<and> redis_contents kv (store w') = (redis_contents kv (store w))(k \<mapsto> v)"
    if st: "storable v" and "r = None"
    using cases
  proof cases
    case set
    show ?thesis using read(1,2)[OF set(1)] redis_Set_props[OF assms(1) set(3) st] set(2,4) that(2) by (auto split: if_splits)
  qed (use that in simp)
  show "redis_contents kv (store w) k = None \<and> redis_contents kv (store w') = redis_contents kv (store w)"
    if "r = Some ErrKeyNotFound"
    using cases that by cases (use read(1,3) in \<open>auto split: if_splits\<close>)
  show "r = Some e \<Longrightarrow> e \<in> {ErrKeyNotFound, ErrUnexpected}"
    using cases by cases (use read(4) in \<open>auto split: if_splits\<close>)
qed

lemma redis_lock_props:
  assumes "redis_laws c kv"
  shows "RedisLock_Acquire c k d w = (q, w') \<Longrightarrow> local_step w w' \<and>
      (\<forall>k'. k' \<noteq> lockKey k \<longrightarrow> redis_contents kv (store w') k' = redis_contents kv (store w) k')"
    and "RedisLock_Release c k l w = (r, w') \<Longrightarrow> local_step w w' \<and>
      (\<forall>k'. k' \<noteq> lockKey k \<longrightarrow> redis_contents kv (store w') k' = redis_contents kv (store w) k')"
proof -
  assume "RedisLock_Acquire c k d w = (q, w')"
  then obtain z s where s: "rl_Obtain c (lockKey k) d (store w) = (z, s)" and w': "w' = w\<lparr> store := s \<rparr>"
    by (auto simp: RedisLock_Acquire_def split: prod.splits sum.splits obtain_error.splits)
  show "local_step w w' \<and> (\<forall>k'. k' \<noteq> lockKey k \<longrightarrow> redis_contents kv (store w') k' = redis_contents kv (store w) k')"
    using redis_lawsD(7)[OF assms s] w' by (auto intro!: redis_contents_eq)
next
  assume "RedisLock_Release c k l w = (r, w')"
  then obtain z s where s: "rl_Release c (lockKey k) l (store w) = (z, s)" and w': "w' = w\<lparr> store := s \<rparr>"
    by (auto simp: RedisLock_Release_def split: prod.splits bool.splits)
  show "local_step w w' \<and> (\<forall>k'. k' \<noteq> lockKey k \<longrightarrow> redis_contents kv (store w') k' = redis_contents kv (store w) k')"
    using redis_lawsD(8)[OF assms s] w' by (auto intro!: redis_contents_eq)
qed

lemma redis_session_store:
  assumes "redis_laws c kv"
  shows "session_store (redis_store c) (redis_contents kv)"
proof -
  have ops: "st_Read (redis_store c) = redis_Read c" "st_Write (redis_store c) = redis_Write c"
      "st_Delete (redis_store c) = redis_Delete c" "st_Update (redis_store c) = redis_Update c"
      "st_Acquire (redis_store c) = RedisLock_Acquire c" "st_Release (redis_store c) = RedisLock_Release c"
    by (simp_all add: redis_store_def)
  show ?thesis
    by (unfold_locales; unfold ops)
      (erule redis_Read_props[OF assms] redis_Write_props[OF assms] redis_Delete_props[OF assms]
        redis_Update_props[OF assms] redis_lock_props[OF assms]; (assumption | rule refl))+
qed

text \<open>
  C8: The Redis store keeps the contract of a session store, for every Redis client whose commands
  behave as documented: what is written is read back unchanged through the store's JSON encoding, an
  update needs the key, only the given keys are touched, and errors are reported as \<^verbatim>\<open>ErrKeyNotFound\<close>
  or \<^verbatim>\<open>ErrUnexpected\<close>.
\<close>

theorem redis_store_correct:
  assumes "redis_laws c kv"
  shows "session_store (redis_store c) (redis_contents kv)"
  using assms by (rule redis_session_store)

text \<open>A client on an association of keys and values, whose locks are keys too.\<close>

definition map_client :: "(string \<rightharpoonup> string) redis_client" where
  "map_client = \<lparr> rc_Get = (\<lambda>k m. (case m k of None \<Rightarrow> Inl Nil_reply | Some v \<Rightarrow> Inr v, m)),
     rc_Set = (\<lambda>k v _ m. (None, m(k \<mapsto> v))), rc_Del = (\<lambda>ks m. (None, m |` (- set ks))),
     rl_Obtain = (\<lambda>k _ m. if m k = None then (Inr ''token'', m(k \<mapsto> ''token'')) else (Inl ErrNotObtained, m)),
     rl_Release = (\<lambda>k l m. if m k = Some l then (True, m(k := None)) else (False, m)) \<rparr>"

lemma map_client_laws: "redis_laws map_client (\<lambda>s. s)"
  by (auto simp: redis_laws_def map_client_def restrict_map_def split: option.splits if_splits)

theorem redis_store_correct_witness:
  "session_store (redis_store map_client) (redis_contents (\<lambda>s. s))"
  using redis_store_correct[OF map_client_laws] .

end
