(* ===== verification/SessionHandler.thy ===== *)
theory SessionHandler
  imports SessionStore
begin

text \<open>
  \<^verbatim>\<open>pkg/session/handler.go\<close>: creating, reading, refreshing, updating and destroying sessions. Every
  operation is over the world: it reads the clock where the code does, calls the store through its
  interface and retries as the code does. Waiting for the refresh lock is a script of the environment;
  before each tick other requests may have changed the store.
\<close>

section \<open>The handler\<close>

record 's session_handler =
  h_cfg :: session_config
  h_client :: client
  h_crypter :: crypter
  h_openidCfg :: openid_config
  h_store :: "'s session_store_ops"

definition refreshLockDuration :: duration where "refreshLockDuration = 10 * Second"

definition Key :: "'s session_handler \<Rightarrow> string \<Rightarrow> string" where
  "Key h sessionID = Name (Provider (h_openidCfg h)) @ '':'' @ ClientID (Client (h_openidCfg h)) @ '':'' @ sessionID"

definition getSessionStateFrom :: "url_values \<Rightarrow> string result" where
  "getSessionStateFrom params =
     (let sessionState = Values_Get params ''session_state'' in
      if length sessionState = 0 then Inl (ErrOther ''missing required session_state in params'') else Inr sessionState)"

definition NewSessionID :: "provider_config \<Rightarrow> IDToken \<Rightarrow> url_values \<Rightarrow> 's world \<Rightarrow> string result \<times> 's world" where
  "NewSessionID cfg idToken params w =
     (case GetSidClaim idToken of
        Inr sessionID \<Rightarrow> (Inr sessionID, w)
      | Inl e \<Rightarrow>
          if SidClaimRequired cfg then (Inl e, w)
          else (case getSessionStateFrom params of
             Inr sessionID \<Rightarrow> (Inr sessionID, w)
           | Inl e \<Rightarrow>
               if SessionStateRequired cfg then (Inl e, w)
               else (case GenerateBase64 64 w of
                  (Inl e, w1) \<Rightarrow> (Inl e, w1)
                | (Inr sessionID, w1) \<Rightarrow> (Inr sessionID, w1))))"

definition IDOrGenerate :: "'s session_handler \<Rightarrow> request \<Rightarrow> tokens \<Rightarrow> 's world \<Rightarrow> string result \<times> 's world" where
  "IDOrGenerate h r tokens w = NewSessionID (Provider (h_openidCfg h)) (tk_IDToken tokens) (req_Query r) w"

subsection \<open>Conditions on the clock\<close>

definition canRefresh :: "'s session_handler \<Rightarrow> Data \<Rightarrow> 's world \<Rightarrow> bool \<times> 's world" where
  "canRefresh h d w =
     (if cfg_Refresh (h_cfg h) \<and> HasRefreshToken d
      then let (now, w1) = time_Now w in (\<not> IsRefreshOnCooldown now (data_Metadata d), w1)
      else (False, w))"

definition shouldRefresh :: "'s session_handler \<Rightarrow> Data \<Rightarrow> 's world \<Rightarrow> bool \<times> 's world" where
  "shouldRefresh h d w =
     (if cfg_Refresh (h_cfg h) \<and> HasRefreshToken d
      then let (now1, w1) = time_Now w in
        if IsRefreshOnCooldown now1 (data_Metadata d) then (False, w1)
        else let (now2, w2) = time_Now w1; (now3, w3) = time_Now w2 in
          (ShouldRefresh now1 now2 now3 (data_Metadata d), w3)
      else (False, w))"

definition isTimedOut :: "'s session_handler \<Rightarrow> Data \<Rightarrow> 's world \<Rightarrow> bool \<times> 's world" where
  "isTimedOut h d w =
     (if Inactivity (h_cfg h)
      then if Time_IsZero (TimeoutAt (md_Session (data_Metadata d))) then (False, w)
           else let (now, w1) = time_Now w in (IsTimedOut now (data_Metadata d), w1)
      else (False, w))"

subsection \<open>Operations\<close>

definition write_attempt ::
    "'s session_handler \<Rightarrow> string \<Rightarrow> EncryptedData \<Rightarrow> duration \<Rightarrow> 's world \<Rightarrow> unit attempt \<times> 's world" where
  "write_attempt h k encrypted d w =
     (case st_Write (h_store h) k encrypted d w of
        (None, w1) \<Rightarrow> (Success (), w1)
      | (Some e, w1) \<Rightarrow> (Retryable e, w1))"

definition new_metadata ::
    "'s session_handler \<Rightarrow> tokens \<Rightarrow> duration \<Rightarrow> 's world \<Rightarrow> Metadata \<times> 's world" where
  "new_metadata h tokens sessionLifetime w =
     (let (now, w1) = time_Now w;
          tokenExpiresIn = time_Until now (tk_Expiry tokens);
          (now, w2) = time_Now w1;
          metadata = NewMetadata now tokenExpiresIn sessionLifetime
      in if Inactivity (h_cfg h)
         then let (now, w3) = time_Now w2 in (WithTimeout now (InactivityTimeout (h_cfg h)) metadata, w3)
         else (metadata, w2))"

definition Handler_Create ::
    "'s session_handler \<Rightarrow> request \<Rightarrow> tokens \<Rightarrow> duration \<Rightarrow> 's world \<Rightarrow> string result \<times> 's world" where
  "Handler_Create h r tokens sessionLifetime w =
     (case IDOrGenerate h r tokens w of
        (Inl e, w1) \<Rightarrow> (Inl e, w1)
      | (Inr externalSessionID, w1) \<Rightarrow>
          let k = Key h externalSessionID; (metadata, w2) = new_metadata h tokens sessionLifetime w1 in
          (case Data_Encrypt (h_crypter h) (NewData externalSessionID tokens (Some metadata)) w2 of
             (Inl e, w3) \<Rightarrow> (Inl e, w3)
           | (Inr encrypted, w3) \<Rightarrow>
               (case retry_Do (write_attempt h k encrypted sessionLifetime) w3 of
                  (Inl e, w4) \<Rightarrow> (Inl e, w4)
                | (Inr _, w4) \<Rightarrow> (Inr k, w4))))"

definition delete_attempt :: "'s session_handler \<Rightarrow> string \<Rightarrow> 's world \<Rightarrow> unit attempt \<times> 's world" where
  "delete_attempt h k w =
     (case st_Delete (h_store h) [k] w of
        (None, w1) \<Rightarrow> (Success (), w1)
      | (Some e, w1) \<Rightarrow> (if e = ErrKeyNotFound then Permanent e else Retryable e, w1))"

definition destroyForKey :: "'s session_handler \<Rightarrow> string \<Rightarrow> 's world \<Rightarrow> err \<times> 's world" where
  "destroyForKey h k w =
     (case retry_Do (delete_attempt h k) w of
        (Inl e, w1) \<Rightarrow> (Some e, w1)
      | (Inr _, w1) \<Rightarrow> (None, w1))"

definition DestroyForID :: "'s session_handler \<Rightarrow> string \<Rightarrow> 's world \<Rightarrow> err \<times> 's world" where
  "DestroyForID h sid w = destroyForKey h (Key h sid) w"

definition read_attempt :: "'s session_handler \<Rightarrow> string \<Rightarrow> 's world \<Rightarrow> EncryptedData attempt \<times> 's world" where
  "read_attempt h k w =
     (case st_Read (h_store h) k w of
        (Inr e, w1) \<Rightarrow> (Success e, w1)
      | (Inl e, w1) \<Rightarrow> (if e = ErrKeyNotFound then Permanent e else Retryable e, w1))"

definition GetForKey :: "'s session_handler \<Rightarrow> string \<Rightarrow> 's world \<Rightarrow> Data result \<times> 's world" where
  "GetForKey h k w =
     (case retry_Do (read_attempt h k) w of
        (Inl e, w1) \<Rightarrow> (Inl e, w1)
      | (Inr encryptedSessionData, w1) \<Rightarrow> (Data_Decrypt (h_crypter h) encryptedSessionData, w1))"

definition GetForID :: "'s session_handler \<Rightarrow> string \<Rightarrow> 's world \<Rightarrow> Data result \<times> 's world" where
  "GetForID h sid w = GetForKey h (Key h sid) w"

definition GetKey :: "'s session_handler \<Rightarrow> request \<Rightarrow> string result" where
  "GetKey h r =
     (case GetDecrypted r cookie_Session (h_crypter h) of Inl _ \<Rightarrow> Inl ErrCookieNotFound | Inr k \<Rightarrow> Inr k)"

definition Handler_Get :: "'s session_handler \<Rightarrow> request \<Rightarrow> 's world \<Rightarrow> Data result \<times> 's world" where
  "Handler_Get h r w =
     (case GetKey h r of
        Inl e \<Rightarrow> (Inl e, w)
      | Inr k \<Rightarrow> GetForKey h k w)"

definition update_attempt :: "'s session_handler \<Rightarrow> string \<Rightarrow> EncryptedData \<Rightarrow> 's world \<Rightarrow> unit attempt \<times> 's world" where
  "update_attempt h k encrypted w =
     (case st_Update (h_store h) k encrypted w of
        (None, w1) \<Rightarrow> (Success (), w1)
      | (Some e, w1) \<Rightarrow> (if e = ErrKeyNotFound then Permanent e else Retryable e, w1))"

definition Handler_Update :: "'s session_handler \<Rightarrow> string \<Rightarrow> Data \<Rightarrow> 's world \<Rightarrow> err \<times> 's world" where
  "Handler_Update h k d w =
     (case Data_Encrypt (h_crypter h) d w of
        (Inl e, w1) \<Rightarrow> (Some e, w1)
      | (Inr encrypted, w1) \<Rightarrow>
          (case retry_Do (update_attempt h k encrypted) w1 of
             (Inl e, w2) \<Rightarrow> (Some e, w2)
           | (Inr _, w2) \<Rightarrow> (None, w2)))"

subsection \<open>Refreshing\<close>

fun acquire_loop :: "'s session_handler \<Rightarrow> string \<Rightarrow> 's lock_wait \<Rightarrow> 's world \<Rightarrow> lock_handle result \<times> 's world" where
  "acquire_loop h k WaitDone w = (Inl ErrContext, w)"
| "acquire_loop h k WaitTimeout w = (Inl (ErrOther ''timed out''), w)"
| "acquire_loop h k (WaitTick others rest) w =
     (case st_Acquire (h_store h) k refreshLockDuration (w\<lparr> store := others (store w) \<rparr>) of
        (Inr l, w1) \<Rightarrow> (Inr l, w1)
      | (Inl e, w1) \<Rightarrow>
          if e = ErrAcquireLock then acquire_loop h k rest w1
          else (Inl (ErrOther ''unexpected error''), w1))"

definition acquire_lock :: "'s session_handler \<Rightarrow> string \<Rightarrow> 's world \<Rightarrow> lock_handle result \<times> 's world" where
  "acquire_lock h k w = acquire_loop h k (waits w (locks w)) (w\<lparr> locks := Suc (locks w) \<rparr>)"

definition grant_attempt ::
    "ext \<Rightarrow> 's session_handler \<Rightarrow> string \<Rightarrow> 's world \<Rightarrow> TokenResponse attempt \<times> 's world" where
  "grant_attempt x h refreshToken w =
     (case RefreshGrant x (h_client h) refreshToken w of
        (Inr resp, w1) \<Rightarrow> (Success resp, w1)
      | (Inl e, w1) \<Rightarrow> (if e = ErrOpenIDServer then Retryable e else Permanent e, w1))"

definition refreshed_data :: "'s session_handler \<Rightarrow> TokenResponse \<Rightarrow> Data \<Rightarrow> 's world \<Rightarrow> Data \<times> 's world" where
  "refreshed_data h resp d w =
     (let (now, w1) = time_Now w;
          d1 = d\<lparr> AccessToken := tr_AccessToken resp, RefreshToken := tr_RefreshToken resp,
                 data_Metadata := Metadata_Refresh now (tr_ExpiresIn resp) (data_Metadata d) \<rparr>
      in if Inactivity (h_cfg h)
         then let (now, w2) = time_Now w1 in
           (d1\<lparr> data_Metadata := ExtendTimeout now (InactivityTimeout (h_cfg h)) (data_Metadata d1) \<rparr>, w2)
         else (d1, w1))"

text \<open>The part of \<^verbatim>\<open>Refresh\<close> that runs while the lock is held.\<close>

definition refresh_locked :: "ext \<Rightarrow> 's session_handler \<Rightarrow> string \<Rightarrow> 's world \<Rightarrow> Data result \<times> 's world" where
  "refresh_locked x h k w =
     (case GetForKey h k w of
        (Inl e, w1) \<Rightarrow> (Inl e, w1)
      | (Inr d, w1) \<Rightarrow>
      (case canRefresh h d w1 of
        (False, w2) \<Rightarrow> (Inr d, w2)
      | (True, w2) \<Rightarrow>
      (case isTimedOut h d w2 of
        (True, w3) \<Rightarrow> (Inl ErrSessionInactive, w3)
      | (False, w3) \<Rightarrow>
      (case retry_Do (grant_attempt x h (RefreshToken d)) w3 of
        (Inl e, w4) \<Rightarrow> (Inl (if e = ErrOpenIDClient then ErrInvalidState else e), w4)
      | (Inr resp, w4) \<Rightarrow>
          let (d', w5) = refreshed_data h resp d w4 in
          (case Handler_Update h k d' w5 of
             (Some e, w6) \<Rightarrow> (Inl e, w6)
           | (None, w6) \<Rightarrow> (Inr d', w6))))))"

definition Handler_Refresh ::
    "ext \<Rightarrow> 's session_handler \<Rightarrow> string \<Rightarrow> Data \<Rightarrow> 's world \<Rightarrow> Data result \<times> 's world" where
  "Handler_Refresh x h k d w =
     (case canRefresh h d w of
        (False, w1) \<Rightarrow> (Inr d, w1)
      | (True, w1) \<Rightarrow>
          (case acquire_lock h k w1 of
             (Inl e, w2) \<Rightarrow> (Inl e, w2)
           | (Inr l, w2) \<Rightarrow>
               (case refresh_locked x h k w2 of
                  (res, w3) \<Rightarrow> (case st_Release (h_store h) k l w3 of (_, w4) \<Rightarrow> (res, w4)))))"

definition GetOrRefresh :: "ext \<Rightarrow> 's session_handler \<Rightarrow> request \<Rightarrow> 's world \<Rightarrow> Data result \<times> 's world" where
  "GetOrRefresh x h r w =
     (case GetKey h r of
        Inl e \<Rightarrow> (Inl e, w)
      | Inr k \<Rightarrow>
      (case GetForKey h k w of
        (Inl e, w1) \<Rightarrow> (Inl e, w1)
      | (Inr sessionData, w1) \<Rightarrow>
      (case isTimedOut h sessionData w1 of
        (True, w2) \<Rightarrow> (Inl ErrSessionInactive, w2)
      | (False, w2) \<Rightarrow>
      (case shouldRefresh h sessionData w2 of
        (False, w3) \<Rightarrow> (Inr sessionData, w3)
      | (True, w3) \<Rightarrow>
      (case Handler_Refresh x h k sessionData w3 of
        (Inl e, w4) \<Rightarrow> if e = ErrInvalidState \<or> e = ErrSessionInactive then (Inl e, w4) else (Inr sessionData, w4)
      | (Inr refreshed, w4) \<Rightarrow> (Inr refreshed, w4))))))"

definition GetAccessToken :: "ext \<Rightarrow> 's session_handler \<Rightarrow> request \<Rightarrow> 's world \<Rightarrow> string result \<times> 's world" where
  "GetAccessToken x h r w =
     (case GetOrRefresh x h r w of
        (Inl e, w1) \<Rightarrow> (Inl e, w1)
      | (Inr sessionData, w1) \<Rightarrow>
          if \<not> HasAccessToken sessionData then (Inl ErrNoAccessToken, w1)
          else let (now, w2) = time_Now w1 in
            if IsExpired now (data_Metadata sessionData) then (Inl ErrExpiredAccessToken, w2)
            else (Inr (AccessToken sessionData), w2))"

section \<open>Identifiers and keys\<close>

text \<open>
  Where the session's identifier comes from: the \<^verbatim>\<open>sid\<close> claim of the ID token; else, unless the
  provider promises that claim, the \<^verbatim>\<open>session_state\<close> parameter of the callback; else, unless the
  provider promises that parameter, 64 random bytes. A promise that is not kept is an error.
\<close>

theorem new_session_id_correct:
  "NewSessionID p t params w =
     (case GetSidClaim t of
        Inr sid \<Rightarrow> (Inr sid, w)
      | Inl e \<Rightarrow>
          if SidClaimRequired p then (Inl e, w)
          else if Values_Get params ''session_state'' \<noteq> [] then (Inr (Values_Get params ''session_state''), w)
          else if SessionStateRequired p then (Inl (ErrOther ''missing required session_state in params''), w)
          else if entropy_ok w (draws w)
          then (Inr (EncodeToString RawURLEncoding (map (entropy w (draws w)) [0..<64])), w\<lparr> draws := Suc (draws w) \<rparr>)
          else (Inl (ErrOther ''reading rand.Reader''), w\<lparr> draws := Suc (draws w) \<rparr>))"
  by (simp add: NewSessionID_def getSessionStateFrom_def GenerateBase64_def strings_Generate_def rand_Read_def Let_def
      split: sum.splits)

lemma NewSessionID_env [env_intros]: "NewSessionID p t params w = (r, w') \<Longrightarrow> same_env w w' \<and> store w' = store w"
  by (auto simp: NewSessionID_def split: sum.splits if_splits prod.splits dest!: GenerateBase64_env)

text \<open>
  Session keys do not collide: two sessions have the same key only if they are of the same
  provider, client and identifier, as long as provider names and client identifiers have no colon.
  So programs that share a store do not see each other's sessions.
\<close>

theorem session_key_injective:
  assumes "Key h sid = Key h' sid'"
    and "CHR '':'' \<notin> set (Name (Provider (h_openidCfg h)))" "CHR '':'' \<notin> set (Name (Provider (h_openidCfg h')))"
    and "CHR '':'' \<notin> set (ClientID (Client (h_openidCfg h)))" "CHR '':'' \<notin> set (ClientID (Client (h_openidCfg h')))"
  shows "Name (Provider (h_openidCfg h)) = Name (Provider (h_openidCfg h'))
    \<and> ClientID (Client (h_openidCfg h)) = ClientID (Client (h_openidCfg h')) \<and> sid = sid'"
proof -
  have "Name (Provider (h_openidCfg h)) = Name (Provider (h_openidCfg h')) \<and>
      ClientID (Client (h_openidCfg h)) @ CHR '':'' # sid = ClientID (Client (h_openidCfg h')) @ CHR '':'' # sid'"
    using assms(1) by (intro append_sep_inject[OF assms(2,3)]) (simp add: Key_def)
  then show ?thesis using append_sep_inject[OF assms(4,5)] by blast
qed

lemma Key_inject: "Key h a = Key h b \<longleftrightarrow> a = b"
  by (simp add: Key_def)

section \<open>Retries\<close>

lemma retry_Do_rel:
  assumes "retry_Do f w = (r, w')"
    and refl: "\<And>w. R w w" and trans: "\<And>u v w. R u v \<Longrightarrow> R v w \<Longrightarrow> R u w" and dos: "\<And>w n. R w (w\<lparr> dos := n \<rparr>)"
    and step: "\<And>v a v'. f v = (a, v') \<Longrightarrow> R v v'"
  shows "R w w'"
  by (rule trans[OF dos retry_loop_rel[where R = R, OF assms(1)[unfolded retry_Do_def] refl trans step]])

lemma retry_Do_Ok:
  assumes "retry_Do f w = (Inr a, w')"
    and refl: "\<And>w. R w w" and trans: "\<And>u v w. R u v \<Longrightarrow> R v w \<Longrightarrow> R u w" and dos: "\<And>w n. R w (w\<lparr> dos := n \<rparr>)"
    and step: "\<And>v e v'. f v = (Retryable e, v') \<Longrightarrow> R v v'"
  shows "\<exists>v. R w v \<and> f v = (Success a, w')"
proof -
  have "\<exists>v. R (w\<lparr> dos := Suc (dos w) \<rparr>) v \<and> f v = (Success a, w')"
    by (rule retry_loop_Ok[where R = R, OF assms(1)[unfolded retry_Do_def]]) (assumption | rule refl | erule trans | erule step)+
  then show ?thesis using trans[OF dos] by metis
qed

lemma retry_Do_Err:
  assumes "retry_Do f w = (Inl e, w')"
    and refl: "\<And>w. R w w" and trans: "\<And>u v w. R u v \<Longrightarrow> R v w \<Longrightarrow> R u w" and dos: "\<And>w n. R w (w\<lparr> dos := n \<rparr>)"
    and step: "\<And>v e v'. f v = (Retryable e, v') \<Longrightarrow> R v v'"
  shows "(e = ErrContext \<and> R w w') \<or> (\<exists>v. R w v \<and> (f v = (Permanent e, w') \<or> f v = (Retryable e, w')))"
proof -
  have "(e = ErrContext \<and> R (w\<lparr> dos := Suc (dos w) \<rparr>) w') \<or>
      (\<exists>v. R (w\<lparr> dos := Suc (dos w) \<rparr>) v \<and> (f v = (Permanent e, w') \<or> f v = (Retryable e, w')))"
    by (rule retry_loop_Err[where R = R, OF assms(1)[unfolded retry_Do_def]]) (assumption | rule refl | erule trans | erule step)+
  then show ?thesis using trans[OF dos] by metis
qed

section \<open>Attempts\<close>

lemma read_attempt_Success: "read_attempt h k w = (Success e, w') \<longleftrightarrow> st_Read (h_store h) k w = (Inr e, w')"
  by (cases "st_Read (h_store h) k w") (auto simp: read_attempt_def split: sum.splits if_splits)

lemma read_attempt_Fail:
  "read_attempt h k w = (Permanent e, w') \<longleftrightarrow> e = ErrKeyNotFound \<and> st_Read (h_store h) k w = (Inl e, w')"
  "read_attempt h k w = (Retryable e, w') \<longleftrightarrow> e \<noteq> ErrKeyNotFound \<and> st_Read (h_store h) k w = (Inl e, w')"
  by (cases "st_Read (h_store h) k w"; auto simp: read_attempt_def split: sum.splits if_splits)+

lemma read_attempt_world: "read_attempt h k w = (a, w') \<Longrightarrow> \<exists>r. st_Read (h_store h) k w = (r, w')"
  by (cases "st_Read (h_store h) k w") (auto simp: read_attempt_def split: sum.splits if_splits)

lemma write_attempt_simps:
  "write_attempt h k e d w = (Success u, w') \<longleftrightarrow> st_Write (h_store h) k e d w = (None, w')"
  "write_attempt h k e d w = (a, w') \<Longrightarrow> \<exists>r. st_Write (h_store h) k e d w = (r, w')"
  by (cases "st_Write (h_store h) k e d w"; auto simp: write_attempt_def split: option.splits)+

lemma delete_attempt_simps:
  "delete_attempt h k w = (Success u, w') \<longleftrightarrow> st_Delete (h_store h) [k] w = (None, w')"
  "delete_attempt h k w = (a, w') \<Longrightarrow> \<exists>r. st_Delete (h_store h) [k] w = (r, w')"
  by (cases "st_Delete (h_store h) [k] w"; auto simp: delete_attempt_def split: option.splits if_splits)+

lemma update_attempt_simps:
  "update_attempt h k e w = (Success u, w') \<longleftrightarrow> st_Update (h_store h) k e w = (None, w')"
  "update_attempt h k e w = (a, w') \<Longrightarrow> \<exists>r. st_Update (h_store h) k e w = (r, w')"
  by (cases "st_Update (h_store h) k e w"; auto simp: update_attempt_def split: option.splits if_splits)+

section \<open>Over any store\<close>

text \<open>What an operation does to the contents of the store: nothing, something to one key, or it removes one key.\<close>

definition keeps :: "('s \<Rightarrow> string \<rightharpoonup> EncryptedData) \<Rightarrow> 's world \<Rightarrow> 's world \<Rightarrow> bool" where
  "keeps C w w' \<longleftrightarrow> local_step w w' \<and> C (store w') = C (store w)"

definition sets :: "('s \<Rightarrow> string \<rightharpoonup> EncryptedData) \<Rightarrow> string \<Rightarrow> EncryptedData \<Rightarrow> 's world \<Rightarrow> 's world \<Rightarrow> bool" where
  "sets C k e w w' \<longleftrightarrow> local_step w w' \<and> (C (store w') = C (store w) \<or> C (store w') = (C (store w))(k \<mapsto> e))"

definition drops :: "('s \<Rightarrow> string \<rightharpoonup> EncryptedData) \<Rightarrow> string \<Rightarrow> 's world \<Rightarrow> 's world \<Rightarrow> bool" where
  "drops C k w w' \<longleftrightarrow> local_step w w' \<and> (C (store w') = C (store w) \<or> C (store w') = (C (store w))(k := None))"

lemma keeps_simps [simp]: "keeps C w w" "keeps C w (w\<lparr> dos := n \<rparr>)" "keeps C w (w\<lparr> locks := n \<rparr>)"
    "sets C k e w w" "sets C k e w (w\<lparr> dos := n \<rparr>)" "drops C k w w" "drops C k w (w\<lparr> dos := n \<rparr>)"
  by (simp_all add: keeps_def sets_def drops_def)

lemma keeps_trans: "keeps C u v \<Longrightarrow> keeps C v w \<Longrightarrow> keeps C u w"
  by (auto simp: keeps_def intro: local_step_trans)

lemma sets_trans: "sets C k e u v \<Longrightarrow> sets C k e v w \<Longrightarrow> sets C k e u w"
  by (auto simp: sets_def intro: local_step_trans)

lemma drops_trans: "drops C k u v \<Longrightarrow> drops C k v w \<Longrightarrow> drops C k u w"
  by (auto simp: drops_def intro: local_step_trans)

lemma keeps_of_env: "local_step w w' \<and> store w' = store w \<Longrightarrow> keeps C w w'"
  by (simp add: keeps_def)

text \<open>A handler together with the contract of its store.\<close>

locale session_handling = session_store "h_store h" contents
  for h :: "'s session_handler" and contents :: "'s \<Rightarrow> string \<rightharpoonup> EncryptedData"
begin

lemma read_attempt_keeps: "read_attempt h k w = (a, w') \<Longrightarrow> keeps contents w w'"
  using read_attempt_world[of h k w a w'] Read_env by (auto simp: keeps_def)

lemma GetForKey_keeps:
  assumes "GetForKey h k w = (r, w')"
  shows "keeps contents w w'"
proof -
  obtain q where "retry_Do (read_attempt h k) w = (q, w')"
    using assms by (auto simp: GetForKey_def split: prod.splits sum.splits)
  then show ?thesis by (rule retry_Do_rel) (auto intro: keeps_trans read_attempt_keeps)
qed

lemma read_Ok:
  assumes "retry_Do (read_attempt h k) w = (Inr e, w')"
  shows "contents (store w) k = Some e"
proof -
  have "\<exists>v. keeps contents w v \<and> read_attempt h k v = (Success e, w')"
    using assms by (rule retry_Do_Ok) (auto intro: keeps_trans read_attempt_keeps)
  then obtain v where v: "keeps contents w v" "st_Read (h_store h) k v = (Inr e, w')"
    unfolding read_attempt_Success by blast
  show ?thesis using Read_Ok[OF v(2)] v(1) by (simp add: keeps_def)
qed

lemma read_Err:
  assumes "retry_Do (read_attempt h k) w = (Inl e, w')"
  shows "e = ErrContext \<or> (\<exists>v. keeps contents w v \<and> st_Read (h_store h) k v = (Inl e, w'))"
proof -
  have "(e = ErrContext \<and> keeps contents w w') \<or>
      (\<exists>v. keeps contents w v \<and> (read_attempt h k v = (Permanent e, w') \<or> read_attempt h k v = (Retryable e, w')))"
    using assms by (rule retry_Do_Err) (auto intro: keeps_trans read_attempt_keeps)
  then show ?thesis unfolding read_attempt_Fail by blast
qed

lemma read_missing:
  assumes "retry_Do (read_attempt h k) w = (Inl ErrKeyNotFound, w')"
  shows "contents (store w) k = None"
proof -
  obtain v where v: "keeps contents w v" "st_Read (h_store h) k v = (Inl ErrKeyNotFound, w')"
    using read_Err[OF assms] by blast
  show ?thesis using Read_missing[OF v(2)] v(1) by (simp add: keeps_def)
qed

lemma read_errors:
  assumes "retry_Do (read_attempt h k) w = (Inl e, w')"
  shows "e \<in> {ErrContext, ErrKeyNotFound, ErrUnexpected}"
  using read_Err[OF assms] by (elim disjE exE conjE) (auto dest: Read_errors)

lemma GetForKey_Ok:
  assumes "GetForKey h k w = (Inr d, w')"
  obtains e where "contents (store w) k = Some e" "Data_Decrypt (h_crypter h) e = Inr d"
proof -
  obtain e where "retry_Do (read_attempt h k) w = (Inr e, w')" "Data_Decrypt (h_crypter h) e = Inr d"
    using assms by (auto simp: GetForKey_def split: prod.splits sum.splits)
  then show thesis using that read_Ok by blast
qed

lemma GetForKey_present:
  assumes "contents (store w) k = Some e" "Data_Decrypt (h_crypter h) e = Inr d" "GetForKey h k w = (r, w')"
  shows "r = Inr d \<or> r = Inl ErrContext \<or> r = Inl ErrUnexpected"
proof -
  obtain q where q: "retry_Do (read_attempt h k) w = (q, w')"
      "r = (case q of Inl e \<Rightarrow> Inl e | Inr e' \<Rightarrow> Data_Decrypt (h_crypter h) e')"
    using assms(3) by (auto simp: GetForKey_def split: prod.splits sum.splits)
  show ?thesis
  proof (cases q)
    case (Inl x)
    then have "x \<in> {ErrContext, ErrKeyNotFound, ErrUnexpected}" using read_errors q(1) by blast
    moreover have "x \<noteq> ErrKeyNotFound" using read_missing[of k w w'] q(1) Inl assms(1) by auto
    ultimately show ?thesis using q(2) Inl by auto
  next
    case (Inr e')
    then have "e' = e" using read_Ok[of k w e' w'] q(1) assms(1) by simp
    then show ?thesis using q(2) Inr assms(2) by simp
  qed
qed

lemma write_attempt_sets:
  assumes "storable e" "write_attempt h k e d w = (a, w')"
  shows "sets contents k e w w'"
proof -
  obtain r where r: "st_Write (h_store h) k e d w = (r, w')" using write_attempt_simps(2)[OF assms(2)] by blast
  show ?thesis using Write_env[OF r assms(1)] by (simp add: sets_def)
qed

lemma update_attempt_sets:
  assumes "storable e" "update_attempt h k e w = (a, w')"
  shows "sets contents k e w w'"
proof -
  obtain r where r: "st_Update (h_store h) k e w = (r, w')" using update_attempt_simps(2)[OF assms(2)] by blast
  show ?thesis using Update_env[OF r assms(1)] by (simp add: sets_def)
qed

lemma delete_attempt_drops: "delete_attempt h k w = (a, w') \<Longrightarrow> drops contents k w w'"
proof -
  assume "delete_attempt h k w = (a, w')"
  then obtain r where "st_Delete (h_store h) [k] w = (r, w')" using delete_attempt_simps(2) by blast
  then have d: "local_step w w'" "\<forall>k'. contents (store w') k' = contents (store w) k' \<or> k' \<in> set [k] \<and> contents (store w') k' = None"
    using Delete_env by blast+
  have "contents (store w') = contents (store w) \<or> contents (store w') = (contents (store w))(k := None)"
    using d(2) by (cases "contents (store w') k = contents (store w) k") (auto simp: fun_eq_iff)
  then show ?thesis using d(1) by (simp add: drops_def)
qed

lemma write_Ok:
  assumes "storable e" "retry_Do (write_attempt h k e d) w = (Inr u, w')"
  shows "same_env w w' \<and> contents (store w') = (contents (store w))(k \<mapsto> e)"
proof -
  have "\<exists>v. sets contents k e w v \<and> write_attempt h k e d v = (Success u, w')"
    using assms(2) by (rule retry_Do_Ok) (auto intro: sets_trans write_attempt_sets[OF assms(1)])
  then obtain v where v: "sets contents k e w v" "st_Write (h_store h) k e d v = (None, w')"
    by (auto simp: write_attempt_simps(1))
  then show ?thesis using Write_Ok[OF v(2) assms(1)] Write_env[OF v(2) assms(1)]
    by (auto simp: sets_def intro: same_env_trans dest!: local_step_env)
qed

lemma Update_Ok_handler:
  assumes "Handler_Update h k d w = (None, w')"
  obtains e where "contents (store w') = (contents (store w))(k \<mapsto> e)"
    "valid_Data d \<longrightarrow> Data_Decrypt (h_crypter h) e = Inr d" "same_env w w'"
proof -
  obtain e w1 u where e: "Data_Encrypt (h_crypter h) d w = (Inr e, w1)" "retry_Do (update_attempt h k e) w1 = (Inr u, w')"
    using assms by (auto simp: Handler_Update_def split: prod.splits sum.splits)
  have e1: "same_env w w1" "store w1 = store w" using Data_Encrypt_env[OF e(1)] by auto
  have st: "storable e" using Data_Encrypt_valid[OF e(1)] by (simp add: storable_def)
  have "\<exists>v. sets contents k e w1 v \<and> update_attempt h k e v = (Success u, w')"
    using e(2) by (rule retry_Do_Ok) (auto intro: sets_trans update_attempt_sets[OF st])
  then obtain v where v: "sets contents k e w1 v" "st_Update (h_store h) k e v = (None, w')"
    by (auto simp: update_attempt_simps(1))
  have "contents (store w') = (contents (store w))(k \<mapsto> e)" "same_env w w'"
    using Update_Ok[OF v(2) st] Update_env[OF v(2) st] v(1) e1 by (auto simp: sets_def intro: same_env_trans dest!: local_step_env)
  then show thesis using that session_data.unseal_seal[OF e(1)] by blast
qed

lemma Update_other_keys:
  assumes "Handler_Update h k d w = (r, w')"
  shows "same_env w w' \<and> (\<forall>k'. k' \<noteq> k \<longrightarrow> contents (store w') k' = contents (store w) k')"
proof -
  obtain q w1 where q: "Data_Encrypt (h_crypter h) d w = (q, w1)" by fastforce
  have e1: "same_env w w1 \<and> store w1 = store w" using Data_Encrypt_env[OF q] .
  show ?thesis
  proof (cases q)
    case (Inl e)
    then show ?thesis using assms q e1 by (auto simp: Handler_Update_def)
  next
    case (Inr e)
    have st: "storable e" using Data_Encrypt_valid q Inr by (auto simp: storable_def)
    obtain z where "retry_Do (update_attempt h k e) w1 = (z, w')"
      using assms q Inr by (auto simp: Handler_Update_def split: prod.splits sum.splits)
    then have "sets contents k e w1 w'" by (rule retry_Do_rel) (auto intro: sets_trans update_attempt_sets[OF st])
    then show ?thesis using e1 by (auto simp: sets_def intro: same_env_trans dest!: local_step_env)
  qed
qed

lemma destroy_drops:
  assumes "destroyForKey h k w = (r, w')"
  shows "drops contents k w w'" and "r = None \<Longrightarrow> contents (store w') k = None"
proof -
  obtain q where q: "retry_Do (delete_attempt h k) w = (q, w')" "r = None \<longleftrightarrow> is_ok q"
    using assms by (auto simp: destroyForKey_def split: prod.splits sum.splits)
  show "drops contents k w w'"
    using q(1) by (rule retry_Do_rel) (auto intro: drops_trans delete_attempt_drops)
  assume "r = None"
  then obtain u where u: "retry_Do (delete_attempt h k) w = (Inr u, w')" using q by (auto simp: is_ok_iff)
  have "\<exists>v. drops contents k w v \<and> delete_attempt h k v = (Success u, w')"
    using u by (rule retry_Do_Ok) (auto intro: drops_trans delete_attempt_drops)
  then obtain v where "st_Delete (h_store h) [k] v = (None, w')" by (auto simp: delete_attempt_simps(1))
  then show "contents (store w') k = None" using Delete_Ok by (auto simp: restrict_map_def)
qed

lemma destroy_missing:
  assumes "destroyForKey h k w = (Some ErrKeyNotFound, w')"
  shows "contents (store w') k = None"
proof -
  have q: "retry_Do (delete_attempt h k) w = (Inl ErrKeyNotFound, w')"
    using assms by (cases "retry_Do (delete_attempt h k) w") (auto simp: destroyForKey_def split: sum.splits)
  have "(ErrKeyNotFound = ErrContext \<and> True) \<or>
      (\<exists>v. True \<and> (delete_attempt h k v = (Permanent ErrKeyNotFound, w') \<or> delete_attempt h k v = (Retryable ErrKeyNotFound, w')))"
    using q by (rule retry_Do_Err[where R = "\<lambda>_ _. True"]) auto
  then obtain v where v: "delete_attempt h k v = (Permanent ErrKeyNotFound, w') \<or> delete_attempt h k v = (Retryable ErrKeyNotFound, w')"
    by (elim disjE exE conjE) auto
  have "st_Delete (h_store h) [k] v = (Some ErrKeyNotFound, w')"
    using v by (cases "st_Delete (h_store h) [k] v") (auto simp: delete_attempt_def split: option.splits if_splits)
  then show ?thesis using Delete_missing by auto
qed

end

end
