(* ===== verification/Ingress.thy ===== *)
theory Ingress
  imports Http Config "HOL-Library.Multiset"
begin

text \<open>
  \<^verbatim>\<open>pkg/ingress\<close> and the middleware that uses it, \<^verbatim>\<open>pkg/middleware/ingress.go\<close>: the URLs under
  which the program is reachable, and which of them a request came through. The Go code keeps them in
  a map and ranges over it, in an order that Go leaves open; here the map is an association list with
  distinct keys, and the parameter \<open>order\<close> permutes it wherever the code ranges over it.
\<close>

section \<open>Ingresses\<close>

definition XForwardedHost :: string where "XForwardedHost = ''X-Forwarded-Host''"

type_synonym map_order = "(string \<times> ingress) list \<Rightarrow> (string \<times> ingress) list"

definition range_order :: "map_order \<Rightarrow> bool" where
  "range_order order \<longleftrightarrow> (\<forall>m. mset (order m) = mset m)"

record ingresses =
  ingressMap :: "(string \<times> ingress) list"
  hosts :: "string list"
  paths :: "string list"
  urls :: "string list"

definition Ingress_Path :: "ingress \<Rightarrow> string" where "Ingress_Path i = Path i"
definition Ingress_Host :: "ingress \<Rightarrow> string" where "Ingress_Host i = Host i"
definition Ingress_String :: "ingress \<Rightarrow> string" where "Ingress_String i = URL_String i"

definition mustScheme :: "url \<Rightarrow> err" where
  "mustScheme u = (if Scheme u = ''http'' \<or> Scheme u = ''https'' then None
     else Some (ErrOther ''invalid URL scheme, must be one of [http https]''))"

definition ParseIngress :: "string \<Rightarrow> ingress result" where
  "ParseIngress ingress =
     (if length ingress = 0 then Inl (ErrOther ''ingress cannot be empty'')
      else case Parse ingress of
        Inl e \<Rightarrow> Inl e
      | Inr u \<Rightarrow>
          if length (Host u) = 0 then Inl (ErrOther ''must have non-empty host'')
          else case mustScheme u of
            Some e \<Rightarrow> Inl e
          | None \<Rightarrow> Inr (u\<lparr> Path := TrimRight (Path u) (CHR ''/'') \<rparr>))"

fun mapIngresses :: "(string \<times> ingress) list \<Rightarrow> (ingress \<Rightarrow> string) \<Rightarrow> string list \<Rightarrow> string list" where
  "mapIngresses [] fn seen = []"
| "mapIngresses ((k, ingress) # rest) fn seen =
     (let value = fn ingress in
      if value \<in> set seen then mapIngresses rest fn seen
      else value # mapIngresses rest fn (value # seen))"

fun collect_ingresses :: "string list \<Rightarrow> (string \<times> ingress) list \<Rightarrow> (string \<times> ingress) list result" where
  "collect_ingresses [] seen = Inr seen"
| "collect_ingresses (raw # rest) seen =
     (case ParseIngress raw of
        Inl e \<Rightarrow> Inl (ErrOther ''parsing ingress'')
      | Inr ingress \<Rightarrow>
          collect_ingresses rest
            (if map_of seen (Ingress_String ingress) = None then (Ingress_String ingress, ingress) # seen else seen))"

definition ParseIngresses :: "map_order \<Rightarrow> config \<Rightarrow> ingresses result" where
  "ParseIngresses order cfg =
     (if length (Ingresses cfg) = 0 then Inl (ErrOther ''must have at least 1 ingress'')
      else case collect_ingresses (Ingresses cfg) [] of
        Inl e \<Rightarrow> Inl e
      | Inr seen \<Rightarrow> Inr \<lparr> ingressMap = seen,
          hosts = mapIngresses (order seen) Ingress_Host [],
          paths = mapIngresses (order seen) Ingress_Path [],
          urls = mapIngresses (order seen) Ingress_String [] \<rparr>)"

fun matching_path :: "string list \<Rightarrow> string \<Rightarrow> string \<Rightarrow> string" where
  "matching_path [] reqPath result = result"
| "matching_path (p # ps) reqPath result =
     (if length p = 0 then matching_path ps reqPath result
      else matching_path ps reqPath (if HasPrefix reqPath p \<and> length p > length result then p else result))"

definition MatchingPath :: "ingresses \<Rightarrow> request \<Rightarrow> string" where
  "MatchingPath i r = matching_path (paths i) (Path (req_URL r)) []"

definition host_match :: "request \<Rightarrow> ingress \<Rightarrow> bool" where
  "host_match r ingress \<longleftrightarrow> Ingress_Host ingress = req_Host r \<or> Ingress_Host ingress = Header_Get r XForwardedHost"

definition MatchingIngress :: "map_order \<Rightarrow> ingresses \<Rightarrow> request \<Rightarrow> ingress option" where
  "MatchingIngress order i r =
     map_option snd (find (\<lambda>(_, ingress). host_match r ingress \<and> Ingress_Path ingress = MatchingPath i r)
       (order (ingressMap i)))"

text \<open>The middleware: the path is always put into the context, the ingress only if one matches.\<close>

definition Ingress_Handler :: "map_order \<Rightarrow> ingresses \<Rightarrow> request \<Rightarrow> request" where
  "Ingress_Handler order ings r =
     (let r1 = WithPath r (MatchingPath ings r) in
      case MatchingIngress order ings r of Some m \<Rightarrow> WithIngress r1 m | None \<Rightarrow> r1)"

section \<open>Parsing\<close>

definition well_formed_ingress :: "ingress \<Rightarrow> bool" where
  "well_formed_ingress i \<longleftrightarrow> Scheme i \<in> {''http'', ''https''} \<and> Host i \<noteq> []
     \<and> (Path i = [] \<or> last (Path i) \<noteq> CHR ''/'')"

text \<open>The invariant of the parsed ingresses: the lists are the sets of the map's hosts, paths and URLs.\<close>

definition ingresses_inv :: "ingresses \<Rightarrow> bool" where
  "ingresses_inv i \<longleftrightarrow> distinct (map fst (ingressMap i)) \<and> ingressMap i \<noteq> []
     \<and> (\<forall>(k, g) \<in> set (ingressMap i). k = Ingress_String g \<and> well_formed_ingress g)
     \<and> set (hosts i) = (Ingress_Host \<circ> snd) ` set (ingressMap i) \<and> distinct (hosts i)
     \<and> set (paths i) = (Ingress_Path \<circ> snd) ` set (ingressMap i) \<and> distinct (paths i)
     \<and> set (urls i) = (Ingress_String \<circ> snd) ` set (ingressMap i) \<and> distinct (urls i)"

lemma ParseIngress_wf: "ParseIngress s = Inr i \<Longrightarrow> well_formed_ingress i"
  using TrimRight_no_trailing
  by (auto simp: ParseIngress_def mustScheme_def well_formed_ingress_def split: if_splits sum.splits option.splits)

lemma set_mapIngresses: "set (mapIngresses m fn seen) = (fn \<circ> snd) ` set m - set seen"
  by (induction m fn seen rule: mapIngresses.induct) (auto simp: Let_def)

lemma distinct_mapIngresses: "distinct (mapIngresses m fn seen)"
  by (induction m fn seen rule: mapIngresses.induct) (auto simp: Let_def set_mapIngresses)

lemma collect_ingresses_inv:
  assumes "collect_ingresses raws seen = Inr m" "distinct (map fst seen)"
    "\<forall>(k, g) \<in> set seen. k = Ingress_String g \<and> well_formed_ingress g"
  shows "distinct (map fst m) \<and> (\<forall>(k, g) \<in> set m. k = Ingress_String g \<and> well_formed_ingress g)
    \<and> set seen \<subseteq> set m
    \<and> (\<forall>raw \<in> set raws. \<exists>g. ParseIngress raw = Inr g \<and> Ingress_String g \<in> fst ` set m)"
  using assms
proof (induction raws seen rule: collect_ingresses.induct)
  case (2 raw rest seen)
  then obtain g where g: "ParseIngress raw = Inr g" by (auto split: sum.splits)
  let ?seen = "if map_of seen (Ingress_String g) = None then (Ingress_String g, g) # seen else seen"
  have "distinct (map fst ?seen)"
    using "2.prems"(2) by (simp add: map_of_eq_None_iff)
  moreover have "\<forall>(k, g) \<in> set ?seen. k = Ingress_String g \<and> well_formed_ingress g"
    using "2.prems"(3) ParseIngress_wf[OF g] by simp
  moreover have "collect_ingresses rest ?seen = Inr m" using "2.prems"(1) g by simp
  ultimately have IH: "distinct (map fst m) \<and> (\<forall>(k, g) \<in> set m. k = Ingress_String g \<and> well_formed_ingress g)
    \<and> set ?seen \<subseteq> set m
    \<and> (\<forall>raw \<in> set rest. \<exists>g. ParseIngress raw = Inr g \<and> Ingress_String g \<in> fst ` set m)"
    using "2.IH"[OF g] by blast
  have "Ingress_String g \<in> fst ` set ?seen"
  proof (cases "map_of seen (Ingress_String g) = None")
    case False
    then show ?thesis unfolding map_of_eq_None_iff by simp
  qed simp
  then have "Ingress_String g \<in> fst ` set m" using IH by (meson image_mono subsetD)
  moreover have "set seen \<subseteq> set ?seen" by (simp add: subset_insertI)
  then have "set seen \<subseteq> set m" using IH by blast
  ultimately show ?case using g IH by simp
qed simp

text \<open>
  Parsing the configured ingresses: it succeeds only if there is one and all of them are valid;
  then duplicates are merged, every ingress has scheme http or https, a host and no trailing slash, and
  the lists of hosts, paths and URLs are exactly those of the map, in whatever order it is ranged over.
\<close>

theorem parse_ingresses_correct:
  assumes "range_order order" "ParseIngresses order cfg = Inr i"
  shows "ingresses_inv i
    \<and> (\<forall>raw \<in> set (Ingresses cfg). \<exists>g. ParseIngress raw = Inr g \<and> Ingress_String g \<in> set (urls i))"
proof -
  obtain seen where s: "collect_ingresses (Ingresses cfg) [] = Inr seen" "Ingresses cfg \<noteq> []"
      and i: "i = \<lparr> ingressMap = seen, hosts = mapIngresses (order seen) Ingress_Host [],
        paths = mapIngresses (order seen) Ingress_Path [], urls = mapIngresses (order seen) Ingress_String [] \<rparr>"
    using assms(2) by (auto simp: ParseIngresses_def split: if_splits sum.splits)
  have o: "set (order seen) = set seen" using assms(1) by (metis range_order_def set_mset_mset)
  have c: "distinct (map fst seen)" "\<forall>(k, g) \<in> set seen. k = Ingress_String g \<and> well_formed_ingress g"
      "\<forall>raw \<in> set (Ingresses cfg). \<exists>g. ParseIngress raw = Inr g \<and> Ingress_String g \<in> fst ` set seen"
    using collect_ingresses_inv[OF s(1)] by simp_all
  have ne: "seen \<noteq> []" using c(3) s(2) by (metis empty_iff hd_in_set image_empty list.set(1))
  have u: "fst ` set seen = set (urls i)"
  proof -
    have "fst p = Ingress_String (snd p)" if "p \<in> set seen" for p using c(2) that by (cases p) auto
    then have "fst ` set seen = (Ingress_String \<circ> snd) ` set seen" by (simp cong: image_cong_simp)
    then show ?thesis by (simp add: i set_mapIngresses o)
  qed
  have "ingresses_inv i"
    using c(1,2) ne by (simp only: ingresses_inv_def i ingresses.simps set_mapIngresses distinct_mapIngresses o
        list.set(1) Diff_empty simp_thms)
  then show ?thesis using c(3) u by simp
qed

section \<open>Matching\<close>

lemma matching_path_longest:
  "matching_path ps q res = res \<or> (matching_path ps q res \<in> set ps \<and> HasPrefix q (matching_path ps q res))"
  "length res \<le> length (matching_path ps q res)"
  "p \<in> set ps \<Longrightarrow> HasPrefix q p \<Longrightarrow> length p \<le> length (matching_path ps q res)"
proof (induction ps arbitrary: res)
  case (Cons a ps)
  { case 1 show ?case using Cons.IH(1)[of res] Cons.IH(1)[of a] by auto }
  { case 2 show ?case using Cons.IH(2)[of res] Cons.IH(2)[of a] by auto }
  { case 3 then show ?case using Cons.IH(3) Cons.IH(2)[of a] Cons.IH(2)[of res] by auto }
qed auto

lemma MatchingPath_prefix: "HasPrefix (Path (req_URL r)) (MatchingPath i r)"
proof (cases "MatchingPath i r = []")
  case False
  then show ?thesis using matching_path_longest(1)[of "paths i" "Path (req_URL r)" "[]"] by (simp add: MatchingPath_def)
qed simp

text \<open>Two ingresses on different hosts, one of them below a path.\<close>

definition two_hosts :: config where
  "two_hosts = example_config\<lparr> Ingresses := [''https://a'', ''https://b/app/'', ''https://a/''] \<rparr>"

definition ingress_a :: ingress where "ingress_a = empty_url\<lparr> Scheme := ''https'', Host := ''a'' \<rparr>"
definition ingress_b :: ingress where
  "ingress_b = empty_url\<lparr> Scheme := ''https'', Host := ''b'', Path := ''/app'' \<rparr>"

definition two_ingresses :: ingresses where
  "two_ingresses = \<lparr> ingressMap = [(''https://b/app'', ingress_b), (''https://a'', ingress_a)],
     hosts = [''b'', ''a''], paths = [''/app'', []], urls = [''https://b/app'', ''https://a''] \<rparr>"

lemma parse_two_hosts: "ParseIngresses id two_hosts = Inr two_ingresses"
  by code_simp

lemma range_order_id: "range_order id"
  by (simp add: range_order_def)

theorem parse_ingresses_correct_witness:
  "ingresses_inv two_ingresses \<and> (\<exists>g. ParseIngress ''https://b/app/'' = Inr g \<and> Ingress_String g \<in> set (urls two_ingresses))"
  using parse_ingresses_correct[OF range_order_id parse_two_hosts] by (simp add: two_hosts_def)

text \<open>
  A request's context path is the longest configured ingress path that is a prefix of the
  request's path, and empty if there is none; it does not depend on the order of the map.
\<close>

theorem matching_path_correct:
  "(MatchingPath i r = [] \<or> MatchingPath i r \<in> set (paths i))
    \<and> HasPrefix (Path (req_URL r)) (MatchingPath i r)
    \<and> (\<forall>p \<in> set (paths i). HasPrefix (Path (req_URL r)) p \<longrightarrow> length p \<le> length (MatchingPath i r))
    \<and> (\<forall>i'. set (paths i') = set (paths i) \<longrightarrow> MatchingPath i' r = MatchingPath i r)"
proof -
  have "MatchingPath j r = MatchingPath i r" if "set (paths j) = set (paths i)" for j
  proof -
    have "length (MatchingPath j r) \<le> length (MatchingPath i r)" "length (MatchingPath i r) \<le> length (MatchingPath j r)"
      using matching_path_longest(1)[of "paths j" "Path (req_URL r)" "[]"] matching_path_longest(1)[of "paths i" "Path (req_URL r)" "[]"]
        matching_path_longest(3)[of _ "paths i" "Path (req_URL r)" "[]"] matching_path_longest(3)[of _ "paths j" "Path (req_URL r)" "[]"] that
      by (auto simp: MatchingPath_def)
    moreover have "HasPrefix (Path (req_URL r)) (MatchingPath j r)" "HasPrefix (Path (req_URL r)) (MatchingPath i r)"
      by (rule MatchingPath_prefix)+
    ultimately show ?thesis by (intro HasPrefix_comparable) auto
  qed
  moreover have "MatchingPath i r = [] \<or> MatchingPath i r \<in> set (paths i)"
    using matching_path_longest(1)[of "paths i" "Path (req_URL r)" "[]"] unfolding MatchingPath_def by blast
  moreover have "\<forall>p \<in> set (paths i). HasPrefix (Path (req_URL r)) p \<longrightarrow> length p \<le> length (MatchingPath i r)"
    using matching_path_longest(3)[of _ "paths i" "Path (req_URL r)" "[]"] unfolding MatchingPath_def by blast
  ultimately show ?thesis using MatchingPath_prefix[of r i] by blast
qed

definition request_to :: "string \<Rightarrow> string \<Rightarrow> request" where
  "request_to host path = \<lparr> Method = ''GET'', req_URL = empty_url\<lparr> Path := path \<rparr>, req_Host = host,
     Header = Map.empty, Cookies = [], ctx_AccessToken = None, ctx_Ingress = None, ctx_Path = None,
     ctx_RequestID = [] \<rparr>"

theorem matching_path_correct_witness:
  "length ''/app'' \<le> length (MatchingPath two_ingresses (request_to ''b'' ''/app/x''))
   \<and> MatchingPath (two_ingresses\<lparr> paths := [[], ''/app''] \<rparr>) (request_to ''b'' ''/app/x'')
       = MatchingPath two_ingresses (request_to ''b'' ''/app/x'')"
proof -
  have "''/app'' \<in> set (paths two_ingresses)" "HasPrefix (Path (req_URL (request_to ''b'' ''/app/x''))) ''/app''"
    "set (paths (two_ingresses\<lparr> paths := [[], ''/app''] \<rparr>)) = set (paths two_ingresses)"
    by (auto simp: two_ingresses_def request_to_def HasPrefix_def)
  then show ?thesis using matching_path_correct[of two_ingresses "request_to ''b'' ''/app/x''"] by blast
qed

lemma MatchingIngress_Some:
  assumes "range_order order" "MatchingIngress order i r = Some m"
  shows "m \<in> snd ` set (ingressMap i)" "host_match r m" "Ingress_Path m = MatchingPath i r"
proof -
  have o: "set (order (ingressMap i)) = set (ingressMap i)" using assms(1) by (metis range_order_def set_mset_mset)
  from assms(2) obtain k where "find (\<lambda>(_, g). host_match r g \<and> Ingress_Path g = MatchingPath i r)
      (order (ingressMap i)) = Some (k, m)" by (auto simp: MatchingIngress_def)
  then show "m \<in> snd ` set (ingressMap i)" "host_match r m" "Ingress_Path m = MatchingPath i r"
    using o by (auto simp: find_Some_iff dest!: nth_mem) force
qed

lemma MatchingIngress_None:
  assumes "range_order order" "MatchingIngress order i r = None" "(k, g) \<in> set (ingressMap i)" "host_match r g"
  shows "Ingress_Path g \<noteq> MatchingPath i r"
proof -
  have "set (order (ingressMap i)) = set (ingressMap i)" using assms(1) by (metis range_order_def set_mset_mset)
  then show ?thesis using assms(2-4) by (auto simp: MatchingIngress_def find_None_iff)
qed

text \<open>
  When all ingresses are on the host of the request and one of them has a path that is a prefix
  of the request's path, the middleware finds the ingress with the longest such path, whatever the
  order of the map, and hands its path on as the context path.
\<close>

theorem matching_ingress_correct:
  assumes "range_order order" "ingresses_inv i"
    and "\<forall>(k, g) \<in> set (ingressMap i). host_match r g"
    and "\<exists>(k, g) \<in> set (ingressMap i). HasPrefix (Path (req_URL r)) (Ingress_Path g)"
  shows "\<exists>m. IngressFrom (Ingress_Handler order i r) = Some m \<and> m \<in> snd ` set (ingressMap i) \<and> host_match r m
    \<and> HasPrefix (Path (req_URL r)) (Ingress_Path m)
    \<and> (\<forall>(k, g) \<in> set (ingressMap i). HasPrefix (Path (req_URL r)) (Ingress_Path g)
         \<longrightarrow> length (Ingress_Path g) \<le> length (Ingress_Path m))
    \<and> PathFrom (Ingress_Handler order i r) = Some (Ingress_Path m)"
proof -
  have p: "set (paths i) = (Ingress_Path \<circ> snd) ` set (ingressMap i)" using assms(2) by (simp add: ingresses_inv_def)
  have long: "length (Ingress_Path g) \<le> length (MatchingPath i r)"
    if "(k, g) \<in> set (ingressMap i)" "HasPrefix (Path (req_URL r)) (Ingress_Path g)" for k g
  proof -
    have "Ingress_Path g \<in> set (paths i)" using that(1) unfolding p by force
    then show ?thesis
      using matching_path_longest(3)[of _ "paths i" "Path (req_URL r)" "[]"] that(2) unfolding MatchingPath_def by blast
  qed
  obtain k0 g0 where g0: "(k0, g0) \<in> set (ingressMap i)" "HasPrefix (Path (req_URL r)) (Ingress_Path g0)"
    using assms(4) by blast
  have "MatchingPath i r \<in> set (paths i)"
  proof (cases "MatchingPath i r = []")
    case True
    then have "Ingress_Path g0 = []" using long[OF g0] by simp
    then show ?thesis using True g0(1) unfolding p by force
  next
    case False
    then show ?thesis using matching_path_longest(1)[of "paths i" "Path (req_URL r)" "[]"] unfolding MatchingPath_def by blast
  qed
  then obtain k g where g: "(k, g) \<in> set (ingressMap i)" "Ingress_Path g = MatchingPath i r" unfolding p by force
  have "MatchingIngress order i r \<noteq> None" using MatchingIngress_None[OF assms(1) _ g(1)] assms(3) g by blast
  then obtain m where m: "MatchingIngress order i r = Some m" by blast
  note ms = MatchingIngress_Some[OF assms(1) m]
  have "IngressFrom (Ingress_Handler order i r) = Some m" "PathFrom (Ingress_Handler order i r) = Some (Ingress_Path m)"
    using ms(3) m by (simp_all add: Ingress_Handler_def accessor_simps)
  then show ?thesis using ms long MatchingPath_prefix[of r i] by auto
qed

theorem matching_ingress_correct_witness:
  "\<exists>m. IngressFrom (Ingress_Handler id two_ingresses
     ((request_to ''b'' ''/app/x'')\<lparr> Header := [XForwardedHost \<mapsto> ''a''] \<rparr>)) = Some m \<and> Ingress_Path m = ''/app''"
proof -
  let ?r = "(request_to ''b'' ''/app/x'')\<lparr> Header := [XForwardedHost \<mapsto> ''a''] \<rparr>"
  have inv: "ingresses_inv two_ingresses" by code_simp
  have h: "\<forall>(k, g) \<in> set (ingressMap two_ingresses). host_match ?r g"
    by (simp add: two_ingresses_def host_match_def request_to_def Header_Get_def Ingress_Host_def ingress_a_def ingress_b_def)
  have p: "\<exists>(k, g) \<in> set (ingressMap two_ingresses). HasPrefix (Path (req_URL ?r)) (Ingress_Path g)"
    by (simp add: two_ingresses_def Ingress_Path_def ingress_a_def empty_url_def)
  have "PathFrom (Ingress_Handler id two_ingresses ?r) = Some ''/app''" by code_simp
  then show ?thesis using matching_ingress_correct[OF range_order_id inv h p] by auto
qed

text \<open>
  With ingresses on several hosts, the path of one host's ingress hides another host's ingress: a
  request to the host of \<^verbatim>\<open>https://a\<close> whose path lies below the path of \<^verbatim>\<open>https://b/app\<close> matches
  no ingress at all, so that login answers it with an error, in every order of the map.
\<close>

theorem other_hosts_path_hides_ingress:
  "ParseIngresses id two_hosts = Inr two_ingresses
   \<and> (\<forall>order. range_order order \<longrightarrow> IngressFrom (Ingress_Handler order two_ingresses (request_to ''a'' ''/app/x'')) = None)
   \<and> host_match (request_to ''a'' ''/app/x'') ingress_a \<and> HasPrefix ''/app/x'' (Ingress_Path ingress_a)"
proof -
  let ?r = "request_to ''a'' ''/app/x''"
  have mp: "MatchingPath two_ingresses ?r = ''/app''" by code_simp
  have "MatchingIngress order two_ingresses ?r = None" if "range_order order" for order
  proof (rule ccontr)
    assume "MatchingIngress order two_ingresses ?r \<noteq> None"
    then obtain m where m: "MatchingIngress order two_ingresses ?r = Some m" by blast
    note ms = MatchingIngress_Some[OF that m]
    then have "m = ingress_a \<or> m = ingress_b" by (auto simp: two_ingresses_def)
    with ms(2,3) mp show False
      by (auto simp: host_match_def request_to_def Header_Get_def Ingress_Host_def Ingress_Path_def ingress_a_def
          ingress_b_def empty_url_def)
  qed
  then show ?thesis
    by (simp add: parse_two_hosts Ingress_Handler_def accessor_simps host_match_def request_to_def Ingress_Host_def
        Ingress_Path_def ingress_a_def empty_url_def)
qed

theorem other_hosts_path_hides_ingress_witness:
  "IngressFrom (Ingress_Handler id two_ingresses (request_to ''a'' ''/app/x'')) = None"
  using other_hosts_path_hides_ingress range_order_id by blast

text \<open>
  Two ingresses that differ in the scheme only both match, and which of them a request gets depends on the
  order in which Go happens to range over the map: the same request can be given a callback URL with
  either scheme.
\<close>

definition two_schemes :: config where
  "two_schemes = example_config\<lparr> Ingresses := [''http://a'', ''https://a''] \<rparr>"

theorem matching_ingress_ambiguous:
  "\<exists>i order order'. range_order order \<and> range_order order' \<and> ParseIngresses order two_schemes = Inr i
     \<and> map_option Scheme (IngressFrom (Ingress_Handler order i (request_to ''a'' ''/x''))) = Some ''https''
     \<and> map_option Scheme (IngressFrom (Ingress_Handler order' i (request_to ''a'' ''/x''))) = Some ''http''"
proof -
  have o: "range_order rev" "range_order (\<lambda>m. m)" by (simp_all add: range_order_def)
  have "case ParseIngresses (\<lambda>m. m) two_schemes of Inl e \<Rightarrow> False | Inr i \<Rightarrow>
       map_option Scheme (IngressFrom (Ingress_Handler (\<lambda>m. m) i (request_to ''a'' ''/x''))) = Some ''https''
     \<and> map_option Scheme (IngressFrom (Ingress_Handler rev i (request_to ''a'' ''/x''))) = Some ''http''" by code_simp
  then obtain i where "ParseIngresses (\<lambda>m. m) two_schemes = Inr i"
      "map_option Scheme (IngressFrom (Ingress_Handler (\<lambda>m. m) i (request_to ''a'' ''/x''))) = Some ''https''"
      "map_option Scheme (IngressFrom (Ingress_Handler rev i (request_to ''a'' ''/x''))) = Some ''http''"
    by (cases "ParseIngresses (\<lambda>m. m) two_schemes") auto
  with o show ?thesis by blast
qed

end
