(* ===== verification/AutoLogin.thy ===== *)
theory AutoLogin
  imports Tokens
begin

text \<open>
  \<^verbatim>\<open>pkg/handler/autologin\<close>: which unauthenticated requests are sent to login. Matching a path
  against a glob pattern is done by a library, the parameter \<open>doublestar_Match\<close>; its error on a
  malformed pattern counts as no match.
\<close>

definition DefaultIgnorePatterns :: "string list" where
  "DefaultIgnorePatterns = [''/favicon.ico'', ''/robots.txt'']"

record autologin =
  al_Enabled :: bool
  IgnorePatterns :: "string list"

definition normalized_path :: "string \<Rightarrow> string" where
  "normalized_path p0 =
     (let path = (if HasPrefix p0 ''/'' then p0 else ''/'' @ p0) in
      if path \<noteq> ''/'' then TrimSuffix path ''/'' else path)"

fun ignored :: "ext \<Rightarrow> string list \<Rightarrow> string \<Rightarrow> bool" where
  "ignored x [] path = False"
| "ignored x (pattern # rest) path =
     (case doublestar_Match x pattern (normalized_path path) of
        Inr True \<Rightarrow> True
      | _ \<Rightarrow> ignored x rest path)"

definition AutoLogin_NeedsLogin :: "ext \<Rightarrow> autologin \<Rightarrow> request \<Rightarrow> bool \<Rightarrow> bool" where
  "AutoLogin_NeedsLogin x a r isAuthenticated =
     (if isAuthenticated \<or> \<not> al_Enabled a \<or> Method r \<noteq> ''GET'' then False
      else if ignored x (IgnorePatterns a) (Path (req_URL r)) then False
      else True)"

fun new_patterns :: "string list \<Rightarrow> string list \<Rightarrow> string list" where
  "new_patterns seen [] = []"
| "new_patterns seen (path # rest) =
     (if length path = 0 then new_patterns seen rest
      else let path = (if path \<noteq> ''/'' then TrimSuffix path ''/'' else path) in
        if path \<in> set seen then new_patterns seen rest
        else path # new_patterns (path # seen) rest)"

definition AutoLogin_New :: "config \<Rightarrow> autologin result" where
  "AutoLogin_New cfg = Inr \<lparr> al_Enabled = AutoLogin cfg,
     IgnorePatterns = new_patterns [] (DefaultIgnorePatterns @ AutoLoginIgnorePaths cfg) \<rparr>"

section \<open>Correctness\<close>

lemma ignored_iff: "ignored x ps path \<longleftrightarrow> (\<exists>p \<in> set ps. doublestar_Match x p (normalized_path path) = Inr True)"
  by (induction ps) (auto split: sum.splits bool.splits)

lemma set_new_patterns:
  "set (new_patterns seen ps) = (\<lambda>p. if p \<noteq> ''/'' then TrimSuffix p ''/'' else p) ` (set ps - {[]}) - set seen"
  by (induction ps arbitrary: seen) (auto simp: Let_def)

lemma distinct_new_patterns: "distinct (new_patterns seen ps)"
  by (induction ps arbitrary: seen) (auto simp: Let_def set_new_patterns)

text \<open>
  Auto-login: a request is sent to login exactly if it is an unauthenticated GET, auto-login is
  enabled, and no pattern matches its path; the patterns are the two default ones and the configured
  ones, without empty ones, without duplicates and without a trailing slash. An authenticated request
  and a request with side effects are never redirected.
\<close>

theorem auto_login_correct:
  assumes "AutoLogin_New cfg = Inr a"
  shows "(AutoLogin_NeedsLogin x a r auth \<longleftrightarrow>
      \<not> auth \<and> AutoLogin cfg \<and> Method r = ''GET''
      \<and> (\<forall>p \<in> set (DefaultIgnorePatterns @ AutoLoginIgnorePaths cfg) - {[]}.
           doublestar_Match x (if p \<noteq> ''/'' then TrimSuffix p ''/'' else p) (normalized_path (Path (req_URL r))) \<noteq> Inr True))
    \<and> distinct (IgnorePatterns a)"
proof -
  have a: "al_Enabled a = AutoLogin cfg"
      "IgnorePatterns a = new_patterns [] (DefaultIgnorePatterns @ AutoLoginIgnorePaths cfg)"
    using assms by (auto simp: AutoLogin_New_def)
  show ?thesis
    by (simp add: AutoLogin_NeedsLogin_def a ignored_iff set_new_patterns distinct_new_patterns) blast
qed

theorem auto_login_correct_witness:
  "\<not> AutoLogin_NeedsLogin example_ext \<lparr> al_Enabled = True, IgnorePatterns = [''/favicon.ico'', ''/robots.txt''] \<rparr>
     \<lparr> Method = ''GET'', req_URL = empty_url\<lparr> Path := ''/robots.txt/'' \<rparr>, req_Host = [], Header = Map.empty, Cookies = [],
       ctx_AccessToken = None, ctx_Ingress = None, ctx_Path = None, ctx_RequestID = [] \<rparr> False"
proof -
  have n: "AutoLogin_New (example_config\<lparr> AutoLogin := True \<rparr>)
      = Inr \<lparr> al_Enabled = True, IgnorePatterns = [''/favicon.ico'', ''/robots.txt''] \<rparr>" by code_simp
  have "doublestar_Match example_ext ''/robots.txt'' (normalized_path ''/robots.txt/'') = Inr True" by code_simp
  moreover have "TrimSuffix ''/robots.txt'' ''/'' = ''/robots.txt''" by code_simp
  ultimately show ?thesis using auto_login_correct[OF n] by (simp add: DefaultIgnorePatterns_def example_config_def)
qed

end
