(* ===== verification/StandardHandler.thy ===== *)
theory StandardHandler
  imports SessionHandler Ingress AutoLogin
begin

text \<open>
  The state of \<^verbatim>\<open>pkg/handler/handler_standard.go\<close> and its accessors. The packages of handlers see it
  through their \<^verbatim>\<open>Source\<close> interfaces, which are subsets of these accessors.
\<close>

record 's standard_handler =
  sh_autoLogin :: autologin
  sh_client :: client
  sh_config :: config
  sh_cookieOptions :: options
  sh_crypter :: crypter
  sh_ingresses :: ingresses
  sh_loginstatus :: loginstatus_config
  sh_openidConfig :: openid_config
  sh_sessions :: "'s session_handler"
  sh_upstreamHost :: string

definition GetAutoLogin :: "'s standard_handler \<Rightarrow> autologin" where "GetAutoLogin s = sh_autoLogin s"
definition GetClient :: "'s standard_handler \<Rightarrow> client" where "GetClient s = sh_client s"
definition GetCookieOptions :: "'s standard_handler \<Rightarrow> options" where "GetCookieOptions s = sh_cookieOptions s"
definition GetCrypter :: "'s standard_handler \<Rightarrow> crypter" where "GetCrypter s = sh_crypter s"
definition GetErrorPath :: "'s standard_handler \<Rightarrow> string" where "GetErrorPath s = ErrorPath (sh_config s)"
definition GetIngresses :: "'s standard_handler \<Rightarrow> ingresses" where "GetIngresses s = sh_ingresses s"
definition SetIngresses :: "'s standard_handler \<Rightarrow> ingresses \<Rightarrow> 's standard_handler" where
  "SetIngresses s i = s\<lparr> sh_ingresses := i \<rparr>"
definition GetLoginstatus :: "'s standard_handler \<Rightarrow> loginstatus_config" where "GetLoginstatus s = sh_loginstatus s"
definition GetProviderName :: "'s standard_handler \<Rightarrow> string" where
  "GetProviderName s = Name (Provider (sh_openidConfig s))"
definition GetSessions :: "'s standard_handler \<Rightarrow> 's session_handler" where "GetSessions s = sh_sessions s"
definition GetSessionConfig :: "'s standard_handler \<Rightarrow> session_config" where
  "GetSessionConfig s = cfg_Session (sh_config s)"

definition GetPath :: "'s standard_handler \<Rightarrow> request \<Rightarrow> string" where
  "GetPath s r = (case PathFrom r of Some path \<Rightarrow> path | None \<Rightarrow> MatchingPath (GetIngresses s) r)"

definition GetCookieOptsPathAware :: "'s standard_handler \<Rightarrow> request \<Rightarrow> options" where
  "GetCookieOptsPathAware s r = Options_WithPath (GetPath s r) (GetCookieOptions s)"

lemmas [accessor_simps] = GetAutoLogin_def GetClient_def GetCookieOptions_def GetCrypter_def GetErrorPath_def
  GetIngresses_def GetLoginstatus_def GetSessions_def GetSessionConfig_def

text \<open>
  Cookies are path-aware in the same way whether or not the middleware ran: the path that the
  middleware puts into the context is the one computed without it.
\<close>

lemma GetPath_middleware: "GetPath s (Ingress_Handler order (sh_ingresses s) r) = MatchingPath (sh_ingresses s) r"
  by (simp add: GetPath_def Ingress_Handler_def accessor_simps Let_def split: option.splits)

end
