(* ===== verification/ErrorHandler.thy ===== *)
theory ErrorHandler
  imports StandardHandler
begin

text \<open>
  \<^verbatim>\<open>pkg/handler/error/error.go\<close>: what the program answers when a route fails. A user agent is sent back
  to retry a few times, counted in a cookie; after that it gets an error page, or is sent to the
  application's own.
\<close>

section \<open>Decimal numbers\<close>

text \<open>\<^verbatim>\<open>strconv.Itoa\<close> and \<^verbatim>\<open>strconv.Atoi\<close> on 64-bit integers.\<close>

fun nat_dec :: "nat \<Rightarrow> string" where
  "nat_dec n = (if n < 10 then [digit (int n)] else nat_dec (n div 10) @ [digit (int (n mod 10))])"

declare nat_dec.simps [simp del]

definition Itoa :: "int \<Rightarrow> string" where
  "Itoa i = (if i < 0 then CHR ''-'' # nat_dec (nat (- i)) else nat_dec (nat i))"

definition Atoi :: "string \<Rightarrow> int option" where
  "Atoi s =
     (let neg = (s \<noteq> [] \<and> hd s = CHR ''-''); signed = (s \<noteq> [] \<and> (hd s = CHR ''-'' \<or> hd s = CHR ''+''));
          ds = (if signed then tl s else s); v = (if neg then - digits_val ds else digits_val ds) in
      if ds \<noteq> [] \<and> list_all is_digit ds \<and> is_duration v then Some v else None)"

section \<open>Operations\<close>

definition MaxAutoRetryAttempts :: int where "MaxAutoRetryAttempts = 3"

definition getRetryAttempts :: "request \<Rightarrow> int option" where
  "getRetryAttempts r = (case cookie_Get r cookie_Retry of Inl _ \<Rightarrow> None | Inr v \<Rightarrow> Atoi v)"

definition incrementRetryAttempt :: "request \<Rightarrow> options \<Rightarrow> 's world \<Rightarrow> response \<Rightarrow> 's world \<times> response" where
  "incrementRetryAttempt r opts w rw =
     (let val = (case getRetryAttempts r of Some prev \<Rightarrow> wrap64 (prev + 1) | None \<Rightarrow> 1);
          (now, w1) = time_Now w
      in (w1, http_SetCookie (UnsetExpiry (cookie_Make cookie_Retry (Itoa val) opts now)) rw))"

definition Retry :: "'s standard_handler \<Rightarrow> request \<Rightarrow> LoginCookie option \<Rightarrow> string" where
  "Retry s r loginCookie =
     (let requestPath = Path (req_URL r); ingressPath = GetPath s r in
      if HasSuffix requestPath (paths_OAuth2 @ paths_Logout) \<or> HasSuffix requestPath (paths_OAuth2 @ paths_LogoutFrontChannel)
      then requestPath
      else let redirect = CanonicalRedirect r;
               redirect = (case loginCookie of Some c \<Rightarrow> if length (lc_Referer c) > 0 then lc_Referer c else redirect
                                             | None \<Rightarrow> redirect)
           in LoginURL ingressPath redirect)"

definition login_cookie_or_nil :: "'s standard_handler \<Rightarrow> request \<Rightarrow> LoginCookie option" where
  "login_cookie_or_nil s r = (case GetLoginCookie r (GetCrypter s) of Inl _ \<Rightarrow> None | Inr c \<Rightarrow> Some c)"

definition defaultErrorResponse :: "'s standard_handler \<Rightarrow> request \<Rightarrow> int \<Rightarrow> response \<Rightarrow> response" where
  "defaultErrorResponse s r statusCode rw =
     (let rw1 = WriteHeader statusCode rw;
          loginCookie = login_cookie_or_nil s r
      in Write_Body (ErrorPage (ctx_RequestID r) (Retry s r loginCookie)) rw1)"

definition customErrorRedirect :: "'s standard_handler \<Rightarrow> request \<Rightarrow> int \<Rightarrow> response \<Rightarrow> response result" where
  "customErrorRedirect s r statusCode rw =
     (case Parse (GetErrorPath s) of
        Inl e \<Rightarrow> Inl e
      | Inr override \<Rightarrow>
          let override = override\<lparr> Scheme := [], Host := [] \<rparr>;
              query = Values_Add (Values_Add (URL_Query override) ''correlation_id'' (ctx_RequestID r))
                ''status_code'' (Itoa statusCode);
              override = override\<lparr> RawQuery := Values_Encode query \<rparr>
          in Inr (http_Redirect r (URL_String override) 302 rw))"

definition respondError ::
    "'s standard_handler \<Rightarrow> request \<Rightarrow> int \<Rightarrow> 's world \<Rightarrow> response \<Rightarrow> 's world \<times> response" where
  "respondError s r statusCode w rw =
     (let (w1, rw1) = incrementRetryAttempt r (GetCookieOptsPathAware s r) w rw in
      if (case getRetryAttempts r of None \<Rightarrow> True | Some attempts \<Rightarrow> attempts < MaxAutoRetryAttempts)
      then let loginCookie = login_cookie_or_nil s r; retryUri = Retry s r loginCookie
           in (w1, http_Redirect r retryUri 307 rw1)
      else if length (GetErrorPath s) > 0
      then (case customErrorRedirect s r statusCode rw1 of
              Inr rw2 \<Rightarrow> (w1, rw2)
            | Inl _ \<Rightarrow> (w1, defaultErrorResponse s r statusCode rw1))
      else (w1, defaultErrorResponse s r statusCode rw1))"

definition InternalError :: "'s standard_handler \<Rightarrow> request \<Rightarrow> 's world \<Rightarrow> response \<Rightarrow> 's world \<times> response" where
  "InternalError s r w rw = respondError s r 500 w rw"
definition BadRequest :: "'s standard_handler \<Rightarrow> request \<Rightarrow> 's world \<Rightarrow> response \<Rightarrow> 's world \<times> response" where
  "BadRequest s r w rw = respondError s r 400 w rw"
definition Unauthorized :: "'s standard_handler \<Rightarrow> request \<Rightarrow> 's world \<Rightarrow> response \<Rightarrow> 's world \<times> response" where
  "Unauthorized s r w rw = respondError s r 401 w rw"

section \<open>Numbers\<close>

lemma nat_dec_digits: "list_all is_digit (nat_dec n)" "nat_dec n \<noteq> []"
proof -
  show "nat_dec n \<noteq> []" by (subst nat_dec.simps) simp
  have d: "is_digit (digit (int m))" if "m < 10" for m using that digit_simps by simp
  show "list_all is_digit (nat_dec n)"
  proof (induction n rule: nat_dec.induct)
    case (1 n)
    show ?case
    proof (cases "n < 10")
      case True
      then show ?thesis by (subst nat_dec.simps) (simp add: d)
    next
      case False
      then show ?thesis using 1 by (subst nat_dec.simps) (simp add: d)
    qed
  qed
qed

lemma digits_val_nat_dec: "digits_val (nat_dec n) = int n"
proof (induction n rule: nat_dec.induct)
  case (1 n)
  show ?case
  proof (cases "n < 10")
    case True
    then show ?thesis by (subst nat_dec.simps) (simp add: digits_val_def digit_simps)
  next
    case False
    then have "digits_val (nat_dec n) = digits_val (nat_dec (n div 10)) * 10 + int (n mod 10)"
      by (subst nat_dec.simps) (simp add: digits_val_append digits_val_def digit_simps)
    moreover have "int (n div 10) * 10 + int (n mod 10) = int n" by presburger
    ultimately show ?thesis using 1 False by simp
  qed
qed

lemma Atoi_Itoa:
  assumes "is_duration i"
  shows "Atoi (Itoa i) = Some i"
proof -
  have h: "hd (nat_dec n) \<noteq> CHR ''-'' \<and> hd (nat_dec n) \<noteq> CHR ''+''" for n
    using nat_dec_digits[of n] by (cases "nat_dec n") (auto simp: is_digit_def byte_val_def)
  show ?thesis
  proof (cases "i < 0")
    case True
    then show ?thesis using assms nat_dec_digits[of "nat (- i)"] digits_val_nat_dec[of "nat (- i)"]
      by (simp add: Atoi_def Itoa_def Let_def)
  next
    case False
    then show ?thesis using assms nat_dec_digits[of "nat i"] digits_val_nat_dec[of "nat i"] h[of "nat i"]
      by (simp add: Atoi_def Itoa_def Let_def)
  qed
qed

section \<open>Retrying ends\<close>

text \<open>
  Consecutive failures as a user agent sees them: each request carries the cookies left by the
  responses before it, and fails with some status; the result is the statuses of the responses.
\<close>

fun error_statuses ::
    "'s standard_handler \<Rightarrow> (request \<times> int) list \<Rightarrow> 's world \<Rightarrow> (string \<times> string) list \<Rightarrow> int option list" where
  "error_statuses s [] w jar = []"
| "error_statuses s ((r, code) # fs) w jar =
     (case respondError s (r\<lparr> Cookies := jar \<rparr>) code w new_response of
        (w', rw) \<Rightarrow> Status rw # error_statuses s fs w' (browser_cookies jar rw))"

text \<open>The status once retrying has ended: a redirect to the configured error path, or the error itself.\<close>

definition final_status :: "'s standard_handler \<Rightarrow> int \<Rightarrow> int" where
  "final_status s code = (if GetErrorPath s \<noteq> [] \<and> is_ok (Parse (GetErrorPath s)) then 302 else code)"

lemma incrementRetryAttempt_jar:
  assumes "incrementRetryAttempt r opts w rw = (w', rw')" "Status rw = None"
  shows "map_of (browser_cookies jar rw') cookie_Retry =
      Some (Itoa (case getRetryAttempts r of Some prev \<Rightarrow> wrap64 (prev + 1) | None \<Rightarrow> 1))"
    and "Status rw' = None"
  using assms
  by (auto simp: incrementRetryAttempt_def time_Now_def browser_cookies_def map_of_store_cookie UnsetExpiry_def cookie_Make_def)

lemma respondError_step:
  assumes "respondError s r code w rw = (w', rw')" "Status rw = None"
  shows "Status rw' = Some (if (case getRetryAttempts r of None \<Rightarrow> True | Some n \<Rightarrow> n < 3) then 307 else final_status s code)"
    and "map_of (browser_cookies jar rw') cookie_Retry =
      Some (Itoa (case getRetryAttempts r of Some prev \<Rightarrow> wrap64 (prev + 1) | None \<Rightarrow> 1))"
proof -
  obtain w1 rw1 where i: "incrementRetryAttempt r (GetCookieOptsPathAware s r) w rw = (w1, rw1)"
    by (cases "incrementRetryAttempt r (GetCookieOptsPathAware s r) w rw")
  note j = incrementRetryAttempt_jar[OF i assms(2)]
  have same: "SetCookies rw' = SetCookies rw1"
    using assms(1) i
    by (auto simp: respondError_def customErrorRedirect_def defaultErrorResponse_def Let_def split: if_splits sum.splits option.splits)
  show "map_of (browser_cookies jar rw') cookie_Retry =
      Some (Itoa (case getRetryAttempts r of Some prev \<Rightarrow> wrap64 (prev + 1) | None \<Rightarrow> 1))"
    using j(1)[of jar] same by (simp add: browser_cookies_def)
  show "Status rw' = Some (if (case getRetryAttempts r of None \<Rightarrow> True | Some n \<Rightarrow> n < 3) then 307 else final_status s code)"
    using assms(1) i j(2)
    by (auto simp: respondError_def customErrorRedirect_def defaultErrorResponse_def Let_def MaxAutoRetryAttempts_def
        final_status_def is_ok_def split: if_splits sum.splits option.splits)
qed

lemma error_statuses_from:
  assumes "getRetryAttempts (r0\<lparr> Cookies := jar \<rparr>) = (if n = 0 then None else Some (int n))"
    and "int (n + length fs) \<le> maxDuration" "i < length fs"
  shows "error_statuses s fs w jar ! i = Some (if n + i < 3 then 307 else final_status s (snd (fs ! i)))"
  using assms
proof (induction fs arbitrary: n i w jar)
  case (Cons f fs)
  obtain r code where f: "f = (r, code)" by (cases f)
  obtain w' rw where e: "respondError s (r\<lparr> Cookies := jar \<rparr>) code w new_response = (w', rw)"
    by (cases "respondError s (r\<lparr> Cookies := jar \<rparr>) code w new_response")
  have a: "getRetryAttempts (r\<lparr> Cookies := jar \<rparr>) = (if n = 0 then None else Some (int n))"
    using Cons.prems(1) by (simp add: getRetryAttempts_def cookie_Get_def Request_Cookie_def)
  note st = respondError_step[OF e new_response_simps(1)]
  have "is_duration (int (Suc n))" using Cons.prems(2) by (simp add: is_duration_def minDuration_def)
  then have "getRetryAttempts (r0\<lparr> Cookies := browser_cookies jar rw \<rparr>) = Some (int (Suc n))"
    using st(2)[of jar] a by (auto simp: getRetryAttempts_def cookie_Get_def Request_Cookie_def Atoi_Itoa add.commute split: if_splits)
  then have IH: "j < length fs \<Longrightarrow> error_statuses s fs w' (browser_cookies jar rw) ! j =
      Some (if Suc n + j < 3 then 307 else final_status s (snd (fs ! j)))" for j
    using Cons.IH[of "browser_cookies jar rw" "Suc n" j w'] Cons.prems(2) by simp
  show ?case
    using st(1) a IH Cons.prems(3) by (cases i) (auto simp: f e)
qed simp


text \<open>
  A retry leads back to where the user was going. A failed logout is retried as it is; after any other
  failure the user agent is sent to the login route, whose request decodes the page the login was
  for: the one in the login cookie if there is one, else the one the failed request asked for.
\<close>

theorem retry_keeps_target:
  assumes "RawQuery (req_URL r') = cut_after (CHR ''?'') (Retry s r cookie)"
    and "\<not> HasSuffix (Path (req_URL r)) ''/oauth2/logout''" "\<not> HasSuffix (Path (req_URL r)) ''/oauth2/logout/frontchannel''"
  shows "RedirectDecoded r' = (case cookie of
      Some c \<Rightarrow> if lc_Referer c \<noteq> [] then lc_Referer c else CanonicalRedirect r | None \<Rightarrow> CanonicalRedirect r)"
proof -
  have "Retry s r cookie = LoginURL (GetPath s r) (case cookie of
      Some c \<Rightarrow> if lc_Referer c \<noteq> [] then lc_Referer c else CanonicalRedirect r | None \<Rightarrow> CanonicalRedirect r)"
    using assms(2,3) by (simp add: Retry_def Let_def paths_OAuth2_def paths_Logout_def paths_LogoutFrontChannel_def split: option.splits)
  then show ?thesis using assms(1) LoginURL_RedirectDecoded by metis
qed

end
