(* ===== verification/SessionLifecycle.thy ===== *)
theory SessionLifecycle
  imports SessionHandler
begin

text \<open>
  What the session handler guarantees over any store that keeps the store's contract: a created
  session can be read back and nothing else is touched, a destroyed one cannot be read, a refresh
  happens under the lock on freshly read data and at most replaces the session's own entry, and an
  access token is handed out only for a live session.
\<close>

section \<open>What the steps leave alone\<close>

lemma canRefresh_env [env_intros]:
  "canRefresh h d w = (b, w') \<Longrightarrow> same_env w w' \<and> store w' = store w \<and> calls w' = calls w"
  by (auto simp: canRefresh_def time_Now_def split: if_splits)

lemma isTimedOut_env [env_intros]:
  "isTimedOut h d w = (b, w') \<Longrightarrow> same_env w w' \<and> store w' = store w \<and> calls w' = calls w"
  by (auto simp: isTimedOut_def time_Now_def split: if_splits)

lemma shouldRefresh_env [env_intros]:
  "shouldRefresh h d w = (b, w') \<Longrightarrow> same_env w w' \<and> store w' = store w \<and> calls w' = calls w"
  by (auto simp: shouldRefresh_def time_Now_def same_env_def split: if_splits)

lemma refreshed_data_env [env_intros]:
  "refreshed_data h resp d w = (d', w') \<Longrightarrow> same_env w w' \<and> store w' = store w"
  by (auto simp: refreshed_data_def time_Now_def Let_def same_env_def split: if_splits)

lemma IDOrGenerate_env [env_intros]:
  "IDOrGenerate h r t w = (q, w') \<Longrightarrow> same_env w w' \<and> store w' = store w \<and> ticks w' = ticks w"
  by (auto simp: IDOrGenerate_def NewSessionID_def GenerateBase64_def strings_Generate_def rand_Read_def
      split: sum.splits if_splits prod.splits)

lemma new_metadata_env [env_intros]:
  "new_metadata h t life w = (md, w') \<Longrightarrow> same_env w w' \<and> store w' = store w"
  by (auto simp: new_metadata_def time_Now_def Let_def same_env_def split: if_splits)

lemma grants_env:
  assumes "retry_Do (grant_attempt x h t) w = (r, w')"
  shows "same_env w w' \<and> store w' = store w"
  using assms
proof (rule retry_Do_rel[where R = "\<lambda>w w'. same_env w w' \<and> store w' = store w"])
  fix v a v'
  assume "grant_attempt x h t v = (a, v')"
  then obtain q where "RefreshGrant x (h_client h) t v = (q, v')"
    by (cases "RefreshGrant x (h_client h) t v") (auto simp: grant_attempt_def split: sum.splits if_splits)
  then show "same_env v v' \<and> store v' = store v" using RefreshGrant_env by blast
qed (auto intro: same_env_trans)

lemma isTimedOut_False:
  assumes "isTimedOut h d w = (False, w')"
  shows "\<not> Inactivity (h_cfg h) \<or> TimeoutAt (md_Session (data_Metadata d)) = 0 \<or>
    clock w (ticks w) \<le> TimeoutAt (md_Session (data_Metadata d))"
  using assms by (auto simp: isTimedOut_def time_Now_def IsTimedOut_iff Time_IsZero_def split: if_splits)

lemma canRefresh_iff:
  "fst (canRefresh h d w) \<longleftrightarrow>
     cfg_Refresh (h_cfg h) \<and> RefreshToken d \<noteq> [] \<and> RefreshCooldown (data_Metadata d) \<le> clock w (ticks w)"
  by (auto simp: canRefresh_def time_Now_def IsRefreshOnCooldown_iff HasRefreshToken_def)

lemma shouldRefresh_True:
  assumes "shouldRefresh h d w = (True, w')"
  shows "cfg_Refresh (h_cfg h) \<and> RefreshToken d \<noteq> [] \<and> RefreshCooldown (data_Metadata d) \<le> clock w (ticks w)"
  using assms by (auto simp: shouldRefresh_def time_Now_def IsRefreshOnCooldown_iff HasRefreshToken_def split: if_splits)

section \<open>Creating and destroying\<close>

definition created_metadata :: "'s session_handler \<Rightarrow> tokens \<Rightarrow> duration \<Rightarrow> (nat \<Rightarrow> time) \<Rightarrow> nat \<Rightarrow> Metadata" where
  "created_metadata h t life c i =
     \<lparr> md_Session = \<lparr> CreatedAt = c (i + 1), EndsAt = Time_Add (c (i + 1)) life,
         TimeoutAt = (if Inactivity (h_cfg h) then Time_Add (c (i + 2)) (InactivityTimeout (h_cfg h)) else 0) \<rparr>,
       md_Tokens = \<lparr> ExpireAt = Time_Add (c (i + 1)) (time_Until (c i) (tk_Expiry t)), RefreshedAt = c (i + 1) \<rparr> \<rparr>"

lemma new_metadata_eq:
  "fst (new_metadata h t life w) = created_metadata h t life (clock w) (ticks w)"
  by (simp add: new_metadata_def time_Now_def created_metadata_def NewMetadata_def WithTimeout_def)

context session_handling
begin

lemma Create_Ok:
  assumes "Handler_Create h r t life w = (Inr k, w')"
  obtains sid w1 e where "IDOrGenerate h r t w = (Inr sid, w1)" "k = Key h sid"
    "contents (store w') = (contents (store w))(k \<mapsto> e)" "same_env w w'"
    "valid_Data (NewData sid t None) \<Longrightarrow>
       Data_Decrypt (h_crypter h) e = Inr (NewData sid t (Some (created_metadata h t life (clock w) (ticks w))))"
proof -
  obtain sid w1 where sid: "IDOrGenerate h r t w = (Inr sid, w1)"
    using assms by (cases "IDOrGenerate h r t w") (auto simp: Handler_Create_def split: sum.splits)
  obtain md w2 where md: "new_metadata h t life w1 = (md, w2)" by (cases "new_metadata h t life w1")
  obtain e w3 where e: "Data_Encrypt (h_crypter h) (NewData sid t (Some md)) w2 = (Inr e, w3)"
    using assms sid md
    by (cases "Data_Encrypt (h_crypter h) (NewData sid t (Some md)) w2") (auto simp: Handler_Create_def simp: Let_def split: sum.splits)
  obtain u where u: "retry_Do (write_attempt h (Key h sid) e life) w3 = (Inr u, w')" "k = Key h sid"
    using assms sid md e
    by (cases "retry_Do (write_attempt h (Key h sid) e life) w3") (auto simp: Handler_Create_def simp: Let_def split: sum.splits)
  have env: "same_env w w1" "store w1 = store w" "ticks w1 = ticks w" "same_env w1 w2" "store w2 = store w1"
      "same_env w2 w3" "store w3 = store w2"
    using IDOrGenerate_env[OF sid] new_metadata_env[OF md] Data_Encrypt_env[OF e] by auto
  have st: "storable e" using Data_Encrypt_valid[OF e] by (simp add: storable_def)
  have "clock w1 = clock w" using env(1) by (simp add: same_env_def)
  then have mdeq: "md = created_metadata h t life (clock w) (ticks w)"
    using new_metadata_eq[of h t life w1] md env(3) by simp
  have "Data_Decrypt (h_crypter h) e = Inr (NewData sid t (Some md))" if "valid_Data (NewData sid t None)"
    using session_data.unseal_seal[OF e] that by (simp add: valid_Data_def NewData_def)
  then show thesis
    using that[OF sid u(2)] write_Ok[OF st u(1)] env mdeq u(2) same_env_trans by metis
qed

lemma present_read:
  assumes "contents (store w) k = Some e" "Data_Decrypt (h_crypter h) e = Inr d"
  shows "fst (GetForKey h k w) \<in> {Inr d, Inl ErrContext, Inl ErrUnexpected}"
  using GetForKey_present[OF assms, of "fst (GetForKey h k w)" "snd (GetForKey h k w)"] by auto

lemma absent_read:
  assumes "contents (store w) k = None"
  shows "fst (GetForKey h k w) \<in> {Inl ErrKeyNotFound, Inl ErrContext, Inl ErrUnexpected}"
proof (cases "GetForKey h k w")
  case (Pair q w')
  show ?thesis
  proof (cases q)
    case (Inr d)
    then show ?thesis using GetForKey_Ok[of k w d w'] Pair assms by auto
  next
    case (Inl e)
    obtain z where z: "retry_Do (read_attempt h k) w = (z, w')" "q = (case z of Inl e \<Rightarrow> Inl e | Inr e' \<Rightarrow> Data_Decrypt (h_crypter h) e')"
      using Pair by (cases "retry_Do (read_attempt h k) w") (auto simp: GetForKey_def split: sum.splits)
    have "z = Inl e" using z Inl read_Ok[of k w _ w'] assms by (cases z) auto
    then show ?thesis using read_errors[of k w e w'] z(1) Pair Inl by auto
  qed
qed

end

section \<open>Refreshing\<close>

lemma acquire_loop_local:
  assumes "\<And>k d w q w'. st_Acquire (h_store h) k d w = (q, w') \<Longrightarrow> local_step w w'"
  shows "acquire_loop h k lw w = (r, w') \<Longrightarrow> local_step w w'"
proof (induction lw arbitrary: w)
  case (WaitTick others rest)
  obtain q w1 where a: "st_Acquire (h_store h) k refreshLockDuration (w\<lparr> store := others (store w) \<rparr>) = (q, w1)"
    by fastforce
  have s: "local_step w w1" by (rule local_step_trans[OF local_step_upd(1) assms[OF a]])
  show ?case
  proof (cases "q = Inl ErrAcquireLock")
    case True
    then have "acquire_loop h k rest w1 = (r, w')" using WaitTick.prems a by simp
    then show ?thesis using WaitTick.IH[of w1] s local_step_trans by blast
  next
    case False
    then have "w' = w1" using WaitTick.prems a by (auto split: sum.splits if_splits)
    then show ?thesis using s by simp
  qed
qed auto

lemma refresh_locked_cases:
  assumes "refresh_locked x h k w = (res, w')"
  obtains (unread) e where "GetForKey h k w = (Inl e, w')" "res = Inl e"
  | (current) d w1 where "GetForKey h k w = (Inr d, w1)" "canRefresh h d w1 = (False, w')" "res = Inr d"
  | (inactive) d w1 w2 where "GetForKey h k w = (Inr d, w1)" "canRefresh h d w1 = (True, w2)"
      "isTimedOut h d w2 = (True, w')" "res = Inl ErrSessionInactive"
  | (refused) d w1 w2 w3 e where "GetForKey h k w = (Inr d, w1)" "canRefresh h d w1 = (True, w2)"
      "isTimedOut h d w2 = (False, w3)" "retry_Do (grant_attempt x h (RefreshToken d)) w3 = (Inl e, w')"
      "res = Inl (if e = ErrOpenIDClient then ErrInvalidState else e)"
  | (granted) d w1 w2 w3 resp w4 d' w5 r where "GetForKey h k w = (Inr d, w1)" "canRefresh h d w1 = (True, w2)"
      "isTimedOut h d w2 = (False, w3)" "retry_Do (grant_attempt x h (RefreshToken d)) w3 = (Inr resp, w4)"
      "refreshed_data h resp d w4 = (d', w5)" "Handler_Update h k d' w5 = (r, w')"
      "res = (case r of None \<Rightarrow> Inr d' | Some e \<Rightarrow> Inl e)"
proof -
  obtain g w1 where g: "GetForKey h k w = (g, w1)" by fastforce
  show thesis
  proof (cases g)
    case (Inl e)
    have "(res, w') = (Inl e, w1)" using assms g Inl by (simp add: refresh_locked_def)
    then show thesis using g Inl by (intro unread[of e]) simp_all
  next
    case (Inr d)
    obtain b w2 where b: "canRefresh h d w1 = (b, w2)" by fastforce
    obtain c w3 where c: "isTimedOut h d w2 = (c, w3)" by fastforce
    obtain q w4 where q: "retry_Do (grant_attempt x h (RefreshToken d)) w3 = (q, w4)" by fastforce
    consider "\<not> b" | "b" "c" | "b" "\<not> c" by blast
    then show thesis
    proof cases
      case 1
      have "(res, w') = (Inr d, w2)" using assms g Inr b 1 by (simp add: refresh_locked_def)
      then show thesis using g Inr b 1 by (intro current[of d w1]) simp_all
    next
      case 2
      have "(res, w') = (Inl ErrSessionInactive, w3)" using assms g Inr b c 2 by (simp add: refresh_locked_def)
      then show thesis using g Inr b c 2 by (intro inactive[of d w1 w2]) simp_all
    next
      case 3
      show thesis
      proof (cases q)
        case (Inl e)
        have "(res, w') = (Inl (if e = ErrOpenIDClient then ErrInvalidState else e), w4)"
          using assms g \<open>g = Inr d\<close> b c q 3 Inl by (simp add: refresh_locked_def)
        then show thesis using g \<open>g = Inr d\<close> b c q 3 Inl by (intro refused[of d w1 w2 w3 e]) simp_all
      next
        case (Inr resp)
        obtain d' w5 where d': "refreshed_data h resp d w4 = (d', w5)" by (cases "refreshed_data h resp d w4")
        obtain r w6 where r: "Handler_Update h k d' w5 = (r, w6)" by (cases "Handler_Update h k d' w5")
        have "(res, w') = (case r of None \<Rightarrow> Inr d' | Some e \<Rightarrow> Inl e, w6)"
          using assms g \<open>g = Inr d\<close> b c q 3 Inr d' r by (simp add: refresh_locked_def split: option.splits)
        then show thesis
          using g \<open>g = Inr d\<close> b c q 3 Inr d' r by (intro granted[of d w1 w2 w3 resp w4 d' w5 r]) simp_all
      qed
    qed
  qed
qed

lemma refreshed_data_fields:
  assumes "refreshed_data h resp d w = (d', w')"
  shows "AccessToken d' = tr_AccessToken resp" "RefreshToken d' = tr_RefreshToken resp"
    "ExternalSessionID d' = ExternalSessionID d" "data_IDToken d' = data_IDToken d" "IDTokenJwtID d' = IDTokenJwtID d"
    "CreatedAt (md_Session (data_Metadata d')) = CreatedAt (md_Session (data_Metadata d))"
    "EndsAt (md_Session (data_Metadata d')) = EndsAt (md_Session (data_Metadata d))"
    "RefreshedAt (md_Tokens (data_Metadata d')) = clock w (ticks w)"
  using assms by (auto simp: refreshed_data_def Let_def time_Now_def split: if_splits)

text \<open>What a successful refresh does to a session's data: new tokens and times, the same identity and end.\<close>

definition refreshed_from :: "TokenResponse \<Rightarrow> Data \<Rightarrow> Data \<Rightarrow> bool" where
  "refreshed_from resp d d' \<longleftrightarrow>
     AccessToken d' = tr_AccessToken resp \<and> RefreshToken d' = tr_RefreshToken resp
   \<and> ExternalSessionID d' = ExternalSessionID d \<and> data_IDToken d' = data_IDToken d \<and> IDTokenJwtID d' = IDTokenJwtID d
   \<and> CreatedAt (md_Session (data_Metadata d')) = CreatedAt (md_Session (data_Metadata d))
   \<and> EndsAt (md_Session (data_Metadata d')) = EndsAt (md_Session (data_Metadata d))"

lemma refreshed_data_from: "refreshed_data h resp d w = (d', w') \<Longrightarrow> refreshed_from resp d d'"
  using refreshed_data_fields[of h resp d w d' w'] by (simp add: refreshed_from_def)

context session_handling
begin

lemma acquire_lock_local: "acquire_lock h k w = (r, w') \<Longrightarrow> local_step w w'"
proof -
  assume "acquire_lock h k w = (r, w')"
  then have "acquire_loop h k (waits w (locks w)) (w\<lparr> locks := Suc (locks w) \<rparr>) = (r, w')" by (simp add: acquire_lock_def)
  then have "local_step (w\<lparr> locks := Suc (locks w) \<rparr>) w'"
    using acquire_loop_local[of h k "waits w (locks w)"] Acquire_env by blast
  then show ?thesis using local_step_trans[OF local_step_upd(3)] by blast
qed

lemma GetForKey_data:
  assumes "GetForKey h k w = (Inr d, w1)"
  shows "\<exists>e. contents (store w) k = Some e \<and> Data_Decrypt (h_crypter h) e = Inr d"
    and "local_step w w1" and "contents (store w1) = contents (store w)"
  using GetForKey_Ok[OF assms] GetForKey_keeps[OF assms] by (auto simp: keeps_def)

lemma refresh_locked_env:
  assumes "refresh_locked x h k w = (res, w')"
  shows "same_env w w' \<and> (\<forall>k'. k' \<noteq> k \<longrightarrow> contents (store w') k' = contents (store w) k')"
  using assms
proof (cases rule: refresh_locked_cases)
  case (unread e)
  then show ?thesis using GetForKey_keeps[OF unread(1)] by (simp add: keeps_def local_step_env)
next
  case (current d w1)
  note env = GetForKey_data(2,3)[OF current(1)] canRefresh_env[OF current(2)]
  then have "same_env w w'" using local_step_env same_env_trans by blast
  then show ?thesis using env by simp
next
  case (inactive d w1 w2)
  note env = GetForKey_data(2,3)[OF inactive(1)] canRefresh_env[OF inactive(2)] isTimedOut_env[OF inactive(3)]
  then have "same_env w w'" using local_step_env same_env_trans by blast
  then show ?thesis using env by simp
next
  case (refused d w1 w2 w3 e)
  note env = GetForKey_data(2,3)[OF refused(1)] canRefresh_env[OF refused(2)] isTimedOut_env[OF refused(3)] grants_env[OF refused(4)]
  then have "same_env w w'" using local_step_env same_env_trans by blast
  then show ?thesis using env by simp
next
  case (granted d w1 w2 w3 resp w4 d' w5 r)
  note env = GetForKey_data(2,3)[OF granted(1)] canRefresh_env[OF granted(2)] isTimedOut_env[OF granted(3)] grants_env[OF granted(4)]
    refreshed_data_env[OF granted(5)] Update_other_keys[OF granted(6)]
  have "same_env w w1" using env(1) by (rule local_step_env)
  also have "same_env w1 w2" using env by simp
  also have "same_env w2 w3" using env by simp
  also have "same_env w3 w4" using env by simp
  also have "same_env w4 w5" using env by simp
  also have "same_env w5 w'" using env by simp
  finally show ?thesis using env by simp
qed

lemma refresh_locked_Ok:
  assumes "refresh_locked x h k w = (Inr d', w')"
  obtains e d where "contents (store w) k = Some e" "Data_Decrypt (h_crypter h) e = Inr d"
    "(d' = d \<and> contents (store w') k = Some e \<and> calls w' = calls w) \<or>
     (\<exists>resp v v' e'. calls v = calls w \<and> retry_Do (grant_attempt x h (RefreshToken d)) v = (Inr resp, v')
        \<and> refreshed_from resp d d' \<and> contents (store w') k = Some e'
        \<and> (valid_Data d' \<longrightarrow> Data_Decrypt (h_crypter h) e' = Inr d'))"
  using assms
proof (cases rule: refresh_locked_cases)
  case (current d w1)
  note g = GetForKey_data[OF current(1)]
  then obtain e where "contents (store w) k = Some e" "Data_Decrypt (h_crypter h) e = Inr d" by blast
  then show thesis
    using that[of e d] g(2,3) canRefresh_env[OF current(2)] current(3) by (simp add: local_step_def)
next
  case (granted d w1 w2 w3 resp w4 d'' w5 r)
  have r: "r = None" "d'' = d'" using granted(7) by (auto split: option.splits)
  obtain e' where u: "contents (store w') = (contents (store w5))(k \<mapsto> e')"
      "valid_Data d' \<longrightarrow> Data_Decrypt (h_crypter h) e' = Inr d'"
    using Update_Ok_handler[of k d' w5 w'] granted(6) r by metis
  note g = GetForKey_data[OF granted(1)]
  then obtain e where e: "contents (store w) k = Some e" "Data_Decrypt (h_crypter h) e = Inr d" by blast
  have "calls w3 = calls w"
    using g(2) canRefresh_env[OF granted(2)] isTimedOut_env[OF granted(3)] by (simp add: local_step_def)
  then show thesis
    using that[OF e] granted(4) u refreshed_data_from[OF granted(5)] r(2)
    by (metis fun_upd_same)
qed simp_all

lemma Refresh_cases:
  assumes "Handler_Refresh x h k d w = (res, w')"
  obtains (skipped) "\<not> fst (canRefresh h d w)" "res = Inr d" "store w' = store w" "calls w' = calls w" "same_env w w'"
  | (unlocked) e where "fst (canRefresh h d w)" "res = Inl e" "acquire_lock h k (snd (canRefresh h d w)) = (Inl e, w')"
      "same_env w w'"
  | (locked) l w2 w3 where "fst (canRefresh h d w)" "acquire_lock h k (snd (canRefresh h d w)) = (Inr l, w2)"
      "calls w2 = calls w" "refresh_locked x h k w2 = (res, w3)" "calls w' = calls w3"
      "\<forall>k'. k' \<noteq> lockKey k \<longrightarrow> contents (store w') k' = contents (store w3) k'" "same_env w w2" "same_env w w'"
proof -
  obtain b w1 where b: "canRefresh h d w = (b, w1)" by (cases "canRefresh h d w")
  obtain q w2 where q: "acquire_lock h k w1 = (q, w2)" by (cases "acquire_lock h k w1")
  show thesis
  proof (cases b)
    case False
    have "(res, w') = (Inr d, w1)" using assms b False by (simp add: Handler_Refresh_def)
    then show thesis using b False canRefresh_env[OF b] by (intro skipped) simp_all
  next
    case True
    show thesis
    proof (cases q)
      case (Inl e)
      have "(res, w') = (Inl e, w2)" using assms b q True Inl by (simp add: Handler_Refresh_def)
      moreover have "same_env w w2" using canRefresh_env[OF b] acquire_lock_local[OF q] local_step_env same_env_trans by blast
      ultimately show thesis using b q True Inl by (intro unlocked[of e]) simp_all
    next
      case (Inr l)
      obtain r w3 where r: "refresh_locked x h k w2 = (r, w3)" by (cases "refresh_locked x h k w2")
      obtain z w4 where z: "st_Release (h_store h) k l w3 = (z, w4)" by (cases "st_Release (h_store h) k l w3")
      have e: "(res, w') = (r, w4)" using assms b q True Inr r z by (simp add: Handler_Refresh_def)
      have c: "calls w2 = calls w" using acquire_lock_local[OF q] canRefresh_env[OF b] by (simp add: local_step_def)
      have e2: "same_env w w2" using canRefresh_env[OF b] acquire_lock_local[OF q] local_step_env same_env_trans by blast
      have "same_env w w4" using e2 refresh_locked_env[OF r] Release_env[OF z] local_step_env same_env_trans by meson
      then show thesis using b q True Inr r e c e2 Release_env[OF z]
        by (intro locked[of l w2 w3]) (simp_all add: local_step_def)
    qed
  qed
qed

lemma created_session:
  assumes "Handler_Create h r t life w = (Inr k, w')"
    and "IDOrGenerate h r t w = (Inr sid, w0)" "valid_Data (NewData sid t None)"
  shows "k = Key h sid
    \<and> fst (GetForKey h k w') \<in> {Inr (NewData sid t (Some (created_metadata h t life (clock w) (ticks w)))),
         Inl ErrContext, Inl ErrUnexpected}
    \<and> (\<forall>k'. k' \<noteq> k \<longrightarrow> contents (store w') k' = contents (store w) k')"
proof -
  from assms(1) obtain sid' w1 e where c: "IDOrGenerate h r t w = (Inr sid', w1)" "k = Key h sid'"
      "contents (store w') = (contents (store w))(k \<mapsto> e)"
      "valid_Data (NewData sid' t None) \<Longrightarrow>
        Data_Decrypt (h_crypter h) e = Inr (NewData sid' t (Some (created_metadata h t life (clock w) (ticks w))))"
    by (rule Create_Ok) blast
  have sid: "sid' = sid" using c(1) assms(2) by simp
  have "contents (store w') k = Some e" using c(3) by simp
  then show ?thesis
    using present_read[OF _ c(4)] c(2,3) assms(3) sid by auto
qed

lemma destroyed_session:
  assumes "DestroyForID h sid w = (None, w')"
  shows "fst (GetForID h sid w') \<in> {Inl ErrKeyNotFound, Inl ErrContext, Inl ErrUnexpected}
    \<and> (\<forall>sid'. sid' \<noteq> sid \<longrightarrow> contents (store w') (Key h sid') = contents (store w) (Key h sid'))"
proof -
  have d: "destroyForKey h (Key h sid) w = (None, w')" using assms(1) by (simp add: DestroyForID_def)
  have "contents (store w') (Key h sid) = None"
    using destroy_drops(2)[OF d] by simp
  then show ?thesis
    using absent_read destroy_drops(1)[OF d]
    by (auto simp: GetForID_def drops_def Key_inject)
qed

lemma refreshed_session:
  assumes "Handler_Refresh x h k d w = (Inr d', w')"
  shows "(d' = d \<and> store w' = store w \<and> calls w' = calls w \<and>
       \<not> (cfg_Refresh (h_cfg h) \<and> RefreshToken d \<noteq> [] \<and> RefreshCooldown (data_Metadata d) \<le> clock w (ticks w))) \<or>
    (\<exists>l w2 e d2. acquire_lock h k (snd (canRefresh h d w)) = (Inr l, w2)
       \<and> contents (store w2) k = Some e \<and> Data_Decrypt (h_crypter h) e = Inr d2
       \<and> (\<forall>k'. k' \<noteq> k \<and> k' \<noteq> lockKey k \<longrightarrow> contents (store w') k' = contents (store w2) k')
       \<and> ((d' = d2 \<and> contents (store w') k = Some e \<and> calls w' = calls w) \<or>
          (\<exists>resp v v' e'. calls v = calls w \<and> retry_Do (grant_attempt x h (RefreshToken d2)) v = (Inr resp, v')
             \<and> refreshed_from resp d2 d' \<and> contents (store w') k = Some e'
             \<and> (valid_Data d' \<longrightarrow> Data_Decrypt (h_crypter h) e' = Inr d'))))"
  using assms(1)
proof (cases rule: Refresh_cases)
  case skipped
  then show ?thesis using canRefresh_iff[of h d w] by simp
next
  case (locked l w2 w3)
  from locked(4) obtain e d2 where e: "contents (store w2) k = Some e" "Data_Decrypt (h_crypter h) e = Inr d2"
      "(d' = d2 \<and> contents (store w3) k = Some e \<and> calls w3 = calls w2) \<or>
       (\<exists>resp v v' e'. calls v = calls w2 \<and> retry_Do (grant_attempt x h (RefreshToken d2)) v = (Inr resp, v')
        \<and> refreshed_from resp d2 d' \<and> contents (store w3) k = Some e'
        \<and> (valid_Data d' \<longrightarrow> Data_Decrypt (h_crypter h) e' = Inr d'))"
    by (rule refresh_locked_Ok)
  have k: "contents (store w') k = contents (store w3) k" using locked(6) by simp
  have "contents (store w') k' = contents (store w2) k'" if "k' \<noteq> k \<and> k' \<noteq> lockKey k" for k'
    using locked(6) refresh_locked_env[OF locked(4)] that by simp
  then show ?thesis using e locked(2,3,5) k by (intro disjI2 exI[of _ l] exI[of _ w2] exI[of _ e] exI[of _ d2]) auto
qed simp

lemma Refresh_env: "Handler_Refresh x h k d w = (res, w') \<Longrightarrow> same_env w w'"
  by (cases rule: Refresh_cases) auto

lemma GetOrRefresh_Ok:
  assumes "GetOrRefresh x h r w = (Inr d, w')"
  obtains k d0 w1 w2 where "GetKey h r = Inr k" "GetForKey h k w = (Inr d0, w1)" "isTimedOut h d0 w1 = (False, w2)"
    "same_env w2 w'" "d = d0 \<or> (\<exists>v v'. same_env w v \<and> Handler_Refresh x h k d0 v = (Inr d, v'))"
proof -
  obtain k where k: "GetKey h r = Inr k" using assms by (auto simp: GetOrRefresh_def split: sum.splits)
  obtain g w1 where g: "GetForKey h k w = (g, w1)" by (cases "GetForKey h k w")
  obtain d0 where d0: "g = Inr d0" using assms k g by (cases g) (auto simp: GetOrRefresh_def)
  obtain b w2 where b: "isTimedOut h d0 w1 = (b, w2)" by (cases "isTimedOut h d0 w1")
  have nb: "\<not> b" using assms k g d0 b by (cases b) (auto simp: GetOrRefresh_def)
  obtain c w3 where c: "shouldRefresh h d0 w2 = (c, w3)" by (cases "shouldRefresh h d0 w2")
  obtain q w4 where q: "Handler_Refresh x h k d0 w3 = (q, w4)" by (cases "Handler_Refresh x h k d0 w3")
  have r: "(Inr d, w') = (if c then (case q of Inl e \<Rightarrow> if e = ErrInvalidState \<or> e = ErrSessionInactive then Inl e else Inr d0
      | Inr d' \<Rightarrow> Inr d', w4) else (Inr d0, w3))"
    using assms k g d0 b nb c q by (cases c; cases q) (simp_all add: GetOrRefresh_def split: if_splits)
  have e: "same_env w w3" "same_env w2 w3"
    using GetForKey_keeps[OF g] isTimedOut_env[OF b] shouldRefresh_env[OF c] same_env_trans
    by (auto simp: keeps_def local_step_def) blast
  have "d = d0 \<or> q = Inr d" using r by (auto split: if_splits sum.splits)
  moreover have "same_env w2 w'" using r e(2) Refresh_env[OF q] same_env_trans by (auto split: if_splits)
  moreover have "GetForKey h k w = (Inr d0, w1)" "isTimedOut h d0 w1 = (False, w2)" using g d0 b nb by simp_all
  ultimately show thesis using q e(1) by (intro that[OF k, of d0 w1 w2]) blast+
qed

lemma GetAccessToken_Ok:
  assumes "GetAccessToken x h r w = (Inr tok, w')"
  shows "\<exists>k e d0 d i j. GetKey h r = Inr k \<and> contents (store w) k = Some e \<and> Data_Decrypt (h_crypter h) e = Inr d0
    \<and> ticks w \<le> i \<and> i \<le> j
    \<and> (Inactivity (h_cfg h) \<and> TimeoutAt (md_Session (data_Metadata d0)) \<noteq> 0
        \<longrightarrow> clock w i \<le> TimeoutAt (md_Session (data_Metadata d0)))
    \<and> (d = d0 \<or> (\<exists>v v'. same_env w v \<and> Handler_Refresh x h k d0 v = (Inr d, v')))
    \<and> tok = AccessToken d \<and> tok \<noteq> [] \<and> clock w j \<le> ExpireAt (md_Tokens (data_Metadata d))"
proof -
  obtain q v where q: "GetOrRefresh x h r w = (q, v)" by (cases "GetOrRefresh x h r w")
  obtain d where d: "q = Inr d" "HasAccessToken d" "\<not> IsExpired (clock v (ticks v)) (data_Metadata d)" "tok = AccessToken d"
    using assms q by (cases q) (auto simp: GetAccessToken_def time_Now_def split: if_splits)
  obtain k d0 w1 w2 where g: "GetKey h r = Inr k" "GetForKey h k w = (Inr d0, w1)" "isTimedOut h d0 w1 = (False, w2)"
      "same_env w2 v" "d = d0 \<or> (\<exists>v v'. same_env w v \<and> Handler_Refresh x h k d0 v = (Inr d, v'))"
    using GetOrRefresh_Ok[of x r w d v] q d(1) by metis
  obtain e where e: "contents (store w) k = Some e" "Data_Decrypt (h_crypter h) e = Inr d0"
    using GetForKey_data(1)[OF g(2)] by blast
  have s: "same_env w w1" "same_env w1 v"
    using GetForKey_data(2)[OF g(2)] isTimedOut_env[OF g(3)] g(4) same_env_trans by (auto simp: local_step_def)
  then have cl: "clock w1 = clock w" "clock v = clock w" "ticks w \<le> ticks w1" "ticks w1 \<le> ticks v"
    by (auto simp: same_env_def)
  have "Inactivity (h_cfg h) \<and> TimeoutAt (md_Session (data_Metadata d0)) \<noteq> 0
      \<longrightarrow> clock w (ticks w1) \<le> TimeoutAt (md_Session (data_Metadata d0))"
    using isTimedOut_False[OF g(3)] cl(1) by auto
  moreover have "clock w (ticks v) \<le> ExpireAt (md_Tokens (data_Metadata d))" "tok \<noteq> []"
    using d(2-4) cl(2) by (auto simp: HasAccessToken_def)
  ultimately show ?thesis using g(1,5) e d(4) cl(3,4) by metis
qed

end

interpretation memory_handling: session_handling "h\<lparr> h_store := memory_store \<rparr>" "\<lambda>s. s" for h
  unfolding session_handling_def by (simp add: memory.session_store_axioms)

section \<open>Properties\<close>

subsection \<open>Creating, destroying\<close>

text \<open>
  C18: A created session can be read back: under the key that was returned the store gives exactly the
  tokens of the login and the times computed from the clock, or the read fails; it never gives
  anything else. No other session is touched.
\<close>

theorem create_then_get:
  assumes "session_handling h contents" "Handler_Create h r t life w = (Inr k, w')"
    and "IDOrGenerate h r t w = (Inr sid, w0)" "valid_Data (NewData sid t None)"
  shows "k = Key h sid
    \<and> fst (GetForKey h k w') \<in> {Inr (NewData sid t (Some (created_metadata h t life (clock w) (ticks w)))),
         Inl ErrContext, Inl ErrUnexpected}
    \<and> (\<forall>k'. k' \<noteq> k \<longrightarrow> contents (store w') k' = contents (store w) k')"
  using assms by (rule session_handling.created_session)

text \<open>
  A destroyed session is gone: after \<^verbatim>\<open>DestroyForID\<close> reports success, reading the session gives
  an error, never data; the sessions of other identifiers are still there.
\<close>

theorem destroy_then_get:
  assumes "session_handling h contents" "DestroyForID h sid w = (None, w')"
  shows "fst (GetForID h sid w') \<in> {Inl ErrKeyNotFound, Inl ErrContext, Inl ErrUnexpected}
    \<and> (\<forall>sid'. sid' \<noteq> sid \<longrightarrow> contents (store w') (Key h sid') = contents (store w) (Key h sid'))"
  using assms by (rule session_handling.destroyed_session)

subsection \<open>Refreshing\<close>


end
