(* ===== verification/SessionErrors.thy ===== *)
theory SessionErrors
  imports SessionLifecycle
begin

text \<open>
  Which errors the session handler can return. The API handlers and the proxy choose their response by
  the sentinel at the end of an error's chain; here is shown which sentinels each operation can give,
  and what \<^verbatim>\<open>ErrInvalidState\<close> and \<^verbatim>\<open>ErrSessionInactive\<close> say about the provider and the session.
\<close>

section \<open>Errors without a sentinel\<close>

definition anonymous :: "error \<Rightarrow> bool" where
  "anonymous e = (case e of ErrOther _ \<Rightarrow> True | _ \<Rightarrow> False)"

lemma anonymous_simps [simp]:
  "anonymous (ErrOther m)" "\<not> anonymous ErrInvalidState" "\<not> anonymous ErrSessionInactive" "\<not> anonymous ErrKeyNotFound"
  "\<not> anonymous ErrCookieNotFound" "\<not> anonymous ErrOpenIDClient" "\<not> anonymous ErrOpenIDServer" "\<not> anonymous ErrUnexpected"
  "\<not> anonymous ErrContext"
  by (simp_all add: anonymous_def)

definition plain_decoder :: "'a field \<Rightarrow> bool" where
  "plain_decoder f \<longleftrightarrow> (\<forall>v x e. snd f v x = Inl e \<longrightarrow> anonymous e)"

lemma decode_members_anonymous:
  assumes "list_all plain_decoder fs" "decode_members fs ms x = Inl e"
  shows "anonymous e"
  using assms(2)
proof (induction ms arbitrary: x)
  case (Cons m ms)
  obtain k v where m: "m = (k, v)" by (cases m)
  show ?case
  proof (cases "find_field fs (json_unquote k)")
    case None
    then show ?thesis using Cons m by simp
  next
    case (Some f)
    have "\<exists>n. (n, f) \<in> set fs"
    proof (cases "map_of fs (json_unquote k)")
      case None
      then obtain g where g: "find (\<lambda>g. fold_key (fst g) = fold_key (json_unquote k)) fs = Some g" "f = snd g"
        using Some by (auto simp: find_field_def)
      then have "g \<in> set fs" by (auto simp: find_Some_iff)
      then show ?thesis using g(2) by (metis prod.collapse)
    next
      case (Some g)
      then show ?thesis using \<open>find_field fs (json_unquote k) = Some f\<close> by (auto simp: find_field_def dest: map_of_SomeD)
    qed
    then have "plain_decoder (n, f)" if "(n, f) \<in> set fs" for n using assms(1) that by (auto simp: list_all_iff)
    then have f: "f v x = Inl e' \<Longrightarrow> anonymous e'" for e' x
      using \<open>\<exists>n. (n, f) \<in> set fs\<close> by (auto simp: plain_decoder_def)
    show ?thesis using Cons m Some f by (auto split: sum.splits)
  qed
qed simp

lemma decode_struct_anonymous: "list_all plain_decoder fs \<Longrightarrow> decode_struct fs v x = Inl e \<Longrightarrow> anonymous e"
  by (auto simp: decode_struct_def type_error_def split: json.splits dest: decode_members_anonymous)

lemma Time_UnmarshalJSON_anonymous: "Time_UnmarshalJSON s = Inl e \<Longrightarrow> anonymous e"
  by (auto simp: Time_UnmarshalJSON_def Let_def split: option.splits prod.splits if_splits)

lemma plain_fields [simp]:
  "plain_decoder (string_field k upd)" "plain_decoder (int_field k upd2)" "plain_decoder (time_field k upd3)"
  by (auto simp: plain_decoder_def string_field_def int_field_def time_field_def type_error_def
      split: json.splits option.splits sum.splits dest: Time_UnmarshalJSON_anonymous)

lemma plain_struct_field [simp]: "list_all plain_decoder fs \<Longrightarrow> plain_decoder (struct_field k fs get upd)"
  by (auto simp: plain_decoder_def struct_field_def split: sum.splits dest: decode_struct_anonymous)

lemma json_Unmarshal_anonymous: "list_all plain_decoder fs \<Longrightarrow> json_Unmarshal fs s x = Inl e \<Longrightarrow> anonymous e"
  by (auto simp: json_Unmarshal_def json_parse_def split: sum.splits option.splits if_splits dest: decode_struct_anonymous)

lemma Data_Decrypt_anonymous: "Data_Decrypt c d = Inl e \<Longrightarrow> anonymous e"
proof -
  assume a: "Data_Decrypt c d = Inl e"
  have f: "list_all plain_decoder Data_fields"
    by (simp add: Data_fields_def Metadata_fields_def MetadataSession_fields_def MetadataTokens_fields_def)
  show ?thesis
    using a json_Unmarshal_anonymous[OF f]
    by (auto simp: Data_Decrypt_def DecodeString_def Crypter_Decrypt_def gcm_Open_def Data_Unmarshal_def Let_def
        split: option.splits sum.splits if_splits)
qed

lemma Time_MarshalJSON_anonymous: "Time_MarshalJSON t = Inl e \<Longrightarrow> anonymous e"
  by (auto simp: Time_MarshalJSON_def Let_def split: if_splits prod.splits)

lemma Crypter_Encrypt_anonymous: "Crypter_Encrypt c p w = (Inl e, w') \<Longrightarrow> anonymous e"
  by (auto simp: Crypter_Encrypt_def IV_def rand_Read_def time_Now_def Let_def split: if_splits prod.splits sum.splits)

lemma Data_Marshal_anonymous: "Data_Marshal d = Inl e \<Longrightarrow> anonymous e"
  unfolding Data_Marshal_def Metadata_members_def
  by (auto split: sum.splits dest!: Time_MarshalJSON_anonymous)

lemma Data_Encrypt_anonymous:
  assumes "Data_Encrypt c d w = (Inl e, w')"
  shows "anonymous e"
proof (cases "Data_Marshal d")
  case (Inl x)
  then show ?thesis using assms Data_Marshal_anonymous[of d e] by (simp add: Data_Encrypt_def)
next
  case (Inr b)
  obtain q v where q: "Crypter_Encrypt c b w = (q, v)" by (cases "Crypter_Encrypt c b w")
  then show ?thesis using assms Inr Crypter_Encrypt_anonymous[of c b w e v] by (cases q) (auto simp: Data_Encrypt_def)
qed

section \<open>Errors of the handler's operations\<close>

lemma grants_errors:
  assumes "retry_Do (grant_attempt x h t) w = (Inl e, w')"
  shows "e = ErrContext \<or> anonymous e \<or> e = ErrOpenIDServer \<or>
    (e = ErrOpenIDClient \<and> (\<exists>v. same_env w v \<and> RefreshGrant x (h_client h) t v = (Inl ErrOpenIDClient, w')))"
proof -
  let ?R = "\<lambda>w w'. same_env w w'"
  have step: "?R v v'" if "grant_attempt x h t v = (a, v')" for v a v'
    using RefreshGrant_env[of x "h_client h" t v] that
    by (cases "RefreshGrant x (h_client h) t v") (auto simp: grant_attempt_def split: sum.splits if_splits)
  have "(e = ErrContext \<and> ?R w w') \<or>
      (\<exists>v. ?R w v \<and> (grant_attempt x h t v = (Permanent e, w') \<or> grant_attempt x h t v = (Retryable e, w')))"
    using assms by (rule retry_Do_Err) (auto intro: same_env_trans step)
  then consider "e = ErrContext" | v where "same_env w v" "RefreshGrant x (h_client h) t v = (Inl e, w')"
  proof (elim disjE exE conjE)
    fix v
    assume v: "same_env w v" "grant_attempt x h t v = (Permanent e, w')"
    then show ?thesis using that(2)[OF v(1)]
      by (cases "RefreshGrant x (h_client h) t v") (auto simp: grant_attempt_def split: sum.splits if_splits)
  next
    fix v
    assume v: "same_env w v" "grant_attempt x h t v = (Retryable e, w')"
    then show ?thesis using that(2)[OF v(1)]
      by (cases "RefreshGrant x (h_client h) t v") (auto simp: grant_attempt_def split: sum.splits if_splits)
  qed simp
  then show ?thesis
  proof cases
    case (2 v)
    from 2(2) show ?thesis
    proof (cases rule: RefreshGrant_cases)
      case (call a w1)
      then show ?thesis using 2 json_Unmarshal_anonymous[of TokenResponse_fields]
        by (auto simp: handle_token_response_def split: sum.splits if_splits)
    qed simp
  qed simp
qed

lemma acquire_lock_errors:
  assumes "acquire_lock h k w = (Inl e, w')"
  shows "e = ErrContext \<or> anonymous e"
proof -
  have "acquire_loop h k lw v = (Inl e, w') \<Longrightarrow> e = ErrContext \<or> anonymous e" for lw v
  proof (induction lw arbitrary: v)
    case (WaitTick others rest)
    obtain q w1 where a: "st_Acquire (h_store h) k refreshLockDuration (v\<lparr> store := others (store v) \<rparr>) = (q, w1)"
      by (cases "st_Acquire (h_store h) k refreshLockDuration (v\<lparr> store := others (store v) \<rparr>)")
    show ?case
    proof (cases "q = Inl ErrAcquireLock")
      case True
      then show ?thesis using WaitTick.prems a WaitTick.IH[of w1] by simp
    next
      case False
      then show ?thesis using WaitTick.prems a by (auto split: sum.splits if_splits)
    qed
  qed auto
  then show ?thesis using assms by (simp add: acquire_lock_def)
qed

lemma isTimedOut_True:
  "isTimedOut h d w = (True, w') \<Longrightarrow> Inactivity (h_cfg h) \<and> TimeoutAt (md_Session (data_Metadata d)) < clock w (ticks w)"
  by (auto simp: isTimedOut_def time_Now_def IsTimedOut_iff split: if_splits)

text \<open>A provider that is down: a request fails, or is answered with a server error.\<close>

definition provider_down :: "http_in result \<Rightarrow> bool" where
  "provider_down answer = (case answer of Inl _ \<Rightarrow> True | Inr resp \<Rightarrow> 500 \<le> in_status resp)"

lemma RefreshGrant_down:
  assumes "\<And>n req. provider_down (remote w n req)" "RefreshGrant x c t w = (r, w')"
  shows "\<exists>e. r = Inl e \<and> e \<noteq> ErrOpenIDClient"
  using assms(2)
proof (cases rule: RefreshGrant_cases)
  case (call a w1)
  then show ?thesis using assms(1)[of "calls w" "refresh_request c t a"]
    by (auto simp: provider_down_def handle_token_response_def split: sum.splits)
qed simp

context session_handling
begin

lemma GetForKey_errors:
  assumes "GetForKey h k w = (Inl e, w')"
  shows "e \<in> {ErrContext, ErrKeyNotFound, ErrUnexpected} \<or> anonymous e"
proof -
  obtain q where q: "retry_Do (read_attempt h k) w = (q, w')"
      "Inl e = (case q of Inl e \<Rightarrow> Inl e | Inr e' \<Rightarrow> Data_Decrypt (h_crypter h) e')"
    using assms by (cases "retry_Do (read_attempt h k) w") (auto simp: GetForKey_def split: sum.splits)
  show ?thesis
  proof (cases q)
    case (Inl x)
    then show ?thesis using read_errors[of k w x w'] q by auto
  next
    case (Inr y)
    then show ?thesis using Data_Decrypt_anonymous[of "h_crypter h" y e] q(2) by simp
  qed
qed

lemma Get_errors:
  assumes "Handler_Get h r w = (Inl e, w')"
  shows "e \<in> {ErrCookieNotFound, ErrContext, ErrKeyNotFound, ErrUnexpected} \<or> anonymous e"
proof (cases "GetKey h r")
  case (Inl a)
  then show ?thesis using assms by (auto simp: Handler_Get_def GetKey_def split: sum.splits)
next
  case (Inr k)
  then show ?thesis using assms GetForKey_errors[of k w e w'] by (auto simp: Handler_Get_def)
qed

lemma Update_errors_handler:
  assumes "Handler_Update h k d w = (Some e, w')"
  shows "e \<in> {ErrContext, ErrKeyNotFound, ErrUnexpected} \<or> anonymous e"
proof -
  obtain q w1 where q: "Data_Encrypt (h_crypter h) d w = (q, w1)" by (cases "Data_Encrypt (h_crypter h) d w")
  show ?thesis
  proof (cases q)
    case (Inl x)
    then have "x = e" using assms q by (simp add: Handler_Update_def)
    then show ?thesis using Data_Encrypt_anonymous[of "h_crypter h" d w] q Inl by auto
  next
    case (Inr y)
    obtain z where z: "retry_Do (update_attempt h k y) w1 = (z, w')" "z = Inl e"
      using assms q Inr by (cases "retry_Do (update_attempt h k y) w1") (auto simp: Handler_Update_def split: sum.splits)
    have "(e = ErrContext \<and> True) \<or>
        (\<exists>v. True \<and> (update_attempt h k y v = (Permanent e, w') \<or> update_attempt h k y v = (Retryable e, w')))"
      using z(1)[unfolded z(2)] by (rule retry_Do_Err[where R = "\<lambda>_ _. True"]) auto
    then show ?thesis
    proof (elim disjE exE conjE)
      fix v
      assume v: "update_attempt h k y v = (Permanent e, w')"
      then show ?thesis
        by (cases "st_Update (h_store h) k y v") (auto simp: update_attempt_def split: option.splits if_splits)
    next
      fix v
      assume v: "update_attempt h k y v = (Retryable e, w')"
      then have "st_Update (h_store h) k y v = (Some e, w')"
        by (cases "st_Update (h_store h) k y v") (auto simp: update_attempt_def split: option.splits if_splits)
      then show ?thesis using Update_errors[of k y v e w'] by auto
    qed simp
  qed
qed

lemma Refresh_errors:
  assumes "Handler_Refresh x h k d w = (Inl e, w')"
  shows "e \<in> {ErrContext, ErrKeyNotFound, ErrUnexpected, ErrOpenIDServer, ErrInvalidState, ErrSessionInactive} \<or> anonymous e"
  using assms
proof (cases rule: Refresh_cases)
  case (unlocked e')
  then show ?thesis using acquire_lock_errors[OF unlocked(3)] by auto
next
  case (locked l w2 w3)
  from locked(4) show ?thesis
  proof (cases rule: refresh_locked_cases)
    case (unread e')
    then show ?thesis using GetForKey_errors[OF unread(1)] by auto
  next
    case (refused d2 w4 w5 w6 e')
    then show ?thesis using grants_errors[OF refused(4)] by auto
  next
    case (granted d2 w4 w5 w6 resp w7 d' w8 r)
    then have "r = Some e" by (cases r) auto
    then show ?thesis using Update_errors_handler[of k d' w8 e w3] granted(6) by auto
  qed auto
qed simp

lemma Refresh_InvalidState:
  assumes "Handler_Refresh x h k d w = (Inl ErrInvalidState, w')"
  shows "\<exists>l w2 e0 d2 v v'. acquire_lock h k (snd (canRefresh h d w)) = (Inr l, w2)
    \<and> contents (store w2) k = Some e0 \<and> Data_Decrypt (h_crypter h) e0 = Inr d2 \<and> same_env w v
    \<and> RefreshGrant x (h_client h) (RefreshToken d2) v = (Inl ErrOpenIDClient, v') \<and> contents (store w') k = Some e0"
  using assms
proof (cases rule: Refresh_cases)
  case (unlocked e')
  then show ?thesis using acquire_lock_errors[OF unlocked(3)] by auto
next
  case (locked l w2 w3)
  from locked(4) show ?thesis
  proof (cases rule: refresh_locked_cases)
    case (unread e')
    then show ?thesis using GetForKey_errors[OF unread(1)] by auto
  next
    case (refused d2 w4 w5 w6 e')
    note g = GetForKey_data[OF refused(1)]
    obtain e0 where e0: "contents (store w2) k = Some e0" "Data_Decrypt (h_crypter h) e0 = Inr d2" using g(1) by blast
    have "e' = ErrOpenIDClient" using grants_errors[OF refused(4)] refused(5) by (auto split: if_splits)
    then obtain v where v: "same_env w6 v" "RefreshGrant x (h_client h) (RefreshToken d2) v = (Inl ErrOpenIDClient, w3)"
      using grants_errors[OF refused(4)] by auto
    have "same_env w w2" by (rule locked(7))
    also have "same_env w2 w4" using g(2) by (rule local_step_env)
    also have "same_env w4 w5" using canRefresh_env[OF refused(2)] by simp
    also have "same_env w5 w6" using isTimedOut_env[OF refused(3)] by simp
    also note v(1)
    finally have "same_env w v" .
    moreover have "contents (store w3) k = Some e0"
      using g(3) canRefresh_env[OF refused(2)] isTimedOut_env[OF refused(3)] grants_env[OF refused(4)] e0(1) by simp
    ultimately show ?thesis using locked(2,6) e0 v(2) lockKey_neq by metis
  next
    case (granted d2 w4 w5 w6 resp w7 d' w8 r)
    then have "r = Some ErrInvalidState" by (cases r) auto
    then show ?thesis using Update_errors_handler[of k d' w8 ErrInvalidState w3] granted(6) by auto
  qed auto
qed simp

lemma Refresh_SessionInactive:
  assumes "Handler_Refresh x h k d w = (Inl ErrSessionInactive, w')"
  shows "\<exists>l w2 e0 d2 i. acquire_lock h k (snd (canRefresh h d w)) = (Inr l, w2)
    \<and> contents (store w2) k = Some e0 \<and> Data_Decrypt (h_crypter h) e0 = Inr d2 \<and> Inactivity (h_cfg h)
    \<and> TimeoutAt (md_Session (data_Metadata d2)) < clock w i \<and> contents (store w') k = Some e0 \<and> calls w' = calls w"
  using assms
proof (cases rule: Refresh_cases)
  case (unlocked e')
  then show ?thesis using acquire_lock_errors[OF unlocked(3)] by auto
next
  case (locked l w2 w3)
  from locked(4) show ?thesis
  proof (cases rule: refresh_locked_cases)
    case (unread e')
    then show ?thesis using GetForKey_errors[OF unread(1)] by auto
  next
    case (inactive d2 w4 w5)
    note g = GetForKey_data[OF inactive(1)]
    obtain e0 where e0: "contents (store w2) k = Some e0" "Data_Decrypt (h_crypter h) e0 = Inr d2" using g(1) by blast
    have "same_env w w2" by (rule locked(7))
    also have "same_env w2 w4" using g(2) by (rule local_step_env)
    also have "same_env w4 w5" using canRefresh_env[OF inactive(2)] by simp
    finally have "clock w5 = clock w" by (simp add: same_env_def)
    then have "Inactivity (h_cfg h) \<and> TimeoutAt (md_Session (data_Metadata d2)) < clock w (ticks w5)"
      using isTimedOut_True[OF inactive(3)] by simp
    moreover have "contents (store w3) k = Some e0" "calls w3 = calls w2"
      using g(2,3) canRefresh_env[OF inactive(2)] isTimedOut_env[OF inactive(3)] e0(1) by (simp_all add: local_step_def)
    ultimately show ?thesis using locked(2,3,5,6) e0 lockKey_neq by metis
  next
    case (refused d2 w4 w5 w6 e')
    then show ?thesis using grants_errors[OF refused(4)] by (auto split: if_splits)
  next
    case (granted d2 w4 w5 w6 resp w7 d' w8 r)
    then have "r = Some ErrSessionInactive" by (cases r) auto
    then show ?thesis using Update_errors_handler[of k d' w8 ErrSessionInactive w3] granted(6) by auto
  qed auto
qed simp

lemma outage_keeps_sessions:
  assumes "GetKey h r = Inr k" "GetForKey h k w = (Inr d, w1)" "isTimedOut h d w1 = (False, w2)"
    and "\<And>n req. provider_down (remote w n req)"
  shows "is_ok (fst (GetOrRefresh x h r w)) \<or> fst (GetOrRefresh x h r w) = Inl ErrSessionInactive"
proof -
  obtain c w3 where c: "shouldRefresh h d w2 = (c, w3)" by (cases "shouldRefresh h d w2")
  obtain q w4 where q: "Handler_Refresh x h k d w3 = (q, w4)" by (cases "Handler_Refresh x h k d w3")
  have "same_env w w1" using GetForKey_data(2)[OF assms(2)] by (rule local_step_env)
  also have "same_env w1 w2" using isTimedOut_env[OF assms(3)] by simp
  also have "same_env w2 w3" using shouldRefresh_env[OF c] by simp
  finally have w3: "remote w3 = remote w" by (simp add: same_env_def)
  have "q \<noteq> Inl ErrInvalidState"
  proof
    assume "q = Inl ErrInvalidState"
    then have "Handler_Refresh x h k d w3 = (Inl ErrInvalidState, w4)" using q by simp
    from Refresh_InvalidState[OF this] obtain d2 :: Data and v v' where
      v: "same_env w3 v" "RefreshGrant x (h_client h) (RefreshToken d2) v = (Inl ErrOpenIDClient, v')"
      by (elim exE conjE) (rule that)
    have "provider_down (remote v n req)" for n req using assms(4) v(1) w3 by (simp add: same_env_def)
    then show False using RefreshGrant_down[OF _ v(2)] by simp
  qed
  moreover have "fst (GetOrRefresh x h r w) = (if c then case q of
      Inl e \<Rightarrow> if e = ErrInvalidState \<or> e = ErrSessionInactive then Inl e else Inr d | Inr d' \<Rightarrow> Inr d' else Inr d)"
    using assms(1-3) c q by (simp add: GetOrRefresh_def split: sum.splits)
  ultimately show ?thesis by (auto split: sum.splits)
qed

end

section \<open>Properties\<close>


text \<open>
  C33: An outage of the provider ends no session. While every request to the provider fails or is
  answered with a server error, a request that presents a readable session that has not timed out
  gets session data; the only other outcome is that the session is found timed out under the lock.
\<close>

theorem outage_ends_no_session:
  assumes "session_handling h contents"
    and "GetKey h r = Inr k" "GetForKey h k w = (Inr d, w1)" "isTimedOut h d w1 = (False, w2)"
    and "\<forall>n req. provider_down (remote w n req)"
  shows "is_ok (fst (GetOrRefresh x h r w)) \<or> fst (GetOrRefresh x h r w) = Inl ErrSessionInactive"
  using session_handling.outage_keeps_sessions[OF assms(1-4)] assms(5) by blast

text \<open>
  An access token is handed out only for a live session. The request's cookie decrypted to the key
  of a stored session, the session had not timed out when it was checked, and the token is that of
  the stored data or of the data a refresh returned; it is not empty and had not expired at a
  later reading of the clock.
\<close>

theorem access_token_safe:
  assumes "session_handling h contents" "GetAccessToken x h r w = (Inr tok, w')"
  shows "\<exists>k e d0 d i j. GetKey h r = Inr k \<and> contents (store w) k = Some e \<and> Data_Decrypt (h_crypter h) e = Inr d0
    \<and> ticks w \<le> i \<and> i \<le> j
    \<and> (Inactivity (h_cfg h) \<and> TimeoutAt (md_Session (data_Metadata d0)) \<noteq> 0
        \<longrightarrow> clock w i \<le> TimeoutAt (md_Session (data_Metadata d0)))
    \<and> (d = d0 \<or> (\<exists>v v'. same_env w v \<and> Handler_Refresh x h k d0 v = (Inr d, v')))
    \<and> tok = AccessToken d \<and> tok \<noteq> [] \<and> clock w j \<le> ExpireAt (md_Tokens (data_Metadata d))"
  using assms by (rule session_handling.GetAccessToken_Ok)

text \<open>
  C40: A refresh response without a refresh token ends refreshing: the empty token replaces the stored
  one, and from then on no refresh of that data is attempted, whatever the clock says. (A provider
  may omit the token to keep the old one in use.)
\<close>

theorem refresh_token_lost:
  assumes "refreshed_data h resp d w = (d', w')" "tr_RefreshToken resp = []"
  shows "RefreshToken d' = [] \<and> canRefresh h d' v = (False, v) \<and> shouldRefresh h d' v = (False, v)"
  using refreshed_data_fields(2)[OF assms(1)] assms(2) by (simp add: canRefresh_def shouldRefresh_def HasRefreshToken_def)

end
