(* ===== verification/ApiHandlers.thy ===== *)
theory ApiHandlers
  imports ErrorHandler SessionErrors
begin

text \<open>
  \<^verbatim>\<open>pkg/handler/api\<close>: the handlers of the routes below \<^verbatim>\<open>/oauth2\<close>. A handler gets the world and the
  response written so far, and returns both. What it logs and counts is not modelled.
\<close>

section \<open>Login\<close>

definition CookieLifetime :: duration where "CookieLifetime = 1 * Hour"

definition setLoginCookies ::
    "'s standard_handler \<Rightarrow> request \<Rightarrow> LoginCookie \<Rightarrow> 's world \<Rightarrow> response \<Rightarrow> err \<times> 's world \<times> response" where
  "setLoginCookies s r loginCookie w rw =
     (let loginCookieJson = LoginCookie_Marshal loginCookie;
          opts = Options_WithSameSite SameSiteNoneMode
            (Options_WithExpiresIn CookieLifetime (GetCookieOptsPathAware s r))
      in case EncryptAndSet cookie_Login loginCookieJson opts (GetCrypter s) w rw of
        (Some e, w1, rw1) \<Rightarrow> (Some e, w1, rw1)
      | (None, w1, rw1) \<Rightarrow>
          (case EncryptAndSet cookie_LoginLegacy loginCookieJson (Options_WithSameSite SameSiteDefaultMode opts)
                  (GetCrypter s) w1 rw1 of
             (Some e, w2, rw2) \<Rightarrow> (Some e, w2, rw2)
           | (None, w2, rw2) \<Rightarrow> (None, w2, rw2)))"

definition Login_Handler ::
    "ext \<Rightarrow> 's standard_handler \<Rightarrow> request \<Rightarrow> 's world \<Rightarrow> response \<Rightarrow> 's world \<times> response" where
  "Login_Handler x s r w rw =
     (case Client_Login x (GetClient s) r w of
        (Inl e, w1) \<Rightarrow>
          if e = ErrInvalidSecurityLevel \<or> e = ErrInvalidLocale then BadRequest s r w1 rw
          else InternalError s r w1 rw
      | (Inr login, w1) \<Rightarrow>
          (case setLoginCookies s r (login_cookie login) w1 rw of
             (Some e, w2, rw2) \<Rightarrow> InternalError s r w2 rw2
           | (None, w2, rw2) \<Rightarrow> (w2, http_Redirect r (authCodeURL login) 307 rw2)))"

section \<open>Login callback\<close>

definition clearLoginCookies :: "'s standard_handler \<Rightarrow> request \<Rightarrow> response \<Rightarrow> response" where
  "clearLoginCookies s r rw =
     (let opts = GetCookieOptsPathAware s r in
      cookie_Clear cookie_LoginLegacy (Options_WithSameSite SameSiteDefaultMode opts)
        (cookie_Clear cookie_Login (Options_WithSameSite SameSiteNoneMode opts) rw))"

definition redeem_attempt :: "ext \<Rightarrow> client \<Rightarrow> LoginCallback \<Rightarrow> 's world \<Rightarrow> tokens attempt \<times> 's world" where
  "redeem_attempt x c cb w =
     (case RedeemTokens x c cb w of (Inr t, w1) \<Rightarrow> (Success t, w1) | (Inl e, w1) \<Rightarrow> (Retryable e, w1))"

definition redeemValidTokens :: "ext \<Rightarrow> client \<Rightarrow> LoginCallback \<Rightarrow> 's world \<Rightarrow> tokens result \<times> 's world" where
  "redeemValidTokens x c cb w = retry_Do (redeem_attempt x c cb) w"

definition exchange_attempt :: "loginstatus_config \<Rightarrow> string \<Rightarrow> 's world \<Rightarrow> ls_token_response attempt \<times> 's world" where
  "exchange_attempt c accessToken w =
     (case ExchangeToken c accessToken w of (Inr t, w1) \<Rightarrow> (Success t, w1) | (Inl e, w1) \<Rightarrow> (Retryable e, w1))"

definition getLoginstatusToken :: "'s standard_handler \<Rightarrow> tokens \<Rightarrow> 's world \<Rightarrow> ls_token_response result \<times> 's world" where
  "getLoginstatusToken s tokens w = retry_Do (exchange_attempt (GetLoginstatus s) (tk_AccessToken tokens)) w"

text \<open>
  The part of the callback for the loginstatus service: nothing if it is not enabled, else the exchange
  of the access token and the cookie.
\<close>

definition loginstatus_step ::
    "'s standard_handler \<Rightarrow> tokens \<Rightarrow> 's world \<Rightarrow> response \<Rightarrow> err \<times> 's world \<times> response" where
  "loginstatus_step s tokens w rw =
     (if ls_Enabled (GetLoginstatus s)
      then (case getLoginstatusToken s tokens w of
              (Inl e, w4) \<Rightarrow> (Some e, w4, rw)
            | (Inr tok, w4) \<Rightarrow>
                (case ls_SetCookie (GetLoginstatus s) tok (GetCookieOptions s) w4 rw of (w5, rw5) \<Rightarrow> (None, w5, rw5)))
      else (None, w, rw))"

definition LoginCallback_Handler ::
    "ext \<Rightarrow> 's standard_handler \<Rightarrow> request \<Rightarrow> 's world \<Rightarrow> response \<Rightarrow> 's world \<times> response" where
  "LoginCallback_Handler x s r w rw =
     (let rw = clearLoginCookies s r rw in
      case GetLoginCookie r (GetCrypter s) of
        Inl e \<Rightarrow> Unauthorized s r w rw
      | Inr loginCookie \<Rightarrow>
      (case NewLoginCallback r (Some loginCookie) of
        Inl e \<Rightarrow> InternalError s r w rw
      | Inr loginCallback \<Rightarrow>
      if IdentityProviderError loginCallback \<noteq> None then InternalError s r w rw
      else if StateMismatchError loginCallback \<noteq> None then Unauthorized s r w rw
      else
      (case redeemValidTokens x (GetClient s) loginCallback w of
        (Inl e, w1) \<Rightarrow> InternalError s r w1 rw
      | (Inr tokens, w1) \<Rightarrow>
      let sessionLifetime = MaxLifetime (GetSessionConfig s) in
      (case Handler_Create (GetSessions s) r tokens sessionLifetime w1 of
        (Inl e, w2) \<Rightarrow> InternalError s r w2 rw
      | (Inr k, w2) \<Rightarrow>
      (case EncryptAndSet cookie_Session k
              (Options_WithExpiresIn sessionLifetime (GetCookieOptsPathAware s r)) (GetCrypter s) w2 rw of
        (Some e, w3, rw3) \<Rightarrow> InternalError s r w3 rw3
      | (None, w3, rw3) \<Rightarrow>
      (case loginstatus_step s tokens w3 rw3 of
        (Some e, w4, rw4) \<Rightarrow> InternalError s r w4 rw4
      | (None, w4, rw4) \<Rightarrow>
          (w4\<lparr> logins := Suc (logins w4) \<rparr>,
           http_Redirect r (lc_Referer loginCookie) 307
             (cookie_Clear cookie_Retry (GetCookieOptsPathAware s r) rw4))))))))"

section \<open>Logout\<close>

text \<open>What both logout handlers do to the browser's cookies.\<close>

definition clearSessionCookies :: "'s standard_handler \<Rightarrow> request \<Rightarrow> response \<Rightarrow> response" where
  "clearSessionCookies s r rw =
     (let rw1 = cookie_Clear cookie_Session (GetCookieOptsPathAware s r) rw
      in if ls_Enabled (GetLoginstatus s) then ls_ClearCookie (GetLoginstatus s) (GetCookieOptions s) rw1 else rw1)"

definition Logout_Handler ::
    "'s standard_handler \<Rightarrow> request \<Rightarrow> bool \<Rightarrow> 's world \<Rightarrow> response \<Rightarrow> 's world \<times> response" where
  "Logout_Handler s r globalLogout w rw =
     (case NewLogout r of
        Inl e \<Rightarrow> InternalError s r w rw
      | Inr logout \<Rightarrow>
      (case Handler_Get (GetSessions s) r w of
        (got, w1) \<Rightarrow>
      (case (case got of
               Inl _ \<Rightarrow> (None, w1, [])
             | Inr sessionData \<Rightarrow>
                 (case DestroyForID (GetSessions s) (ExternalSessionID sessionData) w1 of
                    (e, w2) \<Rightarrow>
                      if e \<noteq> None \<and> e \<noteq> Some ErrKeyNotFound then (e, w2, data_IDToken sessionData)
                      else (None, w2\<lparr> logouts := (logouts w2)(''local'' := Suc (logouts w2 ''local'')) \<rparr>, data_IDToken sessionData))) of
        (Some e, w2, idToken) \<Rightarrow> InternalError s r w2 rw
      | (None, w2, idToken) \<Rightarrow>
          let rw2 = clearSessionCookies s r rw
          in if globalLogout
             then (w2\<lparr> logouts := (logouts w2)(''self_initiated'' := Suc (logouts w2 ''self_initiated'')) \<rparr>,
                   http_Redirect r (SingleLogoutURL (GetClient s) logout idToken) 307 rw2)
             else (w2, rw2))))"

definition LogoutCallback_Handler :: "'s standard_handler \<Rightarrow> request \<Rightarrow> response \<Rightarrow> response" where
  "LogoutCallback_Handler s r rw =
     (let redirect = PostLogoutRedirectURI (GetClient s) r
      in http_Redirect r redirect 307 (cookie_Clear cookie_Retry (GetCookieOptsPathAware s r) rw))"

definition LogoutFrontchannel_Handler ::
    "'s standard_handler \<Rightarrow> request \<Rightarrow> 's world \<Rightarrow> response \<Rightarrow> 's world \<times> response" where
  "LogoutFrontchannel_Handler s r w rw =
     (let rw2 = clearSessionCookies s r rw
      in if MissingSidParameter r then (w, WriteHeader 202 rw2)
         else let sid = LogoutFrontchannel_Sid r in
           (case GetForID (GetSessions s) sid w of
              (Inl e, w1) \<Rightarrow> (w1, WriteHeader 202 rw2)
            | (Inr sessionData, w1) \<Rightarrow>
                (case DestroyForID (GetSessions s) sid w1 of
                   (Some e, w2) \<Rightarrow> (w2, WriteHeader 202 rw2)
                 | (None, w2) \<Rightarrow>
                     (w2\<lparr> logouts := (logouts w2)(''front_channel'' := Suc (logouts w2 ''front_channel'')) \<rparr>,
                      WriteHeader 200 (cookie_Clear cookie_Retry (GetCookieOptsPathAware s r) rw2)))))"

section \<open>Session information and refresh\<close>

text \<open>
  Writing the verbose views, with the readings of the clock they take. Encoding fails, with nothing
  written yet, if one of the metadata's times cannot be encoded.
\<close>

definition timeout_reading :: "Metadata \<Rightarrow> 's world \<Rightarrow> time \<times> 's world" where
  "timeout_reading m w = (if Time_IsZero (TimeoutAt (md_Session m)) then (0, w) else time_Now w)"

definition write_metadata :: "Metadata \<Rightarrow> 's world \<Rightarrow> response \<Rightarrow> 's world \<times> response" where
  "write_metadata m w rw =
     (let (now, w1) = time_Now w; (now', w2) = timeout_reading m w1 in
      (w2, if is_ok (Metadata_members m) then Write_Body (JsonMetadata (Verbose now now' m)) rw else WriteHeader 500 rw))"

definition write_metadata_with_refresh :: "Metadata \<Rightarrow> 's world \<Rightarrow> response \<Rightarrow> 's world \<times> response" where
  "write_metadata_with_refresh m w rw =
     (let (now, w1) = time_Now w; (now1, w2) = time_Now w1; (now1', w3) = timeout_reading m w2;
          (now2, w4) = time_Now w3; (now3, w5) = time_Now w4
      in (w5, if is_ok (Metadata_members m)
            then Write_Body (JsonMetadataWithRefresh (VerboseWithRefresh now now1 now1' now2 now3 m)) rw
            else WriteHeader 500 rw))"

text \<open>
  For \<^verbatim>\<open>ErrSessionInactive\<close> the code goes on without data, which is a nil dereference that the recovery
  middleware turns into a status 500; \<open>Get\<close> never returns that error.
\<close>

definition Session_Handler :: "'s standard_handler \<Rightarrow> request \<Rightarrow> 's world \<Rightarrow> response \<Rightarrow> 's world \<times> response" where
  "Session_Handler s r w rw =
     (case Handler_Get (GetSessions s) r w of
        (Inl e, w1) \<Rightarrow>
          if e = ErrCookieNotFound \<or> e = ErrKeyNotFound then (w1, WriteHeader 401 rw)
          else if e = ErrSessionInactive then (w1, WriteHeader 500 (set_ContentType ''application/json'' rw))
          else (w1, WriteHeader 500 rw)
      | (Inr d, w1) \<Rightarrow>
          let rw1 = set_ContentType ''application/json'' rw in
          if cfg_Refresh (GetSessionConfig s) then write_metadata_with_refresh (data_Metadata d) w1 rw1
          else write_metadata (data_Metadata d) w1 rw1)"

definition SessionRefresh_Handler ::
    "ext \<Rightarrow> 's standard_handler \<Rightarrow> request \<Rightarrow> 's world \<Rightarrow> response \<Rightarrow> 's world \<times> response" where
  "SessionRefresh_Handler x s r w rw =
     (case GetKey (GetSessions s) r of
        Inl e \<Rightarrow> (w, WriteHeader 401 rw)
      | Inr k \<Rightarrow>
      (case Handler_Get (GetSessions s) r w of
        (Inl e, w1) \<Rightarrow>
          if e = ErrKeyNotFound \<or> e = ErrSessionInactive then (w1, WriteHeader 401 rw) else (w1, WriteHeader 500 rw)
      | (Inr d, w1) \<Rightarrow>
      (case Handler_Refresh x (GetSessions s) k d w1 of
        (Inl e, w2) \<Rightarrow> if e = ErrInvalidState then (w2, WriteHeader 401 rw) else (w2, WriteHeader 500 rw)
      | (Inr d', w2) \<Rightarrow>
          write_metadata_with_refresh (data_Metadata d') w2 (set_ContentType ''application/json'' rw))))"

end
