(* ===== verification/LoginFlow.thy ===== *)
theory LoginFlow
  imports ApiHandlers
begin

text \<open>
  Logging in, from the redirect to the provider to the session: what the login and callback handlers
  promise about the user agent's cookies and the store of sessions.
\<close>

section \<open>Answers of the error handler\<close>

text \<open>
  An error's answer changes nothing but the retry counter: one reading of the clock, and the retry
  cookie.
\<close>

lemma respondError_effect:
  assumes "respondError s r code w rw = (w', rw')" "Status rw = None"
  shows "w' = w\<lparr> ticks := Suc (ticks w) \<rparr>"
    and "n \<noteq> cookie_Retry \<Longrightarrow> map_of (browser_cookies jar rw') n = map_of (browser_cookies jar rw) n"
    and "\<exists>v. map_of (browser_cookies jar rw') cookie_Retry = Some v"
    and "Status rw' \<in> {Some 307, Some (final_status s code)}"
proof -
  have c: "ck_Name (UnsetExpiry (cookie_Make cookie_Retry v opts t)) = cookie_Retry" for v opts t
    by (simp add: UnsetExpiry_def cookie_Make_def)
  show "w' = w\<lparr> ticks := Suc (ticks w) \<rparr>"
    using assms by (auto simp: respondError_def incrementRetryAttempt_def time_Now_def Let_def split: if_splits sum.splits option.splits)
  show "n \<noteq> cookie_Retry \<Longrightarrow> map_of (browser_cookies jar rw') n = map_of (browser_cookies jar rw) n"
    using assms
    by (auto simp: respondError_def incrementRetryAttempt_def time_Now_def Let_def c customErrorRedirect_def
        defaultErrorResponse_def split: if_splits sum.splits option.splits)
  show "\<exists>v. map_of (browser_cookies jar rw') cookie_Retry = Some v" using respondError_step(2)[OF assms] by blast
  show "Status rw' \<in> {Some 307, Some (final_status s code)}" using respondError_step(1)[OF assms] by auto
qed

lemmas error_answers = InternalError_def BadRequest_def Unauthorized_def

section \<open>Configuration of the server\<close>

text \<open>
  What the composition of the program guarantees of a server (\<^verbatim>\<open>NewHandler\<close> gives its parts the same
  crypter), and what a sensible configuration does: the loginstatus cookie has a name of its own, and
  sessions have a lifetime that a \<^verbatim>\<open>time.Duration\<close> can hold.
\<close>

definition server_ok :: "'s standard_handler \<Rightarrow> bool" where
  "server_ok s \<longleftrightarrow> h_crypter (sh_sessions s) = sh_crypter s
     \<and> CookieName (sh_loginstatus s) \<notin> {cookie_Session, cookie_Login, cookie_LoginLegacy, cookie_Retry}
     \<and> 0 \<le> MaxLifetime (cfg_Session (sh_config s)) \<and> is_duration (MaxLifetime (cfg_Session (sh_config s)))"

lemma cookie_names:
  "cookie_Session \<noteq> cookie_Login" "cookie_Session \<noteq> cookie_LoginLegacy" "cookie_Session \<noteq> cookie_Retry"
  "cookie_Login \<noteq> cookie_LoginLegacy" "cookie_Login \<noteq> cookie_Retry" "cookie_LoginLegacy \<noteq> cookie_Retry"
  "cookie_Session \<noteq> LoginserviceCookieName" "cookie_Retry \<noteq> LoginserviceCookieName"
  by (simp_all add: cookie_Session_def cookie_Login_def cookie_LoginLegacy_def cookie_Retry_def LoginserviceCookieName_def)

lemmas [simp] = cookie_names cookie_names[symmetric]

section \<open>The login handler\<close>

lemma newLoginParameters_valid:
  assumes "newLoginParameters w = (Inr p, w')"
  shows "valid_utf8 (State p)" "valid_utf8 (Nonce p)" "valid_utf8 (CodeVerifier p)" "State p \<noteq> []"
  using newLoginParameters_Ok[OF assms] by (simp_all add: base64_valid_utf8)

lemma setLoginCookies_Ok:
  assumes "setLoginCookies s r c w rw = (None, w', rw')" "Status rw = None"
  shows "\<exists>v v'. map_of (browser_cookies jar rw') cookie_Login = Some v \<and> Cookie_Decrypt (sh_crypter s) v = Inr (LoginCookie_Marshal c)
      \<and> map_of (browser_cookies jar rw') cookie_LoginLegacy = Some v'
      \<and> Cookie_Decrypt (sh_crypter s) v' = Inr (LoginCookie_Marshal c)"
    and "Status rw' = None"
proof -
  let ?o = "Options_WithSameSite SameSiteNoneMode (Options_WithExpiresIn CookieLifetime (GetCookieOptsPathAware s r))"
  obtain w1 rw1 where 1: "EncryptAndSet cookie_Login (LoginCookie_Marshal c) ?o (GetCrypter s) w rw = (None, w1, rw1)"
    and 2: "EncryptAndSet cookie_LoginLegacy (LoginCookie_Marshal c) (Options_WithSameSite SameSiteDefaultMode ?o)
      (GetCrypter s) w1 rw1 = (None, w', rw')"
    using assms(1) by (auto simp: setLoginCookies_def Let_def split: prod.splits option.splits)
  have o: "0 \<le> ExpiresIn ?o" "is_duration (ExpiresIn ?o)"
    by (simp_all add: accessor_simps CookieLifetime_def Hour_def Minute_def Second_def is_duration_def minDuration_def maxDuration_def)
  obtain v where v: "map_of (browser_cookies jar rw1) cookie_Login = Some v"
      "Cookie_Decrypt (sh_crypter s) v = Inr (LoginCookie_Marshal c)" "Status rw1 = None"
    using EncryptAndSet_jar[OF 1 assms(2) o, of jar] by (auto simp: accessor_simps)
  have o': "0 \<le> ExpiresIn (Options_WithSameSite SameSiteDefaultMode ?o)" "is_duration (ExpiresIn (Options_WithSameSite SameSiteDefaultMode ?o))"
    using o by (simp_all add: accessor_simps)
  obtain v' where v': "map_of (browser_cookies jar rw') cookie_LoginLegacy = Some v'"
      "Cookie_Decrypt (GetCrypter s) v' = Inr (LoginCookie_Marshal c)" "Status rw' = None"
      "\<And>n'. n' \<noteq> cookie_LoginLegacy \<Longrightarrow> map_of (browser_cookies jar rw') n' = map_of (browser_cookies jar rw1) n'"
    using EncryptAndSet_jar[OF 2 v(3) o', of jar] by metis
  show "\<exists>v v'. map_of (browser_cookies jar rw') cookie_Login = Some v \<and> Cookie_Decrypt (sh_crypter s) v = Inr (LoginCookie_Marshal c)
      \<and> map_of (browser_cookies jar rw') cookie_LoginLegacy = Some v'
      \<and> Cookie_Decrypt (sh_crypter s) v' = Inr (LoginCookie_Marshal c)"
    using v v' by (simp add: accessor_simps)
  show "Status rw' = None" by (rule v'(3))
qed

lemma GetLoginCookie_jar:
  assumes "map_of (Cookies r) cookie_Login = Some v" "Cookie_Decrypt crypter v = Inr (LoginCookie_Marshal c)" "valid_LoginCookie c"
  shows "GetLoginCookie r crypter = Inr c"
  using assms LoginCookie_Unmarshal_Marshal[OF assms(3)]
  by (simp add: GetLoginCookie_def GetDecrypted_def cookie_Get_def Request_Cookie_def)

lemma Login_Handler_cases:
  assumes "Login_Handler x s r w rw = (w', rw')"
  obtains (refused) e w1 code where "Client_Login x (sh_client s) r w = (Inl e, w1)"
      "respondError s r code w1 rw = (w', rw')" "code = (if e = ErrInvalidSecurityLevel \<or> e = ErrInvalidLocale then 400 else 500)"
  | (unset) login w1 e w2 rw2 where "Client_Login x (sh_client s) r w = (Inr login, w1)"
      "setLoginCookies s r (login_cookie login) w1 rw = (Some e, w2, rw2)" "respondError s r 500 w2 rw2 = (w', rw')"
  | (redirected) login w1 rw2 where "Client_Login x (sh_client s) r w = (Inr login, w1)"
      "setLoginCookies s r (login_cookie login) w1 rw = (None, w', rw2)" "rw' = http_Redirect r (authCodeURL login) 307 rw2"
proof -
  obtain q w1 where q: "Client_Login x (sh_client s) r w = (q, w1)" by fastforce
  show thesis
  proof (cases q)
    case (Inl e)
    then show thesis using assms q by (intro refused[of e w1]) (auto simp: Login_Handler_def error_answers accessor_simps split: if_splits)
  next
    case (Inr login)
    obtain e w2 rw2 where e: "setLoginCookies s r (login_cookie login) w1 rw = (e, w2, rw2)" by (metis prod.collapse)
    have h: "(w', rw') = (case e of Some x \<Rightarrow> respondError s r 500 w2 rw2 | None \<Rightarrow> (w2, http_Redirect r (authCodeURL login) 307 rw2))"
      using assms q Inr e by (auto simp: Login_Handler_def error_answers accessor_simps split: option.splits)
    show thesis
    proof (cases e)
      case None
      then show thesis using h q Inr e by (intro redirected[of login w1 rw2]) simp_all
    next
      case (Some y)
      then show thesis using h q Inr e by (intro unset[of login w1 y w2 rw2]) simp_all
    qed
  qed
qed

lemma setLoginCookies_Err:
  assumes "setLoginCookies s r c w rw = (Some e, w', rw')" "Status rw = None"
  shows "Status rw' = None"
proof -
  have *: "EncryptAndSet n v opts c u q = (y, u', q') \<Longrightarrow> Status q' = Status q" for n v opts c u q y u' q'
    by (auto simp: EncryptAndSet_def Let_def split: prod.splits sum.splits)
  show ?thesis using assms
    by (auto simp: setLoginCookies_def Let_def split: prod.splits option.splits dest!: *)
qed

text \<open>
  C16: A login remembers itself in the browser. Unless the login route answers with an error (which
  counts a retry), it redirects to the provider with the authorization URL made for this request, and
  whatever request next comes from that browser carries the login cookie that was made with that URL,
  so its callback is accepted exactly if the \<^verbatim>\<open>state\<close> parameter is the one sent to the provider.
\<close>

theorem login_then_callback:
  assumes "Login_Handler x s r w rw = (w', rw')" "Status rw = None" "map_of (browser_cookies [] rw') cookie_Retry = None"
    and "Cookies r' = browser_cookies jar rw'"
    and "valid_utf8 (CanonicalRedirect r)" "\<forall>u. LoginCallbackURL r = Inr u \<longrightarrow> valid_utf8 u"
  shows "\<exists>login w1. NewLogin x (sh_client s) r w = (Inr login, w1)
    \<and> Status rw' = Some 307 \<and> Location rw' = Some (hexEscapeNonASCII (redirect_target (Path (req_URL r)) (authCodeURL login)))
    \<and> GetLoginCookie r' (sh_crypter s) = Inr (login_cookie login)
    \<and> (\<forall>cb. NewLoginCallback r' (Some (login_cookie login)) = Inr cb \<longrightarrow>
         (StateMismatchError cb = None) = (Values_Get (req_Query r') ''state'' = State (login_params login)))"
  using assms(1)
proof (cases rule: Login_Handler_cases)
  case (refused e w1 code)
  then show ?thesis using respondError_effect(3)[OF refused(2) assms(2), of "[]"] assms(3) by simp
next
  case (unset login w1 e w2 rw2)
  then show ?thesis
    using respondError_effect(3)[OF unset(3) setLoginCookies_Err[OF unset(2) assms(2)], of "[]"] assms(3) by simp
next
  case (redirected login w1 rw2)
  obtain url where l: "newLoginParameters w = (Inr (login_params login), w1)" "LoginCallbackURL r = Inr url"
      "login_cookie login = make_cookie (login_params login) (CanonicalRedirect r) url"
    using redirected(1) NewLogin_Ok by (metis Client_Login_def)
  have v: "valid_LoginCookie (login_cookie login)"
    using newLoginParameters_valid[OF l(1)] l(2,3) assms(5,6) by (simp add: valid_LoginCookie_def make_cookie_def)
  note st = setLoginCookies_Ok[OF redirected(2) assms(2)]
  have g: "GetLoginCookie r' (sh_crypter s) = Inr (login_cookie login)"
    using st(1)[of jar] GetLoginCookie_jar[OF _ _ v, of r'] assms(4) redirected(3) by auto
  have "(StateMismatchError cb = None) = (Values_Get (req_Query r') ''state'' = State (login_params login))"
    if "NewLoginCallback r' (Some (login_cookie login)) = Inr cb" for cb
    using NewLoginCallback_Ok[OF that] l(3) newLoginParameters_valid(4)[OF l(1)]
    by (auto simp: StateMismatchError_None make_cookie_def)
  then show ?thesis using redirected st(2) g by (intro exI[of _ login] exI[of _ w1]) (auto simp: Client_Login_def)
qed

section \<open>The callback\<close>

lemma redeemValidTokens_env:
  assumes "redeemValidTokens x c cb w = (q, w')"
  shows "same_env w w' \<and> store w' = store w"
  using assms unfolding redeemValidTokens_def
proof (rule retry_Do_rel[where R = "\<lambda>w w'. same_env w w' \<and> store w' = store w"])
  fix v a v'
  assume "redeem_attempt x c cb v = (a, v')"
  then obtain r where "RedeemTokens x c cb v = (r, v')"
    by (cases "RedeemTokens x c cb v") (auto simp: redeem_attempt_def split: sum.splits)
  then show "same_env v v' \<and> store v' = store v" by (rule RedeemTokens_env)
qed (auto intro: same_env_trans)

lemma redeemValidTokens_Ok:
  assumes "redeemValidTokens x c cb w = (Inr t, w')"
  obtains v where "same_env w v" "RedeemTokens x c cb v = (Inr t, w')"
proof -
  have "\<exists>v. same_env w v \<and> redeem_attempt x c cb v = (Success t, w')"
    using assms unfolding redeemValidTokens_def
  proof (rule retry_Do_Ok[where R = same_env])
    fix v e v'
    assume "redeem_attempt x c cb v = (Retryable e, v')"
    then obtain r where "RedeemTokens x c cb v = (r, v')"
      by (cases "RedeemTokens x c cb v") (auto simp: redeem_attempt_def split: sum.splits)
    then show "same_env v v'" using RedeemTokens_env by blast
  qed (auto intro: same_env_trans)
  then obtain v where v: "same_env w v" "redeem_attempt x c cb v = (Success t, w')" by blast
  then have "RedeemTokens x c cb v = (Inr t, w')"
    by (cases "RedeemTokens x c cb v") (auto simp: redeem_attempt_def split: sum.splits)
  with v(1) show thesis by (rule that)
qed

lemma getLoginstatusToken_env:
  assumes "getLoginstatusToken s t w = (q, w')"
  shows "same_env w w' \<and> store w' = store w"
  using assms unfolding getLoginstatusToken_def
proof (rule retry_Do_rel[where R = "\<lambda>w w'. same_env w w' \<and> store w' = store w"])
  fix v a v'
  assume "exchange_attempt (GetLoginstatus s) (tk_AccessToken t) v = (a, v')"
  then obtain r where "ExchangeToken (GetLoginstatus s) (tk_AccessToken t) v = (r, v')"
    by (cases "ExchangeToken (GetLoginstatus s) (tk_AccessToken t) v") (auto simp: exchange_attempt_def split: sum.splits)
  then show "same_env v v' \<and> store v' = store v" by (rule ExchangeToken_env)
qed (auto intro: same_env_trans)

text \<open>Why a callback is turned away before the provider is asked for tokens.\<close>

definition callback_rejected :: "'s standard_handler \<Rightarrow> request \<Rightarrow> int \<Rightarrow> bool" where
  "callback_rejected s r code \<longleftrightarrow>
     (case GetLoginCookie r (sh_crypter s) of
        Inl _ \<Rightarrow> code = 401
      | Inr c \<Rightarrow>
          (case NewLoginCallback r (Some c) of
             Inl _ \<Rightarrow> code = 500
           | Inr cb \<Rightarrow> if IdentityProviderError cb \<noteq> None then code = 500 else StateMismatchError cb \<noteq> None \<and> code = 401))"

definition session_cookie_options :: "'s standard_handler \<Rightarrow> request \<Rightarrow> options" where
  "session_cookie_options s r = Options_WithExpiresIn (MaxLifetime (cfg_Session (sh_config s))) (GetCookieOptsPathAware s r)"

lemma LoginCallback_cases:
  assumes "LoginCallback_Handler x s r w rw = (w', rw')"
  obtains (rejected) code where "callback_rejected s r code" "respondError s r code w (clearLoginCookies s r rw) = (w', rw')"
  | (unredeemed) c cb e w1 where "GetLoginCookie r (sh_crypter s) = Inr c" "NewLoginCallback r (Some c) = Inr cb"
      "IdentityProviderError cb = None" "StateMismatchError cb = None"
      "redeemValidTokens x (sh_client s) cb w = (Inl e, w1)" "respondError s r 500 w1 (clearLoginCookies s r rw) = (w', rw')"
  | (uncreated) c cb t w1 e w2 where "GetLoginCookie r (sh_crypter s) = Inr c" "NewLoginCallback r (Some c) = Inr cb"
      "IdentityProviderError cb = None" "StateMismatchError cb = None"
      "redeemValidTokens x (sh_client s) cb w = (Inr t, w1)"
      "Handler_Create (sh_sessions s) r t (MaxLifetime (cfg_Session (sh_config s))) w1 = (Inl e, w2)"
      "respondError s r 500 w2 (clearLoginCookies s r rw) = (w', rw')"
  | (created) c cb t w1 k w2 where "GetLoginCookie r (sh_crypter s) = Inr c" "NewLoginCallback r (Some c) = Inr cb"
      "IdentityProviderError cb = None" "StateMismatchError cb = None"
      "redeemValidTokens x (sh_client s) cb w = (Inr t, w1)"
      "Handler_Create (sh_sessions s) r t (MaxLifetime (cfg_Session (sh_config s))) w1 = (Inr k, w2)"
      "(case EncryptAndSet cookie_Session k (session_cookie_options s r) (sh_crypter s) w2 (clearLoginCookies s r rw) of
          (Some e, w3, rw3) \<Rightarrow> respondError s r 500 w3 rw3
        | (None, w3, rw3) \<Rightarrow>
            (case loginstatus_step s t w3 rw3 of
               (Some e, w4, rw4) \<Rightarrow> respondError s r 500 w4 rw4
             | (None, w4, rw4) \<Rightarrow>
                 (w4\<lparr> logins := Suc (logins w4) \<rparr>,
                  http_Redirect r (lc_Referer c) 307 (cookie_Clear cookie_Retry (GetCookieOptsPathAware s r) rw4)))) = (w', rw')"
proof -
  let ?rw = "clearLoginCookies s r rw"
  note d = LoginCallback_Handler_def error_answers accessor_simps
  show thesis
  proof (cases "GetLoginCookie r (sh_crypter s)")
    case (Inl e)
    have "(w', rw') = respondError s r 401 w ?rw" using assms Inl by (simp add: d)
    then show thesis using Inl by (intro rejected[of 401]) (simp_all add: callback_rejected_def)
  next
    case c: (Inr c)
    show thesis
    proof (cases "NewLoginCallback r (Some c)")
      case (Inl e)
      have "(w', rw') = respondError s r 500 w ?rw" using assms c Inl by (simp add: d)
      then show thesis using c Inl by (intro rejected[of 500]) (simp_all add: callback_rejected_def)
    next
      case cb: (Inr cb)
      consider "IdentityProviderError cb \<noteq> None" | "IdentityProviderError cb = None" "StateMismatchError cb \<noteq> None"
        | "IdentityProviderError cb = None" "StateMismatchError cb = None" by blast
      then show thesis
      proof cases
        case 1
        have "(w', rw') = respondError s r 500 w ?rw" using assms c cb 1 by (simp add: d)
        then show thesis using c cb 1 by (intro rejected[of 500]) (simp_all add: callback_rejected_def)
      next
        case 2
        have "(w', rw') = respondError s r 401 w ?rw" using assms c cb 2 by (simp add: d)
        then show thesis using c cb 2 by (intro rejected[of 401]) (simp_all add: callback_rejected_def)
      next
        case 3
        obtain q w1 where q: "redeemValidTokens x (sh_client s) cb w = (q, w1)" by fastforce
        show thesis
        proof (cases q)
          case (Inl e)
          have "(w', rw') = respondError s r 500 w1 ?rw" using assms c cb 3 q Inl by (simp add: d)
          then show thesis using c cb 3 q Inl by (intro unredeemed[of c cb e w1]) simp_all
        next
          case t: (Inr t)
          obtain z w2 where z: "Handler_Create (sh_sessions s) r t (MaxLifetime (cfg_Session (sh_config s))) w1 = (z, w2)" by fastforce
          show thesis
          proof (cases z)
            case (Inl e)
            have "(w', rw') = respondError s r 500 w2 ?rw" using assms c cb 3 q t z Inl by (simp add: d)
            then show thesis using c cb 3 q t z Inl by (intro uncreated[of c cb t w1 e w2]) simp_all
          next
            case (Inr k)
            show thesis
              using assms[unfolded d] c cb 3 q t z Inr
              by (intro created[of c cb t w1 k w2]) (simp_all add: accessor_simps session_cookie_options_def)
          qed
        qed
      qed
    qed
  qed
qed

section \<open>Sessions come from logins\<close>

context session_handling
begin

lemma Create_effect:
  assumes "Handler_Create h r t life w = (q, w')"
  shows "same_env w w' \<and> (contents (store w') = contents (store w) \<or>
    (\<exists>sid w1 e md v v'. IDOrGenerate h r t w = (Inr sid, w1) \<and> contents (store w') = (contents (store w))(Key h sid \<mapsto> e)
       \<and> Data_Encrypt (h_crypter h) (NewData sid t (Some md)) (v :: 's world) = (Inr e, v')))"
proof -
  obtain i w1 where i: "IDOrGenerate h r t w = (i, w1)" by fastforce
  note e1 = IDOrGenerate_env[OF i]
  show ?thesis
  proof (cases i)
    case (Inl x)
    then show ?thesis using assms i e1 by (simp add: Handler_Create_def)
  next
    case (Inr sid)
    obtain md w2 where md: "new_metadata h t life w1 = (md, w2)" by fastforce
    obtain y w3 where y: "Data_Encrypt (h_crypter h) (NewData sid t (Some md)) w2 = (y, w3)" by fastforce
    have e3: "same_env w w3 \<and> store w3 = store w"
      using e1 new_metadata_env[OF md] Data_Encrypt_env[OF y] by (auto intro: same_env_trans)
    show ?thesis
    proof (cases y)
      case (Inl x)
      then show ?thesis using assms i Inr md y e3 by (simp add: Handler_Create_def)
    next
      case e: (Inr e)
      have st: "storable e" using Data_Encrypt_valid y e by (auto simp: storable_def)
      obtain z where "retry_Do (write_attempt h (Key h sid) e life) w3 = (z, w')"
        using assms i Inr md y e by (auto simp: Handler_Create_def Let_def split: prod.splits sum.splits)
      then have "sets contents (Key h sid) e w3 w'"
        by (rule retry_Do_rel) (auto intro: sets_trans write_attempt_sets[OF st])
      then have "same_env w3 w'" "contents (store w') = contents (store w) \<or> contents (store w') = (contents (store w))(Key h sid \<mapsto> e)"
        using e3 by (auto simp: sets_def dest: local_step_env)
      then show ?thesis using i Inr e3 same_env_trans y e by blast
    qed
  qed
qed

end

lemma clearLoginCookies_simps [simp]:
  "Status (clearLoginCookies s r rw) = Status rw"
  "Status rw = None \<Longrightarrow> map_of (browser_cookies jar (clearLoginCookies s r rw)) n =
     (if n = cookie_Login \<or> n = cookie_LoginLegacy then None else map_of (browser_cookies jar rw) n)"
  by (simp_all add: clearLoginCookies_def Let_def)

lemma loginstatus_step_effect:
  assumes "loginstatus_step s t w rw = (e, w', rw')"
  shows "same_env w w' \<and> store w' = store w"
    and "Status rw' = Status rw"
    and "Status rw = None \<Longrightarrow> n \<noteq> CookieName (sh_loginstatus s) \<Longrightarrow>
      map_of (browser_cookies jar rw') n = map_of (browser_cookies jar rw) n"
proof -
  obtain q w1 where q: "getLoginstatusToken s t w = (q, w1)" by fastforce
  note e1 = getLoginstatusToken_env[OF q]
  consider "w' = w" "rw' = rw" | "w' = w1" "rw' = rw"
    | tok where "ls_SetCookie (GetLoginstatus s) tok (GetCookieOptions s) w1 rw = (w', rw')"
    using assms q by (auto simp: loginstatus_step_def split: if_splits sum.splits prod.splits)
  then have "(same_env w w' \<and> store w' = store w) \<and> Status rw' = Status rw \<and> (Status rw = None \<longrightarrow> n \<noteq> CookieName (sh_loginstatus s) \<longrightarrow>
      map_of (browser_cookies jar rw') n = map_of (browser_cookies jar rw) n)"
  proof cases
    case 3
    note st = ls_SetCookie_env[OF 3] ls_SetCookie_simps(1,5)[OF 3]
    have "map_of (browser_cookies jar rw') n = map_of (browser_cookies jar rw) n"
      if n: "Status rw = None" "n \<noteq> CookieName (sh_loginstatus s)"
      using st(3) n by (auto simp: browser_cookies_def map_of_store_cookie accessor_simps)
    moreover have "same_env w w' \<and> store w' = store w" using st(1) e1 by (auto intro: same_env_trans)
    ultimately show ?thesis using st(2) by simp
  qed (use e1 in auto)
  then show "same_env w w' \<and> store w' = store w" "Status rw' = Status rw" "Status rw = None \<Longrightarrow> n \<noteq> CookieName (sh_loginstatus s) \<Longrightarrow>
      map_of (browser_cookies jar rw') n = map_of (browser_cookies jar rw) n" by auto
qed

lemma EncryptAndSet_status: "EncryptAndSet n v opts c w rw = (e, w', rw') \<Longrightarrow> Status rw' = Status rw"
  by (auto simp: EncryptAndSet_def Let_def split: prod.splits sum.splits)

text \<open>
  Once the session is created, what follows in the callback touches the store no more, and either ends
  well or is answered as an error.
\<close>

lemma callback_end:
  assumes "(case EncryptAndSet cookie_Session k opts crypter w2 rw2 of
          (Some e, w3, rw3) \<Rightarrow> respondError s r 500 w3 rw3
        | (None, w3, rw3) \<Rightarrow>
            (case loginstatus_step s t w3 rw3 of
               (Some e, w4, rw4) \<Rightarrow> respondError s r 500 w4 rw4
             | (None, w4, rw4) \<Rightarrow>
                 (w4\<lparr> logins := Suc (logins w4) \<rparr>,
                  http_Redirect r target 307 (cookie_Clear cookie_Retry opts2 rw4)))) = (w', rw')"
    and "Status rw2 = None"
  obtains (failed) v where "same_env w2 w'" "store w' = store w2" "map_of (browser_cookies [] rw') cookie_Retry = Some v"
  | (ended) w3 rw3 w4 rw4 where "same_env w2 w'" "store w' = store w2"
      "EncryptAndSet cookie_Session k opts crypter w2 rw2 = (None, w3, rw3)" "loginstatus_step s t w3 rw3 = (None, w4, rw4)"
      "rw' = http_Redirect r target 307 (cookie_Clear cookie_Retry opts2 rw4)"
proof -
  obtain q w3 rw3 where q: "EncryptAndSet cookie_Session k opts crypter w2 rw2 = (q, w3, rw3)" by (metis prod.collapse)
  note e3 = EncryptAndSet_env[OF q] EncryptAndSet_status[OF q]
  have resp: thesis if "respondError s r 500 w5 rw5 = (w', rw')" "same_env w2 w5" "store w5 = store w2" "Status rw5 = None" for w5 rw5
  proof -
    note eff = respondError_effect(1)[OF that(1,4)] respondError_effect(3)[OF that(1,4), of "[]"]
    have "same_env w5 w'" by (simp add: eff(1))
    with that(2) have "same_env w2 w'" by (rule same_env_trans)
    moreover have "store w' = store w2" using that(3) by (simp add: eff(1))
    ultimately show thesis using eff(2) failed by blast
  qed
  show thesis
  proof (cases q)
    case (Some e)
    then show thesis using assms q e3 by (intro resp[of w3 rw3]) simp_all
  next
    case None
    obtain z w4 rw4 where z: "loginstatus_step s t w3 rw3 = (z, w4, rw4)" by (metis prod.collapse)
    note e4 = loginstatus_step_effect(1,2)[OF z]
    show thesis
    proof (cases z)
      case (Some e)
      then show thesis using assms q None z e3 e4 by (intro resp[of w4 rw4]) (auto intro: same_env_trans)
    next
      case z0: None
      have w: "w' = w4\<lparr> logins := Suc (logins w4) \<rparr>" "rw' = http_Redirect r target 307 (cookie_Clear cookie_Retry opts2 rw4)"
        using assms q None z z0 by auto
      have "same_env w2 w4" using e3 e4 by (auto intro: same_env_trans)
      moreover have "same_env w4 w'" by (simp add: w)
      ultimately have "same_env w2 w'" by (rule same_env_trans)
      then show thesis using e3 e4 w q None z z0 by (intro ended) auto
    qed
  qed
qed

lemma IdentityProviderError_None: "IdentityProviderError cb = None \<longleftrightarrow> Values_Get (cb_requestParams cb) ''error'' = []"
  by (simp add: IdentityProviderError_def)

text \<open>
  C1: No session without a login. If answering the callback route changes the store of sessions or the
  session cookie that the browser holds, then the browser presented a login cookie that the program
  encrypted, the request carried that cookie's \<^verbatim>\<open>state\<close> and no error from the provider, and tokens
  were redeemed and validated for that cookie; and the only session touched is the one with the
  identifier of these tokens.
\<close>

theorem callback_safe:
  assumes "session_handling (sh_sessions s) contents"
    and "LoginCallback_Handler x s r w rw = (w', rw')" "Status rw = None"
    and "contents (store w') \<noteq> contents (store w) \<or>
      map_of (browser_cookies jar rw') cookie_Session \<noteq> map_of (browser_cookies jar rw) cookie_Session"
  shows "\<exists>c cb t v v'. GetLoginCookie r (sh_crypter s) = Inr c \<and> NewLoginCallback r (Some c) = Inr cb
    \<and> Values_Get (req_Query r) ''error'' = [] \<and> Values_Get (req_Query r) ''state'' = lc_State c \<and> lc_State c \<noteq> []
    \<and> same_env w v \<and> RedeemTokens x (sh_client s) cb v = (Inr t, v')
    \<and> (\<exists>sid u'. IDOrGenerate (sh_sessions s) r t v' = (Inr sid, u')
         \<and> (\<forall>k. k \<noteq> Key (sh_sessions s) sid \<longrightarrow> contents (store w') k = contents (store w) k))"
proof -
  let ?rw = "clearLoginCookies s r rw"
  have st: "Status ?rw = None" using assms(3) by simp
  have unchanged: False if "respondError s r code v ?rw = (w', rw')" "contents (store v) = contents (store w)" for code v
    using respondError_effect(1)[OF that(1) st] respondError_effect(2)[OF that(1) st, of cookie_Session jar] that(2) assms(3,4)
    by auto
  have accepted: "Values_Get (req_Query r) ''error'' = [] \<and> Values_Get (req_Query r) ''state'' = lc_State c \<and> lc_State c \<noteq> []"
    if "NewLoginCallback r (Some c) = Inr cb" "IdentityProviderError cb = None" "StateMismatchError cb = None" for c cb
    using that(2,3) NewLoginCallback_Ok[OF that(1)] by (auto simp: IdentityProviderError_None StateMismatchError_None)
  show ?thesis using assms(2)
  proof (cases rule: LoginCallback_cases)
    case (rejected code)
    have False using unchanged[of code w] rejected(2) by simp
    then show ?thesis ..
  next
    case (unredeemed c cb e w1)
    have "store w1 = store w" using redeemValidTokens_env[OF unredeemed(5)] by simp
    then show ?thesis using unchanged[OF unredeemed(6)] by simp
  next
    case (uncreated c cb t w1 e w2)
    note ok = accepted[OF uncreated(2-4)] redeemValidTokens_env[OF uncreated(5)]
    obtain v where v: "same_env w v" "RedeemTokens x (sh_client s) cb v = (Inr t, w1)"
      using uncreated(5) by (rule redeemValidTokens_Ok)
    note eff = session_handling.Create_effect[OF assms(1) uncreated(6)]
    have "contents (store w2) \<noteq> contents (store w)" using unchanged[OF uncreated(7)] by blast
    then obtain sid u' e' where "IDOrGenerate (sh_sessions s) r t w1 = (Inr sid, u')"
        "contents (store w2) = (contents (store w))(Key (sh_sessions s) sid \<mapsto> e')"
      using eff ok(2) by auto
    moreover have "store w' = store w2" using respondError_effect(1)[OF uncreated(7) st] by simp
    ultimately show ?thesis using uncreated(1,2) ok(1) v by (intro exI[of _ c] exI[of _ cb] exI[of _ t] exI[of _ v] exI[of _ w1]) auto
  next
    case (created c cb t w1 k w2)
    note ok = accepted[OF created(2-4)] redeemValidTokens_env[OF created(5)]
    obtain v where v: "same_env w v" "RedeemTokens x (sh_client s) cb v = (Inr t, w1)"
      using created(5) by (rule redeemValidTokens_Ok)
    from assms(1) created(6) obtain sid u' e' where sid: "IDOrGenerate (sh_sessions s) r t w1 = (Inr sid, u')"
        "contents (store w2) = (contents (store w1))(Key (sh_sessions s) sid \<mapsto> e')"
      by (rule session_handling.Create_Ok) blast
    have "store w' = store w2" using created(7) st by (rule callback_end) simp_all
    then show ?thesis using created(1,2) ok v sid by (intro exI[of _ c] exI[of _ cb] exI[of _ t] exI[of _ v] exI[of _ w1]) auto
  qed
qed

text \<open>
  C2: A login that succeeds is a session. When the callback is not answered by the error handler, it
  sends the browser back to where the login started; the browser no longer has the login cookies and
  holds a session cookie that the program decrypts, in every later request, to the key of a session
  in the store, which has the identifier and the tokens that were redeemed and the lifetime that is
  configured; no other session is touched.
\<close>

theorem callback_creates_session:
  assumes "session_handling (sh_sessions s) contents"
    and "LoginCallback_Handler x s r w rw = (w', rw')" "Status rw = None" "server_ok s"
    and "map_of (browser_cookies [] rw') cookie_Retry = None" "Cookies r' = browser_cookies jar rw'"
  shows "\<exists>c cb t v v' sid u' e. GetLoginCookie r (sh_crypter s) = Inr c \<and> NewLoginCallback r (Some c) = Inr cb
    \<and> same_env w v \<and> RedeemTokens x (sh_client s) cb v = (Inr t, v')
    \<and> Status rw' = Some 307 \<and> Location rw' = Some (hexEscapeNonASCII (redirect_target (Path (req_URL r)) (lc_Referer c)))
    \<and> map_of (Cookies r') cookie_Login = None \<and> map_of (Cookies r') cookie_LoginLegacy = None
    \<and> IDOrGenerate (sh_sessions s) r t v' = (Inr sid, u') \<and> GetKey (sh_sessions s) r' = Inr (Key (sh_sessions s) sid)
    \<and> contents (store w') = (contents (store w))(Key (sh_sessions s) sid \<mapsto> e)
    \<and> (valid_Data (NewData sid t None) \<longrightarrow> Data_Decrypt (sh_crypter s) e = Inr (NewData sid t
         (Some (created_metadata (sh_sessions s) t (MaxLifetime (cfg_Session (sh_config s))) (clock v') (ticks v')))))"
proof -
  let ?rw = "clearLoginCookies s r rw" and ?life = "MaxLifetime (cfg_Session (sh_config s))"
  have st: "Status ?rw = None" using assms(3) by simp
  note no_error = respondError_effect(3)[OF _ st, of s r _ _ w' rw' "[]"]
  show ?thesis using assms(2)
  proof (cases rule: LoginCallback_cases)
    case (created c cb t w1 k w2)
    obtain v where v: "same_env w v" "RedeemTokens x (sh_client s) cb v = (Inr t, w1)"
      using created(5) by (rule redeemValidTokens_Ok)
    from assms(1) created(6) obtain sid u' e where sid: "IDOrGenerate (sh_sessions s) r t w1 = (Inr sid, u')"
        "k = Key (sh_sessions s) sid" "contents (store w2) = (contents (store w1))(k \<mapsto> e)"
        "valid_Data (NewData sid t None) \<Longrightarrow> Data_Decrypt (h_crypter (sh_sessions s)) e =
           Inr (NewData sid t (Some (created_metadata (sh_sessions s) t ?life (clock w1) (ticks w1))))"
      by (rule session_handling.Create_Ok) blast
    from created(7) st show ?thesis
    proof (cases rule: callback_end)
      case (failed v)
      then show ?thesis using assms(5) by simp
    next
      case (ended w3 rw3 w4 rw4)
      have o: "0 \<le> ExpiresIn (session_cookie_options s r)" "is_duration (ExpiresIn (session_cookie_options s r))"
        using assms(4) by (simp_all add: session_cookie_options_def accessor_simps server_ok_def)
      obtain cv where cv: "map_of (browser_cookies jar rw3) cookie_Session = Some cv" "Cookie_Decrypt (sh_crypter s) cv = Inr k"
          "\<And>n. n \<noteq> cookie_Session \<Longrightarrow> map_of (browser_cookies jar rw3) n = map_of (browser_cookies jar ?rw) n" "Status rw3 = None"
        using EncryptAndSet_jar[OF ended(3) st o, of jar] by metis
      note l = loginstatus_step_effect(2)[OF ended(4)] loginstatus_step_effect(3)[OF ended(4) cv(4), where jar = jar]
      have jar: "n \<notin> {cookie_Retry, CookieName (sh_loginstatus s)} \<Longrightarrow> map_of (Cookies r') n = map_of (browser_cookies jar rw3) n" for n
        using l cv(4) assms(6) ended(5) by simp
      have sess: "map_of (Cookies r') cookie_Session = Some cv" using jar[of cookie_Session] cv(1) assms(4) by (auto simp: server_ok_def)
      have "map_of (Cookies r') cookie_Login = None" "map_of (Cookies r') cookie_LoginLegacy = None"
        using jar[of cookie_Login] jar[of cookie_LoginLegacy] cv(3) assms(3,4) by (auto simp: server_ok_def)
      moreover have "GetKey (sh_sessions s) r' = Inr k"
        using sess cv(2) assms(4) by (simp add: GetKey_def GetDecrypted_def cookie_Get_def Request_Cookie_def server_ok_def)
      moreover have "Status rw' = Some 307" "Location rw' = Some (hexEscapeNonASCII (redirect_target (Path (req_URL r)) (lc_Referer c)))"
        using ended(5) l(1) cv(4) by simp_all
      moreover have "contents (store w') = (contents (store w))(k \<mapsto> e)"
        using ended(2) sid(3) redeemValidTokens_env[OF created(5)] by simp
      moreover have "h_crypter (sh_sessions s) = sh_crypter s" using assms(4) by (simp add: server_ok_def)
      ultimately show ?thesis
        using created(1,2) v sid(1,4) unfolding sid(2)
        by (intro exI[of _ c] exI[of _ cb] exI[of _ t] exI[of _ v] exI[of _ w1] exI[of _ sid] exI[of _ u'] exI[of _ e]) auto
    qed
  next
    case (rejected code)
    then show ?thesis using no_error[OF rejected(2)] assms(5) by simp
  next
    case (unredeemed c cb e w1)
    then show ?thesis using no_error[OF unredeemed(6)] assms(5) by simp
  next
    case (uncreated c cb t w1 e w2)
    then show ?thesis using no_error[OF uncreated(7)] assms(5) by simp
  qed
qed

end
