(* ===== verification/LogoutFlow.thy ===== *)
theory LogoutFlow
  imports LoginFlow
begin

text \<open>
  Logging out, by the user or by the provider's front channel, and the routes that show and refresh
  a session.
\<close>

section \<open>Logging out\<close>

lemma clearSessionCookies_simps [simp]:
  "Status (clearSessionCookies s r rw) = Status rw" "Location (clearSessionCookies s r rw) = Location rw"
  "Status rw = None \<Longrightarrow> map_of (browser_cookies jar (clearSessionCookies s r rw)) n =
     (if n = cookie_Session \<or> (Enabled (sh_loginstatus s) \<and> (n = CookieName (sh_loginstatus s) \<or> n = LoginserviceCookieName))
      then None else map_of (browser_cookies jar rw) n)"
  by (simp_all add: clearSessionCookies_def Let_def ls_ClearCookie_def ls_Enabled_def accessor_simps)

lemma Logout_cases:
  assumes "Logout_Handler s r global w rw = (w', rw')"
  obtains (no_callback) e where "NewLogout r = Inl e" "respondError s r 500 w rw = (w', rw')"
  | (kept) l d w1 e w2 where "NewLogout r = Inr l" "Handler_Get (sh_sessions s) r w = (Inr d, w1)"
      "DestroyForID (sh_sessions s) (ExternalSessionID d) w1 = (Some e, w2)" "e \<noteq> ErrKeyNotFound"
      "respondError s r 500 w2 rw = (w', rw')"
  | (finished) l w1 w2 idToken where "NewLogout r = Inr l"
      "(\<exists>e. Handler_Get (sh_sessions s) r w = (Inl e, w1) \<and> w2 = w1 \<and> idToken = []) \<or>
       (\<exists>d q. Handler_Get (sh_sessions s) r w = (Inr d, w1)
          \<and> DestroyForID (sh_sessions s) (ExternalSessionID d) w1 = (q, w2) \<and> q \<in> {None, Some ErrKeyNotFound}
          \<and> idToken = data_IDToken d)"
      "store w' = store w2"
      "rw' = (if global then http_Redirect r (SingleLogoutURL (sh_client s) l idToken) 307 (clearSessionCookies s r rw)
              else clearSessionCookies s r rw)" "same_env w2 w'"
proof (cases "NewLogout r")
  case (Inl e)
  have "(w', rw') = respondError s r 500 w rw" using assms Inl by (simp add: Logout_Handler_def error_answers)
  then show thesis using Inl by (intro no_callback[of e]) simp_all
next
  case l: (Inr l)
  obtain g w1 where g: "Handler_Get (sh_sessions s) r w = (g, w1)" by fastforce
  show thesis
  proof (cases g)
    case (Inl e)
    then show thesis
      using assms l g by (intro finished[of l w1 w1 "[]"]) (auto simp: Logout_Handler_def accessor_simps Let_def split: if_splits)
  next
    case (Inr d)
    obtain q w2 where q: "DestroyForID (sh_sessions s) (ExternalSessionID d) w1 = (q, w2)" by fastforce
    show thesis
    proof (cases "q \<in> {None, Some ErrKeyNotFound}")
      case True
      then show thesis using assms l g Inr q
        by (intro finished[of l w1 w2 "data_IDToken d"]) (auto simp: Logout_Handler_def accessor_simps Let_def split: if_splits)
    next
      case False
      then obtain e where e: "q = Some e" "e \<noteq> ErrKeyNotFound" by (cases q) auto
      have "(w', rw') = respondError s r 500 w2 rw"
        using assms l g Inr q e by (simp add: Logout_Handler_def error_answers accessor_simps)
      then show thesis using l g Inr q e by (intro kept[of l d w1 e w2]) simp_all
    qed
  qed
qed

context session_handling
begin

lemma Get_key:
  assumes "GetKey h r = Inr k" "contents (store w) k = Some e" "Data_Decrypt (h_crypter h) e = Inr d"
    and "Handler_Get h r w = (q, w1)"
  shows "q \<in> {Inr d, Inl ErrContext, Inl ErrUnexpected} \<and> contents (store w1) = contents (store w)"
proof -
  have g: "GetForKey h k w = (q, w1)" using assms(1,4) by (simp add: Handler_Get_def)
  then show ?thesis using GetForKey_present[OF assms(2,3) g] GetForKey_keeps[OF g] by (auto simp: keeps_def)
qed

lemma Get_keeps: "Handler_Get h r w = (q, w') \<Longrightarrow> contents (store w') = contents (store w)"
  using GetForKey_keeps by (cases "GetKey h r") (auto simp: Handler_Get_def keeps_def)

lemma destroyed_contents:
  assumes "DestroyForID h sid w = (q, w')" "q \<in> {None, Some ErrKeyNotFound}"
  shows "contents (store w') = (contents (store w))(Key h sid := None)"
proof -
  have d: "destroyForKey h (Key h sid) w = (q, w')" using assms(1) by (simp add: DestroyForID_def)
  have "contents (store w') (Key h sid) = None" using destroy_drops(2)[OF d] destroy_missing[of "Key h sid" w w'] d assms(2) by auto
  then show ?thesis using destroy_drops(1)[OF d] by (auto simp: drops_def fun_eq_iff)
qed

end

text \<open>
  C7: Logging out ends the session. Unless the logout is answered as an error, the browser no longer
  holds a session cookie or, where it is enabled, a loginstatus cookie, and a global logout sends it
  to the provider's end-session endpoint; and the session the browser presented is gone from the store,
  no other being touched, and its ID token is the hint for the provider. The one exception: if the store
  could not be read, the session is still there (and the hint is empty).
\<close>

theorem logout_correct:
  assumes "session_handling (sh_sessions s) contents" "Logout_Handler s r global w rw = (w', rw')" "Status rw = None" "server_ok s"
    and "map_of (browser_cookies [] rw') cookie_Retry = None"
    and "GetKey (sh_sessions s) r = Inr k" "contents (store w) k = Some e" "Data_Decrypt (sh_crypter s) e = Inr d"
      "k = Key (sh_sessions s) (ExternalSessionID d)"
  shows "map_of (browser_cookies jar rw') cookie_Session = None
    \<and> (Enabled (sh_loginstatus s) \<longrightarrow> map_of (browser_cookies jar rw') (CookieName (sh_loginstatus s)) = None)
    \<and> (\<exists>l idt. NewLogout r = Inr l
        \<and> (global \<longrightarrow> Location rw' = Some (hexEscapeNonASCII (redirect_target (Path (req_URL r)) (SingleLogoutURL (sh_client s) l idt))))
        \<and> ((contents (store w') = (contents (store w))(k := None) \<and> idt = data_IDToken d) \<or>
           (fst (Handler_Get (sh_sessions s) r w) \<in> {Inl ErrContext, Inl ErrUnexpected}
            \<and> contents (store w') = contents (store w) \<and> idt = [])))"
  using assms(2)
proof (cases rule: Logout_cases)
  case (no_callback e')
  then show ?thesis using respondError_effect(3)[OF no_callback(2) assms(3), of "[]"] assms(5) by simp
next
  case (kept l d' w1 e' w2)
  then show ?thesis using respondError_effect(3)[OF kept(5) assms(3), of "[]"] assms(5) by simp
next
  case (finished l w1 w2 idToken)
  have dec: "Data_Decrypt (h_crypter (sh_sessions s)) e = Inr d" using assms(4,8) by (simp add: server_ok_def)
  note get = session_handling.Get_key[OF assms(1,6,7) dec]
  have "(contents (store w') = (contents (store w))(k := None) \<and> idToken = data_IDToken d) \<or>
      (fst (Handler_Get (sh_sessions s) r w) \<in> {Inl ErrContext, Inl ErrUnexpected}
        \<and> contents (store w') = contents (store w) \<and> idToken = [])"
    using finished(2)
  proof (elim disjE exE conjE)
    fix e'
    assume g: "Handler_Get (sh_sessions s) r w = (Inl e', w1)" "w2 = w1" "idToken = []"
    then show ?thesis using get[OF g(1)] finished(3) by auto
  next
    fix d' q
    assume g: "Handler_Get (sh_sessions s) r w = (Inr d', w1)" "idToken = data_IDToken d'"
      and q: "DestroyForID (sh_sessions s) (ExternalSessionID d') w1 = (q, w2)" "q \<in> {None, Some ErrKeyNotFound}"
    have d: "d' = d" "contents (store w1) = contents (store w)" using get[OF g(1)] by auto
    show ?thesis using session_handling.destroyed_contents[OF assms(1) q] d g(2) finished(3) assms(9) by simp
  qed
  then show ?thesis using finished(1,4) assms(3) by auto
qed

text \<open>
  A logout that fails can be repeated. If the route answers with an error, then because no ingress
  matched the request or because the store could not delete the session; the browser keeps its session
  cookie, and no entry of the store other than the session's is touched.
\<close>

theorem failed_logout_keeps_session_cookie:
  assumes "session_handling (sh_sessions s) contents" "Logout_Handler s r global w rw = (w', rw')" "Status rw = None" "server_ok s"
    and "SetCookies rw = []" "map_of (browser_cookies [] rw') cookie_Retry \<noteq> None"
  shows "map_of (browser_cookies jar rw') cookie_Session = map_of jar cookie_Session
    \<and> ((\<exists>e. NewLogout r = Inl e \<and> store w' = store w) \<or>
       (\<exists>d w1 e w2. Handler_Get (sh_sessions s) r w = (Inr d, w1)
          \<and> DestroyForID (sh_sessions s) (ExternalSessionID d) w1 = (Some e, w2) \<and> e \<noteq> ErrKeyNotFound
          \<and> (\<forall>k. k \<noteq> Key (sh_sessions s) (ExternalSessionID d) \<longrightarrow> contents (store w') k = contents (store w) k)))"
proof -
  have none: "browser_cookies j rw = j" for j using assms(5) by (simp add: browser_cookies_def)
  show ?thesis using assms(2)
  proof (cases rule: Logout_cases)
    case (no_callback e)
    note eff = respondError_effect(1)[OF no_callback(2) assms(3)] respondError_effect(2)[OF no_callback(2) assms(3), of cookie_Session jar]
    then show ?thesis using no_callback(1) none by simp
  next
    case (kept l d w1 e w2)
    note eff = respondError_effect(1)[OF kept(5) assms(3)] respondError_effect(2)[OF kept(5) assms(3), of cookie_Session jar]
    have "drops contents (Key (sh_sessions s) (ExternalSessionID d)) w1 w2"
      using session_handling.destroy_drops(1)[OF assms(1)] kept(3) by (simp add: DestroyForID_def)
    then show ?thesis
      using eff kept(2-4) none session_handling.Get_keeps[OF assms(1) kept(2)]
      by (intro conjI disjI2 exI[of _ d] exI[of _ w1] exI[of _ e] exI[of _ w2]) (auto simp: drops_def)
  next
    case (finished l w1 w2 idToken)
    have "map_of (browser_cookies [] rw') cookie_Retry = None"
      using finished(4) none assms(3) by (cases global) simp_all
    then show ?thesis using assms(6) by simp
  qed
qed

section \<open>Front-channel logout\<close>

lemma LogoutFrontchannel_cases:
  assumes "LogoutFrontchannel_Handler s r w rw = (w', rw')"
  obtains (no_sid) "LogoutFrontchannel_Sid r = []" "w' = w" "rw' = WriteHeader 202 (clearSessionCookies s r rw)"
  | (unread) e where "LogoutFrontchannel_Sid r \<noteq> []" "GetForID (sh_sessions s) (LogoutFrontchannel_Sid r) w = (Inl e, w')"
      "rw' = WriteHeader 202 (clearSessionCookies s r rw)"
  | (kept) d w1 e where "LogoutFrontchannel_Sid r \<noteq> []" "GetForID (sh_sessions s) (LogoutFrontchannel_Sid r) w = (Inr d, w1)"
      "DestroyForID (sh_sessions s) (LogoutFrontchannel_Sid r) w1 = (Some e, w')"
      "rw' = WriteHeader 202 (clearSessionCookies s r rw)"
  | (destroyed) d w1 w2 where "LogoutFrontchannel_Sid r \<noteq> []" "GetForID (sh_sessions s) (LogoutFrontchannel_Sid r) w = (Inr d, w1)"
      "DestroyForID (sh_sessions s) (LogoutFrontchannel_Sid r) w1 = (None, w2)" "store w' = store w2"
      "rw' = WriteHeader 200 (cookie_Clear cookie_Retry (GetCookieOptsPathAware s r) (clearSessionCookies s r rw))" "same_env w2 w'"
proof (cases "LogoutFrontchannel_Sid r = []")
  case True
  then show thesis using assms by (intro no_sid) (simp_all add: LogoutFrontchannel_Handler_def MissingSidParameter_def)
next
  case False
  obtain g w1 where g: "GetForID (sh_sessions s) (LogoutFrontchannel_Sid r) w = (g, w1)" by fastforce
  show thesis
  proof (cases g)
    case (Inl e)
    then show thesis using assms False g
      by (intro unread[of e]) (simp_all add: LogoutFrontchannel_Handler_def MissingSidParameter_def accessor_simps)
  next
    case (Inr d)
    obtain q w2 where q: "DestroyForID (sh_sessions s) (LogoutFrontchannel_Sid r) w1 = (q, w2)" by fastforce
    show thesis
    proof (cases q)
      case None
      then show thesis using assms False g Inr q
        by (intro destroyed[of d w1 w2]) (auto simp: LogoutFrontchannel_Handler_def MissingSidParameter_def accessor_simps)
    next
      case (Some e)
      then show thesis using assms False g Inr q
        by (intro kept[of d w1 e]) (simp_all add: LogoutFrontchannel_Handler_def MissingSidParameter_def accessor_simps)
    qed
  qed
qed

text \<open>
  C30: Front-channel logout. Whatever happens, the browser no longer holds a session cookie, no error
  page is shown, and no session other than that of the \<^verbatim>\<open>sid\<close> parameter is touched. Status 200 means
  that such a session existed and is gone; status 202 means that there was nothing to do or that the
  store failed, and then the session, if there is one, can be as it was.
\<close>

theorem frontchannel_logout_correct:
  assumes "session_handling (sh_sessions s) contents" "LogoutFrontchannel_Handler s r w rw = (w', rw')" "Status rw = None"
  shows "map_of (browser_cookies jar rw') cookie_Session = None
    \<and> (\<forall>k. k \<noteq> Key (sh_sessions s) (LogoutFrontchannel_Sid r) \<longrightarrow> contents (store w') k = contents (store w) k)
    \<and> ((Status rw' = Some 200 \<and> LogoutFrontchannel_Sid r \<noteq> []
          \<and> contents (store w) (Key (sh_sessions s) (LogoutFrontchannel_Sid r)) \<noteq> None
          \<and> contents (store w') (Key (sh_sessions s) (LogoutFrontchannel_Sid r)) = None) \<or>
       (Status rw' = Some 202 \<and>
          (LogoutFrontchannel_Sid r = [] \<or> (\<exists>e. fst (GetForID (sh_sessions s) (LogoutFrontchannel_Sid r) w) = Inl e) \<or>
           (\<exists>w1 e. DestroyForID (sh_sessions s) (LogoutFrontchannel_Sid r) w1 = (Some e, w')))))"
proof -
  let ?k = "Key (sh_sessions s) (LogoutFrontchannel_Sid r)"
  note get = session_handling.GetForKey_keeps[OF assms(1), of ?k w, folded GetForID_def]
    session_handling.GetForKey_data(1)[OF assms(1), of ?k w, folded GetForID_def]
  note drop = session_handling.destroy_drops[OF assms(1), of ?k, folded DestroyForID_def]
  show ?thesis using assms(2)
  proof (cases rule: LogoutFrontchannel_cases)
    case no_sid
    then show ?thesis using assms(3) by simp
  next
    case (unread e)
    then show ?thesis using get(1)[OF unread(2)] assms(3) by (simp add: keeps_def)
  next
    case (kept d w1 e)
    then show ?thesis using get(1)[OF kept(2)] drop(1)[OF kept(3)] assms(3) by (auto simp: keeps_def drops_def)
  next
    case (destroyed d w1 w2)
    have "contents (store w2) ?k = None" by (rule drop(2)[OF destroyed(3)]) simp
    then show ?thesis using destroyed get(1,2)[OF destroyed(2)] drop(1)[OF destroyed(3)] assms(3)
      by (auto simp: keeps_def drops_def)
  qed
qed

section \<open>Showing a session\<close>

lemma Verbose_no_timeout: "TimeoutAt (md_Session m) = 0 \<Longrightarrow> Verbose now a m = Verbose now b m"
  by (simp add: Verbose_def Let_def IsTimedOut_iff)

lemma VerboseWithRefresh_no_timeout:
  "TimeoutAt (md_Session m) = 0 \<Longrightarrow> VerboseWithRefresh t t1 a t2 t3 m = VerboseWithRefresh t t1 b t2 t3 m"
  using Verbose_no_timeout[of m t1 a b] by (simp add: VerboseWithRefresh_def Let_def)

definition shows_metadata :: "(nat \<Rightarrow> time) \<Rightarrow> nat \<Rightarrow> Metadata \<Rightarrow> response \<Rightarrow> bool" where
  "shows_metadata c n m rw \<longleftrightarrow> Status rw = Some 200 \<and> ContentType rw = Some ''application/json''
     \<and> (\<exists>i \<ge> n. Body rw = [JsonMetadata (Verbose (c i) (c (i + 1)) m)])"

definition shows_metadata_with_refresh :: "(nat \<Rightarrow> time) \<Rightarrow> nat \<Rightarrow> Metadata \<Rightarrow> response \<Rightarrow> bool" where
  "shows_metadata_with_refresh c n m rw \<longleftrightarrow> Status rw = Some 200 \<and> ContentType rw = Some ''application/json''
     \<and> (\<exists>i \<ge> n. \<exists>j > i. Body rw = [JsonMetadataWithRefresh
          (VerboseWithRefresh (c i) (c (i + 1)) (c (i + 2)) (c j) (c (j + 1)) m)])"

lemma shows_metadata_mono:
  "shows_metadata c n m rw \<Longrightarrow> n' \<le> n \<Longrightarrow> shows_metadata c n' m rw"
  "shows_metadata_with_refresh c n m rw \<Longrightarrow> n' \<le> n \<Longrightarrow> shows_metadata_with_refresh c n' m rw"
  unfolding shows_metadata_def shows_metadata_with_refresh_def by (meson order_trans)+

lemma write_metadata_correct:
  assumes "write_metadata m w (set_ContentType ''application/json'' new_response) = (w', rw')"
  shows "store w' = store w"
    and "(Status rw' = Some 500 \<and> Body rw' = []) \<or> shows_metadata (clock w) (ticks w) m rw'"
proof -
  let ?v = "Verbose (clock w (ticks w)) (fst (timeout_reading m (w\<lparr> ticks := Suc (ticks w) \<rparr>))) m"
  have "?v = Verbose (clock w (ticks w)) (clock w (ticks w + 1)) m"
    using Verbose_no_timeout by (simp add: timeout_reading_def Time_IsZero_def time_Now_def)
  then show "(Status rw' = Some 500 \<and> Body rw' = []) \<or> shows_metadata (clock w) (ticks w) m rw'"
    using assms by (auto simp: write_metadata_def time_Now_def Let_def shows_metadata_def split: prod.splits if_splits)
  show "store w' = store w"
    using assms by (auto simp: write_metadata_def timeout_reading_def time_Now_def Let_def split: prod.splits if_splits)
qed

lemma write_metadata_with_refresh_correct:
  assumes "write_metadata_with_refresh m w (set_ContentType ''application/json'' new_response) = (w', rw')"
  shows "store w' = store w"
    and "(Status rw' = Some 500 \<and> Body rw' = []) \<or> shows_metadata_with_refresh (clock w) (ticks w) m rw'"
proof -
  let ?n = "ticks w" and ?c = "clock w"
  have eq: "TimeoutAt (md_Session m) = 0 \<Longrightarrow> VerboseWithRefresh t t1 0 t2 t3 m = VerboseWithRefresh t t1 b t2 t3 m" for t t1 t2 t3 b
    by (rule VerboseWithRefresh_no_timeout)
  have "\<exists>j > ?n. rw' = (if is_ok (Metadata_members m)
      then Write_Body (JsonMetadataWithRefresh (VerboseWithRefresh (?c ?n) (?c (?n + 1)) (?c (?n + 2)) (?c j) (?c (j + 1)) m))
        (set_ContentType ''application/json'' new_response)
      else WriteHeader 500 (set_ContentType ''application/json'' new_response))"
  proof (cases "TimeoutAt (md_Session m) = 0")
    case True
    then show ?thesis using assms eq[OF True, of "?c ?n" "?c (?n + 1)" "?c (?n + 2)" "?c (?n + 3)" "?c (?n + 2)"]
      by (intro exI[of _ "?n + 2"]) (auto simp: write_metadata_with_refresh_def timeout_reading_def Time_IsZero_def time_Now_def Let_def numeral_eq_Suc)
  next
    case False
    then show ?thesis using assms
      by (intro exI[of _ "?n + 3"]) (auto simp: write_metadata_with_refresh_def timeout_reading_def Time_IsZero_def time_Now_def Let_def numeral_eq_Suc)
  qed
  then show "(Status rw' = Some 500 \<and> Body rw' = []) \<or> shows_metadata_with_refresh (clock w) (ticks w) m rw'"
    unfolding shows_metadata_with_refresh_def by (elim exE conjE) (cases "is_ok (Metadata_members m)", simp, blast, simp)
  show "store w' = store w"
    using assms by (auto simp: write_metadata_with_refresh_def timeout_reading_def time_Now_def Let_def split: prod.splits if_splits)
qed

text \<open>
  What the session route answers. It never changes the store. Without a session cookie, and for a
  session that is not in the store, the status is 401; for a session in the store, 200 with the
  verbose form of its metadata as of this moment (with the fields about refreshing if refreshing is
  enabled). The only other status is 500, if the store fails or the metadata's times cannot be
  written; a session that has timed out is shown like any other.
\<close>

theorem session_route_correct:
  assumes "session_handling (sh_sessions s) contents" "server_ok s"
    and "Session_Handler s r w new_response = (w', rw')"
  shows "contents (store w') = contents (store w)
    \<and> (\<forall>e. GetKey (sh_sessions s) r = Inl e \<longrightarrow> Status rw' = Some 401 \<and> Body rw' = [])
    \<and> (\<forall>k. GetKey (sh_sessions s) r = Inr k \<and> contents (store w) k = None \<longrightarrow> Status rw' \<in> {Some 401, Some 500} \<and> Body rw' = [])
    \<and> (\<forall>k e d. GetKey (sh_sessions s) r = Inr k \<and> contents (store w) k = Some e \<and> Data_Decrypt (sh_crypter s) e = Inr d \<longrightarrow>
        (Status rw' = Some 500 \<and> Body rw' = []) \<or>
        (if cfg_Refresh (cfg_Session (sh_config s)) then shows_metadata_with_refresh (clock w) (ticks w) (data_Metadata d) rw'
         else shows_metadata (clock w) (ticks w) (data_Metadata d) rw'))"
proof -
  obtain g w1 where g: "Handler_Get (sh_sessions s) r w = (g, w1)" by fastforce
  note keep = session_handling.Get_keeps[OF assms(1) g]
  show ?thesis
  proof (cases g)
    case (Inl e)
    have h: "w' = w1 \<and> Status rw' \<in> {Some 401, Some 500} \<and> Body rw' = [] \<and>
        (Status rw' = Some 500 \<longleftrightarrow> e \<noteq> ErrCookieNotFound \<and> e \<noteq> ErrKeyNotFound)"
      using assms(3) g Inl by (auto simp: Session_Handler_def accessor_simps split: if_splits)
    have "e = ErrCookieNotFound" if "GetKey (sh_sessions s) r = Inl e'" for e'
      using that g Inl by (auto simp: Handler_Get_def GetKey_def split: sum.splits)
    moreover have "e \<noteq> ErrCookieNotFound \<and> e \<noteq> ErrKeyNotFound"
      if "GetKey (sh_sessions s) r = Inr k" "contents (store w) k = Some x" "Data_Decrypt (sh_crypter s) x = Inr d" for k x d
      using session_handling.Get_key[OF assms(1) that(1,2) _ g] that(3) assms(2) Inl by (auto simp: server_ok_def)
    ultimately show ?thesis using h keep by auto
  next
    case (Inr d)
    obtain k where k: "GetKey (sh_sessions s) r = Inr k" "GetForKey (sh_sessions s) k w = (Inr d, w1)"
      using g Inr by (auto simp: Handler_Get_def split: sum.splits)
    note gk = session_handling.GetForKey_data[OF assms(1) k(2)]
    have w1: "clock w1 = clock w" "ticks w \<le> ticks w1" using local_step_env[OF gk(2)] by (simp_all add: same_env_def)
    have data: "d' = d" if "contents (store w) k = Some e" "Data_Decrypt (sh_crypter s) e = Inr d'" for e d'
      using gk(1) that assms(2) by (auto simp: server_ok_def)
    have shown: "store w' = store w1 \<and> ((Status rw' = Some 500 \<and> Body rw' = []) \<or>
        (if cfg_Refresh (cfg_Session (sh_config s)) then shows_metadata_with_refresh (clock w) (ticks w) (data_Metadata d) rw'
         else shows_metadata (clock w) (ticks w) (data_Metadata d) rw'))"
    proof (cases "cfg_Refresh (cfg_Session (sh_config s))")
      case True
      have "write_metadata_with_refresh (data_Metadata d) w1 (set_ContentType ''application/json'' new_response) = (w', rw')"
        using assms(3) g Inr True by (simp add: Session_Handler_def accessor_simps)
      then show ?thesis using write_metadata_with_refresh_correct[of "data_Metadata d" w1 w' rw'] True w1
        by (auto intro: shows_metadata_mono)
    next
      case False
      have "write_metadata (data_Metadata d) w1 (set_ContentType ''application/json'' new_response) = (w', rw')"
        using assms(3) g Inr False by (simp add: Session_Handler_def accessor_simps)
      then show ?thesis using write_metadata_correct[of "data_Metadata d" w1 w' rw'] False w1
        by (auto intro: shows_metadata_mono)
    qed
    show ?thesis using shown keep k(1) gk(1) data by auto
  qed
qed

section \<open>Refreshing on request\<close>

text \<open>
  What the refresh route answers. Without a session cookie, 401, and nothing happens; for a session
  that is not in the store, 401 (or 500 if the store fails); for a session that was read, the outcome of
  refreshing it: the metadata of the data the refresh returned, 401 if the provider refused the refresh
  token, and 500 for every other error.
\<close>

theorem session_refresh_route_correct:
  assumes "session_handling (sh_sessions s) contents"
    and "SessionRefresh_Handler x s r w new_response = (w', rw')"
  shows "(\<forall>e. GetKey (sh_sessions s) r = Inl e \<longrightarrow> Status rw' = Some 401 \<and> Body rw' = [] \<and> w' = w)
    \<and> (\<forall>k. GetKey (sh_sessions s) r = Inr k \<and> contents (store w) k = None \<longrightarrow>
         Status rw' \<in> {Some 401, Some 500} \<and> Body rw' = [] \<and> contents (store w') = contents (store w))
    \<and> (\<forall>k d w1. GetKey (sh_sessions s) r = Inr k \<and> Handler_Get (sh_sessions s) r w = (Inr d, w1) \<longrightarrow>
         (case fst (Handler_Refresh x (sh_sessions s) k d w1) of
            Inl e \<Rightarrow> Status rw' = Some (if e = ErrInvalidState then 401 else 500) \<and> Body rw' = []
          | Inr d' \<Rightarrow> (Status rw' = Some 500 \<and> Body rw' = []) \<or>
              shows_metadata_with_refresh (clock w) (ticks w) (data_Metadata d') rw'))"
proof -
  note h = assms(2)[unfolded SessionRefresh_Handler_def accessor_simps]
  have 1: "Status rw' = Some 401 \<and> Body rw' = [] \<and> w' = w" if "GetKey (sh_sessions s) r = Inl e" for e
    using h that by auto
  have 2: "Status rw' \<in> {Some 401, Some 500} \<and> Body rw' = [] \<and> contents (store w') = contents (store w)"
    if k: "GetKey (sh_sessions s) r = Inr k" "contents (store w) k = None" for k
  proof -
    obtain g w1 where g: "Handler_Get (sh_sessions s) r w = (g, w1)" by fastforce
    have "\<exists>e. g = Inl e"
      using session_handling.GetForKey_data(1)[OF assms(1), of k w _ w1] g k by (cases g) (auto simp: Handler_Get_def)
    then show ?thesis using h k(1) g session_handling.Get_keeps[OF assms(1) g] by (auto split: if_splits)
  qed
  have 3: "case fst (Handler_Refresh x (sh_sessions s) k d w1) of
      Inl e \<Rightarrow> Status rw' = Some (if e = ErrInvalidState then 401 else 500) \<and> Body rw' = []
    | Inr d' \<Rightarrow> (Status rw' = Some 500 \<and> Body rw' = []) \<or> shows_metadata_with_refresh (clock w) (ticks w) (data_Metadata d') rw'"
    if k: "GetKey (sh_sessions s) r = Inr k" "Handler_Get (sh_sessions s) r w = (Inr d, w1)" for k d w1
  proof -
    obtain q w2 where q: "Handler_Refresh x (sh_sessions s) k d w1 = (q, w2)" by fastforce
    have gk: "GetForKey (sh_sessions s) k w = (Inr d, w1)" using k by (simp add: Handler_Get_def)
    have "same_env w w2"
      using local_step_env[OF session_handling.GetForKey_data(2)[OF assms(1) gk]] session_handling.Refresh_env[OF assms(1) q]
      by (rule same_env_trans)
    then have w2: "clock w2 = clock w" "ticks w \<le> ticks w2" by (simp_all add: same_env_def)
    show ?thesis
    proof (cases q)
      case (Inl e)
      then show ?thesis using h k q by (auto split: if_splits)
    next
      case (Inr d')
      have "write_metadata_with_refresh (data_Metadata d') w2 (set_ContentType ''application/json'' new_response) = (w', rw')"
        using h k q Inr by simp
      then show ?thesis using write_metadata_with_refresh_correct(2) w2 q Inr by (fastforce intro: shows_metadata_mono)
    qed
  qed
  show ?thesis using 1 2 3 by blast
qed

text \<open>
  C36: A session that has timed out gets an internal server error from the refresh route. The route means
  to answer 401 for it, but looks for the error in what reading the session returned, which never is
  that error; refreshing returns it, and there every error but a refused refresh token becomes 500.
\<close>

theorem inactive_session_refresh_fails:
  assumes "session_handling (sh_sessions s) contents" "server_ok s"
    and "SessionRefresh_Handler x s r w new_response = (w', rw')"
    and "GetKey (sh_sessions s) r = Inr k" "contents (store w) k = Some e" "Data_Decrypt (sh_crypter s) e = Inr d"
    and "Inactivity (h_cfg (sh_sessions s))" "TimeoutAt (md_Session (data_Metadata d)) \<noteq> 0"
      "\<And>i. ticks w \<le> i \<Longrightarrow> TimeoutAt (md_Session (data_Metadata d)) < clock w i"
    and "cfg_Refresh (h_cfg (sh_sessions s))" "RefreshToken d \<noteq> []"
      "\<And>i. ticks w \<le> i \<Longrightarrow> RefreshCooldown (data_Metadata d) \<le> clock w i"
    and "\<And>v l v'. acquire_lock (sh_sessions s) k v = (Inr l, v') \<Longrightarrow> same_env w v \<Longrightarrow> contents (store v) k = Some e \<Longrightarrow> contents (store v') k = Some e"
  shows "Status rw' = Some 500"
proof -
  let ?h = "sh_sessions s"
  note h = assms(3)[unfolded SessionRefresh_Handler_def accessor_simps]
  have dec: "Data_Decrypt (h_crypter ?h) e = Inr d" using assms(2,6) by (simp add: server_ok_def)
  obtain g w1 where g: "Handler_Get ?h r w = (g, w1)" by fastforce
  have gd: "g \<in> {Inr d, Inl ErrContext, Inl ErrUnexpected}" "contents (store w1) = contents (store w)"
    using session_handling.Get_key[OF assms(1,4,5) dec g] by simp_all
  show ?thesis
  proof (cases g)
    case (Inl x)
    then show ?thesis using h assms(4) g gd(1) by auto
  next
    case (Inr d')
    then have d': "d' = d" using gd(1) by simp
    have gk: "GetForKey ?h k w = (Inr d, w1)" using g Inr d' assms(4) by (simp add: Handler_Get_def)
    have e1: "same_env w w1" using session_handling.GetForKey_data(2)[OF assms(1) gk] by (rule local_step_env)
    have can: "fst (canRefresh ?h d v)" if "same_env w v" for v
      using that assms(10-12) by (auto simp: canRefresh_iff same_env_def)
    have out: "fst (isTimedOut ?h d v)" if "same_env w v" for v
      using that assms(7-9) by (auto simp: isTimedOut_def time_Now_def IsTimedOut_iff Time_IsZero_def same_env_def)
    obtain q w2 where q: "Handler_Refresh x ?h k d w1 = (q, w2)" by fastforce
    have "\<exists>x. q = Inl x \<and> x \<noteq> ErrInvalidState" using q
    proof (cases rule: session_handling.Refresh_cases[OF assms(1), consumes 1, case_names skipped unlocked locked])
      case skipped
      then show ?thesis using can[OF e1] by simp
    next
      case (unlocked x)
      then show ?thesis using acquire_lock_errors[OF unlocked(3)] by auto
    next
      case (locked l v2 v3)
      have ev: "same_env w v2" using e1 locked(7) by (rule same_env_trans)
      have "same_env w1 (snd (canRefresh ?h d w1)) \<and> store (snd (canRefresh ?h d w1)) = store w1"
        using canRefresh_env[of ?h d w1] by (metis prod.collapse)
      then have "same_env w (snd (canRefresh ?h d w1))" "contents (store (snd (canRefresh ?h d w1))) k = Some e"
        using e1 gd(2) assms(5) by (auto intro: same_env_trans)
      then have c2: "contents (store v2) k = Some e" by (rule assms(13)[OF locked(2)])
      have read: "d2 = d \<and> same_env w v" if "GetForKey ?h k v2 = (Inr d2, v)" for d2 v
        using session_handling.GetForKey_data(1,2)[OF assms(1) that] c2 dec ev by (auto dest: local_step_env intro: same_env_trans)
      from locked(4) show ?thesis
      proof (cases rule: refresh_locked_cases)
        case (unread x)
        then show ?thesis using session_handling.GetForKey_errors[OF assms(1) unread(1)] by auto
      next
        case (current d2 v)
        then show ?thesis using read[OF current(1)] can[of v] by simp
      next
        case (inactive d2 v v')
        then show ?thesis by simp
      next
        case (refused d2 v v' v'' x)
        then show ?thesis using read[OF refused(1)] canRefresh_env[OF refused(2)] out[of v'] by (auto intro: same_env_trans)
      next
        case (granted d2 v v' v'' resp v4 d'' v5 r')
        then show ?thesis using read[OF granted(1)] canRefresh_env[OF granted(2)] out[of v'] by (auto intro: same_env_trans)
      qed
    qed
    then show ?thesis using h assms(4) g Inr d' q by auto
  qed
qed

end
