(* ===== verification/ReverseProxy.thy ===== *)
theory ReverseProxy
  imports LoginFlow
begin

text \<open>
  \<^verbatim>\<open>pkg/handler/reverseproxy\<close>: every request that is none of the program's own routes is proxied to
  the application, with the access token of its session if it has one. The proxy itself is
  \<^verbatim>\<open>net/http/httputil\<close>: modelled is what it does to the request's headers on the way, before and
  after it calls the program's director. (What it sets again for trailers and protocol upgrades, in
  \<^verbatim>\<open>Te\<close>, \<^verbatim>\<open>Connection\<close> and \<^verbatim>\<open>Upgrade\<close>, is left out.)
\<close>

section \<open>Header keys\<close>

definition token_byte :: "char \<Rightarrow> bool" where
  "token_byte c \<longleftrightarrow> is_alpha c \<or> is_digit c \<or> c \<in> set ''!#$%&*+-.^_`|~'' \<or> byte_val c = 39"

definition to_upper :: "char \<Rightarrow> char" where
  "to_upper c = (if 97 \<le> byte_val c \<and> byte_val c \<le> 122 then val_byte (byte_val c - 32) else c)"

definition lower :: "char \<Rightarrow> char" where
  "lower c = (if 65 \<le> byte_val c \<and> byte_val c \<le> 90 then val_byte (byte_val c + 32) else c)"

fun canonical_from :: "bool \<Rightarrow> string \<Rightarrow> string" where
  "canonical_from up [] = []"
| "canonical_from up (c # s) = (if up then to_upper c else lower c) # canonical_from (c = CHR ''-'') s"

definition CanonicalHeaderKey :: "string \<Rightarrow> string" where
  "CanonicalHeaderKey s = (if list_all token_byte s then canonical_from True s else s)"

definition Header_Set :: "string \<Rightarrow> string \<Rightarrow> request \<Rightarrow> request" where
  "Header_Set k v r = r\<lparr> Header := (Header r)(CanonicalHeaderKey k \<mapsto> v) \<rparr>"

section \<open>The director and the library around it\<close>

text \<open>Setting \<^verbatim>\<open>X-Forwarded-For\<close> to nil removes it, and keeps the library from adding its own.\<close>

definition Director :: "string \<Rightarrow> request \<Rightarrow> request" where
  "Director upstreamHost r =
     (let r1 = r\<lparr> Header := (Header r)(''X-Forwarded-For'' := None),
                  req_URL := (req_URL r)\<lparr> Host := upstreamHost, Scheme := ''http'' \<rparr> \<rparr>
      in case AccessTokenFrom r of
           Some accessToken \<Rightarrow> Header_Set ''authorization'' (''Bearer '' @ accessToken) r1
         | None \<Rightarrow> r1)"

definition Proxy_ErrorHandler :: "error \<Rightarrow> response \<Rightarrow> response" where
  "Proxy_ErrorHandler e rw = (if e = ErrContext then WriteHeader 499 rw else WriteHeader 502 rw)"

definition hop_headers :: "string list" where
  "hop_headers = [''Connection'', ''Proxy-Connection'', ''Keep-Alive'', ''Proxy-Authenticate'', ''Proxy-Authorization'',
     ''Te'', ''Trailer'', ''Transfer-Encoding'', ''Upgrade'']"

definition trim_blank :: "string \<Rightarrow> string" where
  "trim_blank s = (let blank = (\<lambda>c. byte_val c \<in> {9, 10, 13, 32}) in rev (dropWhile blank (rev (dropWhile blank s))))"

definition connection_headers :: "request \<Rightarrow> string list" where
  "connection_headers r =
     (case Header r ''Connection'' of
        None \<Rightarrow> []
      | Some f \<Rightarrow> map CanonicalHeaderKey (filter (\<lambda>sf. sf \<noteq> []) (map trim_blank (split_on (CHR '','') f))))"

definition remove_hop_headers :: "request \<Rightarrow> request" where
  "remove_hop_headers r = r\<lparr> Header := (Header r) |` (- set (connection_headers r @ hop_headers)) \<rparr>"

definition proxy_request :: "string \<Rightarrow> request \<Rightarrow> request" where
  "proxy_request upstreamHost r = remove_hop_headers (Director upstreamHost r)"

text \<open>The proxied exchange; \<open>upstream\<close> is the application, or the error of reaching it.\<close>

definition ServeHTTP :: "(request \<Rightarrow> response result) \<Rightarrow> string \<Rightarrow> request \<Rightarrow> response \<Rightarrow> response" where
  "ServeHTTP upstream upstreamHost r rw =
     (case upstream (proxy_request upstreamHost r) of
        Inl e \<Rightarrow> Proxy_ErrorHandler e rw
      | Inr resp \<Rightarrow> resp\<lparr> SetCookies := SetCookies rw @ SetCookies resp \<rparr>)"

section \<open>The handler\<close>

text \<open>What becomes of a request: it is answered by the program, or served by the proxy.\<close>

datatype outcome = Responded response | Proxied request

definition isAuthenticated :: "'s standard_handler \<Rightarrow> request \<Rightarrow> string result \<Rightarrow> bool" where
  "isAuthenticated s r accessToken =
     (case accessToken of Inl _ \<Rightarrow> False | Inr _ \<Rightarrow> if ls_NeedsLogin (GetLoginstatus s) r then False else True)"

definition ReverseProxy_Handler ::
    "ext \<Rightarrow> 's standard_handler \<Rightarrow> request \<Rightarrow> 's world \<Rightarrow> response \<Rightarrow> 's world \<times> outcome" where
  "ReverseProxy_Handler x s r w rw =
     (case GetAccessToken x (GetSessions s) r w of
        (accessToken, w1) \<Rightarrow>
          let isAuthed = isAuthenticated s r accessToken in
          if AutoLogin_NeedsLogin x (GetAutoLogin s) r isAuthed then
            let redirectTarget = URL_String (req_URL r); path = GetPath s r;
                loginUrl = LoginURL path redirectTarget
            in (w1, Responded (http_Redirect r loginUrl 307 rw))
          else (w1, Proxied (case accessToken of
                  Inr t \<Rightarrow> if isAuthed then WithAccessToken r t else r
                | Inl _ \<Rightarrow> r)))"

section \<open>Which requests carry a token\<close>

lemma CanonicalHeaderKey_authorization [simp]: "CanonicalHeaderKey ''authorization'' = ''Authorization''"
  by code_simp

lemma proxy_request_Authorization:
  "Header (proxy_request host r) ''Authorization'' =
     (if ''Authorization'' \<in> set (connection_headers r) then None
      else case ctx_AccessToken r of Some t \<Rightarrow> Some (''Bearer '' @ t) | None \<Rightarrow> Header r ''Authorization'')"
proof -
  have "connection_headers (Director host r) = connection_headers r"
    by (auto simp: Director_def Let_def connection_headers_def Header_Set_def accessor_simps split: option.splits)
  moreover have "''Authorization'' \<notin> set hop_headers" by (simp add: hop_headers_def)
  ultimately show ?thesis
    by (auto simp: proxy_request_def remove_hop_headers_def Director_def Let_def Header_Set_def accessor_simps restrict_map_def
        split: option.splits)
qed

lemma ReverseProxy_cases:
  assumes "ReverseProxy_Handler x s r w rw = (w', out)"
  obtains (login) a where "GetAccessToken x (sh_sessions s) r w = (a, w')"
      "AutoLogin_NeedsLogin x (sh_autoLogin s) r (isAuthenticated s r a)"
      "out = Responded (http_Redirect r (LoginURL (GetPath s r) (URL_String (req_URL r))) 307 rw)"
  | (authenticated) t where "GetAccessToken x (sh_sessions s) r w = (Inr t, w')" "\<not> ls_NeedsLogin (sh_loginstatus s) r"
      "out = Proxied (WithAccessToken r t)"
  | (anonymous) a where "GetAccessToken x (sh_sessions s) r w = (a, w')" "\<not> isAuthenticated s r a"
      "\<not> AutoLogin_NeedsLogin x (sh_autoLogin s) r False" "out = Proxied r"
proof -
  obtain a w1 where a: "GetAccessToken x (sh_sessions s) r w = (a, w1)" by fastforce
  note h = assms[unfolded ReverseProxy_Handler_def accessor_simps a prod.case Let_def]
  show thesis
  proof (cases "AutoLogin_NeedsLogin x (sh_autoLogin s) r (isAuthenticated s r a)")
    case True
    then show thesis using h a by (intro login[of a]) simp_all
  next
    case False
    show thesis
    proof (cases "isAuthenticated s r a")
      case True
      then obtain t where t: "a = Inr t" "\<not> ls_NeedsLogin (sh_loginstatus s) r"
        by (auto simp: isAuthenticated_def accessor_simps split: sum.splits if_splits)
      then show thesis using h a False True by (intro authenticated[of t]) (auto simp: accessor_simps)
    next
      case no: False
      then show thesis using h a False by (intro anonymous[of a]) (auto split: sum.splits)
    qed
  qed
qed

lemma ReverseProxy_live:
  assumes "GetAccessToken x (sh_sessions s) r w = (Inr t, w')" "\<not> ls_NeedsLogin (sh_loginstatus s) r"
  shows "ReverseProxy_Handler x s r w rw = (w', Proxied (WithAccessToken r t))"
proof -
  have "isAuthenticated s r (Inr t)" using assms(2) by (simp add: isAuthenticated_def accessor_simps)
  then show ?thesis using assms(1) by (simp add: ReverseProxy_Handler_def accessor_simps AutoLogin_NeedsLogin_def)
qed

lemma connection_headers_token [simp]: "connection_headers (r\<lparr> ctx_AccessToken := t \<rparr>) = connection_headers r"
  by (simp add: connection_headers_def)

text \<open>
  C6: The application gets a token only of a live session. If a request is proxied with an
  \<^verbatim>\<open>Authorization\<close> header, then that header is the client's own, or it is the access token of the
  session whose key the request's cookie decrypts to: that session was in the store and had not
  timed out, the token is that of the session's data or of the data a refresh of it returned and had
  not expired, and the loginstatus cookie, where that is enabled, was there.
\<close>

theorem proxy_token_safe:
  assumes "session_handling (sh_sessions s) contents"
    and "ReverseProxy_Handler x s r w rw = (w', Proxied q)" "ctx_AccessToken r = None"
    and "Header (proxy_request host q) ''Authorization'' = Some v"
  shows "Header r ''Authorization'' = Some v \<or>
    (\<not> ls_NeedsLogin (sh_loginstatus s) r \<and>
     (\<exists>t k e d0 d i j. v = ''Bearer '' @ t \<and> GetKey (sh_sessions s) r = Inr k \<and> contents (store w) k = Some e
        \<and> Data_Decrypt (h_crypter (sh_sessions s)) e = Inr d0 \<and> ticks w \<le> i \<and> i \<le> j
        \<and> (Inactivity (h_cfg (sh_sessions s)) \<and> TimeoutAt (md_Session (data_Metadata d0)) \<noteq> 0
            \<longrightarrow> clock w i \<le> TimeoutAt (md_Session (data_Metadata d0)))
        \<and> (d = d0 \<or> (\<exists>u u'. same_env w u \<and> Handler_Refresh x (sh_sessions s) k d0 u = (Inr d, u')))
        \<and> t = AccessToken d \<and> t \<noteq> [] \<and> clock w j \<le> ExpireAt (md_Tokens (data_Metadata d))))"
  using assms(2)
proof (cases rule: ReverseProxy_cases)
  case (login a)
  then show ?thesis by simp
next
  case (anonymous a)
  then show ?thesis using assms(3,4) by (simp add: proxy_request_Authorization split: if_splits)
next
  case (authenticated t)
  have "v = ''Bearer '' @ t"
    using authenticated(3) assms(4) by (auto simp: proxy_request_Authorization accessor_simps split: if_splits)
  then show ?thesis
    using session_handling.GetAccessToken_Ok[OF assms(1) authenticated(1)] authenticated(2) by metis
qed


text \<open>
  A client can take the token off its own request. The library removes the headers named in
  \<^verbatim>\<open>Connection\<close> after the director has set them, so a request with \<^verbatim>\<open>Connection: authorization\<close>
  reaches the application without an \<^verbatim>\<open>Authorization\<close> header, although the session is live.
\<close>

theorem connection_header_drops_token:
  assumes "GetAccessToken x (sh_sessions s) r w = (Inr t, w')" "\<not> ls_NeedsLogin (sh_loginstatus s) r"
    and "Header r ''Connection'' = Some ''authorization''"
  shows "\<exists>q. ReverseProxy_Handler x s r w rw = (w', Proxied q) \<and> Header (proxy_request host q) ''Authorization'' = None"
proof -
  have "ReverseProxy_Handler x s r w rw = (w', Proxied (WithAccessToken r t))" by (rule ReverseProxy_live[OF assms(1,2)])
  moreover have "map CanonicalHeaderKey (filter (\<lambda>sf. sf \<noteq> []) (map trim_blank (split_on (CHR '','') ''authorization'')))
      = [''Authorization'']" by code_simp
  then have "connection_headers (WithAccessToken r t) = [''Authorization'']"
    using assms(3) by (simp add: connection_headers_def accessor_simps)
  ultimately show ?thesis by (intro exI[of _ "WithAccessToken r t"]) (simp add: proxy_request_Authorization)
qed


end
