(* ===== verification/Server.thy ===== *)
theory Server
  imports LogoutFlow ReverseProxy
begin

text \<open>
  The program as one server: \<^verbatim>\<open>pkg/handler/handler.go\<close> and \<^verbatim>\<open>handler_standard.go\<close> (its construction and
  its handlers), \<^verbatim>\<open>pkg/router/router.go\<close> (the table of routes and the middlewares) and the set-up in
  \<^verbatim>\<open>cmd/wonderwall/main.go\<close>. Matching a request against the table is done by the chi library, the
  parameter \<open>chi\<close>.
\<close>

section \<open>Construction\<close>

text \<open>\<open>newStore\<close> is the result of \<^verbatim>\<open>NewStore\<close>, which connects to Redis if one is configured.\<close>

definition session_NewHandler ::
    "config \<Rightarrow> 's session_store_ops result \<Rightarrow> openid_config \<Rightarrow> crypter \<Rightarrow> client \<Rightarrow> 's session_handler result" where
  "session_NewHandler cfg newStore openidCfg crypter openidClient =
     (case newStore of
        Inl e \<Rightarrow> Inl e
      | Inr st \<Rightarrow> Inr \<lparr> h_cfg = cfg_Session cfg, h_client = openidClient, h_crypter = crypter,
          h_openidCfg = openidCfg, h_store = st \<rparr>)"

definition NewHandler ::
    "map_order \<Rightarrow> config \<Rightarrow> 's session_store_ops result \<Rightarrow> options \<Rightarrow> openid_config \<Rightarrow> crypter \<Rightarrow> 's standard_handler result" where
  "NewHandler order cfg newStore cookieOpts openidConfig crypter =
     (case AutoLogin_New cfg of
        Inl e \<Rightarrow> Inl e
      | Inr autoLogin \<Rightarrow>
      let loginstatusClient = cfg_Loginstatus cfg; openidClient = NewClient openidConfig loginstatusClient in
      (case session_NewHandler cfg newStore openidConfig crypter openidClient of
        Inl e \<Rightarrow> Inl e
      | Inr sessionHandler \<Rightarrow>
      (case ParseIngresses order cfg of
        Inl e \<Rightarrow> Inl e
      | Inr ings \<Rightarrow> Inr \<lparr> sh_autoLogin = autoLogin, sh_client = openidClient, sh_config = cfg, sh_cookieOptions = cookieOpts,
          sh_crypter = crypter, sh_ingresses = ings, sh_loginstatus = loginstatusClient, sh_openidConfig = openidConfig,
          sh_sessions = sessionHandler, sh_upstreamHost = UpstreamHost cfg \<rparr>)))"

text \<open>The part of \<^verbatim>\<open>run\<close> that builds the handler from the configuration; then the program serves.\<close>

definition run_setup ::
    "ext \<Rightarrow> (string \<Rightarrow> jwk_key result) \<Rightarrow> map_order \<Rightarrow> config \<Rightarrow> 's session_store_ops result \<Rightarrow> 's world
     \<Rightarrow> 's standard_handler result \<times> 's world" where
  "run_setup x jwk_ParseKey order cfg newStore w =
     (case EncryptionKeyOrGenerate (EncryptionKey cfg) w of
        (Inl e, w1) \<Rightarrow> (Inl e, w1)
      | (Inr k, w1) \<Rightarrow>
      (case NewConfig jwk_ParseKey cfg w1 of
        (Inl e, w2) \<Rightarrow> (Inl e, w2)
      | (Inr openidConfig, w2) \<Rightarrow>
      let crypt = NewCrypter k; cookieOpts = DefaultOptions in
      (case NewJwksProvider x openidConfig w2 of
        (Inl e, w3) \<Rightarrow> (Inl e, w3)
      | (Inr _, w3) \<Rightarrow>
      (case NewHandler order cfg newStore cookieOpts openidConfig crypt of
        Inl e \<Rightarrow> (Inl (ErrOther ''initializing routing handler''), w3)
      | Inr h \<Rightarrow> (Inr h, w3)))))"

section \<open>The handlers\<close>

definition Standard_Login where "Standard_Login x s r w rw = Login_Handler x s r w rw"
definition Standard_LoginCallback where "Standard_LoginCallback x s r w rw = LoginCallback_Handler x s r w rw"
definition Standard_Logout where "Standard_Logout s r w rw = Logout_Handler s r True w rw"
definition Standard_LogoutLocal where "Standard_LogoutLocal s r w rw = Logout_Handler s r False w rw"
definition Standard_LogoutCallback where "Standard_LogoutCallback s r rw = LogoutCallback_Handler s r rw"
definition Standard_LogoutFrontChannel where "Standard_LogoutFrontChannel s r w rw = LogoutFrontchannel_Handler s r w rw"
definition Standard_Session where "Standard_Session s r w rw = Session_Handler s r w rw"

definition Standard_SessionRefresh ::
    "ext \<Rightarrow> 's standard_handler \<Rightarrow> request \<Rightarrow> 's world \<Rightarrow> response \<Rightarrow> 's world \<times> response" where
  "Standard_SessionRefresh x s r w rw =
     (if \<not> cfg_Refresh (cfg_Session (sh_config s)) then (w, http_NotFound rw)
      else SessionRefresh_Handler x s r w rw)"

definition Standard_ReverseProxy where "Standard_ReverseProxy x s r w rw = ReverseProxy_Handler x s r w rw"

lemmas standard_defs = Standard_Login_def Standard_LoginCallback_def Standard_Logout_def Standard_LogoutLocal_def
  Standard_LogoutCallback_def Standard_LogoutFrontChannel_def Standard_Session_def Standard_SessionRefresh_def
  Standard_ReverseProxy_def

section \<open>Routing\<close>

datatype handler_name = HLogin | HLoginCallback | HLogout | HLogoutCallback | HLogoutFrontChannel | HLogoutLocal
  | HSession | HSessionRefresh | HReverseProxy

text \<open>An entry: the method (empty for all), the pattern and the handler.\<close>

type_synonym route = "string \<times> string \<times> handler_name"

definition prefix_routes :: "string \<Rightarrow> route list" where
  "prefix_routes pfx =
     (let base = pfx @ paths_OAuth2 in
      [(''GET'', base @ paths_Login, HLogin), (''GET'', base @ paths_LoginCallback, HLoginCallback),
       (''GET'', base @ paths_Logout, HLogout), (''GET'', base @ paths_LogoutCallback, HLogoutCallback),
       (''GET'', base @ paths_LogoutFrontChannel, HLogoutFrontChannel), (''GET'', base @ paths_LogoutLocal, HLogoutLocal),
       (''GET'', base @ paths_Session, HSession), (''GET'', base @ paths_SessionRefresh, HSessionRefresh),
       (''POST'', base @ paths_SessionRefresh, HSessionRefresh)])"

definition route_table :: "string list \<Rightarrow> route list" where
  "route_table pfxs = concat (map prefix_routes pfxs) @ [([], ''/*'', HReverseProxy)]"

text \<open>What the library answers for a request: a handler of the table, or a status of its own (404 or 405).\<close>

type_synonym router = "route list \<Rightarrow> request \<Rightarrow> handler_name + int"

text \<open>
  What the library's documentation says of static patterns: a request whose method and path are those
  of an entry goes to its handler; a request whose path is not below any prefix that the table routes
  goes to the catch-all entry.
\<close>

definition chi_ok :: "router \<Rightarrow> string list \<Rightarrow> bool" where
  "chi_ok chi pfxs \<longleftrightarrow>
     (\<forall>r m p h. (m, p, h) \<in> set (concat (map prefix_routes pfxs)) \<and> Method r = m \<and> Path (req_URL r) = p
        \<and> RawPath (req_URL r) = [] \<longrightarrow> chi (route_table pfxs) r = Inl h)
   \<and> (\<forall>r. (\<forall>pfx \<in> set pfxs. \<not> HasPrefix (Path (req_URL r)) (pfx @ paths_OAuth2)) \<and> RawPath (req_URL r) = []
        \<longrightarrow> chi (route_table pfxs) r = Inl HReverseProxy)"

section \<open>Serving a request\<close>

definition RequestIDHeader :: string where "RequestIDHeader = ''X-Request-Id''"

definition CorrelationIDHandler :: "ext \<Rightarrow> request \<Rightarrow> 's world \<Rightarrow> request \<times> 's world" where
  "CorrelationIDHandler x r w =
     (let i = Header_Get r RequestIDHeader in
      if length i = 0 then (r\<lparr> ctx_RequestID := uuid_New x (draws w) \<rparr>, w\<lparr> draws := Suc (draws w) \<rparr>)
      else (r\<lparr> ctx_RequestID := i \<rparr>, w))"

definition respond :: "'s world \<times> response \<Rightarrow> 's world \<times> outcome" where
  "respond q = (case q of (w, rw) \<Rightarrow> (w, Responded rw))"

definition dispatch ::
    "ext \<Rightarrow> 's standard_handler \<Rightarrow> handler_name \<Rightarrow> request \<Rightarrow> 's world \<Rightarrow> 's world \<times> outcome" where
  "dispatch x s h r w =
     (let rw = new_response in
      case h of
        HLogin \<Rightarrow> respond (Standard_Login x s r w rw)
      | HLoginCallback \<Rightarrow> respond (Standard_LoginCallback x s r w rw)
      | HLogout \<Rightarrow> respond (Standard_Logout s r w rw)
      | HLogoutCallback \<Rightarrow> (w, Responded (Standard_LogoutCallback s r rw))
      | HLogoutFrontChannel \<Rightarrow> respond (Standard_LogoutFrontChannel s r w rw)
      | HLogoutLocal \<Rightarrow> respond (Standard_LogoutLocal s r w rw)
      | HSession \<Rightarrow> respond (Standard_Session s r w rw)
      | HSessionRefresh \<Rightarrow> respond (Standard_SessionRefresh x s r w rw)
      | HReverseProxy \<Rightarrow> Standard_ReverseProxy x s r w rw)"

definition Router_Serve ::
    "ext \<Rightarrow> map_order \<Rightarrow> router \<Rightarrow> 's standard_handler \<Rightarrow> request \<Rightarrow> 's world \<Rightarrow> 's world \<times> outcome" where
  "Router_Serve x order chi s r w =
     (let (r1, w1) = CorrelationIDHandler x r w;
          r2 = Ingress_Handler order (GetIngresses s) r1
      in case chi (route_table (paths (GetIngresses s))) r2 of
           Inl h \<Rightarrow> dispatch x s h r2 w1
         | Inr status \<Rightarrow> (w1, Responded (WriteHeader status new_response)))"

section \<open>Construction is sound\<close>

text \<open>
  What the program is built from. If set-up succeeds, then the sessions, the cookies and the login
  flow use one crypter, with the configured key or a random one; the client, the session handler and
  the server share one OpenID configuration, which is complete; and the ingresses are those of the
  configuration, of which there is at least one.
\<close>

theorem setup_correct:
  assumes "run_setup x jwk_ParseKey order cfg newStore w = (Inr s, w')"
  shows "(\<exists>k w1 w2. EncryptionKeyOrGenerate (EncryptionKey cfg) w = (Inr k, w1) \<and> sh_crypter s = NewCrypter k
        \<and> NewConfig jwk_ParseKey cfg w1 = (Inr (sh_openidConfig s), w2))
    \<and> h_crypter (sh_sessions s) = sh_crypter s
    \<and> newStore = Inr (h_store (sh_sessions s))
    \<and> h_client (sh_sessions s) = sh_client s \<and> c_cfg (sh_client s) = sh_openidConfig s
    \<and> h_openidCfg (sh_sessions s) = sh_openidConfig s
    \<and> h_cfg (sh_sessions s) = cfg_Session cfg \<and> sh_config s = cfg
    \<and> ParseIngresses order cfg = Inr (sh_ingresses s) \<and> Ingresses cfg \<noteq> []"
proof -
  obtain k w1 where k: "EncryptionKeyOrGenerate (EncryptionKey cfg) w = (Inr k, w1)"
    using assms by (auto simp: run_setup_def split: prod.splits sum.splits)
  obtain oc w2 where oc: "NewConfig jwk_ParseKey cfg w1 = (Inr oc, w2)"
    using assms k by (auto simp: run_setup_def split: prod.splits sum.splits)
  have h: "NewHandler order cfg newStore DefaultOptions oc (NewCrypter k) = Inr s"
    using assms k oc by (auto simp: run_setup_def Let_def split: prod.splits sum.splits)
  obtain sess ings where p: "session_NewHandler cfg newStore oc (NewCrypter k) (NewClient oc (cfg_Loginstatus cfg)) = Inr sess"
      "ParseIngresses order cfg = Inr ings"
    using h by (auto simp: NewHandler_def Let_def split: sum.splits)
  have s: "sh_client s = NewClient oc (cfg_Loginstatus cfg)" "sh_config s = cfg" "sh_crypter s = NewCrypter k"
      "sh_ingresses s = ings" "sh_openidConfig s = oc" "sh_sessions s = sess"
    using h p by (auto simp: NewHandler_def Let_def split: sum.splits)
  have "Ingresses cfg \<noteq> []" using p(2) by (auto simp: ParseIngresses_def)
  moreover have "newStore = Inr (h_store sess)" "h_cfg sess = cfg_Session cfg" "h_crypter sess = NewCrypter k"
      "h_openidCfg sess = oc" "h_client sess = NewClient oc (cfg_Loginstatus cfg)"
    using p(1) by (auto simp: session_NewHandler_def split: sum.splits)
  ultimately show ?thesis using k oc p(2) by (auto simp: s NewClient_def)
qed


end
