(* ===== verification/RequestLog.thy ===== *)
theory RequestLog
  imports Server
begin

text \<open>
  \<^verbatim>\<open>pkg/middleware/logentry.go\<close>: what is logged of a request and its response. An entry is its list of
  fields; writing it is left to the logging library. Values are strings and integers; the elapsed time,
  a float of milliseconds in the program, is kept as its number of nanoseconds (\<open>LMillis\<close>).
\<close>

section \<open>Entries\<close>

datatype log_value = LString string | LInt int | LMillis int

type_synonym log_fields = "(string \<times> log_value) list"

datatype log_level = LInfo | LDebug

definition UserAgent :: "request \<Rightarrow> string" where "UserAgent r = Header_Get r ''User-Agent''"
definition Referer :: "request \<Rightarrow> string" where "Referer r = Header_Get r ''Referer''"

definition NewLogEntry :: "string \<Rightarrow> request \<Rightarrow> log_fields" where
  "NewLogEntry provider r =
     [(''correlation_id'', LString (ctx_RequestID r)), (''provider'', LString provider),
      (''request_host'', LString (req_Host r)), (''request_method'', LString (Method r)),
      (''request_path'', LString (Path (req_URL r))), (''request_user_agent'', LString (UserAgent r))]"

definition isRelevantCookie :: "string \<Rightarrow> bool" where
  "isRelevantCookie name = (name = cookie_Session \<or> name = cookie_Login \<or> name = cookie_LoginLegacy)"

fun relevant_names :: "(string \<times> string) list \<Rightarrow> string list" where
  "relevant_names [] = []"
| "relevant_names ((name, v) # cs) =
     (if \<not> isRelevantCookie name \<or> length v \<le> 0 then relevant_names cs else name # relevant_names cs)"

definition nonEmptyRequestCookies :: "request \<Rightarrow> string" where
  "nonEmptyRequestCookies r = join_with '', '' (relevant_names (Cookies r))"

definition logged_referer :: "request \<Rightarrow> string" where
  "logged_referer r =
     (case Parse (Referer r) of
        Inr refererUrl \<Rightarrow> URL_String (refererUrl\<lparr> RawQuery := [], RawFragment := [] \<rparr>)
      | Inl _ \<Rightarrow> Referer r)"

definition WithRequestLogFields :: "log_fields \<Rightarrow> string \<Rightarrow> request \<Rightarrow> log_fields" where
  "WithRequestLogFields entry proto r = entry @
     [(''request_cookies'', LString (nonEmptyRequestCookies r)), (''request_host'', LString (req_Host r)),
      (''request_method'', LString (Method r)), (''request_path'', LString (Path (req_URL r))),
      (''request_protocol'', LString proto), (''request_referer'', LString (logged_referer r)),
      (''request_user_agent'', LString (UserAgent r))]"

definition statusLabel :: "int \<Rightarrow> string" where
  "statusLabel status =
     (if status \<ge> 100 \<and> status < 300 then ''OK''
      else if status \<ge> 300 \<and> status < 400 then ''Redirect''
      else if status \<ge> 400 \<and> status < 500 then ''Client Error''
      else if status \<ge> 500 then ''Server Error''
      else ''Unknown'')"

text \<open>The entry that is written when the response is done, with its level and message.\<close>

definition entry_Write :: "log_fields \<Rightarrow> int \<Rightarrow> int \<Rightarrow> int \<Rightarrow> log_level \<times> string \<times> log_fields" where
  "entry_Write entry status bytes elapsed =
     (if status \<ge> 400 then LInfo else LDebug,
      ''response: HTTP '' @ Itoa status @ '' ('' @ statusLabel status @ '')'',
      entry @ [(''response_status'', LInt status), (''response_bytes'', LInt bytes), (''response_elapsed_ms'', LMillis elapsed)])"

text \<open>A panic's value is printed into the entry (\<open>v\<close> is its text).\<close>

definition entry_Panic :: "log_fields \<Rightarrow> string \<Rightarrow> log_fields" where
  "entry_Panic entry v = entry @ [(''stacktrace'', LString ''#''), (''error'', LString v)]"

text \<open>
  The middleware: the entry of the request is logged, the request is served with the entry in its
  context, and the response is logged, whatever its status.
\<close>

definition LogEntry_Handler ::
    "string \<Rightarrow> string \<Rightarrow> request \<Rightarrow> int \<Rightarrow> int \<Rightarrow> int \<Rightarrow> (log_level \<times> string \<times> log_fields) list" where
  "LogEntry_Handler provider proto r status bytes elapsed =
     (let entry = NewLogEntry provider r in
      [(LInfo, Method r @ '' - '' @ Path (req_URL r), WithRequestLogFields entry proto r),
       entry_Write entry status bytes elapsed])"

section \<open>What a log reveals\<close>

lemma relevant_names_eq: "relevant_names cs = map fst (filter (\<lambda>(name, v). isRelevantCookie name \<and> v \<noteq> []) cs)"
  by (induction cs rule: relevant_names.induct) auto

lemma nonEmptyRequestCookies_cong:
  assumes "list_all2 (\<lambda>(n, v) (n', v'). n = n' \<and> (isRelevantCookie n \<longrightarrow> (v = []) = (v' = []))) (Cookies r) (Cookies r')"
  shows "nonEmptyRequestCookies r = nonEmptyRequestCookies r'"
proof -
  have "relevant_names cs = relevant_names cs'"
    if "list_all2 (\<lambda>(n, v) (n', v'). n = n' \<and> (isRelevantCookie n \<longrightarrow> (v = []) = (v' = []))) cs cs'" for cs cs'
    using that by (induction cs cs' rule: list_all2_induct) (auto split: prod.splits)
  then show ?thesis using assms by (simp add: nonEmptyRequestCookies_def)
qed


definition referring :: "string \<Rightarrow> string \<Rightarrow> request" where
  "referring referer session = \<lparr> Method = ''GET'', req_URL = empty_url\<lparr> Path := ''/'' \<rparr>, req_Host = ''app'', Header = [''Referer'' \<mapsto> referer],
     Cookies = [(cookie_Session, session)], ctx_AccessToken = None, ctx_Ingress = None, ctx_Path = None, ctx_RequestID = [] \<rparr>"


text \<open>
  The fragment of a referer is logged: only the form it had in the header is cleared before
  printing, and the printed form is then made from the decoded fragment, which stays.
\<close>

theorem referer_fragment_is_logged:
  assumes "Parse (Referer r) = Inr u" "Fragment u \<noteq> []"
  shows "\<exists>p. logged_referer r = p @ ''#'' @ escape encodeFragment (Fragment u)"
  using assms by (simp add: logged_referer_def URL_String_def EscapedFragment_def Let_def)

theorem referer_fragment_is_logged_witness:
  "logged_referer (referring ''https://app/p?code=1#id_token=2'' []) = ''https://app/p#id_token=2''
   \<and> (\<exists>p. logged_referer (referring ''https://app/p?code=1#id_token=2'' []) = p @ ''#id_token=2'')"
proof -
  define r where "r = referring ''https://app/p?code=1#id_token=2'' []"
  have "case Parse (Referer r) of Inr u \<Rightarrow> Fragment u \<noteq> [] \<and> escape encodeFragment (Fragment u) = ''id_token=2'' | Inl _ \<Rightarrow> False"
    unfolding r_def by code_simp
  then obtain u where u: "Parse (Referer r) = Inr u" "Fragment u \<noteq> []" "escape encodeFragment (Fragment u) = ''id_token=2''"
    by (cases "Parse (Referer r)") auto
  have "logged_referer r = ''https://app/p#id_token=2''" unfolding r_def by code_simp
  moreover have "\<exists>p. logged_referer r = p @ ''#id_token=2''"
    using referer_fragment_is_logged[OF u(1,2)] unfolding u(3) append_Cons append_Nil .
  ultimately show ?thesis unfolding r_def by blast
qed

end
