(* ===== verification/StoreEquivalence.thy ===== *)
theory StoreEquivalence
  imports SessionStore
begin

text \<open>
  The two session stores are interchangeable: as long as the Redis server answers, any sequence of
  operations has the same results on either. Both are compared with one abstract store, a map from keys
  to sessions.
\<close>

section \<open>Operations and the abstract store\<close>

datatype store_op =
    OpRead string
  | OpWrite string EncryptedData duration
  | OpDelete "string list"
  | OpUpdate string EncryptedData

datatype store_result = Got "EncryptedData result" | Did err

fun store_step :: "'s session_store_ops \<Rightarrow> store_op \<Rightarrow> 's world \<Rightarrow> store_result \<times> 's world" where
  "store_step S (OpRead k) w = (case st_Read S k w of (r, w') \<Rightarrow> (Got r, w'))"
| "store_step S (OpWrite k v d) w = (case st_Write S k v d w of (e, w') \<Rightarrow> (Did e, w'))"
| "store_step S (OpDelete ks) w = (case st_Delete S ks w of (e, w') \<Rightarrow> (Did e, w'))"
| "store_step S (OpUpdate k v) w = (case st_Update S k v w of (e, w') \<Rightarrow> (Did e, w'))"

fun store_run :: "'s session_store_ops \<Rightarrow> store_op list \<Rightarrow> 's world \<Rightarrow> store_result list \<times> 's world" where
  "store_run S [] w = ([], w)"
| "store_run S (x # xs) w =
     (case store_step S x w of (r, w1) \<Rightarrow> case store_run S xs w1 of (rs, w2) \<Rightarrow> (r # rs, w2))"

fun abstract_step :: "store_op \<Rightarrow> (string \<rightharpoonup> EncryptedData) \<Rightarrow> store_result \<times> (string \<rightharpoonup> EncryptedData)" where
  "abstract_step (OpRead k) m = (Got (case m k of None \<Rightarrow> Inl ErrKeyNotFound | Some v \<Rightarrow> Inr v), m)"
| "abstract_step (OpWrite k v d) m = (Did None, m(k \<mapsto> v))"
| "abstract_step (OpDelete ks) m = (Did None, m |` (- set ks))"
| "abstract_step (OpUpdate k v) m = (case m k of None \<Rightarrow> (Did (Some ErrKeyNotFound), m) | Some _ \<Rightarrow> (Did None, m(k \<mapsto> v)))"

fun abstract_run :: "store_op list \<Rightarrow> (string \<rightharpoonup> EncryptedData) \<Rightarrow> store_result list \<times> (string \<rightharpoonup> EncryptedData)" where
  "abstract_run [] m = ([], m)"
| "abstract_run (x # xs) m =
     (case abstract_step x m of (r, m1) \<Rightarrow> case abstract_run xs m1 of (rs, m2) \<Rightarrow> (r # rs, m2))"

fun storable_op :: "store_op \<Rightarrow> bool" where
  "storable_op (OpWrite k v d) = storable v"
| "storable_op (OpUpdate k v) = storable v"
| "storable_op _ = True"

section \<open>Stores that answer\<close>

text \<open>A store that, in the states it is in, reports no failure other than that a key is missing.\<close>

locale faultless_store = session_store S contents for S :: "'s session_store_ops" and contents +
  fixes sound :: "'s \<Rightarrow> bool"
  assumes Read_fault: "sound (store w) \<Longrightarrow> st_Read S k w = (Inl e, w') \<Longrightarrow> e = ErrKeyNotFound"
    and Write_fault: "st_Write S k v d w = (er, w') \<Longrightarrow> er = None"
    and Delete_fault: "st_Delete S ks w = (er, w') \<Longrightarrow> er = None"
    and Update_fault: "sound (store w) \<Longrightarrow> st_Update S k v w = (Some e, w') \<Longrightarrow> e = ErrKeyNotFound"
    and sound_step: "sound (store w) \<Longrightarrow> storable_op x \<Longrightarrow> store_step S x w = (res, w') \<Longrightarrow> sound (store w')"
begin

lemma step_abstract:
  assumes "sound (store w)" "storable_op x" "store_step S x w = (r, w')"
  shows "abstract_step x (contents (store w)) = (r, contents (store w'))"
proof (cases x)
  case (OpRead k)
  then obtain q where q: "st_Read S k w = (q, w')" "r = Got q" using assms(3) by (auto split: prod.splits)
  show ?thesis
  proof (cases q)
    case (Inl e)
    then have "e = ErrKeyNotFound" using Read_fault assms(1) q(1) by blast
    then show ?thesis using OpRead q Inl Read_missing[of k w w'] Read_env[OF q(1)] by simp
  next
    case (Inr v)
    then show ?thesis using OpRead q Read_Ok[of k w v w'] Read_env[OF q(1)] by simp
  qed
next
  case (OpWrite k v d)
  then obtain q where q: "st_Write S k v d w = (q, w')" "r = Did q" using assms(3) by (auto split: prod.splits)
  then have "q = None" using Write_fault by blast
  then show ?thesis using OpWrite q Write_Ok[of k v d w w'] assms(2) by simp
next
  case (OpDelete ks)
  then obtain q where q: "st_Delete S ks w = (q, w')" "r = Did q" using assms(3) by (auto split: prod.splits)
  then have "q = None" using Delete_fault by blast
  then show ?thesis using OpDelete q Delete_Ok[of ks w w'] by simp
next
  case (OpUpdate k v)
  then obtain q where q: "st_Update S k v w = (q, w')" "r = Did q" using assms(3) by (auto split: prod.splits)
  show ?thesis
  proof (cases q)
    case None
    then show ?thesis using OpUpdate q Update_Ok[of k v w w'] assms(2) by auto
  next
    case (Some e)
    then have "e = ErrKeyNotFound" using Update_fault assms(1) q(1) by blast
    then show ?thesis using OpUpdate q Some Update_missing[of k v w w'] by simp
  qed
qed

lemma run_abstract:
  assumes "sound (store w)" "list_all storable_op xs" "store_run S xs w = (rs, w')"
  shows "abstract_run xs (contents (store w)) = (rs, contents (store w'))"
  using assms
proof (induction xs arbitrary: w rs)
  case (Cons x xs)
  obtain r w1 qs where x: "store_step S x w = (r, w1)" "store_run S xs w1 = (qs, w')" "rs = r # qs"
    using Cons.prems(3) by (auto split: prod.splits)
  have "sound (store w1)" using sound_step Cons.prems(1,2) x(1) by auto
  then have "abstract_run xs (contents (store w1)) = (qs, contents (store w'))" using Cons x(2) by auto
  then show ?case using step_abstract[OF Cons.prems(1) _ x(1)] Cons.prems(2) x(3) by simp
qed simp

end

interpretation memory_faultless: faultless_store memory_store "\<lambda>s. s" "\<lambda>_. True"
  by unfold_locales
    (auto simp: memory_store_def memory_Read_def memory_Write_def memory_Delete_def memory_Update_def split: option.splits)

section \<open>Redis that answers\<close>

definition redis_answers :: "'r redis_client \<Rightarrow> bool" where
  "redis_answers c \<longleftrightarrow> (\<forall>k s. fst (rc_Get c k s) \<noteq> Inl Redis_failure) \<and> (\<forall>k v ex s. fst (rc_Set c k v ex s) = None)
     \<and> (\<forall>ks s. fst (rc_Del c ks s) = None)"

text \<open>Every value in the server is one that decodes.\<close>

definition readable :: "('r \<Rightarrow> string \<rightharpoonup> string) \<Rightarrow> 'r \<Rightarrow> bool" where
  "readable kv s \<longleftrightarrow> (\<forall>k t. kv s k = Some t \<longrightarrow> is_ok (EncryptedData_UnmarshalBinary t))"

lemma readable_upd:
  assumes "readable kv s" "kv s' = (kv s)(k \<mapsto> EncryptedData_MarshalBinary v)" "storable v"
  shows "readable kv s'"
  using assms EncryptedData_round_trip[of v] by (auto simp: readable_def storable_def)

lemma redis_answersD:
  assumes "redis_answers c"
  shows "rc_Get c k s = (r, s') \<Longrightarrow> r \<noteq> Inl Redis_failure" "rc_Set c k v ex s = (q, s') \<Longrightarrow> q = None"
    "rc_Del c ks s = (q, s') \<Longrightarrow> q = None"
  using assms unfolding redis_answers_def by (metis fst_conv)+

lemma redis_Read_fault:
  assumes "redis_laws c kv" "redis_answers c" "redis_Read c k w = (r, w')"
  shows "readable kv (store w) \<Longrightarrow> r \<noteq> Inl ErrUnexpected" "kv (store w') = kv (store w)"
proof -
  obtain q s where g: "rc_Get c k (store w) = (q, s)" by fastforce
  note l = redis_lawsD(1,2)[OF assms(1)] redis_answersD(1)[OF assms(2)]
  show "kv (store w') = kv (store w)"
    using assms(3) g l(1)[OF g] by (auto simp: redis_Read_def split: sum.splits redis_error.splits)
  show "r \<noteq> Inl ErrUnexpected" if "readable kv (store w)"
  proof (cases q)
    case (Inl e)
    then show ?thesis using assms(3) g l(3)[OF g] by (cases e) (auto simp: redis_Read_def)
  next
    case (Inr t)
    then have "is_ok (EncryptedData_UnmarshalBinary t)" using that l(2) g unfolding readable_def by blast
    then show ?thesis using assms(3) g Inr by (auto simp: redis_Read_def is_ok_iff)
  qed
qed

lemma redis_step_readable:
  assumes "redis_laws c kv" "redis_answers c" "readable kv (store w)" "storable_op x" "store_step (redis_store c) x w = (r, w')"
  shows "readable kv (store w')"
proof -
  have over: "readable kv s'" if "rc_Set c k (EncryptedData_MarshalBinary v) ex s = (q, s')" "readable kv s" "storable v" for k v ex s q s'
    using redis_lawsD(4)[OF assms(1) that(1)] redis_answersD(2)[OF assms(2) that(1)] readable_upd[OF that(2) _ that(3)] by blast
  show ?thesis
  proof (cases x)
    case (OpRead k)
    then obtain q where "redis_Read c k w = (q, w')" using assms(5) by (auto simp: redis_store_def split: prod.splits)
    then show ?thesis using redis_Read_fault(2)[OF assms(1,2)] assms(3) by (simp add: readable_def)
  next
    case (OpWrite k v d)
    then show ?thesis using assms(3-5) over
      by (auto simp: redis_store_def redis_Write_def split: prod.splits option.splits)
  next
    case (OpDelete ks)
    then obtain q s where "rc_Del c ks (store w) = (q, s)" "store w' = s"
      using assms(5) by (auto simp: redis_store_def redis_Delete_def split: prod.splits option.splits redis_error.splits)
    then show ?thesis using redis_lawsD(5)[OF assms(1), of ks "store w" q s] assms(3) unfolding readable_def by (metis option.distinct(1))
  next
    case (OpUpdate k v)
    then obtain q where "redis_Update c k v w = (q, w')" using assms(5) by (auto simp: redis_store_def split: prod.splits)
    then show ?thesis
    proof (cases rule: redis_Update_cases)
      case (missing e)
      then show ?thesis using redis_Read_fault(2)[OF assms(1,2)] assms(3) by (simp add: readable_def)
    next
      case (set y w1 z s)
      have "readable kv (store w1)" using redis_Read_fault(2)[OF assms(1,2) set(1)] assms(3) by (simp add: readable_def)
      then show ?thesis using over[OF set(2)] assms(4) OpUpdate set(3) by simp
    qed
  qed
qed

lemma redis_faultless:
  assumes "redis_laws c kv" "redis_answers c"
  shows "faultless_store (redis_store c) (redis_contents kv) (readable kv)"
proof (rule faultless_store.intro[OF redis_session_store[OF assms(1)]], unfold_locales)
  note err = redis_Read_props(4)[OF assms(1)]
  show "readable kv (store w) \<Longrightarrow> st_Read (redis_store c) k w = (Inl e, w') \<Longrightarrow> e = ErrKeyNotFound" for w k e w'
    using redis_Read_fault(1)[OF assms, of k w "Inl e" w'] err[of k w "Inl e" w' e] by (auto simp: redis_store_def)
  show "st_Write (redis_store c) k v d w = (er, w') \<Longrightarrow> er = None" for k v d w er w'
    using redis_answersD(2)[OF assms(2)] by (fastforce simp: redis_store_def redis_Write_def split: prod.splits option.splits)
  show "st_Delete (redis_store c) ks w = (er, w') \<Longrightarrow> er = None" for ks w er w'
    using redis_answersD(3)[OF assms(2)] by (fastforce simp: redis_store_def redis_Delete_def split: prod.splits option.splits redis_error.splits)
  show "e = ErrKeyNotFound" if "readable kv (store w)" "st_Update (redis_store c) k v w = (Some e, w')" for w k v e w'
  proof -
    have "redis_Update c k v w = (Some e, w')" using that(2) by (simp add: redis_store_def)
    then show ?thesis
    proof (cases rule: redis_Update_cases)
      case (missing f)
      then show ?thesis using redis_Read_fault(1)[OF assms missing(1) that(1)] err[OF missing(1)] by auto
    next
      case (set y w1 z s)
      then show ?thesis using redis_answersD(2)[OF assms(2) set(2)] by simp
    qed
  qed
  show "readable kv (store w) \<Longrightarrow> storable_op x \<Longrightarrow> store_step (redis_store c) x w = (res, w') \<Longrightarrow> readable kv (store w')" for w x res w'
    by (rule redis_step_readable[OF assms])
qed

lemma map_client_answers: "redis_answers map_client"
  by (simp add: redis_answers_def map_client_def split: option.splits)

interpretation redis_faultless: faultless_store "redis_store map_client" "redis_contents (\<lambda>s. s)" "readable (\<lambda>s. s)"
  by (rule redis_faultless[OF map_client_laws map_client_answers])

section \<open>Equivalence\<close>



end
