(* ===== verification/SessionExamples.thy ===== *)
theory SessionExamples
  imports SessionErrors
begin

text \<open>
  A concrete handler on the in-memory store, with a session in it, on which the properties of the
  session handler are evaluated.
\<close>

section \<open>A handler and a session\<close>

definition example_handler :: "memory session_handler" where
  "example_handler = \<lparr> h_cfg = \<lparr> Inactivity = True, InactivityTimeout = 30 * Minute, MaxLifetime = 10 * Hour, cfg_Refresh = True \<rparr>,
     h_client = example_client, h_crypter = example_crypter, h_openidCfg = example_openid, h_store = memory_store \<rparr>"

lemma example_handler_simps [simp]:
  "h_store example_handler = memory_store" "h_crypter example_handler = example_crypter" "h_client example_handler = example_client"
  "Inactivity (h_cfg example_handler)" "InactivityTimeout (h_cfg example_handler) = 30 * Minute" "cfg_Refresh (h_cfg example_handler)"
  "h_openidCfg example_handler = example_openid"
  by (simp_all add: example_handler_def)

lemma example_handling: "session_handling example_handler (\<lambda>s. s)"
  using memory_handling.session_handling_axioms[of example_handler] by (simp add: example_handler_def)

definition example_tokens :: tokens where
  "example_tokens = \<lparr> tk_AccessToken = ''access'', tk_Expiry = Hour, tk_IDToken = NewToken ''code''
     \<lparr> lib_claims = [''sid'' \<mapsto> ClaimString ''sid-1'', ''jti'' \<mapsto> ClaimString ''jti''], lib_expiration = Hour \<rparr>,
     tk_RefreshToken = ''refresh'', tk_TokenType = ''Bearer'' \<rparr>"

definition example_key :: string where "example_key = Key example_handler ''sid-1''"

lemma quiet_world_simps [simp]:
  "clock (quiet_world t s) n = t" "ticks (quiet_world t s) = 0" "entropy_ok (quiet_world t s) n" "draws (quiet_world t s) = 0"
  "backoffs (quiet_world t s) n = Stop" "store (quiet_world t s) = s" "calls (quiet_world t s) = 0"
  "waits (quiet_world t s) n = WaitTick id WaitTimeout" "remote (quiet_world t s) n req = Inl (ErrOther ''connection refused'')"
  by (simp_all add: quiet_world_def)

lemma retry_Do_Stop:
  "backoffs w (dos w) = Stop \<Longrightarrow> f (w\<lparr> dos := Suc (dos w) \<rparr>) = (Success a, w') \<Longrightarrow> retry_Do f w = (Inr a, w')"
  by (simp add: retry_Do_def)

lemma memory_read_session:
  assumes "store w k = Some e" "backoffs w (dos w) = Stop" "Data_Decrypt example_crypter e = Inr d"
  shows "GetForKey example_handler k w = (Inr d, w\<lparr> dos := Suc (dos w) \<rparr>)"
proof -
  have "retry_Do (read_attempt example_handler k) w = (Inr e, w\<lparr> dos := Suc (dos w) \<rparr>)"
    by (rule retry_Do_Stop[OF assms(2)]) (simp add: read_attempt_Success memory_store_def memory_Read_def assms(1))
  then show ?thesis by (simp add: GetForKey_def assms(3))
qed

text \<open>A request that presents a session's key, and an entry of the store that holds the example's data.\<close>

lemma example_session:
  obtains r e where "GetKey example_handler r = Inr example_key" "Data_Decrypt example_crypter e = Inr example_data" "storable e"
proof -
  have "entropy_ok (quiet_world 0 ()) (draws (quiet_world 0 ()))" by simp
  note total = example_crypter_ok this
  obtain e w' where e: "Data_Encrypt example_crypter example_data (quiet_world 0 ()) = (Inr e, w')"
    using Data_Encrypt_total[OF total example_data_valid(2)] .
  obtain ct w'' where ct: "Crypter_Encrypt example_crypter example_key (quiet_world 0 ()) = (Inr ct, w'')"
    using Crypter_Encrypt_total[OF total] .
  let ?r = "(example_request ''/'' [])\<lparr> Cookies := [(cookie_Session, EncodeToString StdEncoding ct)] \<rparr>"
  have "Crypter_Decrypt example_crypter ct = Inr example_key" using ct by (rule aes_gcm.Decrypt_Encrypt)
  then have "GetKey example_handler ?r = Inr example_key"
    by (simp add: GetKey_def GetDecrypted_def cookie_Get_def Request_Cookie_def Cookie_Decrypt_def)
  moreover have "Data_Decrypt example_crypter e = Inr example_data"
    using session_data.unseal_seal[OF e example_data_valid(1)] .
  moreover have "storable e" using Data_Encrypt_valid[OF e] by (simp add: storable_def)
  ultimately show thesis by (rule that)
qed

section \<open>Creating and destroying\<close>

lemma example_id: "IDOrGenerate example_handler r example_tokens w = (Inr ''sid-1'', w)"
  by (simp add: IDOrGenerate_def NewSessionID_def GetSidClaim_def GetStringClaim_def example_tokens_def NewToken_def SidClaim_def)

lemma example_tokens_valid: "valid_Data (NewData ''sid-1'' example_tokens None)"
  by (simp add: example_tokens_def) code_simp

lemma example_create:
  assumes "GetSidClaim (tk_IDToken t) = Inr ''sid-1''" "tk_Expiry t = Hour" "life \<in> {Hour, 10 * Hour}"
    and "clock w = (\<lambda>_. 0)" "\<And>n. entropy_ok w n" "\<And>n. backoffs w n = Stop"
  obtains w' where "Handler_Create example_handler r t life w = (Inr example_key, w')"
proof -
  have i: "IDOrGenerate example_handler r t w = (Inr ''sid-1'', w)"
    using assms(1) by (simp add: IDOrGenerate_def NewSessionID_def)
  obtain md w2 where md: "new_metadata example_handler t life w = (md, w2)"
    by (cases "new_metadata example_handler t life w")
  have "md = created_metadata example_handler t life (clock w) (ticks w)"
    using new_metadata_eq[of example_handler t life w] md by simp
  then have m: "marshallable (data_Metadata (NewData ''sid-1'' t (Some md)))"
    using assms(2-4) by (auto simp: NewData_def created_metadata_def marshallable_def Time_Add_def time_Until_def Time_Sub_def
        duration_consts day_ns_def maxDuration_def minDuration_def)
  have w2: "\<And>n. entropy_ok w2 n" "\<And>n. backoffs w2 n = Stop"
    using new_metadata_env[OF md] assms(5,6) by (simp_all add: same_env_def)
  obtain e w3 where e: "Data_Encrypt example_crypter (NewData ''sid-1'' t (Some md)) w2 = (Inr e, w3)"
    using Data_Encrypt_total[OF example_crypter_ok w2(1) m] .
  have "backoffs w3 (dos w3) = Stop" using Data_Encrypt_env[OF e] w2(2) by (simp add: same_env_def)
  then have "\<exists>w4. retry_Do (write_attempt example_handler example_key e life) w3 = (Inr (), w4)"
    by (simp add: retry_Do_def write_attempt_def memory_store_def memory_Write_def)
  then obtain w4 where "retry_Do (write_attempt example_handler example_key e life) w3 = (Inr (), w4)" ..
  then show thesis using that[of w4] md e i by (simp add: Handler_Create_def example_key_def Let_def)
qed

lemma example_tokens_simps [simp]: "GetSidClaim (tk_IDToken example_tokens) = Inr ''sid-1''" "tk_Expiry example_tokens = Hour"
  by (simp_all add: GetSidClaim_def GetStringClaim_def example_tokens_def NewToken_def SidClaim_def)

theorem create_then_get_witness:
  "\<exists>w'. Handler_Create example_handler (example_request ''/'' []) example_tokens (10 * Hour) (quiet_world 0 Map.empty)
      = (Inr example_key, w')
   \<and> fst (GetForKey example_handler example_key w') \<in>
       {Inr (NewData ''sid-1'' example_tokens (Some (created_metadata example_handler example_tokens (10 * Hour) (\<lambda>_. 0) 0))),
        Inl ErrContext, Inl ErrUnexpected}"
proof -
  let ?w = "quiet_world 0 Map.empty :: memory world"
  obtain w' where c: "Handler_Create example_handler (example_request ''/'' []) example_tokens (10 * Hour) ?w = (Inr example_key, w')"
    by (rule example_create[of example_tokens "10 * Hour" ?w]) (simp_all add: quiet_world_def)
  have "clock ?w = (\<lambda>_. 0)" by (rule ext) simp
  then show ?thesis
    using c create_then_get[OF example_handling c example_id example_tokens_valid] by auto
qed

theorem destroy_then_get_witness:
  "\<forall>e e'. \<exists>w'. DestroyForID example_handler ''sid-1'' (quiet_world 0 [Key example_handler ''sid-1'' \<mapsto> e, Key example_handler ''sid-2'' \<mapsto> e'])
      = (None, w') \<and> store w' (Key example_handler ''sid-2'') = Some e'"
proof (intro allI)
  fix e e' :: EncryptedData
  let ?w = "quiet_world 0 [Key example_handler ''sid-1'' \<mapsto> e, Key example_handler ''sid-2'' \<mapsto> e'] :: memory world"
  obtain w' where d: "DestroyForID example_handler ''sid-1'' ?w = (None, w')"
    by (simp add: DestroyForID_def destroyForKey_def retry_Do_def delete_attempt_def memory_store_def memory_Delete_def)
  then show "\<exists>w'. DestroyForID example_handler ''sid-1'' ?w = (None, w') \<and> store w' (Key example_handler ''sid-2'') = Some e'"
    using destroy_then_get[OF example_handling d] by (simp add: Key_inject)
qed

theorem session_key_injective_witness:
  "Name (Provider (h_openidCfg example_handler)) = Name (Provider (h_openidCfg example_handler))
    \<and> ClientID (Client (h_openidCfg example_handler)) = ClientID (Client (h_openidCfg example_handler)) \<and> ''s'' = ''s''"
proof (rule session_key_injective)
  show "Key example_handler ''s'' = Key example_handler ''s''" ..
qed (simp_all add: example_openid_def Name_def ClientID_def example_config_def)

section \<open>Refreshing\<close>

text \<open>A world with the example's session in the store and a provider that gives one fixed answer.\<close>

definition answering :: "http_in result \<Rightarrow> time \<Rightarrow> EncryptedData \<Rightarrow> memory world" where
  "answering answer t e = (quiet_world t [example_key \<mapsto> e])\<lparr> remote := \<lambda>_ _. answer \<rparr>"

lemma answering_simps [simp]:
  "clock (answering a t e) n = t" "ticks (answering a t e) = 0" "entropy_ok (answering a t e) n"
  "backoffs (answering a t e) n = Stop" "store (answering a t e) = [example_key \<mapsto> e]" "calls (answering a t e) = 0"
  "waits (answering a t e) n = WaitTick id WaitTimeout" "remote (answering a t e) n req = a"
  by (simp_all add: answering_def)

text \<open>The answer of a provider that issues a new access token and omits the refresh token.\<close>

definition new_token_answer :: "http_in result" where
  "new_token_answer = Inr \<lparr> in_status = 200, in_body = Inr (json_print (JObj [(''access_token'', JStr ''new''),
     (''expires_in'', JNum ''3600'')])) \<rparr>"

definition new_token_response :: TokenResponse where
  "new_token_response = empty_TokenResponse\<lparr> tr_AccessToken := ''new'', tr_ExpiresIn := 3600 \<rparr>"

lemma new_token_answer_decodes: "handle_token_response (the_Inr_answer) = Inr new_token_response"
  if "new_token_answer = Inr the_Inr_answer"
proof -
  have "json_Unmarshal TokenResponse_fields (json_print (JObj [(''access_token'', JStr ''new''), (''expires_in'', JNum ''3600'')]))
      empty_TokenResponse = Inr new_token_response" by code_simp
  then show ?thesis using that by (auto simp: new_token_answer_def handle_token_response_def)
qed

lemma example_grant:
  assumes "clock w = (\<lambda>_. t)" "remote w = (\<lambda>_ _. Inr a)"
  obtains w' where "RefreshGrant example_ext example_client rt w = (handle_token_response a, w')"
proof -
  have "is_ok (Parse ''https://idp/token'')" by code_simp
  then have "\<exists>u. Parse ''https://idp/token'' = Inr u" by (simp add: is_ok_iff)
  then show thesis
    using that assms
    by (auto simp: RefreshGrant_def MakeAssertion_def example_ext_def example_client_def NewClient_def example_openid_def
        TokenEndpoint_def Let_def time_Now_def http_Do_def split: sum.splits)
qed

lemma example_cooldown: "RefreshCooldown (data_Metadata example_data) = Minute"
  by (simp add: example_data_def RefreshCooldown_def TokenLifetime_def NewMetadata_def Time_Add_def Time_Sub_def interval_consts
      duration_consts maxDuration_def minDuration_def)

lemma example_timeout: "TimeoutAt (md_Session (data_Metadata example_data)) = 0"
  by (simp add: example_data_def)

text \<open>
  The example's session under refresh, up to the grant: the session is off its cooldown, the lock is
  free, and the session read again under it is the same.
\<close>

lemma example_refresh:
  assumes "Data_Decrypt example_crypter e = Inr example_data" "w = answering (Inr a) (58 * Minute) e"
  obtains w2 w3 w4 where "acquire_lock example_handler example_key (snd (canRefresh example_handler example_data w)) = (Inr [], w2)"
    "canRefresh example_handler example_data w = (True, w\<lparr> ticks := 1 \<rparr>)" "same_env w w3" "store w3 = store w"
    "retry_Do (grant_attempt example_ext example_handler (RefreshToken example_data)) w3
       = (case handle_token_response a of Inr resp \<Rightarrow> Inr resp | Inl e \<Rightarrow> Inl e, w4)"
    "GetForKey example_handler example_key w2 = (Inr example_data, w2\<lparr> dos := Suc (dos w2) \<rparr>)"
    "canRefresh example_handler example_data (w2\<lparr> dos := Suc (dos w2) \<rparr>) = (True, w3)"
    "isTimedOut example_handler example_data w3 = (False, w3)"
proof -
  have can: "canRefresh example_handler example_data v = (True, v\<lparr> ticks := Suc (ticks v) \<rparr>)" if "clock v = (\<lambda>_. 58 * Minute)" for v :: "memory world"
    using that example_cooldown
    by (simp add: canRefresh_def HasRefreshToken_def example_data_def IsRefreshOnCooldown_iff time_Now_def duration_consts)
  have cl: "clock w = (\<lambda>_. 58 * Minute)" by (rule ext) (simp add: assms(2))
  define w2 where "w2 = w\<lparr> ticks := 1, locks := Suc (locks w) \<rparr>"
  define w3 where "w3 = w2\<lparr> dos := Suc (dos w2), ticks := 2 \<rparr>"
  have w2: "acquire_lock example_handler example_key (w\<lparr> ticks := 1 \<rparr>) = (Inr [], w2)"
    by (simp add: acquire_lock_def w2_def assms(2) memory_store_def NoOpLock_Acquire_def)
  have r: "remote (w3\<lparr> dos := n \<rparr>) = (\<lambda>_ _. Inr a)" "clock (w3\<lparr> dos := n \<rparr>) = (\<lambda>_. 58 * Minute)" for n
    using cl by (simp_all add: w3_def w2_def assms(2) fun_eq_iff)
  obtain w4 where g: "RefreshGrant example_ext example_client (RefreshToken example_data) (w3\<lparr> dos := Suc (dos w3) \<rparr>)
      = (handle_token_response a, w4)"
    using example_grant[OF r(2,1)] .
  show thesis
  proof (rule that[of w2 w3 w4])
    show "retry_Do (grant_attempt example_ext example_handler (RefreshToken example_data)) w3
       = (case handle_token_response a of Inr resp \<Rightarrow> Inr resp | Inl e \<Rightarrow> Inl e, w4)"
      using g by (simp add: retry_Do_def grant_attempt_def w3_def w2_def assms(2) split: sum.splits)
  qed (use w2 can[OF cl] can[of "w2\<lparr> dos := Suc (dos w2) \<rparr>"] memory_read_session[of w2 example_key e example_data] assms cl
      in \<open>auto simp: w2_def w3_def same_env_def isTimedOut_def example_timeout Time_IsZero_def\<close>)
qed

lemma example_updated:
  assumes "refreshed_data example_handler new_token_response example_data w = (d', w')"
    and "clock w = (\<lambda>_. 58 * Minute)" "\<And>n. entropy_ok w n" "\<And>n. backoffs w n = Stop" "store w example_key = Some e"
  obtains w'' where "Handler_Update example_handler example_key d' w' = (None, w'')"
proof -
  have "marshallable (data_Metadata d')"
    using assms(1,2)
    by (auto simp: refreshed_data_def time_Now_def example_data_def new_token_response_def empty_TokenResponse_def
        Metadata_Refresh_def ExtendTimeout_def NewMetadata_def marshallable_def Time_Add_def dur_mul_def wrap64_def
        duration_consts day_ns_def)
  moreover have w': "entropy_ok w' (draws w')" "\<And>n. backoffs w' n = Stop" "store w' example_key = Some e"
    using refreshed_data_env[OF assms(1)] assms(3-5) by (simp_all add: same_env_def)
  ultimately obtain c v where c: "Data_Encrypt example_crypter d' w' = (Inr c, v)"
    using Data_Encrypt_total[OF example_crypter_ok] by metis
  have "backoffs v (dos v) = Stop" "store v example_key = Some e"
    using Data_Encrypt_env[OF c] w'(2,3) by (simp_all add: same_env_def)
  then have "\<exists>u. retry_Do (update_attempt example_handler example_key c) v = (Inr (), u)"
    by (simp add: retry_Do_def update_attempt_def memory_store_def memory_Update_def memory_Read_def)
  then show thesis using that c by (auto simp: Handler_Update_def)
qed

lemma example_refreshed:
  assumes "Data_Decrypt example_crypter e = Inr example_data"
  obtains d' w' where "Handler_Refresh example_ext example_handler example_key example_data
      (answering new_token_answer (58 * Minute) e) = (Inr d', w')"
    "\<exists>v v'. refreshed_data example_handler new_token_response example_data v = (d', v')"
proof -
  obtain a where a: "new_token_answer = Inr a" by (simp add: new_token_answer_def)
  define w where "w = answering new_token_answer (58 * Minute) e"
  have w: "w = answering (Inr a) (58 * Minute) e" by (simp add: w_def a)
  obtain w2 w3 w4 where s: "acquire_lock example_handler example_key (snd (canRefresh example_handler example_data w)) = (Inr [], w2)"
      "canRefresh example_handler example_data w = (True, w\<lparr> ticks := 1 \<rparr>)" "same_env w w3" "store w3 = store w"
      "retry_Do (grant_attempt example_ext example_handler (RefreshToken example_data)) w3
         = (case handle_token_response a of Inr resp \<Rightarrow> Inr resp | Inl e \<Rightarrow> Inl e, w4)"
      "GetForKey example_handler example_key w2 = (Inr example_data, w2\<lparr> dos := Suc (dos w2) \<rparr>)"
      "canRefresh example_handler example_data (w2\<lparr> dos := Suc (dos w2) \<rparr>) = (True, w3)"
      "isTimedOut example_handler example_data w3 = (False, w3)"
    using assms w by (rule example_refresh)
  have g: "retry_Do (grant_attempt example_ext example_handler (RefreshToken example_data)) w3 = (Inr new_token_response, w4)"
    using s(5) new_token_answer_decodes[OF a] by simp
  obtain d' w5 where d': "refreshed_data example_handler new_token_response example_data w4 = (d', w5)"
    by (cases "refreshed_data example_handler new_token_response example_data w4")
  have env: "same_env w w4" "store w4 = store w" using s(3,4) grants_env[OF g] same_env_trans by auto
  then have w4: "clock w4 = clock w" "entropy_ok w4 = entropy_ok w" "backoffs w4 = backoffs w" "store w4 example_key = Some e"
    by (simp_all add: same_env_def w)
  have "clock w = (\<lambda>_. 58 * Minute)" by (rule ext) (simp add: w)
  then obtain w6 where u: "Handler_Update example_handler example_key d' w5 = (None, w6)"
    using example_updated[OF d' _ _ _ w4(4)] w4(1-3) by (auto simp: w)
  have "refresh_locked example_ext example_handler example_key w2 = (Inr d', w6)"
    using s(6-8) g d' u by (simp add: refresh_locked_def)
  moreover obtain z w7 where z: "st_Release (h_store example_handler) example_key [] w6 = (z, w7)"
    by (cases "st_Release (h_store example_handler) example_key [] w6")
  ultimately have "Handler_Refresh example_ext example_handler example_key example_data w = (Inr d', w7)"
    using s(1,2) z by (simp add: Handler_Refresh_def)
  then show thesis using that d' unfolding w_def by blast
qed


theorem refresh_token_lost_witness:
  "\<exists>d' w'. refreshed_data example_handler new_token_response example_data (quiet_world 0 Map.empty) = (d', w')
     \<and> RefreshToken example_data = ''refresh'' \<and> RefreshToken d' = []"
proof -
  obtain d' w' where r: "refreshed_data example_handler new_token_response example_data (quiet_world 0 Map.empty) = (d', w')"
    by (cases "refreshed_data example_handler new_token_response example_data (quiet_world 0 Map.empty)")
  have "tr_RefreshToken new_token_response = []" by (simp add: new_token_response_def empty_TokenResponse_def)
  from refresh_token_lost[OF r this] show ?thesis using r by (simp add: example_data_def)
qed

section \<open>Errors\<close>

definition refusal :: http_in where "refusal = \<lparr> in_status = 400, in_body = Inr [] \<rparr>"

lemma example_refused:
  assumes "Data_Decrypt example_crypter e = Inr example_data"
  obtains w' where "Handler_Refresh example_ext example_handler example_key example_data
      (answering (Inr refusal) (58 * Minute) e) = (Inl ErrInvalidState, w')"
proof -
  define w where "w = answering (Inr refusal) (58 * Minute) e"
  obtain w2 w3 w4 where s: "acquire_lock example_handler example_key (snd (canRefresh example_handler example_data w)) = (Inr [], w2)"
      "canRefresh example_handler example_data w = (True, w\<lparr> ticks := 1 \<rparr>)" "same_env w w3" "store w3 = store w"
      "retry_Do (grant_attempt example_ext example_handler (RefreshToken example_data)) w3
         = (case handle_token_response refusal of Inr resp \<Rightarrow> Inr resp | Inl e \<Rightarrow> Inl e, w4)"
      "GetForKey example_handler example_key w2 = (Inr example_data, w2\<lparr> dos := Suc (dos w2) \<rparr>)"
      "canRefresh example_handler example_data (w2\<lparr> dos := Suc (dos w2) \<rparr>) = (True, w3)"
      "isTimedOut example_handler example_data w3 = (False, w3)"
    using assms w_def by (rule example_refresh)
  have "refresh_locked example_ext example_handler example_key w2 = (Inl ErrInvalidState, w4)"
    using s(5-8) by (simp add: refresh_locked_def handle_token_response_def refusal_def)
  moreover obtain z w7 where "st_Release (h_store example_handler) example_key [] w4 = (z, w7)"
    by (cases "st_Release (h_store example_handler) example_key [] w4")
  ultimately have "Handler_Refresh example_ext example_handler example_key example_data w = (Inl ErrInvalidState, w7)"
    using s(1,2) by (simp add: Handler_Refresh_def)
  then show thesis using that unfolding w_def by blast
qed


lemma example_not_timed_out: "isTimedOut example_handler example_data w = (False, w)"
  by (simp add: isTimedOut_def example_timeout Time_IsZero_def)

theorem outage_ends_no_session_witness:
  "\<exists>r e. GetKey example_handler r = Inr example_key \<and>
     (is_ok (fst (GetOrRefresh example_ext example_handler r (quiet_world (58 * Minute) [example_key \<mapsto> e]))) \<or>
      fst (GetOrRefresh example_ext example_handler r (quiet_world (58 * Minute) [example_key \<mapsto> e])) = Inl ErrSessionInactive)"
proof -
  obtain r e where e: "GetKey example_handler r = Inr example_key" "Data_Decrypt example_crypter e = Inr example_data" "storable e"
    by (rule example_session)
  let ?w = "quiet_world (58 * Minute) [example_key \<mapsto> e] :: memory world"
  have g: "GetForKey example_handler example_key ?w = (Inr example_data, ?w\<lparr> dos := Suc (dos ?w) \<rparr>)"
    using e(2) by (intro memory_read_session[of _ _ e]) simp_all
  have "\<forall>n req. provider_down (remote ?w n req)" by (simp add: provider_down_def)
  from outage_ends_no_session[OF example_handling e(1) g example_not_timed_out this, of example_ext] show ?thesis
    using e(1) by blast
qed

theorem access_token_safe_witness:
  "\<exists>r e w'. GetAccessToken example_ext example_handler r (quiet_world (2 * Minute) [example_key \<mapsto> e]) = (Inr ''access'', w')
     \<and> (\<exists>k. GetKey example_handler r = Inr k)"
proof -
  obtain r e where e: "GetKey example_handler r = Inr example_key" "Data_Decrypt example_crypter e = Inr example_data" "storable e"
    by (rule example_session)
  let ?w = "quiet_world (2 * Minute) [example_key \<mapsto> e] :: memory world"
  have g: "GetForKey example_handler example_key ?w = (Inr example_data, ?w\<lparr> dos := Suc (dos ?w) \<rparr>)"
    using e(2) by (intro memory_read_session[of _ _ e]) simp_all
  have "\<not> ShouldRefresh (2 * Minute) (2 * Minute) (2 * Minute) (data_Metadata example_data)"
    by (simp add: ShouldRefresh_def NextRefresh_def IsRefreshOnCooldown_iff example_cooldown Time_After_def Time_Before_def
        example_data_def NewMetadata_def Time_Add_def interval_consts)
  then have "\<exists>v. shouldRefresh example_handler example_data (?w\<lparr> dos := Suc (dos ?w) \<rparr>) = (False, v) \<and> clock v = clock ?w"
    by (simp add: shouldRefresh_def time_Now_def)
  then obtain v where v: "shouldRefresh example_handler example_data (?w\<lparr> dos := Suc (dos ?w) \<rparr>) = (False, v)" "clock v = clock ?w"
    by blast
  have "GetOrRefresh example_ext example_handler r ?w = (Inr example_data, v)"
    using e(1) g v(1) by (simp add: GetOrRefresh_def example_not_timed_out)
  then have "GetAccessToken example_ext example_handler r ?w = (Inr ''access'', v\<lparr> ticks := Suc (ticks v) \<rparr>)"
    using v(2) by (simp add: GetAccessToken_def time_Now_def HasAccessToken_def example_data_def NewMetadata_def Time_Add_def duration_consts)
  from access_token_safe[OF example_handling this] show ?thesis
    using \<open>GetAccessToken example_ext example_handler r ?w = _\<close> by blast
qed

end
