(* ===== verification/RefreshConcurrency.thy ===== *)
theory RefreshConcurrency
  imports SessionExamples
begin

text \<open>
  Any number of requests that refresh one session at the same time. Each of them runs
  \<^verbatim>\<open>Handler.Refresh\<close> of \<^verbatim>\<open>pkg/session/handler.go\<close>; here its operations on what the requests share (the
  lock, the stored session, the provider) are single steps that interleave in any order. The provider
  rotates refresh tokens: it refuses one that it has seen before.
\<close>

section \<open>The system\<close>

text \<open>Redis has a lock with an expiry; the lock of the store in memory is granted to everyone.\<close>

datatype locking = Exclusive | NoOp

text \<open>
  What may go wrong: the lock expires while it is held, the store does not answer, the provider
  does not answer as it should, it does not rotate refresh tokens.
\<close>

datatype fault = LockExpires | StoreFails | ProviderFails | NoRotation

text \<open>Where a request is in \<^verbatim>\<open>Refresh\<close>.\<close>

datatype phase = Begun Data | Acquiring | Holding | Granting Data | Updating Data | Overwriting Data
  | Releasing "Data result" | Returned "Data result"

record refreshing =
  rf_session :: "Data option"
  rf_holder :: "nat option"
  rf_presented :: "string list"
  rf_phase :: "nat \<Rightarrow> phase"

abbreviation go_on :: "nat \<Rightarrow> phase \<Rightarrow> refreshing \<Rightarrow> refreshing" where
  "go_on i p s \<equiv> s\<lparr> rf_phase := (rf_phase s)(i := p) \<rparr>"

definition other_error :: "error \<Rightarrow> bool" where
  "other_error e \<longleftrightarrow> e \<noteq> ErrInvalidState \<and> e \<noteq> ErrSessionInactive"

text \<open>
  The worlds in the rules are the readings of a request's own clock. A write of the session is
  the two commands of the Redis store, and what is read back is the data as the store's encoding leaves
  it. A logout or a new login of the same session may come at any time.
\<close>

inductive refresh_step :: "locking \<Rightarrow> fault set \<Rightarrow> 's session_handler \<Rightarrow> refreshing \<Rightarrow> refreshing \<Rightarrow> bool"
  for lk F and h :: "'s session_handler" where
  not_needed: "rf_phase s i = Begun d \<Longrightarrow> \<not> fst (canRefresh h d w) \<Longrightarrow> refresh_step lk F h s (go_on i (Returned (Inr d)) s)"
| attempt: "rf_phase s i = Begun d \<Longrightarrow> fst (canRefresh h d w) \<Longrightarrow> refresh_step lk F h s (go_on i Acquiring s)"
| not_acquired: "rf_phase s i = Acquiring \<Longrightarrow> other_error e \<Longrightarrow> refresh_step lk F h s (go_on i (Returned (Inl e)) s)"
| acquired: "rf_phase s i = Acquiring \<Longrightarrow> lk = NoOp \<or> rf_holder s = None \<Longrightarrow>
    refresh_step lk F h s (go_on i Holding (s\<lparr> rf_holder := Some i \<rparr>))"
| unread: "rf_phase s i = Holding \<Longrightarrow> rf_session s = None \<or> StoreFails \<in> F \<Longrightarrow> other_error e \<Longrightarrow>
    refresh_step lk F h s (go_on i (Releasing (Inl e)) s)"
| already: "rf_phase s i = Holding \<Longrightarrow> rf_session s = Some d \<Longrightarrow> \<not> fst (canRefresh h d w) \<Longrightarrow>
    refresh_step lk F h s (go_on i (Releasing (Inr d)) s)"
| timed_out: "rf_phase s i = Holding \<Longrightarrow> rf_session s = Some d \<Longrightarrow> fst (canRefresh h d w) \<Longrightarrow> fst (isTimedOut h d w') \<Longrightarrow>
    refresh_step lk F h s (go_on i (Releasing (Inl ErrSessionInactive)) s)"
| proceed: "rf_phase s i = Holding \<Longrightarrow> rf_session s = Some d \<Longrightarrow> fst (canRefresh h d w) \<Longrightarrow> \<not> fst (isTimedOut h d w') \<Longrightarrow>
    refresh_step lk F h s (go_on i (Granting d) s)"
| refused: "rf_phase s i = Granting d \<Longrightarrow> RefreshToken d \<in> set (rf_presented s) \<or> ProviderFails \<in> F \<Longrightarrow>
    refresh_step lk F h s (go_on i (Releasing (Inl ErrInvalidState)) (s\<lparr> rf_presented := RefreshToken d # rf_presented s \<rparr>))"
| unanswered: "rf_phase s i = Granting d \<Longrightarrow> ProviderFails \<in> F \<Longrightarrow> other_error e \<Longrightarrow>
    refresh_step lk F h s (go_on i (Releasing (Inl e)) (s\<lparr> rf_presented := RefreshToken d # rf_presented s \<rparr>))"
| retried: "rf_phase s i = Granting d \<Longrightarrow> ProviderFails \<in> F \<Longrightarrow>
    refresh_step lk F h s (s\<lparr> rf_presented := RefreshToken d # rf_presented s \<rparr>)"
| granted: "rf_phase s i = Granting d \<Longrightarrow> refreshed_data h resp d w = (d', w') \<Longrightarrow>
    RefreshToken d \<notin> set (rf_presented s) \<or> NoRotation \<in> F \<Longrightarrow>
    RefreshToken (through_store d') \<notin> set (RefreshToken d # rf_presented s) \<or> NoRotation \<in> F \<Longrightarrow>
    refresh_step lk F h s (go_on i (Updating d') (s\<lparr> rf_presented := RefreshToken d # rf_presented s \<rparr>))"
| not_found: "rf_phase s i = Updating d' \<Longrightarrow> rf_session s = None \<or> StoreFails \<in> F \<Longrightarrow> other_error e \<Longrightarrow>
    refresh_step lk F h s (go_on i (Releasing (Inl e)) s)"
| found: "rf_phase s i = Updating d' \<Longrightarrow> rf_session s \<noteq> None \<Longrightarrow> refresh_step lk F h s (go_on i (Overwriting d') s)"
| overwrite: "rf_phase s i = Overwriting d' \<Longrightarrow>
    refresh_step lk F h s (go_on i (Releasing (Inr d')) (s\<lparr> rf_session := Some (through_store d') \<rparr>))"
| overwrite_unanswered: "rf_phase s i = Overwriting d' \<Longrightarrow> StoreFails \<in> F \<Longrightarrow> other_error e \<Longrightarrow>
    refresh_step lk F h s (go_on i (Releasing (Inl e)) (s\<lparr> rf_session := Some (through_store d') \<rparr>))"
| release: "rf_phase s i = Releasing r \<Longrightarrow>
    refresh_step lk F h s (go_on i (Returned r) (s\<lparr> rf_holder := (if rf_holder s = Some i then None else rf_holder s) \<rparr>))"
| expire: "LockExpires \<in> F \<Longrightarrow> refresh_step lk F h s (s\<lparr> rf_holder := None \<rparr>)"
| logout: "refresh_step lk F h s (s\<lparr> rf_session := None \<rparr>)"
| login: "RefreshToken d \<notin> set (rf_presented s) \<Longrightarrow> refresh_step lk F h s (s\<lparr> rf_session := Some d \<rparr>)"

text \<open>The requests have read the session, each for itself, and none has presented its token yet.\<close>

definition all_begun :: "refreshing \<Rightarrow> bool" where
  "all_begun s \<longleftrightarrow> rf_holder s = None \<and> rf_presented s = [] \<and> (\<forall>i. \<exists>d. rf_phase s i = Begun d)"

section \<open>Mutual exclusion\<close>

fun critical :: "phase \<Rightarrow> bool" where
  "critical (Begun _) = False" | "critical Acquiring = False" | "critical (Returned _) = False" | "critical _ = True"

fun in_flight :: "phase \<Rightarrow> bool" where
  "in_flight (Updating _) = True" | "in_flight (Overwriting _) = True" | "in_flight _ = False"

fun phase_ok :: "string set \<Rightarrow> phase \<Rightarrow> bool" where
  "phase_ok seen (Granting d) \<longleftrightarrow> RefreshToken d \<notin> seen"
| "phase_ok seen (Updating d) \<longleftrightarrow> RefreshToken (through_store d) \<notin> seen"
| "phase_ok seen (Overwriting d) \<longleftrightarrow> RefreshToken (through_store d) \<notin> seen"
| "phase_ok seen (Releasing r) \<longleftrightarrow> r \<noteq> Inl ErrInvalidState"
| "phase_ok seen (Returned r) \<longleftrightarrow> r \<noteq> Inl ErrInvalidState"
| "phase_ok seen _ \<longleftrightarrow> True"

definition refresh_inv :: "refreshing \<Rightarrow> bool" where
  "refresh_inv s \<longleftrightarrow> (\<forall>i. critical (rf_phase s i) \<longrightarrow> rf_holder s = Some i) \<and> distinct (rf_presented s)
     \<and> (\<forall>i. phase_ok (set (rf_presented s)) (rf_phase s i))
     \<and> ((\<forall>i. \<not> in_flight (rf_phase s i)) \<longrightarrow> (\<forall>d. rf_session s = Some d \<longrightarrow> RefreshToken d \<notin> set (rf_presented s)))"

lemma in_flight_critical: "in_flight p \<Longrightarrow> critical p"
  by (cases p) auto

lemma phase_ok_uncritical: "\<not> critical p \<Longrightarrow> phase_ok seen p \<Longrightarrow> phase_ok seen' p"
  by (cases p) auto

lemma refresh_inv_alone:
  assumes "refresh_inv s" "critical (rf_phase s i)" "j \<noteq> i"
  shows "\<not> critical (rf_phase s j)" "\<not> in_flight (rf_phase s j)"
proof -
  have "rf_holder s = Some i" using assms(1,2) by (simp add: refresh_inv_def)
  then show "\<not> critical (rf_phase s j)" using assms(1,3) unfolding refresh_inv_def by (metis option.inject)
  then show "\<not> in_flight (rf_phase s j)" using in_flight_critical by blast
qed

text \<open>
  A request goes on, possibly with another session and another token presented: the invariant stays if it
  holds for what the request does, given that it was the only one in the critical section.
\<close>

lemma refresh_inv_go_on:
  assumes "refresh_inv s" "critical (rf_phase s i)" "critical p"
    and "distinct seen" "phase_ok (set seen) p"
    and "\<not> in_flight p \<Longrightarrow> sess \<noteq> None \<Longrightarrow> RefreshToken (the sess) \<notin> set seen"
  shows "refresh_inv (go_on i p (s\<lparr> rf_session := sess, rf_presented := seen \<rparr>))"
proof -
  note alone = refresh_inv_alone[OF assms(1,2)]
  have "phase_ok (set seen) (rf_phase s j)" if "j \<noteq> i" for j
    using phase_ok_uncritical alone(1)[OF that] assms(1) unfolding refresh_inv_def by blast
  moreover have "rf_holder s = Some i" using assms(1,2) by (simp add: refresh_inv_def)
  ultimately show ?thesis using assms(3-6) alone unfolding refresh_inv_def by auto
qed

lemma refresh_invD:
  assumes "refresh_inv s"
  shows "distinct (rf_presented s)" "phase_ok (set (rf_presented s)) (rf_phase s i)"
  using assms by (simp_all add: refresh_inv_def)

lemma refresh_inv_go:
  assumes "refresh_inv s" "critical (rf_phase s i)" "critical p"
  shows "phase_ok (set (rf_presented s)) p \<Longrightarrow>
      (\<not> in_flight p \<Longrightarrow> rf_session s \<noteq> None \<Longrightarrow> RefreshToken (the (rf_session s)) \<notin> set (rf_presented s)) \<Longrightarrow>
      refresh_inv (go_on i p s)"
    and "distinct seen \<Longrightarrow> phase_ok (set seen) p \<Longrightarrow>
      (\<not> in_flight p \<Longrightarrow> rf_session s \<noteq> None \<Longrightarrow> RefreshToken (the (rf_session s)) \<notin> set seen) \<Longrightarrow>
      refresh_inv (go_on i p (s\<lparr> rf_presented := seen \<rparr>))"
    and "phase_ok (set (rf_presented s)) p \<Longrightarrow>
      (\<not> in_flight p \<Longrightarrow> sess \<noteq> None \<Longrightarrow> RefreshToken (the sess) \<notin> set (rf_presented s)) \<Longrightarrow>
      refresh_inv (go_on i p (s\<lparr> rf_session := sess \<rparr>))"
proof -
  have d: "distinct (rf_presented s)" by (rule refresh_invD(1)[OF assms(1)])
  show "phase_ok (set (rf_presented s)) p \<Longrightarrow>
      (\<not> in_flight p \<Longrightarrow> rf_session s \<noteq> None \<Longrightarrow> RefreshToken (the (rf_session s)) \<notin> set (rf_presented s)) \<Longrightarrow>
      refresh_inv (go_on i p s)"
    using refresh_inv_go_on[OF assms d, of "rf_session s"] by simp
  show "distinct seen \<Longrightarrow> phase_ok (set seen) p \<Longrightarrow>
      (\<not> in_flight p \<Longrightarrow> rf_session s \<noteq> None \<Longrightarrow> RefreshToken (the (rf_session s)) \<notin> set seen) \<Longrightarrow>
      refresh_inv (go_on i p (s\<lparr> rf_presented := seen \<rparr>))"
    using refresh_inv_go_on[OF assms, of seen "rf_session s"] by simp
  show "phase_ok (set (rf_presented s)) p \<Longrightarrow>
      (\<not> in_flight p \<Longrightarrow> sess \<noteq> None \<Longrightarrow> RefreshToken (the sess) \<notin> set (rf_presented s)) \<Longrightarrow>
      refresh_inv (go_on i p (s\<lparr> rf_session := sess \<rparr>))"
    using refresh_inv_go_on[OF assms d, of sess] by simp
qed

lemma refresh_inv_session:
  assumes "refresh_inv s" "critical (rf_phase s i)" "\<not> in_flight (rf_phase s i)" "rf_session s = Some d"
  shows "RefreshToken d \<notin> set (rf_presented s)"
proof -
  have "\<not> in_flight (rf_phase s j)" for j using refresh_inv_alone(2)[OF assms(1,2)] assms(3) by (cases "j = i") auto
  then show ?thesis using assms(1,4) unfolding refresh_inv_def by blast
qed

lemma refresh_inv_rest:
  assumes "refresh_inv s" "\<not> critical p" "phase_ok (set (rf_presented s)) p" "\<not> in_flight (rf_phase s i)"
  shows "refresh_inv (go_on i p s)"
proof -
  have "\<not> in_flight p" using assms(2) in_flight_critical by blast
  then have "in_flight (((rf_phase s)(i := p)) j) \<longleftrightarrow> in_flight (rf_phase s j)" for j using assms(4) by simp
  then show ?thesis using assms(1-3) by (simp add: refresh_inv_def)
qed

lemma refresh_inv_step:
  assumes "refresh_step Exclusive {} h s s'" "refresh_inv s"
  shows "refresh_inv s'"
  using assms
proof (induction rule: refresh_step.induct)
  case (acquired s i)
  then have "\<not> critical (rf_phase s j)" for j unfolding refresh_inv_def by auto
  then have "\<not> in_flight (rf_phase s j)" for j using in_flight_critical by blast
  then show ?case using acquired.prems \<open>\<And>j. \<not> critical (rf_phase s j)\<close> by (simp add: refresh_inv_def)
next
  case (unread s i e)
  then show ?case by (intro refresh_inv_go(1)) (auto simp: refresh_invD(1) other_error_def)
next
  case (already s i d w)
  then show ?case using refresh_inv_session[of s i] by (intro refresh_inv_go(1)) (auto simp: refresh_invD(1))
next
  case (timed_out s i d w w')
  then show ?case using refresh_inv_session[of s i] by (intro refresh_inv_go(1)) (auto simp: refresh_invD(1))
next
  case (proceed s i d w w')
  then show ?case using refresh_inv_session[of s i] by (intro refresh_inv_go(1)) (auto simp: refresh_invD(1))
next
  case (refused s i d)
  then show ?case using refresh_invD(2)[of s i] by auto
next
  case (granted s i d resp w d' w')
  then show ?case using refresh_invD(2)[of s i] by (intro refresh_inv_go(2)) (auto simp: refresh_invD(1))
next
  case (not_found s i d' e)
  then show ?case by (intro refresh_inv_go(1)) (auto simp: refresh_invD(1) other_error_def)
next
  case (found s i d')
  then show ?case using refresh_invD(2)[of s i] by (intro refresh_inv_go(1)) (auto simp: refresh_invD(1))
next
  case (overwrite s i d')
  then show ?case using refresh_invD(2)[of s i] by (intro refresh_inv_go(3)) (auto simp: refresh_invD(1))
next
  case (release s i r)
  then have r: "rf_holder s = Some i" "phase_ok (set (rf_presented s)) (Returned r)" "\<not> in_flight (rf_phase s i)"
    using refresh_invD(2)[of s i] by (auto simp: refresh_inv_def)
  have c: "\<not> critical (rf_phase s j)" if "j \<noteq> i" for j using refresh_inv_alone(1)[OF release.prems _ that] release.hyps by simp
  then have "\<not> in_flight (rf_phase s j)" for j using r(3) in_flight_critical by (cases "j = i") blast+
  then show ?case using release.prems r c by (simp add: refresh_inv_def)
next
  case (login d s)
  then show ?case by (auto simp: refresh_inv_def)
next
  case (logout s)
  then show ?case by (simp add: refresh_inv_def)
qed (simp_all add: refresh_inv_rest other_error_def)

text \<open>
  C12: Concurrent refreshes are safe under a lock that holds. However many requests refresh a session at
  once and however their operations interleave with each other, with logouts and with logins, as long as the
  store and the provider answer, the lock does not expire early and the provider rotates refresh tokens: no
  refresh token is presented twice, at most one request is in the critical section, and no request is told
  that its session is invalid.
\<close>

theorem concurrent_refreshes_safe:
  assumes "all_begun s\<^sub>0" "(refresh_step Exclusive {} h)\<^sup>*\<^sup>* s\<^sub>0 s"
  shows "distinct (rf_presented s) \<and> (\<forall>i j. critical (rf_phase s i) \<longrightarrow> critical (rf_phase s j) \<longrightarrow> i = j)
    \<and> (\<forall>i. rf_phase s i \<noteq> Returned (Inl ErrInvalidState))"
proof -
  have "\<not> critical (rf_phase s\<^sub>0 i) \<and> \<not> in_flight (rf_phase s\<^sub>0 i) \<and> phase_ok seen (rf_phase s\<^sub>0 i)" for i seen
    using assms(1) unfolding all_begun_def by (metis critical.simps(1) in_flight.simps(3) phase_ok.simps(6))
  then have "refresh_inv s\<^sub>0" using assms(1) by (simp add: refresh_inv_def all_begun_def)
  with assms(2) have inv: "refresh_inv s"
    by (induction rule: rtranclp_induct) (auto intro: refresh_inv_step)
  have "rf_phase s i \<noteq> Returned (Inl ErrInvalidState)" for i using refresh_invD(2)[OF inv, of i] by auto
  moreover have "i = j" if "critical (rf_phase s i)" "critical (rf_phase s j)" for i j
    using refresh_inv_alone(1)[OF inv that(1), of j] that(2) by blast
  ultimately show ?thesis using refresh_invD(1)[OF inv] by blast
qed

text \<open>
  C13: Without such a lock a refresh token is presented twice. With the lock of the store in memory, which
  excludes nobody, or with one that expires while a slow provider is answering, two requests can both
  present the session's refresh token; the second is refused and its user's session is reported invalid,
  although the first one has just refreshed it.
\<close>

theorem refresh_token_presented_twice:
  assumes "lk = NoOp \<or> LockExpires \<in> F" "rf_holder s = None" "rf_presented s = []" "rf_session s = Some d"
    and "rf_phase s 0 = Begun d" "rf_phase s 1 = Begun d" "fst (canRefresh h d w)" "\<not> fst (isTimedOut h d w)"
    and "refreshed_data h resp d w = (d', w')" "RefreshToken (through_store d') \<noteq> RefreshToken d"
  shows "(\<forall>k lease v. st_Acquire memory_store k lease v = (Inr [], v)) \<and>
    (\<exists>s'. (refresh_step lk F h)\<^sup>*\<^sup>* s s' \<and> rf_presented s' = [RefreshToken d, RefreshToken d]
    \<and> rf_phase s' 1 = Returned (Inl ErrInvalidState) \<and> rf_phase s' 0 = Returned (Inr d') \<and> rf_session s' = Some (through_store d'))"
proof (rule conjI)
  show "\<forall>k lease v. st_Acquire memory_store k lease v = (Inr [], v)" by (simp add: memory_store_def NoOpLock_Acquire_def)
next
  define t where "t = RefreshToken d"
  define S where "S = (\<lambda>sess lck seen p q. s\<lparr> rf_session := sess, rf_holder := lck, rf_presented := seen,
    rf_phase := (rf_phase s)(0 := p, 1 := q) \<rparr>)"
  note R = converse_rtranclp_into_rtranclp[of "refresh_step lk F h"]
  note [simp del] = One_nat_def
  have fields: "rf_session (S sess lck seen p q) = sess" "rf_holder (S sess lck seen p q) = lck" "rf_presented (S sess lck seen p q) = seen"
      "rf_phase (S sess lck seen p q) 0 = p" "rf_phase (S sess lck seen p q) 1 = q" for sess lck seen p q
    by (simp_all add: S_def)
  have moves: "go_on 0 p' (S sess lck seen p q) = S sess lck seen p' q" "go_on 1 p' (S sess lck seen p q) = S sess lck seen p p'"
      "(S sess lck seen p q)\<lparr> rf_holder := l \<rparr> = S sess l seen p q" "(S sess lck seen p q)\<lparr> rf_presented := ts \<rparr> = S sess lck ts p q"
      "(S sess lck seen p q)\<lparr> rf_session := x \<rparr> = S x lck seen p q" for sess lck seen p q p' l ts x
    by (simp_all add: S_def fun_upd_twist)
  have "s = S (Some d) None [] (Begun d) (Begun d)" using assms(2-6) by (simp add: S_def fun_upd_idem)
  have attempt: "refresh_step lk F h u (go_on i Acquiring u)" if "rf_phase u i = Begun d" for u i
    using that assms(7) by (rule refresh_step.attempt)
  have proceed: "refresh_step lk F h u (go_on i (Granting d) u)" if "rf_phase u i = Holding" "rf_session u = Some d" for u i
    using that assms(7,8) by (rule refresh_step.proceed)
  define L where "L = (if LockExpires \<in> F then None else Some (0::nat))"
  let ?R = "refresh_step lk F h" and ?bad = "Inl ErrInvalidState" and ?new = "Some (through_store d')"
  have 1: "?R (S (Some d) None [] (Begun d) (Begun d)) (S (Some d) None [] Acquiring (Begun d))"
    using attempt[of "S (Some d) None [] (Begun d) (Begun d)" 0] by (simp add: fields moves)
  have 2: "?R (S (Some d) None [] Acquiring (Begun d)) (S (Some d) (Some 0) [] Holding (Begun d))"
    using refresh_step.acquired[of "S (Some d) None [] Acquiring (Begun d)" 0 lk F h] by (simp add: fields moves)
  have 3: "?R (S (Some d) (Some 0) [] Holding (Begun d)) (S (Some d) (Some 0) [] (Granting d) (Begun d))"
    using proceed[of "S (Some d) (Some 0) [] Holding (Begun d)" 0] by (simp add: fields moves)
  have 4: "?R (S (Some d) (Some 0) [] (Granting d) (Begun d)) (S (Some d) (Some 0) [t] (Updating d') (Begun d))"
    using refresh_step.granted[of "S (Some d) (Some 0) [] (Granting d) (Begun d)" 0 d h resp w d' w' F lk] assms(9,10)
    by (simp add: fields moves t_def)
  have 5: "?R\<^sup>*\<^sup>* (S (Some d) (Some 0) [t] (Updating d') (Begun d)) (S (Some d) L [t] (Updating d') (Begun d))"
    using refresh_step.expire[of F lk h "S (Some d) (Some 0) [t] (Updating d') (Begun d)"] by (auto simp: L_def moves)
  have 6: "?R (S (Some d) L [t] (Updating d') (Begun d)) (S (Some d) L [t] (Updating d') Acquiring)"
    using attempt[of "S (Some d) L [t] (Updating d') (Begun d)" 1] by (simp add: fields moves)
  have 7: "?R (S (Some d) L [t] (Updating d') Acquiring) (S (Some d) (Some 1) [t] (Updating d') Holding)"
    using refresh_step.acquired[of "S (Some d) L [t] (Updating d') Acquiring" 1 lk F h] assms(1) by (auto simp: fields moves L_def)
  have 8: "?R (S (Some d) (Some 1) [t] (Updating d') Holding) (S (Some d) (Some 1) [t] (Updating d') (Granting d))"
    using proceed[of "S (Some d) (Some 1) [t] (Updating d') Holding" 1] by (simp add: fields moves)
  have 9: "?R (S (Some d) (Some 1) [t] (Updating d') (Granting d)) (S (Some d) (Some 1) [t, t] (Updating d') (Releasing ?bad))"
    using refresh_step.refused[of "S (Some d) (Some 1) [t] (Updating d') (Granting d)" 1 d F lk h] by (simp add: fields moves t_def)
  have 10: "?R (S (Some d) (Some 1) [t, t] (Updating d') (Releasing ?bad)) (S (Some d) None [t, t] (Updating d') (Returned ?bad))"
    using refresh_step.release[of "S (Some d) (Some 1) [t, t] (Updating d') (Releasing ?bad)" 1 ?bad lk F h] by (simp add: fields moves)
  have 11: "?R (S (Some d) None [t, t] (Updating d') (Returned ?bad)) (S (Some d) None [t, t] (Overwriting d') (Returned ?bad))"
    using refresh_step.found[of "S (Some d) None [t, t] (Updating d') (Returned ?bad)" 0 d' lk F h] by (simp add: fields moves)
  have 12: "?R (S (Some d) None [t, t] (Overwriting d') (Returned ?bad)) (S ?new None [t, t] (Releasing (Inr d')) (Returned ?bad))"
    using refresh_step.overwrite[of "S (Some d) None [t, t] (Overwriting d') (Returned ?bad)" 0 d' lk F h] by (simp add: fields moves)
  have 13: "?R (S ?new None [t, t] (Releasing (Inr d')) (Returned ?bad)) (S ?new None [t, t] (Returned (Inr d')) (Returned ?bad))"
    using refresh_step.release[of "S ?new None [t, t] (Releasing (Inr d')) (Returned ?bad)" 0 "Inr d'" lk F h] by (simp add: fields moves)
  have "?R\<^sup>*\<^sup>* (S (Some d) L [t] (Updating d') (Begun d)) (S ?new None [t, t] (Returned (Inr d')) (Returned ?bad))"
    by (rule R[OF 6 R[OF 7 R[OF 8 R[OF 9 R[OF 10 R[OF 11 R[OF 12 R[OF 13 rtranclp.rtrancl_refl]]]]]]]])
  with 5 have "?R\<^sup>*\<^sup>* (S (Some d) (Some 0) [t] (Updating d') (Begun d)) (S ?new None [t, t] (Returned (Inr d')) (Returned ?bad))"
    by (rule rtranclp_trans)
  then have "?R\<^sup>*\<^sup>* (S (Some d) None [] (Begun d) (Begun d)) (S ?new None [t, t] (Returned (Inr d')) (Returned ?bad))"
    by (rule R[OF 1 R[OF 2 R[OF 3 R[OF 4]]]])
  then show "\<exists>s'. (refresh_step lk F h)\<^sup>*\<^sup>* s s' \<and> rf_presented s' = [RefreshToken d, RefreshToken d]
    \<and> rf_phase s' 1 = Returned (Inl ErrInvalidState) \<and> rf_phase s' 0 = Returned (Inr d') \<and> rf_session s' = Some (through_store d')"
    using \<open>s = S (Some d) None [] (Begun d) (Begun d)\<close>
    by (intro exI[of _ "S ?new None [t, t] (Returned (Inr d')) (Returned ?bad)"]) (simp add: fields t_def)
qed
section \<open>The steps are those of the code\<close>

definition decrypted :: "'s session_handler \<Rightarrow> EncryptedData option \<Rightarrow> Data option" where
  "decrypted h e = (case e of None \<Rightarrow> None | Some e \<Rightarrow> (case Data_Decrypt (h_crypter h) e of Inr d \<Rightarrow> Some d | Inl _ \<Rightarrow> None))"

text \<open>While the request waits for the lock, nobody else writes the session.\<close>

fun undisturbed :: "('s \<Rightarrow> string \<rightharpoonup> EncryptedData) \<Rightarrow> string \<Rightarrow> 's lock_wait \<Rightarrow> bool" where
  "undisturbed C k (WaitTick others rest) \<longleftrightarrow> (\<forall>\<sigma>. C (others \<sigma>) k = C \<sigma> k) \<and> undisturbed C k rest"
| "undisturbed C k _ \<longleftrightarrow> True"

context session_handling
begin

lemma acquire_undisturbed:
  assumes "acquire_lock h k w = (r, w')" "\<forall>n. undisturbed contents k (waits w n)"
  shows "contents (store w') k = contents (store w) k"
proof -
  have "acquire_loop h k lw v = (r, w') \<Longrightarrow> undisturbed contents k lw \<Longrightarrow> contents (store w') k = contents (store v) k" for lw v
  proof (induction lw arbitrary: v)
    case (WaitTick others rest)
    obtain q v1 where a: "st_Acquire (h_store h) k refreshLockDuration (v\<lparr> store := others (store v) \<rparr>) = (q, v1)" by fastforce
    have v1: "contents (store v1) k = contents (store v) k" using Acquire_env[OF a] WaitTick.prems(2) by simp
    show ?case
    proof (cases "q = Inl ErrAcquireLock")
      case True
      then have "acquire_loop h k rest v1 = (r, w')" using WaitTick.prems(1) a by simp
      then show ?thesis using WaitTick.IH WaitTick.prems(2) v1 by simp
    next
      case False
      then have "w' = v1" using WaitTick.prems(1) a by (auto split: sum.splits if_splits)
      then show ?thesis using v1 by simp
    qed
  qed auto
  then show ?thesis using assms by (force simp: acquire_lock_def)
qed

lemma update_decrypted:
  assumes "Handler_Update h k d w = (r, w')"
  shows "decrypted h (contents (store w') k) \<in> {decrypted h (contents (store w) k), Some (through_store d)}"
    and "r = None \<Longrightarrow> decrypted h (contents (store w') k) = Some (through_store d)"
proof -
  obtain q w1 where q: "Data_Encrypt (h_crypter h) d w = (q, w1)" by fastforce
  have e1: "store w1 = store w" using Data_Encrypt_env[OF q] by simp
  show "decrypted h (contents (store w') k) \<in> {decrypted h (contents (store w) k), Some (through_store d)}"
  proof (cases q)
    case (Inl e)
    then show ?thesis using assms q e1 by (auto simp: Handler_Update_def)
  next
    case (Inr e)
    have st: "storable e" using Data_Encrypt_valid q Inr by (auto simp: storable_def)
    obtain z where "retry_Do (update_attempt h k e) w1 = (z, w')"
      using assms q Inr by (auto simp: Handler_Update_def split: prod.splits sum.splits)
    then have "sets contents k e w1 w'" by (rule retry_Do_rel) (auto intro: sets_trans update_attempt_sets[OF st])
    then have "contents (store w') k = contents (store w) k \<or> contents (store w') k = Some e" using e1 by (auto simp: sets_def)
    then show ?thesis using Data_Decrypt_Encrypt[of "h_crypter h" d w e w1] q Inr by (auto simp: decrypted_def)
  qed
  assume "r = None"
  then obtain e u where e: "q = Inr e" "retry_Do (update_attempt h k e) w1 = (Inr u, w')"
    using assms q by (auto simp: Handler_Update_def split: prod.splits sum.splits)
  have st: "storable e" using Data_Encrypt_valid q e(1) by (auto simp: storable_def)
  have "\<exists>v. sets contents k e w1 v \<and> update_attempt h k e v = (Success u, w')"
    using e(2) by (rule retry_Do_Ok) (auto intro: sets_trans update_attempt_sets[OF st])
  then obtain v where "st_Update (h_store h) k e v = (None, w')" by (auto simp: update_attempt_simps(1))
  then have "contents (store w') k = Some e" using Update_Ok st by fastforce
  then show "decrypted h (contents (store w') k) = Some (through_store d)"
    using Data_Decrypt_Encrypt[of "h_crypter h" d w e w1] q e(1) by (simp add: decrypted_def)
qed

lemma locked_run:
  assumes "refresh_locked x h k w = (res, w')" "rf_phase s i = Holding" "rf_session s = decrypted h (contents (store w) k)"
  shows "\<exists>s'. (refresh_step lk UNIV h)\<^sup>*\<^sup>* s s' \<and> rf_phase s' = (rf_phase s)(i := Releasing res)
    \<and> rf_session s' = decrypted h (contents (store w') k)"
proof -
  note R = converse_rtranclp_into_rtranclp[of "refresh_step lk UNIV h"] and Z = rtranclp.rtrancl_refl[of "refresh_step lk UNIV h"]
  from assms(1) show ?thesis
  proof (cases rule: refresh_locked_cases)
    case (unread e)
    have "other_error e" using GetForKey_errors[OF unread(1)] by (auto simp: other_error_def)
    then have "refresh_step lk UNIV h s (go_on i (Releasing res) s)"
      unfolding unread(2) using assms(2) by (intro refresh_step.unread) auto
    then show ?thesis using GetForKey_keeps[OF unread(1)] assms(3) R[OF _ Z] by (fastforce simp: keeps_def)
  next
    case (current d w1)
    note g = GetForKey_data[OF current(1)]
    have d: "rf_session s = Some d" using g(1) assms(3) by (auto simp: decrypted_def)
    have "refresh_step lk UNIV h s (go_on i (Releasing res) s)"
      unfolding current(3) using assms(2) d current(2) by (intro refresh_step.already[where w = w1]) auto
    then show ?thesis using g(3) canRefresh_env[OF current(2)] assms(3) R[OF _ Z] by fastforce
  next
    case (inactive d w1 w2)
    note g = GetForKey_data[OF inactive(1)]
    have d: "rf_session s = Some d" using g(1) assms(3) by (auto simp: decrypted_def)
    have "refresh_step lk UNIV h s (go_on i (Releasing res) s)"
      unfolding inactive(4) using assms(2) d inactive(2,3) by (intro refresh_step.timed_out[where w = w1 and w' = w2]) auto
    then show ?thesis using g(3) canRefresh_env[OF inactive(2)] isTimedOut_env[OF inactive(3)] assms(3) R[OF _ Z] by fastforce
  next
    case (refused d w1 w2 w3 e)
    note g = GetForKey_data[OF refused(1)]
    have d: "rf_session s = Some d" using g(1) assms(3) by (auto simp: decrypted_def)
    let ?s1 = "go_on i (Granting d) s"
    let ?s2 = "go_on i (Releasing res) (?s1\<lparr> rf_presented := RefreshToken d # rf_presented ?s1 \<rparr>)"
    have 1: "refresh_step lk UNIV h s ?s1"
      using assms(2) d refused(2,3) by (intro refresh_step.proceed[where w = w1 and w' = w2]) auto
    have 2: "refresh_step lk UNIV h ?s1 ?s2"
    proof (cases "e = ErrOpenIDClient")
      case True
      then show ?thesis using refused(5) refresh_step.refused[of ?s1 i d UNIV lk h] by simp
    next
      case False
      then have "other_error e" using grants_errors[OF refused(4)] by (auto simp: other_error_def)
      then show ?thesis using refused(5) False refresh_step.unanswered[of ?s1 i d UNIV e lk h] by simp
    qed
    have "contents (store w') = contents (store w)"
      using g(3) canRefresh_env[OF refused(2)] isTimedOut_env[OF refused(3)] grants_env[OF refused(4)] by simp
    then show ?thesis using assms(3) R[OF 1 R[OF 2 Z]] by (intro exI[of _ ?s2]) simp
  next
    case (granted d w1 w2 w3 resp w4 d' w5 r)
    note g = GetForKey_data[OF granted(1)] and u = update_decrypted[OF granted(6)]
    have d: "rf_session s = Some d" using g(1) assms(3) by (auto simp: decrypted_def)
    let ?s1 = "go_on i (Granting d) s"
    let ?s2 = "s\<lparr> rf_presented := RefreshToken d # rf_presented s, rf_phase := (rf_phase s)(i := Updating d') \<rparr>"
    let ?s3 = "go_on i (Overwriting d') ?s2"
    have 1: "refresh_step lk UNIV h s ?s1"
      using assms(2) d granted(2,3) by (intro refresh_step.proceed[where w = w1 and w' = w2]) auto
    have 2: "refresh_step lk UNIV h ?s1 ?s2" using refresh_step.granted[of ?s1 i d h resp w4 d' w5 UNIV lk] granted(5) by simp
    have 3: "refresh_step lk UNIV h ?s2 ?s3" using refresh_step.found[of ?s2 i d' lk UNIV h] d by simp
    have same: "contents (store w5) = contents (store w)"
      using g(3) canRefresh_env[OF granted(2)] isTimedOut_env[OF granted(3)] grants_env[OF granted(4)] refreshed_data_env[OF granted(5)]
      by simp
    let ?s4 = "\<lambda>sess. s\<lparr> rf_presented := RefreshToken d # rf_presented s, rf_session := sess, rf_phase := (rf_phase s)(i := Releasing res) \<rparr>"
    show ?thesis
    proof (cases r)
      case None
      have "refresh_step lk UNIV h ?s3 (?s4 (Some (through_store d')))"
        using refresh_step.overwrite[of ?s3 i d' lk UNIV h] granted(7) None by simp
      from R[OF 1 R[OF 2 R[OF 3 R[OF this Z]]]] show ?thesis using u(2)[OF None] by (intro exI[of _ "?s4 (Some (through_store d'))"]) simp
    next
      case (Some e)
      then have e: "other_error e" "res = Inl e"
        using Update_errors_handler[of k d' w5 e w'] granted(6,7) by (auto simp: other_error_def)
      from u(1) consider "decrypted h (contents (store w') k) = decrypted h (contents (store w5) k)"
        | "decrypted h (contents (store w') k) = Some (through_store d')" by blast
      then show ?thesis
      proof cases
        case 1
        let ?s5 = "s\<lparr> rf_presented := RefreshToken d # rf_presented s, rf_phase := (rf_phase s)(i := Releasing res) \<rparr>"
        have "refresh_step lk UNIV h ?s2 ?s5" using refresh_step.not_found[of ?s2 i d' UNIV e lk h] e by simp
        from R[OF \<open>refresh_step lk UNIV h s ?s1\<close> R[OF 2 R[OF this Z]]] show ?thesis
          using 1 same assms(3) by (intro exI[of _ ?s5]) simp
      next
        case 2
        have "refresh_step lk UNIV h ?s3 (?s4 (Some (through_store d')))"
          using refresh_step.overwrite_unanswered[of ?s3 i d' UNIV e lk h] e by simp
        from R[OF 1 R[OF \<open>refresh_step lk UNIV h ?s1 ?s2\<close> R[OF 3 R[OF this Z]]]] show ?thesis
          using 2 by (intro exI[of _ "?s4 (Some (through_store d'))"]) simp
      qed
    qed
  qed
qed

lemma refresh_run:
  assumes "Handler_Refresh x h k d w = (res, w')" "\<forall>n. undisturbed contents k (waits w n)"
    and "rf_phase s i = Begun d" "rf_session s = decrypted h (contents (store w) k)"
  shows "\<exists>s'. (refresh_step lk UNIV h)\<^sup>*\<^sup>* s s' \<and> rf_phase s' = (rf_phase s)(i := Returned res)
    \<and> rf_session s' = decrypted h (contents (store w') k)"
proof -
  note R = converse_rtranclp_into_rtranclp[of "refresh_step lk UNIV h"] and Z = rtranclp.rtrancl_refl[of "refresh_step lk UNIV h"]
  obtain b w1 where b: "canRefresh h d w = (b, w1)" by fastforce
  have w1: "store w1 = store w" "\<forall>n. undisturbed contents k (waits w1 n)"
    using canRefresh_env[OF b] assms(2) by (simp_all add: same_env_def)
  from assms(1) show ?thesis
  proof (cases rule: Refresh_cases)
    case skipped
    have "refresh_step lk UNIV h s (go_on i (Returned res) s)"
      unfolding skipped(2) using assms(3) skipped(1) by (rule refresh_step.not_needed)
    then show ?thesis using assms(4) skipped(3) R[OF _ Z] by fastforce
  next
    case (unlocked e)
    have "other_error e" using acquire_lock_errors[OF unlocked(3)] by (auto simp: other_error_def)
    let ?s1 = "go_on i Acquiring s"
    let ?s2 = "s\<lparr> rf_phase := (rf_phase s)(i := Returned res) \<rparr>"
    have 1: "refresh_step lk UNIV h s ?s1" using assms(3) unlocked(1) by (rule refresh_step.attempt)
    have 2: "refresh_step lk UNIV h ?s1 ?s2"
      using refresh_step.not_acquired[of ?s1 i e lk UNIV h] \<open>other_error e\<close> unlocked(2) by simp
    have "contents (store w') k = contents (store w) k" using acquire_undisturbed[OF _ w1(2)] unlocked(3) b w1(1) by simp
    then show ?thesis using R[OF 1 R[OF 2 Z]] assms(4) by (intro exI[of _ ?s2]) simp
  next
    case (locked l w2 w3)
    let ?s1 = "go_on i Acquiring s"
    let ?s2 = "?s1\<lparr> rf_holder := None \<rparr>"
    let ?s3 = "s\<lparr> rf_holder := Some i, rf_phase := (rf_phase s)(i := Holding) \<rparr>"
    have 1: "refresh_step lk UNIV h s ?s1" using assms(3) locked(1) by (rule refresh_step.attempt)
    have 2: "refresh_step lk UNIV h ?s1 ?s2" by (rule refresh_step.expire) simp
    have 3: "refresh_step lk UNIV h ?s2 ?s3" using refresh_step.acquired[of ?s2 i lk UNIV h] by simp
    have "contents (store w2) k = contents (store w) k" using acquire_undisturbed[OF _ w1(2)] locked(2) b w1(1) by simp
    then obtain s4 where s4: "(refresh_step lk UNIV h)\<^sup>*\<^sup>* ?s3 s4" "rf_phase s4 = (rf_phase s)(i := Releasing res)"
        "rf_session s4 = decrypted h (contents (store w3) k)"
      using locked_run[OF locked(4), of ?s3 i lk] assms(4) by auto
    let ?s5 = "go_on i (Returned res) (s4\<lparr> rf_holder := (if rf_holder s4 = Some i then None else rf_holder s4) \<rparr>)"
    have "refresh_step lk UNIV h s4 ?s5" by (rule refresh_step.release) (simp add: s4(2))
    then have "(refresh_step lk UNIV h)\<^sup>*\<^sup>* s ?s5" using R[OF 1 R[OF 2 R[OF 3 s4(1)]]] by (rule rtranclp.rtrancl_into_rtrancl[rotated])
    moreover have "rf_session ?s5 = decrypted h (contents (store w') k)" using s4(3) locked(6) by simp
    ultimately show ?thesis using s4(2) by (intro exI[of _ ?s5]) simp
  qed
qed

end

section \<open>An instance\<close>

text \<open>Any number of requests that have read the example's session.\<close>

definition example_requests :: refreshing where
  "example_requests = \<lparr> rf_session = Some example_data, rf_holder = None, rf_presented = [], rf_phase = (\<lambda>_. Begun example_data) \<rparr>"

definition late_world :: "memory world" where "late_world = quiet_world (58 * Minute) Map.empty"

lemma example_can_refresh: "fst (canRefresh example_handler example_data late_world)" "\<not> fst (isTimedOut example_handler example_data late_world)"
proof -
  have "RefreshToken example_data \<noteq> []" by (simp add: example_data_def)
  then show "fst (canRefresh example_handler example_data late_world)" using example_cooldown
    by (simp add: late_world_def quiet_world_def canRefresh_def HasRefreshToken_def IsRefreshOnCooldown_iff time_Now_def duration_consts)
  show "\<not> fst (isTimedOut example_handler example_data late_world)"
    using example_timeout by (simp add: isTimedOut_def Time_IsZero_def)
qed

lemma example_new_data:
  obtains d' w' where "refreshed_data example_handler new_token_response example_data late_world = (d', w')"
    "RefreshToken (through_store d') = []"
proof -
  obtain d' w' where d: "refreshed_data example_handler new_token_response example_data late_world = (d', w')"
    by (cases "refreshed_data example_handler new_token_response example_data late_world")
  have "through_json [] = []" by code_simp
  then have "RefreshToken (through_store d') = []" using refreshed_data_fields(2)[OF d]
    by (simp add: through_store_def new_token_response_def empty_TokenResponse_def)
  with d show thesis by (rule that)
qed

lemma example_token: "RefreshToken example_data \<noteq> []"
  by (simp add: example_data_def)

theorem refresh_token_presented_twice_witness:
  "\<exists>s'. (refresh_step NoOp {} example_handler)\<^sup>*\<^sup>* example_requests s'
     \<and> rf_presented s' = [RefreshToken example_data, RefreshToken example_data] \<and> rf_phase s' 1 = Returned (Inl ErrInvalidState)"
proof -
  obtain d' w' where d: "refreshed_data example_handler new_token_response example_data late_world = (d', w')"
      "RefreshToken (through_store d') = []"
    by (rule example_new_data)
  show ?thesis
    using refresh_token_presented_twice[of NoOp "{}" example_requests example_data example_handler late_world new_token_response d' w']
      example_can_refresh d example_token by (auto simp: example_requests_def)
qed

theorem concurrent_refreshes_safe_witness:
  "\<exists>s. (refresh_step Exclusive {} example_handler)\<^sup>*\<^sup>* example_requests s \<and> critical (rf_phase s 0)
     \<and> rf_presented s = [RefreshToken example_data] \<and> distinct (rf_presented s)"
proof -
  obtain d' w' where d: "refreshed_data example_handler new_token_response example_data late_world = (d', w')"
      "RefreshToken (through_store d') = []"
    by (rule example_new_data)
  let ?R = "refresh_step Exclusive {} example_handler" and ?n = "(\<lambda>_. Begun example_data) :: nat \<Rightarrow> phase"
  let ?S = "\<lambda>lck seen p. \<lparr> rf_session = Some example_data, rf_holder = lck, rf_presented = seen, rf_phase = ?n(0 := p) \<rparr>"
  let ?t = "RefreshToken example_data"
  have 1: "?R example_requests (?S None [] Acquiring)"
    using refresh_step.attempt[of example_requests 0 example_data example_handler late_world Exclusive "{}"] example_can_refresh(1)
    by (simp add: example_requests_def)
  have 2: "?R (?S None [] Acquiring) (?S (Some 0) [] Holding)"
    using refresh_step.acquired[of "?S None [] Acquiring" 0 Exclusive "{}" example_handler] by simp
  have 3: "?R (?S (Some 0) [] Holding) (?S (Some 0) [] (Granting example_data))"
    using refresh_step.proceed[of "?S (Some 0) [] Holding" 0 example_data example_handler late_world late_world Exclusive "{}"] example_can_refresh
    by simp
  have 4: "?R (?S (Some 0) [] (Granting example_data)) (?S (Some 0) [?t] (Updating d'))"
    using refresh_step.granted[of "?S (Some 0) [] (Granting example_data)" 0 example_data example_handler new_token_response late_world d' w' "{}" Exclusive]
      d example_token by simp
  have steps: "?R\<^sup>*\<^sup>* example_requests (?S (Some 0) [?t] (Updating d'))"
    using 1 2 3 4 by (meson converse_rtranclp_into_rtranclp rtranclp.rtrancl_refl)
  have "all_begun example_requests" by (simp add: all_begun_def example_requests_def)
  from concurrent_refreshes_safe[OF this steps] steps show ?thesis by (intro exI[of _ "?S (Some 0) [?t] (Updating d')"]) simp
qed


end
