(* ===== verification/RetryBackoff.thy ===== *)
theory RetryBackoff
  imports World
begin

text \<open>
  \<^verbatim>\<open>pkg/retry\<close>: the backoff that all retries of the program use. It is built by the library go-retry,
  whose backoffs are the parameter \<open>backoff_lib\<close>: abstract states that answer each failed attempt with a
  delay, or not at all.
\<close>

section \<open>The package\<close>

text \<open>
  \<open>bl_Next t b\<close> is what the backoff \<open>b\<close> answers at time \<open>t\<close>, and what becomes of it; wrapping it with a
  maximum duration remembers when that happened.
\<close>

record 'b backoff_lib =
  bl_NewFibonacci :: "duration \<Rightarrow> 'b"
  bl_WithMaxDuration :: "time \<Rightarrow> duration \<Rightarrow> 'b \<Rightarrow> 'b"
  bl_Next :: "time \<Rightarrow> 'b \<Rightarrow> duration option \<times> 'b"

definition DefaultBaseDuration :: duration where "DefaultBaseDuration = 50 * Millisecond"
definition DefaultMaxDuration :: duration where "DefaultMaxDuration = 1 * Second"

record 'b FibonacciBackoff =
  fb_base :: duration
  fb_max :: duration
  fb_backoff :: 'b

text \<open>\<open>now\<close> is the time of the call.\<close>

definition fibonacci :: "'b backoff_lib \<Rightarrow> time \<Rightarrow> duration \<Rightarrow> duration \<Rightarrow> 'b" where
  "fibonacci lib now base mx = (let b = bl_NewFibonacci lib base in bl_WithMaxDuration lib now mx b)"

definition Fibonacci :: "'b backoff_lib \<Rightarrow> time \<Rightarrow> 'b FibonacciBackoff" where
  "Fibonacci lib now = \<lparr> fb_base = DefaultBaseDuration, fb_max = DefaultMaxDuration,
     fb_backoff = fibonacci lib now DefaultBaseDuration DefaultMaxDuration \<rparr>"

definition BaseDuration :: "'b backoff_lib \<Rightarrow> time \<Rightarrow> duration \<Rightarrow> 'b FibonacciBackoff \<Rightarrow> 'b FibonacciBackoff" where
  "BaseDuration lib now base f = (let f = f\<lparr> fb_base := base \<rparr> in f\<lparr> fb_backoff := fibonacci lib now (fb_base f) (fb_max f) \<rparr>)"

definition MaxDuration :: "'b backoff_lib \<Rightarrow> time \<Rightarrow> duration \<Rightarrow> 'b FibonacciBackoff \<Rightarrow> 'b FibonacciBackoff" where
  "MaxDuration lib now mx f = (let f = f\<lparr> fb_max := mx \<rparr> in f\<lparr> fb_backoff := fibonacci lib now (fb_base f) (fb_max f) \<rparr>)"

definition Backoff :: "'b FibonacciBackoff \<Rightarrow> 'b" where "Backoff f = fb_backoff f"

text \<open>A variable of the package: there is one backoff, made when the program starts.\<close>

definition DefaultBackoff :: "'b backoff_lib \<Rightarrow> time \<Rightarrow> 'b" where
  "DefaultBackoff lib start = Backoff (Fibonacci lib start)"

section \<open>What the library documents\<close>

text \<open>
  A Fibonacci backoff always answers, with a delay of at least its base. A maximum duration ends a backoff once that
  much time has passed since it was set, and until then shortens each delay to the time that is left.
  \<open>fib base b\<close> says that \<open>b\<close> is a Fibonacci backoff of that base, whatever it was asked so far.
\<close>

definition backoff_laws :: "'b backoff_lib \<Rightarrow> (duration \<Rightarrow> 'b \<Rightarrow> bool) \<Rightarrow> bool" where
  "backoff_laws lib fib \<longleftrightarrow>
     (\<forall>base > 0. fib base (bl_NewFibonacci lib base))
   \<and> (\<forall>base b t. fib base b \<longrightarrow> (\<exists>d b'. bl_Next lib t b = (Some d, b') \<and> base \<le> d \<and> fib base b'))
   \<and> (\<forall>t t0 mx b. bl_Next lib t (bl_WithMaxDuration lib t0 mx b) =
        (if mx \<le> t - t0 then (None, bl_WithMaxDuration lib t0 mx b)
         else case bl_Next lib t b of
           (None, b') \<Rightarrow> (None, bl_WithMaxDuration lib t0 mx b')
         | (Some d, b') \<Rightarrow> (Some (min d (mx - (t - t0))), bl_WithMaxDuration lib t0 mx b')))"

lemma backoff_lawsD:
  assumes "backoff_laws lib fib"
  shows "0 < base \<Longrightarrow> fib base (bl_NewFibonacci lib base)"
    and "fib base b \<Longrightarrow> \<exists>d b'. bl_Next lib t b = (Some d, b') \<and> base \<le> d \<and> fib base b'"
    and "bl_Next lib t (bl_WithMaxDuration lib t0 mx b) =
        (if mx \<le> t - t0 then (None, bl_WithMaxDuration lib t0 mx b)
         else case bl_Next lib t b of
           (None, b') \<Rightarrow> (None, bl_WithMaxDuration lib t0 mx b')
         | (Some d, b') \<Rightarrow> (Some (min d (mx - (t - t0))), bl_WithMaxDuration lib t0 mx b'))"
  using assms unfolding backoff_laws_def by blast+

section \<open>The loop\<close>

text \<open>
  The loop of one \<^verbatim>\<open>retry.Do\<close>, as far as the backoff goes: an attempt has failed at time \<open>t\<close>, the backoff is asked
  whether there is another one, which fails after the delay and the time \<open>late i\<close> that waking up and the
  attempt take. The answers, as long as there are any, are the environment's \<open>backoff\<close> of that call;
  the function has no value if it never ends.
\<close>

partial_function (option) retry_answers ::
    "'b backoff_lib \<Rightarrow> (nat \<Rightarrow> duration) \<Rightarrow> nat \<Rightarrow> time \<Rightarrow> 'b \<Rightarrow> (backoff \<times> 'b) option" where
  "retry_answers lib late i t b =
     (case bl_Next lib t b of
        (None, b') \<Rightarrow> Some (Stop, b')
      | (Some d, b') \<Rightarrow>
          Option.bind (retry_answers lib late (Suc i) (t + d + late i) b') (\<lambda>(bk, b''). Some (Next bk, b'')))"

fun retries :: "backoff \<Rightarrow> nat" where
  "retries Stop = 0"
| "retries Cancelled = 0"
| "retries (Next b) = Suc (retries b)"

text \<open>The states that the package's backoff can be in, which all calls of \<^verbatim>\<open>retry.Do\<close> share.\<close>

inductive shared_backoff :: "'b backoff_lib \<Rightarrow> time \<Rightarrow> 'b \<Rightarrow> bool" for lib start where
  made: "shared_backoff lib start (DefaultBackoff lib start)"
| asked: "shared_backoff lib start b \<Longrightarrow> shared_backoff lib start (snd (bl_Next lib t b))"

lemma shared_backoff_form:
  assumes "backoff_laws lib fib" "shared_backoff lib start b"
  shows "\<exists>f. b = bl_WithMaxDuration lib start DefaultMaxDuration f \<and> fib DefaultBaseDuration f"
  using assms(2)
proof (induction rule: shared_backoff.induct)
  case made
  have "0 < DefaultBaseDuration" by (simp add: DefaultBaseDuration_def Millisecond_def)
  then show ?case using backoff_lawsD(1)[OF assms(1)]
    by (auto simp: DefaultBackoff_def Backoff_def Fibonacci_def fibonacci_def Let_def)
next
  case (asked b t)
  then obtain f where f: "b = bl_WithMaxDuration lib start DefaultMaxDuration f" "fib DefaultBaseDuration f" by blast
  obtain d f' where "bl_Next lib t f = (Some d, f')" "fib DefaultBaseDuration f'"
    using backoff_lawsD(2)[OF assms(1) f(2)] by blast
  then show ?case using f backoff_lawsD(3)[OF assms(1)] by auto
qed

lemma retry_answers_bounded:
  assumes "backoff_laws lib fib" "fib base f" "0 < base" "\<And>j. 0 \<le> late j" "mx - (t - t0) \<le> int n * base"
  shows "\<exists>bk b'. retry_answers lib late i t (bl_WithMaxDuration lib t0 mx f) = Some (bk, b') \<and> retries bk \<le> n"
  using assms(2,5)
proof (induction n arbitrary: i t f)
  case 0
  then have "bl_Next lib t (bl_WithMaxDuration lib t0 mx f) = (None, bl_WithMaxDuration lib t0 mx f)"
    using backoff_lawsD(3)[OF assms(1)] by simp
  then show ?case by (simp add: retry_answers.simps)
next
  case (Suc n)
  show ?case
  proof (cases "mx \<le> t - t0")
    case True
    then have "bl_Next lib t (bl_WithMaxDuration lib t0 mx f) = (None, bl_WithMaxDuration lib t0 mx f)"
      using backoff_lawsD(3)[OF assms(1)] by simp
    then show ?thesis by (simp add: retry_answers.simps)
  next
    case False
    obtain d f' where d: "bl_Next lib t f = (Some d, f')" "base \<le> d" "fib base f'"
      using backoff_lawsD(2)[OF assms(1) Suc.prems(1)] by blast
    let ?d = "min d (mx - (t - t0))"
    have nx: "bl_Next lib t (bl_WithMaxDuration lib t0 mx f) = (Some ?d, bl_WithMaxDuration lib t0 mx f')"
      using backoff_lawsD(3)[OF assms(1)] False d(1) by simp
    have "0 \<le> int n * base" using assms(3) by simp
    then have "mx - (t + ?d + late i - t0) \<le> int n * base"
      using Suc.prems(2) d(2) assms(4)[of i] by (simp add: distrib_right min_def)
    from Suc.IH[OF d(3) this, of "Suc i"] nx show ?thesis
      by (subst retry_answers.simps) auto
  qed
qed

section \<open>Retries end\<close>

text \<open>
  C23: Every retry loop ends. Whatever the library's other behaviour, whenever a call of \<^verbatim>\<open>retry.Do\<close> begins to fail after
  the program's start and however long its attempts take, the backoff that all calls share stops it
  after at most twenty more attempts.
\<close>

theorem retries_end:
  assumes "backoff_laws lib fib" "shared_backoff lib start b" "\<forall>j. 0 \<le> late j" "start \<le> t"
  shows "\<exists>bk b'. retry_answers lib late i t b = Some (bk, b') \<and> retries bk \<le> 20"
proof -
  obtain f where f: "b = bl_WithMaxDuration lib start DefaultMaxDuration f" "fib DefaultBaseDuration f"
    using shared_backoff_form[OF assms(1,2)] by blast
  have "0 < DefaultBaseDuration" "DefaultMaxDuration - (t - start) \<le> int 20 * DefaultBaseDuration"
    using assms(4) by (simp_all add: DefaultBaseDuration_def DefaultMaxDuration_def duration_consts)
  from retry_answers_bounded[OF assms(1) f(2) this(1) _ this(2)] assms(3) show ?thesis unfolding f(1) by blast
qed

text \<open>
  C24: The backoff that all calls share is used up for good: the maximum duration counts from the
  start of the program. From one second after that on, the backoff stops every call at its first
  failure, so an operation is attempted exactly once.
\<close>

theorem no_retry_after_first_second:
  assumes "backoff_laws lib fib" "shared_backoff lib start b" "start + Second \<le> t"
    and "retry_answers lib late i t b = Some (backoffs w (dos w), b')"
  shows "retry_Do f w = (case f (w\<lparr> dos := Suc (dos w) \<rparr>) of
      (Success a, w') \<Rightarrow> (Inr a, w') | (Permanent e, w') \<Rightarrow> (Inl e, w') | (Retryable e, w') \<Rightarrow> (Inl e, w'))"
proof -
  obtain g where g: "b = bl_WithMaxDuration lib start DefaultMaxDuration g"
    using shared_backoff_form[OF assms(1,2)] by blast
  have "bl_Next lib t b = (None, b)"
    using backoff_lawsD(3)[OF assms(1)] assms(3) unfolding g by (simp add: DefaultMaxDuration_def)
  then have "backoffs w (dos w) = Stop" using assms(4) by (simp add: retry_answers.simps)
  then show ?thesis by (simp add: retry_Do_def)
qed

section \<open>An instance\<close>

text \<open>A backoff is a pair of Fibonacci numbers below any number of maximum durations.\<close>

datatype example_backoff = Fib duration duration | Within time duration example_backoff

primrec example_Next :: "time \<Rightarrow> example_backoff \<Rightarrow> duration option \<times> example_backoff" where
  "example_Next t (Fib x y) = (Some (x + y), Fib y (x + y))"
| "example_Next t (Within t0 mx b) =
     (if mx \<le> t - t0 then (None, Within t0 mx b)
      else case example_Next t b of
        (None, b') \<Rightarrow> (None, Within t0 mx b')
      | (Some d, b') \<Rightarrow> (Some (min d (mx - (t - t0))), Within t0 mx b'))"

definition example_backoff_lib :: "example_backoff backoff_lib" where
  "example_backoff_lib = \<lparr> bl_NewFibonacci = Fib 0, bl_WithMaxDuration = Within, bl_Next = example_Next \<rparr>"

fun example_fib :: "duration \<Rightarrow> example_backoff \<Rightarrow> bool" where
  "example_fib base (Fib x y) = (0 < base \<and> 0 \<le> x \<and> base \<le> y)"
| "example_fib base (Within t0 mx b) = False"

lemma example_backoff_laws: "backoff_laws example_backoff_lib example_fib"
proof -
  have "\<exists>d b'. example_Next t b = (Some d, b') \<and> base \<le> d \<and> example_fib base b'" if "example_fib base b" for base t b
    using that by (cases b) auto
  then show ?thesis by (simp add: backoff_laws_def example_backoff_lib_def cong: option.case_cong prod.case_cong)
qed

theorem retries_end_witness:
  "\<exists>bk b'. retry_answers example_backoff_lib (\<lambda>_. 0) 0 0 (DefaultBackoff example_backoff_lib 0) = Some (bk, b') \<and> retries bk \<le> 20"
  by (rule retries_end[OF example_backoff_laws shared_backoff.made]) simp_all

theorem no_retry_after_first_second_witness:
  "retry_Do (\<lambda>w. (Retryable ErrUnexpected, w)) (quiet_world (2 * Second) ()) =
     (Inl ErrUnexpected :: unit result, (quiet_world (2 * Second) ())\<lparr> dos := 1 \<rparr>)"
proof -
  have "retry_answers example_backoff_lib (\<lambda>_. 0) 0 (2 * Second) (DefaultBackoff example_backoff_lib 0)
      = Some (Stop, DefaultBackoff example_backoff_lib 0)"
    by (simp add: retry_answers.simps example_backoff_lib_def DefaultBackoff_def Backoff_def Fibonacci_def fibonacci_def
        DefaultMaxDuration_def Second_def)
  then have "retry_answers example_backoff_lib (\<lambda>_. 0) 0 (2 * Second) (DefaultBackoff example_backoff_lib 0)
      = Some (backoffs (quiet_world (2 * Second) ()) (dos (quiet_world (2 * Second) ())), DefaultBackoff example_backoff_lib 0)"
    by (simp add: quiet_world_def)
  from no_retry_after_first_second[OF example_backoff_laws shared_backoff.made _ this, of "\<lambda>w. (Retryable ErrUnexpected, w)"]
  show ?thesis by (simp add: quiet_world_def Second_def)
qed

end
