(* ===== verification/MockProvider.thy ===== *)
theory MockProvider
  imports ErrorHandler OpenIDClient
begin

text \<open>
  \<^verbatim>\<open>pkg/mock\<close> and \<^verbatim>\<open>pkg/crypto/jwk.go\<close>, \<^verbatim>\<open>jwks.go\<close>: the identity provider that the program
  is run against in development. Its handler is a state machine over authorization codes and refresh
  tokens; here its state is the store of a world, from which it takes the clock and its identifiers.
  Signing, verifying and generating keys is done by libraries and is the record \<open>mock_lib\<close>; the text
  of an error is a string.
\<close>

section \<open>Keys\<close>

datatype jwt_claim = StrClaim string | NumClaim int

type_synonym jwt_claims = "(string \<times> jwt_claim) list"

text \<open>A \<^verbatim>\<open>jwk.Set\<close> of private keys is the list of its keys.\<close>

record mock_lib =
  rsa_GenerateKey :: "nat \<Rightarrow> string + string"
  jwk_FromRaw :: "string \<Rightarrow> string + jwk_key"
  jwk_Set_param :: "jwk_key \<Rightarrow> string \<Rightarrow> string \<Rightarrow> jwk_key"
  jwk_AssignKeyID :: "jwk_key \<Rightarrow> jwk_key"
  jwk_PublicSetOf :: "jwk_key list \<Rightarrow> string + jwks"
  lib_Sign :: "jwt_claims \<Rightarrow> jwk_key \<Rightarrow> string + string"
  lib_ParseAssertion :: "time \<Rightarrow> jwks \<Rightarrow> string \<Rightarrow> string \<Rightarrow> string \<Rightarrow> string \<Rightarrow> string option"
  lib_uuid :: "nat \<Rightarrow> string"
  lib_jwks_json :: "jwks \<Rightarrow> string"

text \<open>The result \<open>None\<close> is the panic when the random source fails.\<close>

definition NewJwk :: "mock_lib \<Rightarrow> 's world \<Rightarrow> (string + jwk_key) option \<times> 's world" where
  "NewJwk m w =
     (let w1 = w\<lparr> draws := Suc (draws w) \<rparr> in
      case rsa_GenerateKey m (draws w) of
        Inl e \<Rightarrow> (None, w1)
      | Inr privateKey \<Rightarrow>
          (case jwk_FromRaw m privateKey of
             Inl e \<Rightarrow> (Some (Inl e), w1)
           | Inr ky \<Rightarrow>
               let ky = jwk_Set_param m ky ''alg'' ''RS256''; ky = jwk_Set_param m ky ''kty'' ''RSA''
               in (Some (Inr (jwk_AssignKeyID m ky)), w1)))"

record jwk_pair =
  jp_Private :: "jwk_key list"
  jp_Public :: jwks

definition NewJwkSet :: "mock_lib \<Rightarrow> 's world \<Rightarrow> (string + jwk_pair) option \<times> 's world" where
  "NewJwkSet m w =
     (case NewJwk m w of
        (None, w1) \<Rightarrow> (None, w1)
      | (Some (Inl e), w1) \<Rightarrow> (Some (Inl e), w1)
      | (Some (Inr ky), w1) \<Rightarrow>
          let privateKeys = [ky] in
          (case jwk_PublicSetOf m privateKeys of
             Inl e \<Rightarrow> (Some (Inl e), w1)
           | Inr publicKeys \<Rightarrow> (Some (Inr \<lparr> jp_Private = privateKeys, jp_Public = publicKeys \<rparr>), w1)))"

section \<open>The configuration of the mock\<close>

definition mock_Config :: config where
  "mock_Config = \<lparr> BindAddress = [], LogFormat = [], LogLevel = [], MetricsBindAddress = [], AutoLogin = False,
     AutoLoginIgnorePaths = [], EncryptionKey = ''G8Roe6AcoBpdr5GhO3cs9iORl4XIC8eq'', ErrorPath = [],
     Ingresses = [''http://wonderwall''],
     cfg_Session = \<lparr> Inactivity = False, InactivityTimeout = 0, MaxLifetime = Hour, cfg_Refresh = False \<rparr>,
     UpstreamHost = [],
     cfg_OpenID = \<lparr> op_Provider = ''test'', op_ClientID = ''client-id'', op_ClientJWK = [],
       op_PostLogoutRedirectURI = ''https://google.com'', op_Scopes = [''some-scope''], op_WellKnownURL = [],
       op_ACRValues = ''Level4'', op_UILocales = ''nb'' \<rparr>,
     cfg_Redis = \<lparr> Address = [], Username = [], Password = [], TLS = False \<rparr>,
     cfg_Loginstatus = \<lparr> Enabled = False, CookieDomain = [], CookieName = [], cfg_ResourceIndicator = [], TokenURL = [] \<rparr> \<rparr>"

text \<open>
  \<^verbatim>\<open>TestClientConfiguration\<close> and \<^verbatim>\<open>TestProviderConfiguration\<close> implement the interfaces of
  the real configurations; every method but the setters and \<^verbatim>\<open>EndSessionEndpointURL\<close>, which
  parses the endpoint each time, is the real one's, so they are the same records. A setter changes the
  metadata.
\<close>

definition clientConfiguration :: "config \<Rightarrow> jwk_key \<Rightarrow> client_config" where
  "clientConfiguration cfg ky = \<lparr> cl_kind = PlainClient, cl_OpenID = cfg_OpenID cfg, cl_clientJwk = ky \<rparr>"

record test_provider =
  tp_cfg :: config
  tp_metadata :: ProviderMetadata

definition providerConfiguration :: "config \<Rightarrow> test_provider" where
  "providerConfiguration cfg = \<lparr> tp_cfg = cfg, tp_metadata = empty_metadata\<lparr>
     pm_ACRValuesSupported := [''Level3'', ''Level4''], pm_UILocalesSupported := [''nb'', ''nb'', ''en'', ''se''] \<rparr> \<rparr>"

definition set_metadata :: "(ProviderMetadata \<Rightarrow> ProviderMetadata) \<Rightarrow> test_provider \<Rightarrow> test_provider" where
  "set_metadata f t = t\<lparr> tp_metadata := f (tp_metadata t) \<rparr>"

definition SetAuthorizationEndpoint :: "test_provider \<Rightarrow> string \<Rightarrow> test_provider" where
  "SetAuthorizationEndpoint t u = set_metadata (pm_AuthorizationEndpoint_update (\<lambda>_. u)) t"
definition SetCheckSessionIframe :: "test_provider \<Rightarrow> string \<Rightarrow> test_provider" where
  "SetCheckSessionIframe t u = set_metadata (pm_CheckSessionIframe_update (\<lambda>_. u)) t"
definition SetEndSessionEndpoint :: "test_provider \<Rightarrow> string \<Rightarrow> test_provider" where
  "SetEndSessionEndpoint t u = set_metadata (pm_EndSessionEndpoint_update (\<lambda>_. u)) t"
definition SetFrontchannelLogoutSupported :: "test_provider \<Rightarrow> bool \<Rightarrow> test_provider" where
  "SetFrontchannelLogoutSupported t b = set_metadata (pm_FrontchannelLogoutSupported_update (\<lambda>_. b)) t"
definition SetFrontchannelLogoutSessionSupported :: "test_provider \<Rightarrow> bool \<Rightarrow> test_provider" where
  "SetFrontchannelLogoutSessionSupported t b = set_metadata (pm_FrontchannelLogoutSessionSupported_update (\<lambda>_. b)) t"
definition SetIssuer :: "test_provider \<Rightarrow> string \<Rightarrow> test_provider" where
  "SetIssuer t u = set_metadata (pm_Issuer_update (\<lambda>_. u)) t"
definition SetJwksURI :: "test_provider \<Rightarrow> string \<Rightarrow> test_provider" where
  "SetJwksURI t u = set_metadata (pm_JwksURI_update (\<lambda>_. u)) t"
definition SetTokenEndpoint :: "test_provider \<Rightarrow> string \<Rightarrow> test_provider" where
  "SetTokenEndpoint t u = set_metadata (pm_TokenEndpoint_update (\<lambda>_. u)) t"

definition WithFrontChannelLogoutSupport :: "test_provider \<Rightarrow> test_provider" where
  "WithFrontChannelLogoutSupport t =
     SetFrontchannelLogoutSessionSupported (SetFrontchannelLogoutSupported t True) True"

definition WithCheckSessionIFrameSupport :: "test_provider \<Rightarrow> string \<Rightarrow> test_provider" where
  "WithCheckSessionIFrameSupport t u = SetCheckSessionIframe t u"

text \<open>As the program sees it through the interface; a URL that does not parse is a nil dereference.\<close>

definition test_provider_config :: "test_provider \<Rightarrow> provider_config option" where
  "test_provider_config t =
     (case Parse (pm_EndSessionEndpoint (tp_metadata t)) of
        Inl _ \<Rightarrow> None
      | Inr u \<Rightarrow> Some \<lparr> pr_endSessionEndpointURL = u, pr_metadata = tp_metadata t,
          pr_name = op_Provider (cfg_OpenID (tp_cfg t)) \<rparr>)"

text \<open>The endpoints that \<^verbatim>\<open>NewIdentityProvider\<close> sets once the server has its address.\<close>

definition configure_endpoints :: "string \<Rightarrow> test_provider \<Rightarrow> test_provider" where
  "configure_endpoints url t =
     (let t = SetAuthorizationEndpoint t (url @ ''/authorize''); t = SetEndSessionEndpoint t (url @ ''/endsession'');
          t = SetIssuer t url; t = SetJwksURI t (url @ ''/jwks'')
      in SetTokenEndpoint t (url @ ''/token''))"

section \<open>The state of the handler\<close>

record AuthorizeRequest =
  ar_AcrLevel :: string
  ar_ClientID :: string
  ar_CodeChallenge :: string
  ar_Locale :: string
  ar_Nonce :: string
  ar_RedirectUri :: string
  ar_SessionID :: string

record RefreshTokenData =
  rd_ClientID :: string
  rd_RefreshToken :: string
  rd_OriginalIDToken :: jwt_claims
  rd_SessionID :: string

record idp =
  Codes :: "string \<rightharpoonup> AuthorizeRequest"
  idp_Sessions :: "string \<rightharpoonup> string"
  RefreshTokens :: "string \<rightharpoonup> RefreshTokenData"

record idp_handler =
  ip_Config :: openid_config
  ip_PrivateKeys :: "jwk_key list"
  ip_PublicKeys :: jwks
  TokenDuration :: duration

definition newIdentityProviderHandler :: "jwk_pair \<Rightarrow> openid_config \<Rightarrow> idp_handler \<times> idp" where
  "newIdentityProviderHandler provider cfg =
     (\<lparr> ip_Config = cfg, ip_PrivateKeys = jp_Private provider, ip_PublicKeys = jp_Public provider, TokenDuration = Minute \<rparr>,
      \<lparr> Codes = Map.empty, idp_Sessions = Map.empty, RefreshTokens = Map.empty \<rparr>)"

definition uuid_NewString :: "mock_lib \<Rightarrow> 's world \<Rightarrow> string \<times> 's world" where
  "uuid_NewString m w = (lib_uuid m (draws w), w\<lparr> draws := Suc (draws w) \<rparr>)"

definition fail_with :: "int \<Rightarrow> string \<Rightarrow> response \<Rightarrow> response" where
  "fail_with code msg rw = Write_Body (Text msg) (WriteHeader code rw)"

definition quoted :: "string \<Rightarrow> string" where "quoted s = CHR 0x27 # s @ [CHR 0x27]"

section \<open>Authorize\<close>

text \<open>
  The handler ranges over two Go maps, whose order is not defined: \<open>ord\<close> is the order the run
  happens to use, as a permutation.
\<close>

record param_order =
  ord_required :: "(string \<times> string) list \<Rightarrow> (string \<times> string) list"
  ord_allowed :: "(string \<times> string list) list \<Rightarrow> (string \<times> string list) list"

definition required_params :: "url_values \<Rightarrow> (string \<times> string) list" where
  "required_params q =
     [(''state'', Values_Get q ''state''), (''nonce'', Values_Get q ''nonce''),
      (''redirect'', Values_Get q ''redirect_uri''), (''response_type'', Values_Get q ''response_type''),
      (''response_mode'', Values_Get q ''response_mode''), (''client_id'', Values_Get q ''client_id''),
      (''scope'', Values_Get q ''scope''), (''code_challenge'', Values_Get q ''code_challenge''),
      (''code_challenge_method'', Values_Get q ''code_challenge_method'')]"

definition allowedParamValues :: "(string \<times> string list) list" where
  "allowedParamValues =
     [(''code_challenge_method'', [''S256'']), (''response_type'', [''code'']), (''response_mode'', [''query'']),
      (''acr_values'', [[], ''Level3'', ''Level4'']), (''ui_locales'', [[], ''nb'', ''nn'', ''en'', ''se''])]"

fun check_required :: "(string \<times> string) list \<Rightarrow> string option" where
  "check_required [] = None"
| "check_required ((param, v) # ps) =
     (if length v \<le> 0 then Some (''missing required field '' @ quoted param) else check_required ps)"

fun check_allowed :: "url_values \<Rightarrow> (string \<times> string list) list \<Rightarrow> string option" where
  "check_allowed q [] = None"
| "check_allowed q ((param, allowed) # ps) =
     (let paramValue = Values_Get q param in
      if \<not> Contains allowed paramValue
      then Some (quoted paramValue @ '' is an invalid value for '' @ quoted param @ '', must be ''
        @ quoted (''['' @ join_with '' '' allowed @ '']''))
      else check_allowed q ps)"

definition Authorize ::
    "mock_lib \<Rightarrow> param_order \<Rightarrow> idp_handler \<Rightarrow> request \<Rightarrow> idp world \<Rightarrow> response \<Rightarrow> idp world \<times> response" where
  "Authorize m ord ip r w rw =
     (let query = req_Query r; scope = Values_Get query ''scope'' in
      case check_required (ord_required ord (required_params query)) of
        Some msg \<Rightarrow> (w, fail_with 400 msg rw)
      | None \<Rightarrow>
      (case check_allowed query (ord_allowed ord allowedParamValues) of
        Some msg \<Rightarrow> (w, fail_with 400 msg rw)
      | None \<Rightarrow>
      if ''openid'' \<notin> set (split_on (CHR '' '') scope)
      then (w, fail_with 400 (quoted ''scope'' @ '' parameter must contain '' @ quoted ''openid'' @ '', was '' @ quoted scope) rw)
      else
        (case uuid_NewString m w of (sessionID, w1) \<Rightarrow>
         let w2 = w1\<lparr> store := (store w1)\<lparr> idp_Sessions := (idp_Sessions (store w1))(sessionID \<mapsto> Values_Get query ''client_id'') \<rparr> \<rparr> in
         (case uuid_NewString m w2 of (code, w3) \<Rightarrow>
          let w4 = w3\<lparr> store := (store w3)\<lparr> Codes := (Codes (store w3))(code \<mapsto>
                     \<lparr> ar_AcrLevel = Values_Get query ''acr_values'', ar_ClientID = Values_Get query ''client_id'',
                       ar_CodeChallenge = Values_Get query ''code_challenge'', ar_Locale = Values_Get query ''ui_locales'',
                       ar_Nonce = Values_Get query ''nonce'', ar_RedirectUri = Values_Get query ''redirect_uri'',
                       ar_SessionID = sessionID \<rparr>) \<rparr> \<rparr> in
          (case Parse (Values_Get query ''redirect_uri'') of
             Inl e \<Rightarrow> (w4, fail_with 400 (''couldn'' @ CHR 0x27 # ''t parse redirect uri'') rw)
           | Inr u \<Rightarrow>
               let v = Values_Set (Values_Set [] ''code'' code) ''state'' (Values_Get query ''state'');
                   v = (if SessionStateRequired (Provider (ip_Config ip)) then Values_Set v ''session_state'' sessionID else v);
                   u = u\<lparr> RawQuery := Values_Encode v \<rparr>
               in (w4, http_Redirect r (URL_String u) 307 rw))))))"

section \<open>Token\<close>

definition idp_signToken :: "mock_lib \<Rightarrow> idp_handler \<Rightarrow> jwt_claims \<Rightarrow> string + string" where
  "idp_signToken m ip t =
     (case ip_PrivateKeys ip of
        [] \<Rightarrow> Inl ''could not get signer''
      | signer # _ \<Rightarrow> lib_Sign m t signer)"

text \<open>
  On failure the status is written and the text of the error returned, which the caller writes. Parsing
  the assertion reads the clock.
\<close>

definition validateClientAuthentication ::
    "mock_lib \<Rightarrow> idp_handler \<Rightarrow> url_values \<Rightarrow> string \<Rightarrow> idp world \<Rightarrow> response \<Rightarrow> string option \<times> idp world \<times> response" where
  "validateClientAuthentication m ip form expectedClientID w rw =
     (let clientID = Values_Get form ''client_id''; clientAssertion = Values_Get form ''client_assertion'';
          cfg = ip_Config ip in
      if length clientID = 0 then (Some ''missing client_id'', w, WriteHeader 400 rw)
      else if expectedClientID \<noteq> clientID
      then (Some ''client_id does not match client_id for original authorization'', w, WriteHeader 400 rw)
      else if length clientAssertion = 0 then (Some ''missing client_assertion'', w, WriteHeader 400 rw)
      else case jwk_PublicSetOf m [ClientJWK (Client cfg)] of
        Inl e \<Rightarrow> (Some ''failed to create public client jwk set'', w, WriteHeader 500 rw)
      | Inr publicClientJwkSet \<Rightarrow>
          (case time_Now w of (now, w1) \<Rightarrow>
           (case lib_ParseAssertion m now publicClientJwkSet (ClientID (Client cfg)) (ClientID (Client cfg))
                   (Issuer (Provider cfg)) clientAssertion of
              Some e \<Rightarrow> (Some (Values_Encode (Values_Set (Values_Set [] ''error'' ''Unauthenticated'')
                           ''error_description'' ''invalid client assertion'') @ '': '' @ e), w1, WriteHeader 401 rw)
            | None \<Rightarrow> (None, w1, rw))))"

record tokenResponse =
  mt_AccessToken :: string
  mt_TokenType :: string
  mt_RefreshToken :: string
  mt_ExpiresIn :: int
  mt_IDToken :: string

definition int_member :: "string \<Rightarrow> int \<Rightarrow> string \<times> json" where "int_member k i = (k, JNum (Itoa i))"

definition tokenResponse_members :: "tokenResponse \<Rightarrow> (string \<times> json) list" where
  "tokenResponse_members t =
     [string_member ''access_token'' (mt_AccessToken t), string_member ''token_type'' (mt_TokenType t),
      string_member ''refresh_token'' (mt_RefreshToken t), int_member ''expires_in'' (mt_ExpiresIn t),
      string_member ''id_token'' (mt_IDToken t)]"

text \<open>\<^verbatim>\<open>json.NewEncoder(w).Encode\<close> ends with a newline.\<close>

definition Encode_tokenResponse :: "tokenResponse \<Rightarrow> response \<Rightarrow> response" where
  "Encode_tokenResponse t rw =
     Write_Body (Text (json_print (JObj (tokenResponse_members t)) @ [CHR 0x0A]))
       (WriteHeader 200 (set_ContentType ''application/json'' rw))"

definition code_access_claims :: "idp_handler \<Rightarrow> AuthorizeRequest \<Rightarrow> string \<Rightarrow> time \<Rightarrow> time \<Rightarrow> string \<Rightarrow> jwt_claims" where
  "code_access_claims ip auth sub iat ex jti =
     [(''sub'', StrClaim sub), (''iss'', StrClaim (Issuer (Provider (ip_Config ip)))), (''acr'', StrClaim (ar_AcrLevel auth)),
      (''iat'', NumClaim (iat div Second)), (''exp'', NumClaim (ex div Second)), (''jti'', StrClaim jti)]"

definition id_claims :: "idp_handler \<Rightarrow> AuthorizeRequest \<Rightarrow> string \<Rightarrow> time \<Rightarrow> time \<Rightarrow> string \<Rightarrow> jwt_claims" where
  "id_claims ip auth sub iat ex jti =
     [(''sub'', StrClaim sub), (''iss'', StrClaim (Issuer (Provider (ip_Config ip)))), (''aud'', StrClaim (ar_ClientID auth)),
      (''locale'', StrClaim (ar_Locale auth)), (''nonce'', StrClaim (ar_Nonce auth)), (''acr'', StrClaim (ar_AcrLevel auth)),
      (''iat'', NumClaim (iat div Second)), (''exp'', NumClaim (ex div Second)), (''jti'', StrClaim jti)]
     @ (if SidClaimRequired (Provider (ip_Config ip)) then [(''sid'', StrClaim (ar_SessionID auth))] else [])"

definition put_refresh_token :: "string \<Rightarrow> RefreshTokenData \<Rightarrow> idp world \<Rightarrow> idp world" where
  "put_refresh_token t d w = w\<lparr> store := (store w)\<lparr> RefreshTokens := (RefreshTokens (store w))(t \<mapsto> d) \<rparr> \<rparr>"

text \<open>The end of the code grant, once the request has been found in order.\<close>

definition issue_tokens ::
    "mock_lib \<Rightarrow> idp_handler \<Rightarrow> string \<Rightarrow> AuthorizeRequest \<Rightarrow> idp world \<Rightarrow> response \<Rightarrow> idp world \<times> response" where
  "issue_tokens m ip code auth w rw =
     (case time_Now w of (now, w1) \<Rightarrow>
      let iat = now - now mod Second; ex = Time_Add iat (TokenDuration ip) in
      case uuid_NewString m w1 of (sub, w2) \<Rightarrow>
      case uuid_NewString m w2 of (jti, w3) \<Rightarrow>
      case idp_signToken m ip (code_access_claims ip auth sub iat ex jti) of
        Inl e \<Rightarrow> (w3, fail_with 500 (''could not sign access token: '' @ e) rw)
      | Inr signedAccessToken \<Rightarrow>
      (case uuid_NewString m w3 of (jti', w4) \<Rightarrow>
       let idToken = id_claims ip auth sub iat ex jti' in
       case idp_signToken m ip idToken of
        Inl e \<Rightarrow> (w4, fail_with 500 (''could not sign access token: '' @ e) rw)
      | Inr signedIdToken \<Rightarrow>
          let refreshToken = code @ ''some-refresh-token'';
              t = \<lparr> mt_AccessToken = signedAccessToken, mt_TokenType = ''Bearer'', mt_RefreshToken = refreshToken,
                    mt_ExpiresIn = int64_of_float (Duration_Seconds (TokenDuration ip)), mt_IDToken = signedIdToken \<rparr>
          in (put_refresh_token refreshToken \<lparr> rd_ClientID = ar_ClientID auth, rd_RefreshToken = refreshToken,
                 rd_OriginalIDToken = idToken, rd_SessionID = ar_SessionID auth \<rparr> w4,
              Encode_tokenResponse t rw)))"

definition TokenCodeGrant ::
    "mock_lib \<Rightarrow> idp_handler \<Rightarrow> url_values \<Rightarrow> idp world \<Rightarrow> response \<Rightarrow> idp world \<times> response" where
  "TokenCodeGrant m ip form w rw =
     (let code = Values_Get form ''code'' in
      if length code = 0 then (w, fail_with 400 ''missing code'' rw)
      else case Codes (store w) code of
        None \<Rightarrow> (w, fail_with 500 ''no matching code'' rw)
      | Some auth \<Rightarrow>
      (case validateClientAuthentication m ip form (ar_ClientID auth) w rw of
        (Some err, w1, rw1) \<Rightarrow> (w1, Write_Body (Text err) rw1)
      | (None, w1, rw1) \<Rightarrow>
          let redirect = Values_Get form ''redirect_uri''; codeVerifier = Values_Get form ''code_verifier'' in
          if length redirect = 0 then (w1, fail_with 400 ''missing redirect_uri'' rw1)
          else if length (ar_RedirectUri auth) = 0 then (w1, fail_with 400 ''redirect_uri was not set in auth code request'' rw1)
          else if ar_RedirectUri auth \<noteq> redirect
          then (w1, fail_with 400 ''redirect_uri does not match redirect_uri used to acquire code'' rw1)
          else if length codeVerifier = 0 then (w1, fail_with 400 ''missing code_verifier'' rw1)
          else if CodeChallenge codeVerifier \<noteq> ar_CodeChallenge auth then (w1, fail_with 400 ''code_verifier is invalid'' rw1)
          else issue_tokens m ip code auth w1 rw1))"

definition Subject :: "jwt_claims \<Rightarrow> string" where
  "Subject t = (case map_of t ''sub'' of Some (StrClaim s) \<Rightarrow> s | _ \<Rightarrow> [])"

definition refresh_access_claims :: "idp_handler \<Rightarrow> string \<Rightarrow> time \<Rightarrow> time \<Rightarrow> string \<Rightarrow> jwt_claims" where
  "refresh_access_claims ip sub iat ex jti =
     [(''sub'', StrClaim sub), (''iss'', StrClaim (Issuer (Provider (ip_Config ip)))),
      (''iat'', NumClaim (iat div Second)), (''exp'', NumClaim (ex div Second)), (''jti'', StrClaim jti)]"

definition remove_refresh_token :: "string \<Rightarrow> idp world \<Rightarrow> idp world" where
  "remove_refresh_token t w = w\<lparr> store := (store w)\<lparr> RefreshTokens := (RefreshTokens (store w))(t := None) \<rparr> \<rparr>"

definition RefreshTokenGrant ::
    "mock_lib \<Rightarrow> idp_handler \<Rightarrow> url_values \<Rightarrow> idp world \<Rightarrow> response \<Rightarrow> idp world \<times> response" where
  "RefreshTokenGrant m ip form w rw =
     (let refreshToken = Values_Get form ''refresh_token'' in
      if length refreshToken = 0 then (w, fail_with 400 ''missing refresh_token'' rw)
      else case RefreshTokens (store w) refreshToken of
        None \<Rightarrow> (w, fail_with 500 ''no matching refresh_token'' rw)
      | Some d \<Rightarrow>
      (case validateClientAuthentication m ip form (rd_ClientID d) w rw of
        (Some err, w1, rw1) \<Rightarrow> (w1, Write_Body (Text err) rw1)
      | (None, w1, rw1) \<Rightarrow>
      case time_Now w1 of (now, w2) \<Rightarrow>
      let iat = now - now mod Second; ex = Time_Add iat (TokenDuration ip) in
      case uuid_NewString m w2 of (jti, w3) \<Rightarrow>
      (case idp_signToken m ip (refresh_access_claims ip (Subject (rd_OriginalIDToken d)) iat ex jti) of
        Inl e \<Rightarrow> (w3, fail_with 500 (''could not sign access token: '' @ e) rw1)
      | Inr signedAccessToken \<Rightarrow>
          (case uuid_NewString m (remove_refresh_token refreshToken w3) of (u, w4) \<Rightarrow>
           let newToken = u @ ''some-new-refresh-token'';
               t = \<lparr> mt_AccessToken = signedAccessToken, mt_TokenType = ''Bearer'', mt_RefreshToken = newToken,
                     mt_ExpiresIn = int64_of_float (Duration_Seconds (TokenDuration ip)), mt_IDToken = [] \<rparr>
           in (put_refresh_token newToken (d\<lparr> rd_RefreshToken := newToken \<rparr>) w4, Encode_tokenResponse t rw1)))))"

text \<open>The form is that of a body that could be parsed.\<close>

definition Token ::
    "mock_lib \<Rightarrow> idp_handler \<Rightarrow> url_values option \<Rightarrow> idp world \<Rightarrow> response \<Rightarrow> idp world \<times> response" where
  "Token m ip form w rw =
     (case form of
        None \<Rightarrow> (w, fail_with 400 ''malformed payload?'' rw)
      | Some form \<Rightarrow>
          let grantType = Values_Get form ''grant_type'' in
          if grantType = ''authorization_code'' then TokenCodeGrant m ip form w rw
          else if grantType = ''refresh_token'' then RefreshTokenGrant m ip form w rw
          else (w, fail_with 400 (''unsupported grant_type: '' @ grantType) rw))"

section \<open>The other routes\<close>

definition Jwks :: "mock_lib \<Rightarrow> idp_handler \<Rightarrow> response \<Rightarrow> response" where
  "Jwks m ip rw = Write_Body (Text (lib_jwks_json m (ip_PublicKeys ip) @ [CHR 0x0A])) rw"

definition EndSession :: "request \<Rightarrow> response \<Rightarrow> response" where
  "EndSession r rw =
     (let postLogoutRedirectURI = Values_Get (req_Query r) ''post_logout_redirect_uri'' in
      if postLogoutRedirectURI = [] then fail_with 400 ''missing required parameters'' rw
      else case Parse postLogoutRedirectURI of
        Inl e \<Rightarrow> fail_with 400 (''couldn'' @ CHR 0x27 # ''t parse post_logout_redirect_uri'') rw
      | Inr u \<Rightarrow> http_Redirect r (URL_String u) 307 rw)"

datatype idp_route = GetAuthorize | PostToken | GetJwks | GetEndSession

definition identityProviderRouter :: "string \<Rightarrow> string \<Rightarrow> idp_route option" where
  "identityProviderRouter meth path =
     map_of [((''GET'', ''/authorize''), GetAuthorize), ((''POST'', ''/token''), PostToken), ((''GET'', ''/jwks''), GetJwks),
       ((''GET'', ''/endsession''), GetEndSession)] (meth, path)"

end
