(* ===== verification/MockCorrect.thy ===== *)
theory MockCorrect
  imports MockProvider
begin

text \<open>
  What the mock provider keeps: tokens are issued only to the client that the code or refresh token
  belongs to, which proves possession of the PKCE verifier; refresh tokens rotate; and every code and
  refresh token belongs to a session of its client, in every reachable state.
\<close>

section \<open>The operations, case by case\<close>

lemma uuid_NewString_simps [simp]:
  "uuid_NewString m w = (u, w') \<longleftrightarrow> u = lib_uuid m (draws w) \<and> w' = w\<lparr> draws := Suc (draws w) \<rparr>"
  by (auto simp: uuid_NewString_def)

lemma fail_with_Status [simp]: "Status rw = None \<Longrightarrow> Status (fail_with code msg rw) = Some code"
  by (simp add: fail_with_def)

lemma Encode_tokenResponse_Status [simp]: "Status rw = None \<Longrightarrow> Status (Encode_tokenResponse t rw) = Some 200"
  by (simp add: Encode_tokenResponse_def)

text \<open>What it takes to be the client: the identifier, and an assertion that its key verifies.\<close>

definition client_authenticated :: "mock_lib \<Rightarrow> idp_handler \<Rightarrow> url_values \<Rightarrow> string \<Rightarrow> idp world \<Rightarrow> bool" where
  "client_authenticated m ip form clientID w \<longleftrightarrow>
     clientID \<noteq> [] \<and> Values_Get form ''client_id'' = clientID \<and> Values_Get form ''client_assertion'' \<noteq> []
     \<and> (\<exists>keys. jwk_PublicSetOf m [ClientJWK (Client (ip_Config ip))] = Inr keys
          \<and> lib_ParseAssertion m (clock w (ticks w)) keys (ClientID (Client (ip_Config ip))) (ClientID (Client (ip_Config ip)))
              (Issuer (Provider (ip_Config ip))) (Values_Get form ''client_assertion'') = None)"

lemma validateClientAuthentication_cases:
  assumes "validateClientAuthentication m ip form cid w rw = (e, w', rw')" "Status rw = None"
  obtains (refused) msg code where "e = Some msg" "store w' = store w" "draws w' = draws w" "Status rw' = Some code" "code \<noteq> 200"
      "\<not> client_authenticated m ip form cid w"
  | (accepted) "e = None" "w' = w\<lparr> ticks := Suc (ticks w) \<rparr>" "rw' = rw" "client_authenticated m ip form cid w"
  using assms
  by (auto simp: validateClientAuthentication_def client_authenticated_def Let_def time_Now_def
      split: if_splits sum.splits option.splits)

lemma issue_tokens_cases:
  assumes "issue_tokens m ip code auth w rw = (w', rw')" "Status rw = None"
  obtains (unsigned) "store w' = store w" "Status rw' = Some 500" "draws w \<le> draws w'"
  | (issued) sub jti jti' ex iat access idt where
      "idp_signToken m ip (code_access_claims ip auth sub iat ex jti) = Inr access"
      "idp_signToken m ip (id_claims ip auth sub iat ex jti') = Inr idt"
      "sub = lib_uuid m (draws w)" "iat = clock w (ticks w) - clock w (ticks w) mod Second"
      "w' = put_refresh_token (code @ ''some-refresh-token'') \<lparr> rd_ClientID = ar_ClientID auth,
          rd_RefreshToken = code @ ''some-refresh-token'', rd_OriginalIDToken = id_claims ip auth sub iat ex jti',
          rd_SessionID = ar_SessionID auth \<rparr> (w\<lparr> ticks := Suc (ticks w), draws := Suc (Suc (Suc (draws w))) \<rparr>)"
      "rw' = Encode_tokenResponse \<lparr> mt_AccessToken = access, mt_TokenType = ''Bearer'',
          mt_RefreshToken = code @ ''some-refresh-token'',
          mt_ExpiresIn = int64_of_float (Duration_Seconds (TokenDuration ip)), mt_IDToken = idt \<rparr> rw"
proof -
  let ?now = "clock w (ticks w)"
  let ?iat = "?now - ?now mod Second" and ?sub = "lib_uuid m (draws w)"
  let ?ex = "Time_Add ?iat (TokenDuration ip)"
  let ?jti = "lib_uuid m (Suc (draws w))" and ?jti' = "lib_uuid m (Suc (Suc (draws w)))"
  note d = assms(1)[unfolded issue_tokens_def time_Now_def uuid_NewString_def Let_def prod.case, simplified]
  show thesis
  proof (cases "idp_signToken m ip (code_access_claims ip auth ?sub ?iat ?ex ?jti)")
    case (Inl e)
    show thesis by (rule unsigned) (use d Inl assms(2) in auto)
  next
    case (Inr access)
    show thesis
    proof (cases "idp_signToken m ip (id_claims ip auth ?sub ?iat ?ex ?jti')")
      case (Inl e)
      show thesis by (rule unsigned) (use d Inr Inl assms(2) in auto)
    next
      case (Inr idt)
      show thesis by (rule issued[OF \<open>_ = Inr access\<close> Inr refl refl]) (use d Inr \<open>_ = Inr access\<close> in auto)
    qed
  qed
qed

text \<open>The code grant succeeds only for the client, redirect URI and verifier of the code.\<close>

definition code_accepted :: "mock_lib \<Rightarrow> idp_handler \<Rightarrow> url_values \<Rightarrow> idp world \<Rightarrow> AuthorizeRequest \<Rightarrow> bool" where
  "code_accepted m ip form w auth \<longleftrightarrow>
     Values_Get form ''code'' \<noteq> [] \<and> Codes (store w) (Values_Get form ''code'') = Some auth
     \<and> client_authenticated m ip form (ar_ClientID auth) w
     \<and> Values_Get form ''redirect_uri'' \<noteq> [] \<and> Values_Get form ''redirect_uri'' = ar_RedirectUri auth
     \<and> Values_Get form ''code_verifier'' \<noteq> [] \<and> CodeChallenge (Values_Get form ''code_verifier'') = ar_CodeChallenge auth"

lemma TokenCodeGrant_cases:
  assumes "TokenCodeGrant m ip form w rw = (w', rw')" "Status rw = None"
  obtains (refused) code where "store w' = store w" "Status rw' = Some code" "code \<noteq> 200" "draws w \<le> draws w'"
      "\<nexists>auth. code_accepted m ip form w auth"
  | (accepted) auth where "code_accepted m ip form w auth"
      "issue_tokens m ip (Values_Get form ''code'') auth (w\<lparr> ticks := Suc (ticks w) \<rparr>) rw = (w', rw')"
proof -
  let ?code = "Values_Get form ''code''"
  have none: thesis if "\<nexists>auth. code_accepted m ip form w auth" "(w', rw') = (w1, fail_with c msg rw)" "c \<noteq> 200"
      "store w1 = store w" "draws w1 = draws w" for w1 c msg
    using refused[of c] that assms(2) by simp
  show thesis
  proof (cases "?code = []")
    case True
    show thesis by (rule none) (use True assms(1) in \<open>auto simp: TokenCodeGrant_def code_accepted_def\<close>)
  next
    case code: False
    show thesis
    proof (cases "Codes (store w) ?code")
      case None
      show thesis by (rule none) (use None code assms(1) in \<open>auto simp: TokenCodeGrant_def code_accepted_def\<close>)
    next
      case (Some auth)
      obtain e w1 rw1 where v: "validateClientAuthentication m ip form (ar_ClientID auth) w rw = (e, w1, rw1)"
        by (metis prod_cases3)
      from v assms(2) show thesis
      proof (cases rule: validateClientAuthentication_cases)
        case v': (refused msg c)
        have n: "\<nexists>auth. code_accepted m ip form w auth" using v'(6) Some by (simp add: code_accepted_def)
        have "w' = w1" "rw' = Write_Body (Text msg) rw1" using assms(1) code Some v v'(1) by (simp_all add: TokenCodeGrant_def)
        then show thesis using refused[of c] v'(2-5) n by simp
      next
        case v': accepted
        let ?ru = "Values_Get form ''redirect_uri''" and ?cv = "Values_Get form ''code_verifier''"
        note e = assms(1)[unfolded TokenCodeGrant_def Let_def]
        consider "?ru = []" | "?ru \<noteq> []" "ar_RedirectUri auth = []" | "ar_RedirectUri auth \<noteq> []" "ar_RedirectUri auth \<noteq> ?ru" "?ru \<noteq> []"
          | "?ru \<noteq> []" "ar_RedirectUri auth = ?ru" "?cv = []" | "?ru \<noteq> []" "ar_RedirectUri auth = ?ru" "?cv \<noteq> []" "CodeChallenge ?cv \<noteq> ar_CodeChallenge auth"
          | "?ru \<noteq> []" "ar_RedirectUri auth = ?ru" "?cv \<noteq> []" "CodeChallenge ?cv = ar_CodeChallenge auth" by blast
        then have "(\<exists>msg. (w', rw') = (w\<lparr> ticks := Suc (ticks w) \<rparr>, fail_with 400 msg rw) \<and> \<not> code_accepted m ip form w auth)
            \<or> code_accepted m ip form w auth
              \<and> issue_tokens m ip ?code auth (w\<lparr> ticks := Suc (ticks w) \<rparr>) rw = (w', rw')"
          by cases (use e code Some v v' in \<open>auto simp: code_accepted_def\<close>)
        then show thesis using none[of "w\<lparr> ticks := Suc (ticks w) \<rparr>" 400] accepted[of auth] Some
          by (auto simp: code_accepted_def)
      qed
    qed
  qed
qed

text \<open>The refresh grant, likewise.\<close>

definition refresh_accepted :: "mock_lib \<Rightarrow> idp_handler \<Rightarrow> url_values \<Rightarrow> idp world \<Rightarrow> RefreshTokenData \<Rightarrow> bool" where
  "refresh_accepted m ip form w d \<longleftrightarrow>
     Values_Get form ''refresh_token'' \<noteq> [] \<and> RefreshTokens (store w) (Values_Get form ''refresh_token'') = Some d
     \<and> client_authenticated m ip form (rd_ClientID d) w"

definition rotated_token :: "mock_lib \<Rightarrow> nat \<Rightarrow> string" where
  "rotated_token m n = lib_uuid m n @ ''some-new-refresh-token''"

lemma RefreshTokenGrant_cases:
  assumes "RefreshTokenGrant m ip form w rw = (w', rw')" "Status rw = None"
  obtains (refused) code where "store w' = store w" "Status rw' = Some code" "code \<noteq> 200" "draws w \<le> draws w'"
      "(\<nexists>d. refresh_accepted m ip form w d) \<or> (\<exists>claims e. idp_signToken m ip claims = Inl e)"
  | (rotated) d access iat ex jti where "refresh_accepted m ip form w d"
      "idp_signToken m ip (refresh_access_claims ip (Subject (rd_OriginalIDToken d)) iat ex jti) = Inr access"
      "store w' = (store w)\<lparr> RefreshTokens := (RefreshTokens (store w))(Values_Get form ''refresh_token'' := None,
         rotated_token m (Suc (draws w)) \<mapsto> d\<lparr> rd_RefreshToken := rotated_token m (Suc (draws w)) \<rparr>) \<rparr>"
      "draws w' = Suc (Suc (draws w))"
      "rw' = Encode_tokenResponse \<lparr> mt_AccessToken = access, mt_TokenType = ''Bearer'',
          mt_RefreshToken = rotated_token m (Suc (draws w)),
          mt_ExpiresIn = int64_of_float (Duration_Seconds (TokenDuration ip)), mt_IDToken = [] \<rparr> rw"
proof -
  let ?t = "Values_Get form ''refresh_token''"
  show thesis
  proof (cases "?t = [] \<or> RefreshTokens (store w) ?t = None")
    case True
    then have n: "\<nexists>d. refresh_accepted m ip form w d" by (auto simp: refresh_accepted_def)
    have none: thesis if "(w', rw') = (w, fail_with c msg rw)" "c \<noteq> 200" for c msg
      using refused[of c] that n assms(2) by simp
    show thesis
    proof (cases "?t = []")
      case True
      show thesis by (rule none[of 400 "''missing refresh_token''"])
        (use True assms(1) in \<open>simp_all add: RefreshTokenGrant_def\<close>)
    next
      case nonempty: False
      with \<open>?t = [] \<or> _\<close> have "RefreshTokens (store w) ?t = None" by blast
      then show thesis using none[of 500 "''no matching refresh_token''"] nonempty assms(1) by (simp add: RefreshTokenGrant_def Let_def)
    qed
  next
    case False
    then obtain d where t: "?t \<noteq> []" "RefreshTokens (store w) ?t = Some d" by auto
    obtain e w1 rw1 where v: "validateClientAuthentication m ip form (rd_ClientID d) w rw = (e, w1, rw1)"
      by (metis prod_cases3)
    from v assms(2) show thesis
    proof (cases rule: validateClientAuthentication_cases)
      case v': (refused msg c)
      have n: "\<nexists>d. refresh_accepted m ip form w d" using v'(6) t by (simp add: refresh_accepted_def)
      have "w' = w1" "rw' = Write_Body (Text msg) rw1" using assms(1) t v v'(1) by (simp_all add: RefreshTokenGrant_def)
      then show thesis using refused[of c] v'(2-5) n by simp
    next
      case v': accepted
      let ?now = "clock w (Suc (ticks w))"
      let ?iat = "?now - ?now mod Second"
      let ?c = "refresh_access_claims ip (Subject (rd_OriginalIDToken d)) ?iat (Time_Add ?iat (TokenDuration ip)) (lib_uuid m (draws w))"
      have acc: "refresh_accepted m ip form w d" using v'(4) t by (simp add: refresh_accepted_def)
      have e: "(w', rw') = (case idp_signToken m ip ?c of
          Inl e \<Rightarrow> (w\<lparr> ticks := Suc (Suc (ticks w)), draws := Suc (draws w) \<rparr>, fail_with 500 (''could not sign access token: '' @ e) rw)
        | Inr a \<Rightarrow> (put_refresh_token (rotated_token m (Suc (draws w))) (d\<lparr> rd_RefreshToken := rotated_token m (Suc (draws w)) \<rparr>)
              ((remove_refresh_token ?t (w\<lparr> ticks := Suc (Suc (ticks w)), draws := Suc (draws w) \<rparr>))\<lparr> draws := Suc (Suc (draws w)) \<rparr>),
            Encode_tokenResponse \<lparr> mt_AccessToken = a, mt_TokenType = ''Bearer'', mt_RefreshToken = rotated_token m (Suc (draws w)),
              mt_ExpiresIn = int64_of_float (Duration_Seconds (TokenDuration ip)), mt_IDToken = [] \<rparr> rw))"
        using assms(1) t v v'
        by (simp add: RefreshTokenGrant_def time_Now_def uuid_NewString_def Let_def rotated_token_def remove_refresh_token_def
            split: sum.splits)
      show thesis
      proof (cases "idp_signToken m ip ?c")
        case (Inl msg)
        then have "\<exists>claims e. idp_signToken m ip claims = Inl e" by blast
        then show thesis using e refused[of 500] assms(2) Inl by simp
      next
        case (Inr a)
        show thesis by (rule rotated[OF acc Inr]) (use e Inr in \<open>simp_all add: put_refresh_token_def remove_refresh_token_def\<close>)
      qed
    qed
  qed
qed

section \<open>Tokens go to the client that asked\<close>

text \<open>
  C26: The mock provider issues tokens for an authorization code only to the client that asked for it.
  Whatever the request, the grant answers 200 only if the code was issued, the request has the client's
  identifier and an assertion that verifies with the client's key, names the redirect URI of the
  authorization request, and carries the verifier whose SHA-256 is its challenge; then the tokens are a
  signed access token and an ID token with the client as audience and the nonce of that request. In
  every other case nothing changes.
\<close>

theorem mock_code_grant_safe:
  "case TokenCodeGrant m ip form w new_response of (w', rw') \<Rightarrow>
     if Status rw' = Some 200
     then \<exists>auth access idt claims. Codes (store w) (Values_Get form ''code'') = Some auth
       \<and> client_authenticated m ip form (ar_ClientID auth) w
       \<and> Values_Get form ''redirect_uri'' = ar_RedirectUri auth
       \<and> EncodeToString RawURLEncoding (sha256_Sum (Values_Get form ''code_verifier'')) = ar_CodeChallenge auth
       \<and> map_of claims ''aud'' = Some (StrClaim (ar_ClientID auth)) \<and> map_of claims ''nonce'' = Some (StrClaim (ar_Nonce auth))
       \<and> map_of claims ''iss'' = Some (StrClaim (Issuer (Provider (ip_Config ip))))
       \<and> idp_signToken m ip claims = Inr idt
       \<and> rw' = Encode_tokenResponse \<lparr> mt_AccessToken = access, mt_TokenType = ''Bearer'',
           mt_RefreshToken = Values_Get form ''code'' @ ''some-refresh-token'',
           mt_ExpiresIn = int64_of_float (Duration_Seconds (TokenDuration ip)), mt_IDToken = idt \<rparr> new_response
       \<and> Codes (store w') = Codes (store w)
       \<and> map_option rd_ClientID (RefreshTokens (store w') (Values_Get form ''code'' @ ''some-refresh-token'')) = Some (ar_ClientID auth)
     else store w' = store w"
proof -
  obtain w' rw' where t: "TokenCodeGrant m ip form w new_response = (w', rw')" by fastforce
  from t new_response_simps(1) show ?thesis
  proof (cases rule: TokenCodeGrant_cases)
    case (refused code)
    then show ?thesis by (simp add: t)
  next
    case (accepted auth)
    from accepted(2) new_response_simps(1) show ?thesis
    proof (cases rule: issue_tokens_cases)
      case unsigned
      then show ?thesis by (simp add: t)
    next
      case (issued sub jti jti' ex iat access idt)
      let ?c = "id_claims ip auth sub iat ex jti'"
      have "map_of ?c ''aud'' = Some (StrClaim (ar_ClientID auth))" "map_of ?c ''nonce'' = Some (StrClaim (ar_Nonce auth))"
        "map_of ?c ''iss'' = Some (StrClaim (Issuer (Provider (ip_Config ip))))"
        by (simp_all add: id_claims_def)
      moreover have "Status rw' = Some 200" "Codes (store w') = Codes (store w)"
        "map_option rd_ClientID (RefreshTokens (store w') (Values_Get form ''code'' @ ''some-refresh-token'')) = Some (ar_ClientID auth)"
        using issued(5,6) by (simp_all add: put_refresh_token_def)
      ultimately show ?thesis using accepted(1) issued(2,6) unfolding t prod.case code_accepted_def CodeChallenge_def
        by (simp only: if_True simp_thms) blast
    qed
  qed
qed

text \<open>
  Refresh tokens rotate. A refresh answers 200 only to the client that the presented token belongs to;
  then that token is removed, and the one that replaces it carries the same client, session and original
  ID token, whose subject the new access token has; no other token is touched. In every other case no
  token is.
\<close>

theorem mock_refresh_rotates:
  "case RefreshTokenGrant m ip form w new_response of (w', rw') \<Rightarrow>
     if Status rw' = Some 200
     then \<exists>d claims access new. RefreshTokens (store w) (Values_Get form ''refresh_token'') = Some d
       \<and> client_authenticated m ip form (rd_ClientID d) w
       \<and> RefreshTokens (store w') = (RefreshTokens (store w))(Values_Get form ''refresh_token'' := None, new \<mapsto> d\<lparr> rd_RefreshToken := new \<rparr>)
       \<and> Codes (store w') = Codes (store w) \<and> idp_Sessions (store w') = idp_Sessions (store w)
       \<and> map_of claims ''sub'' = Some (StrClaim (Subject (rd_OriginalIDToken d))) \<and> idp_signToken m ip claims = Inr access
       \<and> rw' = Encode_tokenResponse \<lparr> mt_AccessToken = access, mt_TokenType = ''Bearer'', mt_RefreshToken = new,
           mt_ExpiresIn = int64_of_float (Duration_Seconds (TokenDuration ip)), mt_IDToken = [] \<rparr> new_response
     else store w' = store w"
proof -
  obtain w' rw' where t: "RefreshTokenGrant m ip form w new_response = (w', rw')" by fastforce
  from t new_response_simps(1) show ?thesis
  proof (cases rule: RefreshTokenGrant_cases)
    case (refused code)
    then show ?thesis by (simp add: t)
  next
    case (rotated d access iat ex jti)
    have "Status rw' = Some 200" using rotated(5) by simp
    moreover have "map_of (refresh_access_claims ip s iat ex jti) ''sub'' = Some (StrClaim s)" for s
      by (simp add: refresh_access_claims_def)
    moreover note rotated(1)[unfolded refresh_accepted_def]
    ultimately show ?thesis unfolding t prod.case using rotated(2,3,5) by (simp only: if_True simp_thms) auto
  qed
qed

section \<open>Reachable states\<close>

text \<open>Authorization requests that are in order.\<close>

definition authorize_ok :: "url_values \<Rightarrow> bool" where
  "authorize_ok q \<longleftrightarrow>
     Values_Get q ''state'' \<noteq> [] \<and> Values_Get q ''nonce'' \<noteq> [] \<and> Values_Get q ''redirect_uri'' \<noteq> []
     \<and> Values_Get q ''client_id'' \<noteq> [] \<and> Values_Get q ''code_challenge'' \<noteq> []
     \<and> Values_Get q ''code_challenge_method'' = ''S256'' \<and> Values_Get q ''response_type'' = ''code''
     \<and> Values_Get q ''response_mode'' = ''query''
     \<and> Values_Get q ''acr_values'' \<in> {[], ''Level3'', ''Level4''}
     \<and> Values_Get q ''ui_locales'' \<in> {[], ''nb'', ''nn'', ''en'', ''se''}
     \<and> ''openid'' \<in> set (split_on (CHR '' '') (Values_Get q ''scope''))"

definition permutes :: "param_order \<Rightarrow> bool" where
  "permutes ord \<longleftrightarrow> (\<forall>xs. set (ord_required ord xs) = set xs) \<and> (\<forall>xs. set (ord_allowed ord xs) = set xs)"

lemma check_required_None: "check_required ps = None \<longleftrightarrow> (\<forall>p \<in> set ps. snd p \<noteq> [])"
  by (induction ps rule: check_required.induct) auto

lemma check_allowed_None: "check_allowed q ps = None \<longleftrightarrow> (\<forall>p \<in> set ps. Values_Get q (fst p) \<in> set (snd p))"
  by (induction q ps rule: check_allowed.induct) (auto simp: Contains_iff Let_def)

lemma authorize_checks:
  assumes "permutes ord"
  shows "authorize_ok q \<longleftrightarrow> check_required (ord_required ord (required_params q)) = None
    \<and> check_allowed q (ord_allowed ord allowedParamValues) = None
    \<and> ''openid'' \<in> set (split_on (CHR '' '') (Values_Get q ''scope''))"
proof -
  have "Values_Get q ''scope'' \<noteq> []" if "''openid'' \<in> set (split_on (CHR '' '') (Values_Get q ''scope''))"
    using that by (cases "Values_Get q ''scope''") auto
  then show ?thesis using assms
    by (auto simp: authorize_ok_def check_required_None check_allowed_None permutes_def required_params_def allowedParamValues_def)
qed

definition new_code :: "url_values \<Rightarrow> string \<Rightarrow> AuthorizeRequest" where
  "new_code q sid = \<lparr> ar_AcrLevel = Values_Get q ''acr_values'', ar_ClientID = Values_Get q ''client_id'',
     ar_CodeChallenge = Values_Get q ''code_challenge'', ar_Locale = Values_Get q ''ui_locales'',
     ar_Nonce = Values_Get q ''nonce'', ar_RedirectUri = Values_Get q ''redirect_uri'', ar_SessionID = sid \<rparr>"

definition callback_values :: "idp_handler \<Rightarrow> string \<Rightarrow> string \<Rightarrow> string \<Rightarrow> url_values" where
  "callback_values ip code state sid =
     [(''code'', code), (''state'', state)]
     @ (if SessionStateRequired (Provider (ip_Config ip)) then [(''session_state'', sid)] else [])"

lemma Authorize_cases:
  assumes "Authorize m ord ip r w rw = (w', rw')" "Status rw = None" "permutes ord"
  obtains (refused) "w' = w" "Status rw' = Some 400" "\<not> authorize_ok (req_Query r)"
  | (stored) sid code where "authorize_ok (req_Query r)" "sid = lib_uuid m (draws w)" "code = lib_uuid m (Suc (draws w))"
      "w' = w\<lparr> draws := Suc (Suc (draws w)), store := (store w)\<lparr>
          idp_Sessions := (idp_Sessions (store w))(sid \<mapsto> Values_Get (req_Query r) ''client_id''),
          Codes := (Codes (store w))(code \<mapsto> new_code (req_Query r) sid) \<rparr> \<rparr>"
      "rw' = (case Parse (Values_Get (req_Query r) ''redirect_uri'') of
          Inl e \<Rightarrow> fail_with 400 (''couldn'' @ CHR 0x27 # ''t parse redirect uri'') rw
        | Inr u \<Rightarrow> http_Redirect r (URL_String (u\<lparr> RawQuery := Values_Encode (callback_values ip code
            (Values_Get (req_Query r) ''state'') sid) \<rparr>)) 307 rw)"
proof (cases "authorize_ok (req_Query r)")
  case True
  note ch = True[unfolded authorize_checks[OF assms(3)]]
  show thesis
    by (rule stored[OF True refl refl])
      (use assms(1) ch in \<open>simp_all add: Authorize_def Let_def uuid_NewString_def new_code_def callback_values_def
         Values_Set_def split: sum.splits if_splits\<close>)
next
  case False
  let ?q = "req_Query r"
  have none: thesis if "w = w'" "fail_with 400 msg rw = rw'" for msg
    using that refused False assms(2) by (metis fail_with_Status)
  note e = assms(1)[unfolded Authorize_def Let_def]
  consider msg where "check_required (ord_required ord (required_params ?q)) = Some msg"
    | msg where "check_required (ord_required ord (required_params ?q)) = None" "check_allowed ?q (ord_allowed ord allowedParamValues) = Some msg"
    | "check_required (ord_required ord (required_params ?q)) = None" "check_allowed ?q (ord_allowed ord allowedParamValues) = None"
      "''openid'' \<notin> set (split_on (CHR '' '') (Values_Get ?q ''scope''))"
    using False[unfolded authorize_checks[OF assms(3)]] by fastforce
  then show thesis by cases (insert e, simp, elim conjE, erule (1) none)+
qed

text \<open>
  The provider serves one request after the other; the routes for keys and for the end of a session do
  not change its state.
\<close>

inductive idp_serves :: "mock_lib \<Rightarrow> param_order \<Rightarrow> idp_handler \<Rightarrow> idp world \<Rightarrow> idp world \<Rightarrow> bool" for m ord ip w0 where
  start: "idp_serves m ord ip w0 w0"
| authorize: "idp_serves m ord ip w0 w \<Longrightarrow> Authorize m ord ip r w new_response = (w', rw') \<Longrightarrow> idp_serves m ord ip w0 w'"
| token: "idp_serves m ord ip w0 w \<Longrightarrow> Token m ip form w new_response = (w', rw') \<Longrightarrow> idp_serves m ord ip w0 w'"

definition idp_reachable :: "mock_lib \<Rightarrow> param_order \<Rightarrow> idp_handler \<Rightarrow> idp world \<Rightarrow> bool" where
  "idp_reachable m ord ip w \<longleftrightarrow> (\<exists>w0 provider. store w0 = snd (newIdentityProviderHandler provider (ip_Config ip)) \<and> idp_serves m ord ip w0 w)"

text \<open>Codes and refresh tokens belong to sessions of their clients.\<close>

definition code_ok :: "idp \<Rightarrow> AuthorizeRequest \<Rightarrow> bool" where
  "code_ok s a \<longleftrightarrow> ar_CodeChallenge a \<noteq> [] \<and> ar_Nonce a \<noteq> [] \<and> ar_RedirectUri a \<noteq> []
     \<and> ar_AcrLevel a \<in> {[], ''Level3'', ''Level4''} \<and> idp_Sessions s (ar_SessionID a) = Some (ar_ClientID a)"

definition refresh_ok :: "idp \<Rightarrow> string \<Rightarrow> RefreshTokenData \<Rightarrow> bool" where
  "refresh_ok s t d \<longleftrightarrow> rd_RefreshToken d = t \<and> idp_Sessions s (rd_SessionID d) = Some (rd_ClientID d)
     \<and> map_of (rd_OriginalIDToken d) ''aud'' = Some (StrClaim (rd_ClientID d))"

definition idp_inv :: "mock_lib \<Rightarrow> idp world \<Rightarrow> bool" where
  "idp_inv m w \<longleftrightarrow> (\<forall>c a. Codes (store w) c = Some a \<longrightarrow> code_ok (store w) a)
     \<and> (\<forall>t d. RefreshTokens (store w) t = Some d \<longrightarrow> refresh_ok (store w) t d)
     \<and> dom (idp_Sessions (store w)) \<union> dom (Codes (store w)) \<subseteq> lib_uuid m ` {..<draws w}"

lemma idp_invD:
  assumes "idp_inv m w"
  shows "Codes (store w) c = Some a \<Longrightarrow> code_ok (store w) a" "RefreshTokens (store w) t = Some d \<Longrightarrow> refresh_ok (store w) t d"
    "idp_Sessions (store w) s = Some x \<Longrightarrow> s \<in> lib_uuid m ` {..<draws w}" "Codes (store w) c = Some a \<Longrightarrow> c \<in> lib_uuid m ` {..<draws w}"
  using assms by (auto simp: idp_inv_def)

lemma uuid_fresh: "inj (lib_uuid m) \<Longrightarrow> n \<le> k \<Longrightarrow> lib_uuid m k \<notin> lib_uuid m ` {..<n}"
  by (auto dest: injD)

lemma issued_mono: "n \<le> k \<Longrightarrow> x \<in> lib_uuid m ` {..<n} \<Longrightarrow> x \<in> lib_uuid m ` {..<k}"
  by auto

lemma idp_inv_same: "idp_inv m w \<Longrightarrow> store w' = store w \<Longrightarrow> draws w \<le> draws w' \<Longrightarrow> idp_inv m w'"
  unfolding idp_inv_def by (metis (no_types, lifting) image_mono lessThan_subset_iff order_trans)

lemma idp_inv_refresh:
  assumes "idp_inv m w" "refresh_ok (store w) t d" "draws w \<le> draws w'"
    and "store w' = (store w)\<lparr> RefreshTokens := f(t \<mapsto> d) \<rparr>" "f \<subseteq>\<^sub>m RefreshTokens (store w)"
  shows "idp_inv m w'"
proof -
  have f: "f u = Some d' \<Longrightarrow> RefreshTokens (store w) u = Some d'" for u d' using assms(5) by (force simp: map_le_def)
  have "dom (idp_Sessions (store w')) \<union> dom (Codes (store w')) \<subseteq> lib_uuid m ` {..<draws w'}"
    using idp_invD(3,4)[OF assms(1)] issued_mono[OF assms(3), of _ m] assms(4) by (auto simp: dom_def)
  moreover have "refresh_ok (store w') u d'" if "RefreshTokens (store w') u = Some d'" for u d'
    using that assms(2,4) f idp_invD(2)[OF assms(1)] by (auto simp: refresh_ok_def split: if_splits)
  moreover have "code_ok (store w') a" if "Codes (store w') c = Some a" for c a
    using that assms(4) idp_invD(1)[OF assms(1)] by (auto simp: code_ok_def)
  ultimately show ?thesis by (simp add: idp_inv_def)
qed

lemma Authorize_inv:
  assumes "Authorize m ord ip r w new_response = (w', rw')" "idp_inv m w" "permutes ord" "inj (lib_uuid m)"
  shows "idp_inv m w' \<and> Codes (store w) \<subseteq>\<^sub>m Codes (store w')"
  using assms(1) new_response_simps(1) assms(3)
proof (cases rule: Authorize_cases)
  case refused
  then show ?thesis using assms(2) by simp
next
  case (stored sid code)
  have fresh: "sid \<notin> dom (idp_Sessions (store w))" "code \<notin> dom (Codes (store w))"
    using idp_invD(3,4)[OF assms(2)] uuid_fresh[OF assms(4), of "draws w" "draws w"] uuid_fresh[OF assms(4), of "draws w" "Suc (draws w)"] stored(2,3)
    by auto
  have dr: "draws w \<le> draws w'" and new: "sid \<in> lib_uuid m ` {..<draws w'}" "code \<in> lib_uuid m ` {..<draws w'}"
    using stored(2-4) by simp_all
  have "idp_Sessions (store w') s = Some x \<Longrightarrow> s \<in> lib_uuid m ` {..<draws w'}" for s x
    using issued_mono[OF dr idp_invD(3)[OF assms(2)], of s x] new(1) stored(4) by (cases "s = sid") auto
  moreover have "Codes (store w') c = Some a \<Longrightarrow> c \<in> lib_uuid m ` {..<draws w'}" for c a
    using issued_mono[OF dr idp_invD(4)[OF assms(2)], of c a] new(2) stored(4) by (cases "c = code") auto
  ultimately have "dom (idp_Sessions (store w')) \<union> dom (Codes (store w')) \<subseteq> lib_uuid m ` {..<draws w'}" by blast
  moreover have "code_ok (store w') a" if "Codes (store w') c = Some a" for c a
  proof (cases "c = code")
    case True
    then have "a = new_code (req_Query r) sid" using that stored(4) by simp
    then show ?thesis using stored(1,4) unfolding code_ok_def new_code_def authorize_ok_def by simp
  next
    case False
    then have "code_ok (store w) a" using that stored(4) idp_invD(1)[OF assms(2), of c a] by simp
    moreover from this have "ar_SessionID a \<noteq> sid" using fresh(1) by (auto simp: code_ok_def)
    ultimately show ?thesis using stored(4) by (simp add: code_ok_def)
  qed
  moreover have "refresh_ok (store w') t d" if "RefreshTokens (store w') t = Some d" for t d
  proof -
    have "refresh_ok (store w) t d" using that stored(4) idp_invD(2)[OF assms(2), of t d] by simp
    moreover from this have "rd_SessionID d \<noteq> sid" using fresh(1) by (auto simp: refresh_ok_def)
    ultimately show ?thesis using stored(4) by (simp add: refresh_ok_def)
  qed
  moreover have "Codes (store w) \<subseteq>\<^sub>m Codes (store w')" using fresh(2) stored(4) by (auto simp: map_le_def)
  ultimately show ?thesis by (simp add: idp_inv_def)
qed

lemma Token_inv:
  assumes "Token m ip form w new_response = (w', rw')" "idp_inv m w"
  shows "idp_inv m w' \<and> Codes (store w') = Codes (store w)"
proof (cases "\<exists>f. form = Some f \<and> Values_Get f ''grant_type'' \<in> {''authorization_code'', ''refresh_token''}")
  case False
  then have "w' = w" using assms(1) by (auto simp: Token_def Let_def split: option.splits if_splits)
  then show ?thesis using assms(2) by simp
next
  case True
  then obtain f where f: "form = Some f" and "Values_Get f ''grant_type'' \<in> {''authorization_code'', ''refresh_token''}" by blast
  then consider "TokenCodeGrant m ip f w new_response = (w', rw')" | "RefreshTokenGrant m ip f w new_response = (w', rw')"
    using assms(1) by (auto simp: Token_def)
  then show ?thesis
  proof cases
    case 1
    from 1 new_response_simps(1) show ?thesis
    proof (cases rule: TokenCodeGrant_cases)
      case (refused c)
      then show ?thesis using idp_inv_same[OF assms(2)] by simp
    next
      case (accepted auth)
      from accepted(2) new_response_simps(1) show ?thesis
      proof (cases rule: issue_tokens_cases)
        case unsigned
        then show ?thesis using idp_inv_same[OF assms(2)] by simp
      next
        case (issued sub jti jti' ex iat access idt)
        let ?t = "Values_Get f ''code'' @ ''some-refresh-token''"
        have "code_ok (store w) auth" using accepted(1) idp_invD(1)[OF assms(2)] by (auto simp: code_accepted_def)
        then have "refresh_ok (store w) ?t \<lparr> rd_ClientID = ar_ClientID auth, rd_RefreshToken = ?t,
            rd_OriginalIDToken = id_claims ip auth sub iat ex jti', rd_SessionID = ar_SessionID auth \<rparr>"
          by (simp add: refresh_ok_def code_ok_def id_claims_def)
        then have "idp_inv m w'"
          by (rule idp_inv_refresh[OF assms(2), where f = "RefreshTokens (store w)"]) (use issued(5) in \<open>simp_all add: put_refresh_token_def\<close>)
        then show ?thesis using issued(5) by (simp add: put_refresh_token_def)
      qed
    qed
  next
    case 2
    from 2 new_response_simps(1) show ?thesis
    proof (cases rule: RefreshTokenGrant_cases)
      case (refused c)
      then show ?thesis using idp_inv_same[OF assms(2)] by simp
    next
      case (rotated d access iat ex jti)
      let ?t = "rotated_token m (Suc (draws w))"
      have "refresh_ok (store w) (Values_Get f ''refresh_token'') d"
        using rotated(1) idp_invD(2)[OF assms(2)] by (simp add: refresh_accepted_def)
      then have "refresh_ok (store w) ?t (d\<lparr> rd_RefreshToken := ?t \<rparr>)" by (simp add: refresh_ok_def)
      then have "idp_inv m w'"
        by (rule idp_inv_refresh[OF assms(2) _ _ rotated(3)]) (use rotated(4) in \<open>auto simp: map_le_def\<close>)
      then show ?thesis using rotated(3) by simp
    qed
  qed
qed

lemma serves_inv:
  assumes "idp_serves m ord ip w0 w" "idp_inv m w0" "permutes ord" "inj (lib_uuid m)"
  shows "idp_inv m w \<and> Codes (store w0) \<subseteq>\<^sub>m Codes (store w)"
  using assms(1)
proof induction
  case start
  then show ?case using assms(2) by simp
next
  case (authorize w r w' rw')
  then show ?case using Authorize_inv assms(3,4) map_le_trans by blast
next
  case (token w form w' rw')
  then show ?case using Token_inv by metis
qed

lemma idp_reachable_inv:
  assumes "idp_reachable m ord ip w" "permutes ord" "inj (lib_uuid m)"
  shows "idp_inv m w"
proof -
  obtain w0 p where w0: "store w0 = snd (newIdentityProviderHandler p (ip_Config ip))" "idp_serves m ord ip w0 w"
    using assms(1) by (auto simp: idp_reachable_def)
  then have "idp_inv m w0" by (simp add: idp_inv_def newIdentityProviderHandler_def)
  then show ?thesis using serves_inv w0(2) assms(2,3) by blast
qed

text \<open>
  In every reachable state of the mock provider, each authorization code carries a PKCE challenge, a
  nonce, a redirect URI and an allowed security level, and belongs to a session of its client; each
  refresh token is stored under itself, belongs to a session of its client, and its original ID token
  has that client as audience.
\<close>

theorem mock_invariant:
  assumes "idp_reachable m ord ip w" "permutes ord" "inj (lib_uuid m)"
  shows "(\<forall>c a. Codes (store w) c = Some a \<longrightarrow> code_ok (store w) a)
    \<and> (\<forall>t d. RefreshTokens (store w) t = Some d \<longrightarrow> refresh_ok (store w) t d)"
  using idp_reachable_inv[OF assms] by (simp add: idp_inv_def)

text \<open>
  The mock provider does not use codes up. However often an authorization code has been redeemed, and
  whatever else the provider has served since, a request that was accepted for it still is, as long as
  the client's assertion verifies: a code is never removed, although RFC 6749 allows it to be used once.
  (Redeeming it again also brings back the refresh token derived from it, even after it was rotated.)
\<close>

theorem mock_code_replayable:
  assumes "idp_reachable m ord ip w" "permutes ord" "inj (lib_uuid m)" "idp_serves m ord ip w w'"
    and "code_accepted m ip form w auth" "client_authenticated m ip form (ar_ClientID auth) w'"
  shows "code_accepted m ip form w' auth"
proof -
  have "idp_inv m w' \<and> Codes (store w) \<subseteq>\<^sub>m Codes (store w')"
    by (rule serves_inv[OF assms(4) idp_reachable_inv[OF assms(1-3)] assms(2,3)])
  then have "Codes (store w') (Values_Get form ''code'') = Some auth"
    using assms(5) by (auto simp: code_accepted_def map_le_def dom_def)
  then show ?thesis using assms(5,6) by (auto simp: code_accepted_def)
qed

end
