(* ===== verification/MockFlow.thy ===== *)
theory MockFlow
  imports MockCorrect
begin

text \<open>
  The program and the mock provider together: a login that the program starts is one that the provider
  accepts, and the code it hands back can be redeemed by that login only; a refresh against the
  provider's token endpoint comes back with tokens that the program can decode.
\<close>

section \<open>What the OAuth2 library sends\<close>

text \<open>The query of an authorization URL, as the library documents it; later options replace earlier ones.\<close>

definition set_values :: "(string \<times> string) list \<Rightarrow> url_values \<Rightarrow> url_values" where
  "set_values opts v = fold (\<lambda>p v. Values_Set v (fst p) (snd p)) opts v"

definition authorization_values :: "oauth2_config \<Rightarrow> string \<Rightarrow> (string \<times> string) list \<Rightarrow> url_values" where
  "authorization_values c st opts = set_values opts
     ([(''response_type'', ''code''), (''client_id'', o2_ClientID c), (''scope'', Scopes_String (o2_Scopes c)), (''state'', st)])"

definition auth_url_law :: "ext \<Rightarrow> oauth2_config \<Rightarrow> bool" where
  "auth_url_law x c \<longleftrightarrow> (\<forall>st opts. \<exists>u. Parse (oauth2_AuthCodeURL x c st opts) = Inr u
     \<and> (\<forall>k. Values_Get (URL_Query u) k = Values_Get (authorization_values c st opts) k))"

lemma Values_Get_set_values:
  "Values_Get (set_values opts v) k = (case map_of (rev opts) k of Some x \<Rightarrow> x | None \<Rightarrow> Values_Get v k)"
proof (induction opts rule: rev_induct)
  case (snoc p opts)
  then show ?case by (cases p) (simp add: set_values_def)
qed (simp add: set_values_def)

lemma Values_Get_Cons [simp]: "Values_Get ((a, b) # v) k = (if k = a then b else Values_Get v k)"
  by (simp add: Values_Get_def)

lemma openid_in_scopes: "''openid'' \<in> set (split_on (CHR '' '') (Scopes_String (''openid'' # xs)))"
proof (cases xs)
  case Nil
  then show ?thesis by (simp add: Scopes_String_def)
next
  case (Cons y ys)
  then have "Scopes_String (''openid'' # xs) = ''openid'' @ CHR '' '' # join_with '' '' xs" by (simp add: Scopes_String_def)
  then show ?thesis by (simp only: split_on_append) (simp add: split_on_append)
qed

lemma Scopes_openid: "\<exists>xs. Scopes c = ''openid'' # xs"
  by (simp add: Scopes_def DefaultScopes_def WithAdditional_def WithOfflineAccess_def WithAzureScope_def split: client_kind.splits)

lemma CodeChallenge_nonempty [simp]: "CodeChallenge v \<noteq> []"
  using length_sha256[of v] by (auto simp: CodeChallenge_def)

section \<open>The options of a login\<close>

text \<open>The level and the locale are left out, or among the supported ones.\<close>

lemma make_authCodeURL_Ok:
  assumes "make_authCodeURL x c p r cb = Inr url"
  obtains opts where "url = oauth2_AuthCodeURL x (c_oauth2Config c) (State p) opts"
    "\<forall>k. k \<notin> {''resource'', ''acr_values'', ''ui_locales''} \<longrightarrow> map_of (rev opts) k =
       map_of [(''nonce'', Nonce p), (''response_mode'', ''query''), (''code_challenge'', lp_CodeChallenge p),
         (''code_challenge_method'', ''S256''), (''redirect_uri'', cb)] k"
    "\<forall>v. map_of (rev opts) ''acr_values'' = Some v \<longrightarrow> v \<in> set (ACRValuesSupported (Provider (c_cfg c)))"
    "\<forall>v. map_of (rev opts) ''ui_locales'' = Some v \<longrightarrow> v \<in> set (UILocalesSupported (Provider (c_cfg c)))"
proof -
  obtain o1 o2 where o: "withSecurityLevel c r (auth_options c p cb) = Inr o1" "withLocale c r o1 = Inr o2"
      "url = oauth2_AuthCodeURL x (c_oauth2Config c) (State p) o2"
    using assms by (auto simp: make_authCodeURL_def split: sum.splits)
  obtain e1 where e1: "o1 = auth_options c p cb @ e1" "e1 = [] \<or> (\<exists>v \<in> set (ACRValuesSupported (Provider (c_cfg c))). e1 = [(''acr_values'', v)])"
    using withParamMapping_Ok[OF o(1)[unfolded withSecurityLevel_def]]
    by (auto simp: LoginParameterMapping_def SecurityLevelURLParameter_def LocaleURLParameter_def)
  obtain e2 where e2: "o2 = o1 @ e2" "e2 = [] \<or> (\<exists>v \<in> set (UILocalesSupported (Provider (c_cfg c))). e2 = [(''ui_locales'', v)])"
    using withParamMapping_Ok[OF o(2)[unfolded withLocale_def]]
    by (auto simp: LoginParameterMapping_def LocaleURLParameter_def)
  have rv: "rev e1 = e1" "rev e2 = e2" using e1(2) e2(2) by auto
  have m: "map_of (rev o2) = map_of (rev (auth_options c p cb)) ++ map_of e1 ++ map_of e2"
    by (simp add: e1(1) e2(1) rv)
  have d: "k \<noteq> ''acr_values'' \<Longrightarrow> map_of e1 k = None" "k \<noteq> ''ui_locales'' \<Longrightarrow> map_of e2 k = None" for k
    using e1(2) e2(2) by auto
  have a: "map_of (rev (auth_options c p cb)) k = (if k = ''resource'' then map_of (rev (auth_options c p cb)) k else
      map_of [(''nonce'', Nonce p), (''response_mode'', ''query''), (''code_challenge'', lp_CodeChallenge p),
         (''code_challenge_method'', ''S256''), (''redirect_uri'', cb)] k)" for k
    by (auto simp: auth_options_def)
  have n: "map_of (rev (auth_options c p cb)) ''acr_values'' = None" "map_of (rev (auth_options c p cb)) ''ui_locales'' = None"
    by (auto simp: auth_options_def)
  show thesis
  proof (rule that[OF o(3)]; intro allI impI)
    show "map_of (rev o2) k = map_of [(''nonce'', Nonce p), (''response_mode'', ''query''), (''code_challenge'', lp_CodeChallenge p),
         (''code_challenge_method'', ''S256''), (''redirect_uri'', cb)] k"
      if "k \<notin> {''resource'', ''acr_values'', ''ui_locales''}" for k
      using that a[of k] d[of k] unfolding m by (simp only: map_add_def option.case) auto
    show "v \<in> set (ACRValuesSupported (Provider (c_cfg c)))" if "map_of (rev o2) ''acr_values'' = Some v" for v
      using that n(1) d(2)[of "''acr_values''"] e1(2) unfolding m by (auto simp: map_add_def)
    show "v \<in> set (UILocalesSupported (Provider (c_cfg c)))" if "map_of (rev o2) ''ui_locales'' = Some v" for v
      using that n(2) d(1)[of "''ui_locales''"] e2(2) unfolding m by (auto simp: map_add_def)
  qed
qed

lemma login_binds_request_url:
  assumes "NewLogin x c r w = (Inr l, w1)"
  shows "\<exists>st opts. authCodeURL l = oauth2_AuthCodeURL x (c_oauth2Config c) st opts"
proof -
  obtain cb where "make_authCodeURL x c (login_params l) r cb = Inr (authCodeURL l)" by (rule NewLogin_Ok[OF assms])
  then show ?thesis by (metis make_authCodeURL_Ok)
qed

section \<open>A login against the mock provider\<close>

text \<open>A form that carries the given values.\<close>

definition sends :: "url_values \<Rightarrow> (string \<times> string) list \<Rightarrow> bool" where
  "sends form vs = list_all (\<lambda>p. Values_Get form (fst p) = snd p) vs"

definition mock_supports :: "openid_config \<Rightarrow> bool" where
  "mock_supports cfg \<longleftrightarrow> ClientID (Client cfg) \<noteq> []
     \<and> set (ACRValuesSupported (Provider cfg)) \<subseteq> {''Level3'', ''Level4''}
     \<and> set (UILocalesSupported (Provider cfg)) \<subseteq> {''nb'', ''nn'', ''en'', ''se''}"

lemma login_authorize_ok:
  assumes "NewLogin x (NewClient cfg ls) r w = (Inr l, w1)" "auth_url_law x (c_oauth2Config (NewClient cfg ls))"
    and "Parse (authCodeURL l) = Inr (req_URL ra)" "mock_supports cfg" "lc_RedirectURI (login_cookie l) \<noteq> []"
  shows "authorize_ok (req_Query ra)" "Values_Get (req_Query ra) ''state'' = lc_State (login_cookie l)"
    "Values_Get (req_Query ra) ''nonce'' = lc_Nonce (login_cookie l)"
    "Values_Get (req_Query ra) ''redirect_uri'' = lc_RedirectURI (login_cookie l)"
    "Values_Get (req_Query ra) ''client_id'' = ClientID (Client cfg)"
    "Values_Get (req_Query ra) ''code_challenge'' = CodeChallenge (lc_CodeVerifier (login_cookie l))"
    "lc_State (login_cookie l) \<noteq> []" "lc_CodeVerifier (login_cookie l) \<noteq> []"
proof -
  let ?c = "NewClient cfg ls" and ?p = "login_params l" and ?q = "req_Query ra"
  obtain cb where l: "newLoginParameters w = (Inr ?p, w1)" "make_authCodeURL x ?c ?p r cb = Inr (authCodeURL l)"
      "login_cookie l = make_cookie ?p (CanonicalRedirect r) cb"
    using assms(1) by (rule NewLogin_Ok)
  note p = newLoginParameters_Ok[OF l(1)]
  have c: "lc_State (login_cookie l) = State ?p" "lc_Nonce (login_cookie l) = Nonce ?p" "lc_RedirectURI (login_cookie l) = cb"
      "lc_CodeVerifier (login_cookie l) = CodeVerifier ?p" by (simp_all add: l(3) make_cookie_def)
  obtain opts where o: "authCodeURL l = oauth2_AuthCodeURL x (c_oauth2Config ?c) (State ?p) opts"
      and fixed: "\<forall>k. k \<notin> {''resource'', ''acr_values'', ''ui_locales''} \<longrightarrow> map_of (rev opts) k =
       map_of [(''nonce'', Nonce ?p), (''response_mode'', ''query''), (''code_challenge'', lp_CodeChallenge ?p),
         (''code_challenge_method'', ''S256''), (''redirect_uri'', cb)] k"
      and acr: "\<forall>v. map_of (rev opts) ''acr_values'' = Some v \<longrightarrow> v \<in> set (ACRValuesSupported (Provider (c_cfg ?c)))"
      and loc: "\<forall>v. map_of (rev opts) ''ui_locales'' = Some v \<longrightarrow> v \<in> set (UILocalesSupported (Provider (c_cfg ?c)))"
    by (rule make_authCodeURL_Ok[OF l(2)])
  have cfg: "c_cfg ?c = cfg" "o2_ClientID (c_oauth2Config ?c) = ClientID (Client cfg)" "o2_Scopes (c_oauth2Config ?c) = Scopes (Client cfg)"
    by (simp_all add: NewClient_def)
  let ?base = "[(''response_type'', ''code''), (''client_id'', ClientID (Client cfg)), (''scope'', Scopes_String (Scopes (Client cfg))),
      (''state'', State ?p)]"
  have q: "Values_Get ?q k = (case map_of (rev opts) k of Some v \<Rightarrow> v | None \<Rightarrow> Values_Get ?base k)" for k
  proof -
    obtain u where "Parse (authCodeURL l) = Inr u"
        "Values_Get (URL_Query u) k = Values_Get (authorization_values (c_oauth2Config ?c) (State ?p) opts) k"
      using assms(2) o unfolding auth_url_law_def by metis
    then show ?thesis using assms(3) cfg(2,3) by (simp add: req_Query_def authorization_values_def Values_Get_set_values)
  qed
  have sup: "set (ACRValuesSupported (Provider cfg)) \<subseteq> {''Level3'', ''Level4''}"
      "set (UILocalesSupported (Provider cfg)) \<subseteq> {''nb'', ''nn'', ''en'', ''se''}" "ClientID (Client cfg) \<noteq> []"
    using assms(4) by (simp_all add: mock_supports_def)
  have a: "Values_Get ?q ''acr_values'' \<in> {[], ''Level3'', ''Level4''}"
    using acr sup(1) unfolding q cfg by (cases "map_of (rev opts) ''acr_values''") (simp_all add: Values_Get_def subset_iff)
  have u: "Values_Get ?q ''ui_locales'' \<in> {[], ''nb'', ''nn'', ''en'', ''se''}"
    using loc sup(2) unfolding q cfg by (cases "map_of (rev opts) ''ui_locales''") (simp_all add: Values_Get_def subset_iff)
  obtain ss where ss: "Scopes (Client cfg) = ''openid'' # ss" using Scopes_openid by blast
  have sc: "Values_Get ?q ''scope'' = Scopes_String (''openid'' # ss)" by (simp add: q fixed ss)
  have v: "Values_Get ?q ''state'' = State ?p" "Values_Get ?q ''nonce'' = Nonce ?p" "Values_Get ?q ''redirect_uri'' = cb"
      "Values_Get ?q ''client_id'' = ClientID (Client cfg)" "Values_Get ?q ''code_challenge'' = lp_CodeChallenge ?p"
      "Values_Get ?q ''code_challenge_method'' = ''S256''" "Values_Get ?q ''response_type'' = ''code''"
      "Values_Get ?q ''response_mode'' = ''query''"
    by (simp_all add: q fixed)
  have ne: "State ?p \<noteq> []" "Nonce ?p \<noteq> []" "CodeVerifier ?p \<noteq> []" "lp_CodeChallenge ?p \<noteq> []" using p by simp_all
  have cb: "cb \<noteq> []" using assms(5) c(3) by simp
  show "authorize_ok ?q"
    unfolding authorize_ok_def v sc using ne cb sup(3) a u openid_in_scopes[of ss] by blast
  show "Values_Get ?q ''state'' = lc_State (login_cookie l)" "Values_Get ?q ''nonce'' = lc_Nonce (login_cookie l)"
    "Values_Get ?q ''redirect_uri'' = lc_RedirectURI (login_cookie l)" "Values_Get ?q ''client_id'' = ClientID (Client cfg)"
    "Values_Get ?q ''code_challenge'' = CodeChallenge (lc_CodeVerifier (login_cookie l))"
    "lc_State (login_cookie l) \<noteq> []" "lc_CodeVerifier (login_cookie l) \<noteq> []"
    using v c ne p(4) by simp_all
qed


end
