(* ===== verification/MockRefresh.thy ===== *)
theory MockRefresh
  imports MockFlow
begin

text \<open>
  Refreshing against the mock provider: the token response that it encodes is one that the program
  decodes, numbers included, so that a refresh grant gets the tokens the provider issued.
\<close>

section \<open>Numbers in JSON\<close>

definition literal_end :: "string \<Rightarrow> bool" where
  "literal_end s \<longleftrightarrow> (\<exists>c t. s = c # t \<and> c \<in> {CHR '','', CHR ''}''})"

lemma nat_dec_zero: "nat_dec n = CHR ''0'' # t \<Longrightarrow> n = 0 \<and> t = []"
proof (induction n arbitrary: t rule: nat_dec.induct)
  case (1 n)
  show ?case
  proof (cases "n < 10")
    case True
    then have "digit (int n) = CHR ''0''" "t = []" using "1.prems" by (subst (asm) nat_dec.simps, simp)+
    moreover have "digits_val (nat_dec n) = int n" by (rule digits_val_nat_dec)
    ultimately show ?thesis using "1.prems" by (simp add: digits_val_def digit_val_def byte_val_def)
  next
    case False
    then have e: "nat_dec n = nat_dec (n div 10) @ [digit (int (n mod 10))]" by (subst nat_dec.simps) simp
    then obtain u where "nat_dec (n div 10) = CHR ''0'' # u"
      using "1.prems" nat_dec_digits(2)[of "n div 10"] by (cases "nat_dec (n div 10)") auto
    then have "n div 10 = 0" using "1.IH" False by blast
    then show ?thesis using False by simp
  qed
qed

lemma scan_number_nat:
  assumes "literal_end s"
  shows "scan_number (nat_dec n @ s) = Some (nat_dec n, s)"
proof -
  obtain c t where ct: "nat_dec n = c # t" using nat_dec_digits(2) by (metis neq_Nil_conv)
  have d: "is_digit c" "list_all is_digit t" using nat_dec_digits(1)[of n] ct by simp_all
  obtain e u where s: "s = e # u" "e \<in> {CHR '','', CHR ''}''}" using assms by (auto simp: literal_end_def)
  have e: "\<not> is_digit e" "e \<noteq> CHR ''.''" "e \<noteq> CHR ''e''" "e \<noteq> CHR ''E''" using s(2) by (auto simp: is_digit_def byte_val_def)
  have m: "c \<noteq> CHR ''-''" using d(1) by (auto simp: is_digit_def byte_val_def)
  have tw: "takeWhile is_digit (t @ s) = t" "dropWhile is_digit (t @ s) = s"
    using d(2) e(1) s(1) by (auto simp: list_all_iff takeWhile_append dropWhile_append)
  have "scan_int (c # t @ s) = Some (c # t, s)"
  proof (cases "c = CHR ''0''")
    case True
    then show ?thesis using nat_dec_zero ct by (auto simp: scan_int_def)
  next
    case False
    then show ?thesis using d(1) tw by (simp add: scan_int_def)
  qed
  moreover have "scan_frac s = Some ([], s)" "scan_exp s = Some ([], s)" using e s(1) by (simp_all add: scan_frac_def scan_exp_def)
  ultimately show ?thesis using m ct by (simp add: scan_number_def)
qed

definition parses :: "nat \<Rightarrow> json \<Rightarrow> bool" where
  "parses d v \<longleftrightarrow> (\<forall>n s. length (json_print v) \<le> n \<longrightarrow> literal_end s \<longrightarrow> parse_value n d (json_print v @ s) = Some (v, s))"

lemma parses_nat: "parses d (JNum (nat_dec k))"
  unfolding parses_def
proof (intro allI impI)
  fix n s assume n: "length (json_print (JNum (nat_dec k))) \<le> n" and s: "literal_end s"
  obtain c t where ct: "nat_dec k = c # t" using nat_dec_digits(2) by (metis neq_Nil_conv)
  obtain m where m: "n = Suc m" using n ct by (cases n) auto
  have "is_digit c" using nat_dec_digits(1)[of k] ct by simp
  then have b: "48 \<le> byte_val c" "byte_val c \<le> 57" by (simp_all add: is_digit_def)
  then have "skip_ws (c # t @ s) = c # t @ s" by (simp add: skip_ws.simps(2))
  moreover have "c \<noteq> CHR ''{''" "c \<noteq> CHR ''[''" "c \<noteq> CHR 0x22" "c \<noteq> CHR ''t''" "c \<noteq> CHR ''f''" "c \<noteq> CHR ''n''"
    using b by (auto simp: byte_val_def)
  ultimately show "parse_value n d (json_print (JNum (nat_dec k)) @ s) = Some (JNum (nat_dec k), s)"
    using scan_number_nat[OF s, of k] ct m by simp
qed

lemma parses_plain: "plain_json d v \<Longrightarrow> parses d v"
  by (simp add: parses_def parse_print(1))

lemma parse_members_print:
  assumes "list_all (\<lambda>p. raw_chunk (fst p) \<and> parses d (snd p)) ms" "ms \<noteq> []" "length (print_members ms) \<le> n"
  shows "parse_members n d (print_members ms @ CHR ''}'' # s) = Some (ms, s)"
  using assms
proof (induction ms arbitrary: n)
  case (Cons p ms)
  obtain k v where p: "p = (k, v)" by (cases p)
  obtain m where n: "n = Suc m" using Cons.prems(3) p by (cases n) auto
  have k: "raw_chunk k" and v: "parses d v" using Cons.prems(1) p by simp_all
  show ?case
  proof (cases "ms = []")
    case True
    have "parse_value m d (json_print v @ CHR ''}'' # s) = Some (v, CHR ''}'' # s)"
      using v Cons.prems(3) p n by (auto simp: parses_def literal_end_def)
    then show ?thesis using n k p True by (simp add: expect_def lit_def scan_string_chunk)
  next
    case False
    have "parse_value m d (json_print v @ CHR '','' # u) = Some (v, CHR '','' # u)" for u
      using v Cons.prems(3) p n by (auto simp: parses_def literal_end_def)
    moreover have "parse_members m d (print_members ms @ CHR ''}'' # s) = Some (ms, s)"
      using Cons p n False by (intro Cons.IH) auto
    ultimately show ?thesis using n k p False by (simp add: expect_def lit_def scan_string_chunk)
  qed
qed simp

lemma json_parse_line:
  assumes "list_all (\<lambda>p. raw_chunk (fst p) \<and> parses 9999 (snd p)) ms" "ms \<noteq> []"
  shows "json_parse (json_print (JObj ms) @ [CHR 0x0A]) = Inr (JObj ms)"
proof -
  have "parse_members (Suc (Suc (Suc (length (print_members ms))))) 9999 (print_members ms @ CHR ''}'' # [CHR 0x0A]) = Some (ms, [CHR 0x0A])"
    by (rule parse_members_print[OF assms]) simp
  moreover have "expect (CHR ''}'') (print_members ms @ CHR ''}'' # [CHR 0x0A]) = None"
    using assms(2) by (cases ms) (auto simp: expect_def lit_def)
  ultimately show ?thesis by (simp add: json_parse_def skip_ws.simps(2) byte_val_def del: parse_members.simps)
qed

section \<open>Token responses\<close>

lemma TokenResponse_keys:
  "plain_key ''access_token''" "plain_key ''token_type''" "plain_key ''refresh_token''" "plain_key ''expires_in''" "plain_key ''id_token''"
  by (simp_all add: plain_key_def plain_char_def byte_val_def)

lemma decode_nat_member:
  assumes "plain_key k" "map_of fs k = Some (snd (int_field k' upd))" "is_duration (int i)"
  shows "decode_members fs ((k, JNum (nat_dec i)) # ms) x = decode_members fs ms (upd (int i) x)"
proof -
  obtain c t where ct: "nat_dec i = c # t" using nat_dec_digits(2) by (metis neq_Nil_conv)
  have "is_digit c" using nat_dec_digits(1)[of i] ct by simp
  then have "c \<noteq> CHR ''-''" by (auto simp: is_digit_def byte_val_def)
  then have "ParseInt64 (nat_dec i) = Some (int i)"
    using assms(3) ct nat_dec_digits(1)[of i] digits_val_nat_dec[of i] by (simp add: ParseInt64_def)
  then show ?thesis using assms(1,2) by (simp add: decode_members_Cons int_field_def del: decode_members.simps)
qed

lemma tokenResponse_decoded:
  assumes "valid_utf8 (mt_AccessToken t)" "valid_utf8 (mt_TokenType t)" "valid_utf8 (mt_RefreshToken t)"
    and "0 \<le> mt_ExpiresIn t" "mt_ExpiresIn t \<le> maxDuration"
  shows "json_Unmarshal TokenResponse_fields (json_print (JObj (tokenResponse_members t)) @ [CHR 0x0A]) empty_TokenResponse
    = Inr \<lparr> tr_AccessToken = mt_AccessToken t, tr_ExpiresIn = mt_ExpiresIn t, tr_RefreshToken = mt_RefreshToken t,
        tr_TokenType = mt_TokenType t \<rparr>"
proof -
  obtain n where n: "mt_ExpiresIn t = int n" using assms(4) nonneg_int_cases by blast
  have i: "int_member ''expires_in'' (mt_ExpiresIn t) = (''expires_in'', JNum (nat_dec n))" by (simp add: int_member_def Itoa_def n)
  have d: "is_duration (int n)" using assms(5) n by (simp add: is_duration_def minDuration_def)
  have p: "parses 9999 (JStr (json_escape s))" for s by (rule parses_plain) (simp add: raw_chunk_escape)
  have "json_parse (json_print (JObj (tokenResponse_members t)) @ [CHR 0x0A]) = Inr (JObj (tokenResponse_members t))"
    by (rule json_parse_line)
      (simp_all add: tokenResponse_members_def i string_member_def p parses_nat plain_key_chunk[OF TokenResponse_keys(1)]
        plain_key_chunk[OF TokenResponse_keys(2)] plain_key_chunk[OF TokenResponse_keys(3)]
        plain_key_chunk[OF TokenResponse_keys(4)] plain_key_chunk[OF TokenResponse_keys(5)])
  moreover have "find_field TokenResponse_fields ''id_token'' = None" by code_simp
  then have "decode_members TokenResponse_fields [string_member ''id_token'' s] x = Inr x" for s x
    by (simp add: string_member_def plain_key_unquote[OF TokenResponse_keys(5)] del: json_unquote.simps)
  moreover have "valid_utf8 s \<Longrightarrow> decode_members TokenResponse_fields (string_member ''access_token'' s # ms) x
      = decode_members TokenResponse_fields ms (x\<lparr> tr_AccessToken := s \<rparr>)" for s ms x
    by (rule decode_string_member[OF TokenResponse_keys(1), where k' = "''access_token''"]) (simp_all add: TokenResponse_fields_def string_field_def int_field_def)
  moreover have "valid_utf8 s \<Longrightarrow> decode_members TokenResponse_fields (string_member ''token_type'' s # ms) x
      = decode_members TokenResponse_fields ms (x\<lparr> tr_TokenType := s \<rparr>)" for s ms x
    by (rule decode_string_member[OF TokenResponse_keys(2), where k' = "''token_type''"]) (simp_all add: TokenResponse_fields_def string_field_def int_field_def)
  moreover have "valid_utf8 s \<Longrightarrow> decode_members TokenResponse_fields (string_member ''refresh_token'' s # ms) x
      = decode_members TokenResponse_fields ms (x\<lparr> tr_RefreshToken := s \<rparr>)" for s ms x
    by (rule decode_string_member[OF TokenResponse_keys(3), where k' = "''refresh_token''"]) (simp_all add: TokenResponse_fields_def string_field_def int_field_def)
  moreover have "decode_members TokenResponse_fields ((''expires_in'', JNum (nat_dec n)) # ms) x
      = decode_members TokenResponse_fields ms (x\<lparr> tr_ExpiresIn := int n \<rparr>)" for ms x
    by (rule decode_nat_member[OF TokenResponse_keys(4) _ d, where k' = "''expires_in''"]) (simp add: TokenResponse_fields_def int_field_def string_field_def)
  ultimately show ?thesis using assms(1-3)
    by (simp add: json_Unmarshal_def decode_struct_def tokenResponse_members_def i[unfolded n] n empty_TokenResponse_def
        del: decode_members.simps json_print.simps)
qed

section \<open>A refresh against the mock provider\<close>

text \<open>The answer of a handler, as the client of the request sees it.\<close>

fun body_text :: "body \<Rightarrow> string" where
  "body_text (Text s) = s"
| "body_text _ = []"

definition answer_of :: "response \<Rightarrow> http_in" where
  "answer_of rw = \<lparr> in_status = (case Status rw of Some c \<Rightarrow> c | None \<Rightarrow> 200), in_body = Inr (concat (map body_text (Body rw))) \<rparr>"

definition signs :: "mock_lib \<Rightarrow> idp_handler \<Rightarrow> bool" where
  "signs m ip \<longleftrightarrow> (\<forall>claims. \<exists>s. idp_signToken m ip claims = Inr s \<and> valid_utf8 s)"

lemma answer_of_tokens:
  assumes "valid_utf8 (mt_AccessToken t)" "valid_utf8 (mt_TokenType t)" "valid_utf8 (mt_RefreshToken t)"
    and "0 \<le> mt_ExpiresIn t" "mt_ExpiresIn t \<le> maxDuration"
  shows "handle_token_response (answer_of (Encode_tokenResponse t new_response)) =
    Inr \<lparr> tr_AccessToken = mt_AccessToken t, tr_ExpiresIn = mt_ExpiresIn t, tr_RefreshToken = mt_RefreshToken t, tr_TokenType = mt_TokenType t \<rparr>"
  using tokenResponse_decoded[OF assms]
  by (simp add: handle_token_response_def answer_of_def Encode_tokenResponse_def del: json_print.simps)

definition ascii_uuids :: "mock_lib \<Rightarrow> bool" where
  "ascii_uuids m \<longleftrightarrow> (\<forall>n. list_all (\<lambda>c. byte_val c < 128) (lib_uuid m n))"

lemma rotated_token_utf8: "ascii_uuids m \<Longrightarrow> valid_utf8 (rotated_token m n)"
  by (rule ascii_valid_utf8) (auto simp: rotated_token_def ascii_uuids_def list_all_iff byte_val_def)

lemma seconds_range:
  assumes "0 \<le> d" "d \<le> maxDuration"
  shows "0 \<le> int64_of_float (Duration_Seconds d)" "int64_of_float (Duration_Seconds d) \<le> maxDuration"
proof -
  have "0 \<le> d div Second" "d div Second < maxDuration" using assms by (simp_all add: Second_def maxDuration_def)
  then show "0 \<le> int64_of_float (Duration_Seconds d)" "int64_of_float (Duration_Seconds d) \<le> maxDuration"
    using int64_Seconds_bounds(1,2)[OF assms] by linarith+
qed

text \<open>
  A refresh grant against the mock provider gets what the provider issues. If the provider's answer to
  the program's request is what its token endpoint answers, and the refresh token belongs to the client,
  then the grant succeeds: the program decodes an access token that the provider signed for the subject
  of the original login, and a new refresh token that the provider keeps in place of the one that was
  used.
\<close>

theorem mock_refresh_flow:
  assumes "MakeAssertion x c DefaultClientAssertionLifetime w = (Inr a, w1)" "Parse (TokenEndpoint (Provider (c_cfg c))) = Inr u"
    and "Token m ip (Some (out_form (refresh_request c t a))) wi new_response = (wi', rwi)"
    and "remote w (calls w) (refresh_request c t a) = Inr (answer_of rwi)"
    and "t \<noteq> []" "RefreshTokens (store wi) t = Some d" "client_authenticated m ip (out_form (refresh_request c t a)) (rd_ClientID d) wi"
    and "signs m ip" "ascii_uuids m" "0 \<le> TokenDuration ip" "TokenDuration ip \<le> maxDuration"
  shows "\<exists>tr w' claims. RefreshGrant x c t w = (Inr tr, w')
    \<and> RefreshTokens (store wi') = (RefreshTokens (store wi))(t := None, tr_RefreshToken tr \<mapsto> d\<lparr> rd_RefreshToken := tr_RefreshToken tr \<rparr>)
    \<and> idp_signToken m ip claims = Inr (tr_AccessToken tr)
    \<and> map_of claims ''sub'' = Some (StrClaim (Subject (rd_OriginalIDToken d)))
    \<and> tr_ExpiresIn tr = int64_of_float (Duration_Seconds (TokenDuration ip))"
proof -
  let ?req = "refresh_request c t a"
  have g: "RefreshTokenGrant m ip (out_form ?req) wi new_response = (wi', rwi)"
    using assms(3) refresh_request_form(1)[of c t a] by (simp add: Token_def)
  have acc: "refresh_accepted m ip (out_form ?req) wi d"
    using assms(5-7) refresh_request_form(2)[of c t a] by (simp add: refresh_accepted_def)
  note sec = seconds_range[OF assms(10,11)]
  from g new_response_simps(1) show ?thesis
  proof (cases rule: RefreshTokenGrant_cases)
    case (refused code)
    then show ?thesis using acc assms(8) unfolding signs_def by (metis sum.distinct(1))
  next
    case (rotated d' access iat ex jti)
    have d: "d' = d" using rotated(1) acc by (simp add: refresh_accepted_def)
    let ?t = "rotated_token m (Suc (draws wi))"
    let ?tr = "\<lparr> tr_AccessToken = access, tr_ExpiresIn = int64_of_float (Duration_Seconds (TokenDuration ip)),
      tr_RefreshToken = ?t, tr_TokenType = ''Bearer'' \<rparr>"
    have "valid_utf8 access" using rotated(2) assms(8) unfolding signs_def by (metis sum.inject(2))
    moreover have "valid_utf8 ?t" by (rule rotated_token_utf8[OF assms(9)])
    moreover have "valid_utf8 ''Bearer''" by code_simp
    ultimately have h: "handle_token_response (answer_of rwi) = Inr ?tr"
      unfolding rotated(5) using sec by (subst answer_of_tokens) simp_all
    have ca: "calls w1 = calls w" "remote w1 = remote w" using MakeAssertion_env[OF assms(1)] by (auto simp: same_env_def)
    have "RefreshGrant x c t w = (Inr ?tr, w1\<lparr> calls := Suc (calls w1) \<rparr>)"
      using assms(1,2,4) h ca by (simp add: RefreshGrant_def Let_def http_Do_def refresh_request_def)
    moreover have "map_of (refresh_access_claims ip s iat ex jti) ''sub'' = Some (StrClaim s)" for s
      by (simp add: refresh_access_claims_def)
    ultimately show ?thesis using rotated(2,3) d refresh_request_form(2)[of c t a]
      by (intro exI[of _ ?tr] exI[of _ "w1\<lparr> calls := Suc (calls w1) \<rparr>"] exI[of _ "refresh_access_claims ip (Subject (rd_OriginalIDToken d)) iat ex jti"]) simp
  qed
qed

end
