(* ===== verification/MockExamples.thy ===== *)
theory MockExamples
  imports MockRefresh
begin

text \<open>
  A mock provider to evaluate examples with: identifiers that do not repeat, keys and signatures that are
  plain text, and an assertion that verifies if it is the client's identifier.
\<close>

section \<open>The provider\<close>

definition example_mock :: mock_lib where
  "example_mock = \<lparr> rsa_GenerateKey = (\<lambda>_. Inr ''raw''), jwk_FromRaw = Inr, jwk_Set_param = (\<lambda>k _ _. k), jwk_AssignKeyID = id,
     jwk_PublicSetOf = (\<lambda>ks. Inr (concat ks)), lib_Sign = (\<lambda>_ k. Inr k),
     lib_ParseAssertion = (\<lambda>_ _ iss _ _ a. if a = iss then None else Some ''invalid''),
     lib_uuid = (\<lambda>n. replicate (Suc n) (CHR ''u'')), lib_jwks_json = id \<rparr>"

definition example_mock_config :: openid_config where
  "example_mock_config = \<lparr> Client = clientConfiguration mock_Config ''client-key'',
     Provider = \<lparr> pr_endSessionEndpointURL = empty_url\<lparr> Scheme := ''http'', Host := ''idp'', Path := ''/endsession'' \<rparr>,
       pr_metadata = tp_metadata (configure_endpoints ''http://idp'' (providerConfiguration mock_Config)), pr_name = ''test'' \<rparr> \<rparr>"

definition example_idp :: idp_handler where
  "example_idp = fst (newIdentityProviderHandler \<lparr> jp_Private = [''key''], jp_Public = ''key'' \<rparr> example_mock_config)"

definition example_order :: param_order where
  "example_order = \<lparr> ord_required = id, ord_allowed = id \<rparr>"

lemma example_provider:
  "test_provider_config (configure_endpoints ''http://idp'' (providerConfiguration mock_Config)) = Some (Provider example_mock_config)"
proof -
  have "Parse ''http://idp/endsession'' = Inr (empty_url\<lparr> Scheme := ''http'', Host := ''idp'', Path := ''/endsession'' \<rparr>)" by code_simp
  then show ?thesis
    by (simp add: test_provider_config_def example_mock_config_def configure_endpoints_def Let_def set_metadata_def providerConfiguration_def
        SetAuthorizationEndpoint_def SetEndSessionEndpoint_def SetIssuer_def SetJwksURI_def SetTokenEndpoint_def mock_Config_def)
qed

lemma example_mock_simps [simp]:
  "lib_uuid example_mock n = replicate (Suc n) (CHR ''u'')" "permutes example_order" "inj (lib_uuid example_mock)"
  "ip_Config example_idp = example_mock_config" "TokenDuration example_idp = Minute"
  "ClientID (Client example_mock_config) = ''client-id''" "ascii_uuids example_mock"
proof -
  have "length (lib_uuid example_mock n) = Suc n" for n by (simp add: example_mock_def)
  then show "inj (lib_uuid example_mock)" by (metis Suc_inject injI)
qed (simp_all add: example_mock_def permutes_def example_order_def example_idp_def newIdentityProviderHandler_def
    example_mock_config_def ClientID_def clientConfiguration_def mock_Config_def ascii_uuids_def list_all_iff byte_val_def)

lemma example_signs [simp]: "idp_signToken example_mock example_idp c = Inr ''key''" "signs example_mock example_idp"
proof -
  show s: "idp_signToken example_mock example_idp c = Inr ''key''" for c
    by (simp add: idp_signToken_def example_mock_def example_idp_def newIdentityProviderHandler_def)
  have "valid_utf8 ''key''" by code_simp
  then show "signs example_mock example_idp" by (simp add: signs_def s)
qed

lemma example_authenticated [simp]:
  "client_authenticated example_mock example_idp form cid w \<longleftrightarrow>
     cid \<noteq> [] \<and> Values_Get form ''client_id'' = cid \<and> Values_Get form ''client_assertion'' = ''client-id''"
  by (auto simp: client_authenticated_def) (auto simp: example_mock_def split: if_splits)

lemma example_supports: "mock_supports example_mock_config"
  by (simp add: mock_supports_def ACRValuesSupported_def UILocalesSupported_def example_mock_config_def configure_endpoints_def
      Let_def set_metadata_def providerConfiguration_def SetAuthorizationEndpoint_def SetEndSessionEndpoint_def SetIssuer_def
      SetJwksURI_def SetTokenEndpoint_def ClientID_def clientConfiguration_def mock_Config_def)

section \<open>A code and its grant\<close>

definition example_code :: AuthorizeRequest where
  "example_code = \<lparr> ar_AcrLevel = ''Level4'', ar_ClientID = ''client-id'', ar_CodeChallenge = CodeChallenge ''verifier'',
     ar_Locale = ''nb'', ar_Nonce = ''nonce'', ar_RedirectUri = ''http://wonderwall/oauth2/callback'', ar_SessionID = ''u'' \<rparr>"

definition example_form :: url_values where
  "example_form = [(''grant_type'', ''authorization_code''), (''code'', ''uu''), (''client_id'', ''client-id''),
     (''client_assertion'', ''client-id''), (''redirect_uri'', ''http://wonderwall/oauth2/callback''), (''code_verifier'', ''verifier'')]"

definition idp_world :: "nat \<Rightarrow> idp \<Rightarrow> idp world" where
  "idp_world n s = (quiet_world 0 s)\<lparr> draws := n \<rparr>"

definition empty_idp :: idp where
  "empty_idp = \<lparr> Codes = Map.empty, idp_Sessions = Map.empty, RefreshTokens = Map.empty \<rparr>"

definition example_authorize :: request where
  "example_authorize = example_request ''/authorize'' (Values_Encode
     [(''state'', ''state''), (''nonce'', ''nonce''), (''redirect_uri'', ''http://wonderwall/oauth2/callback''),
      (''response_type'', ''code''), (''response_mode'', ''query''), (''client_id'', ''client-id''), (''scope'', ''openid''),
      (''code_challenge'', CodeChallenge ''verifier''), (''code_challenge_method'', ''S256''),
      (''acr_values'', ''Level4''), (''ui_locales'', ''nb'')])"

lemma example_authorized:
  obtains rw where "Authorize example_mock example_order example_idp example_authorize (idp_world 0 empty_idp) new_response
    = (idp_world 2 (empty_idp\<lparr> idp_Sessions := [''u'' \<mapsto> ''client-id''], Codes := [''uu'' \<mapsto> example_code] \<rparr>), rw)"
proof -
  obtain w' rw where a: "Authorize example_mock example_order example_idp example_authorize (idp_world 0 empty_idp) new_response = (w', rw)"
    by fastforce
  have q: "Values_Get (req_Query example_authorize) k = Values_Get
     [(''state'', ''state''), (''nonce'', ''nonce''), (''redirect_uri'', ''http://wonderwall/oauth2/callback''),
      (''response_type'', ''code''), (''response_mode'', ''query''), (''client_id'', ''client-id''), (''scope'', ''openid''),
      (''code_challenge'', CodeChallenge ''verifier''), (''code_challenge_method'', ''S256''),
      (''acr_values'', ''Level4''), (''ui_locales'', ''nb'')] k" for k
    by (simp add: example_authorize_def req_Query_def URL_Query_def example_request_def)
  from a new_response_simps(1) example_mock_simps(2) show thesis
  proof (cases rule: Authorize_cases)
    case refused
    then show thesis by (simp add: authorize_ok_def q)
  next
    case (stored sid code)
    then show thesis using that[of rw] a
      by (simp add: new_code_def q idp_world_def quiet_world_def empty_idp_def example_code_def numeral_2_eq_2)
  qed
qed

text \<open>The state after that authorization, and after the code has been redeemed.\<close>

definition authorized_idp :: idp where
  "authorized_idp = empty_idp\<lparr> idp_Sessions := [''u'' \<mapsto> ''client-id''], Codes := [''uu'' \<mapsto> example_code] \<rparr>"

lemma authorized_idp_simps [simp]: "Codes authorized_idp = [''uu'' \<mapsto> example_code]" "RefreshTokens authorized_idp = Map.empty"
  by (simp_all add: authorized_idp_def empty_idp_def)

lemma example_idp_reachable: "idp_reachable example_mock example_order example_idp (idp_world 2 authorized_idp)"
proof -
  obtain rw where "Authorize example_mock example_order example_idp example_authorize (idp_world 0 empty_idp) new_response
      = (idp_world 2 authorized_idp, rw)" unfolding authorized_idp_def by (rule example_authorized)
  moreover have "store (idp_world 0 empty_idp) = snd (newIdentityProviderHandler p c)" for p c
    by (simp add: idp_world_def quiet_world_def empty_idp_def newIdentityProviderHandler_def)
  ultimately show ?thesis unfolding idp_reachable_def by (meson idp_serves.intros)
qed

lemma example_form_accepted: "Codes (store w) = [''uu'' \<mapsto> example_code] \<Longrightarrow> code_accepted example_mock example_idp example_form w example_code"
  by (simp add: code_accepted_def example_form_def example_code_def)

lemma idp_world_simps [simp]: "store (idp_world n s) = s" "draws (idp_world n s) = n" "clock (idp_world n s) k = 0"
  by (simp_all add: idp_world_def quiet_world_def)

lemma example_granted:
  assumes "code_accepted example_mock example_idp form w auth"
  obtains w' rw' where "TokenCodeGrant example_mock example_idp form w new_response = (w', rw')" "Status rw' = Some 200"
    "Codes (store w') = Codes (store w)"
proof -
  obtain w' rw' where t: "TokenCodeGrant example_mock example_idp form w new_response = (w', rw')" by fastforce
  from t new_response_simps(1) show thesis
  proof (cases rule: TokenCodeGrant_cases)
    case (refused c)
    then show thesis using assms by blast
  next
    case (accepted a)
    from accepted(2) new_response_simps(1) show thesis
    proof (cases rule: issue_tokens_cases)
      case unsigned
      then show thesis using accepted(2) by (auto simp: issue_tokens_def time_Now_def uuid_NewString_def Let_def)
    next
      case issued
      then show thesis using that[OF t] by (simp add: put_refresh_token_def)
    qed
  qed
qed

theorem mock_code_grant_safe_witness:
  "\<exists>w' rw'. TokenCodeGrant example_mock example_idp example_form (idp_world 2 authorized_idp) new_response = (w', rw')
     \<and> Status rw' = Some 200 \<and> map_option rd_ClientID (RefreshTokens (store w') ''uusome-refresh-token'') = Some ''client-id''"
proof -
  have "code_accepted example_mock example_idp example_form (idp_world 2 authorized_idp) example_code"
    by (rule example_form_accepted) simp
  then obtain w' rw' where g: "TokenCodeGrant example_mock example_idp example_form (idp_world 2 authorized_idp) new_response = (w', rw')"
      "Status rw' = Some 200" by (rule example_granted)
  have "Values_Get example_form ''code'' = ''uu''" by (simp add: example_form_def)
  then show ?thesis
    using mock_code_grant_safe[where m = example_mock and ip = example_idp and form = example_form and w = "idp_world 2 authorized_idp"] g
    by (auto simp: example_code_def split: if_splits)
qed

theorem mock_invariant_witness:
  "code_ok authorized_idp example_code \<and> Codes authorized_idp ''uu'' = Some example_code"
  using mock_invariant[OF example_idp_reachable] by simp

theorem mock_code_replayable_witness:
  "\<exists>w' rw'. TokenCodeGrant example_mock example_idp example_form (idp_world 2 authorized_idp) new_response = (w', rw')
     \<and> Status rw' = Some 200 \<and> code_accepted example_mock example_idp example_form w' example_code"
proof -
  let ?w = "idp_world 2 authorized_idp"
  have a: "code_accepted example_mock example_idp example_form ?w example_code" by (rule example_form_accepted) simp
  then obtain w' rw' where g: "TokenCodeGrant example_mock example_idp example_form ?w new_response = (w', rw')" "Status rw' = Some 200"
    by (rule example_granted)
  have "Token example_mock example_idp (Some example_form) ?w new_response = (w', rw')"
    using g(1) by (simp add: Token_def example_form_def)
  then have s: "idp_serves example_mock example_order example_idp ?w w'" by (rule idp_serves.token[OF idp_serves.start])
  have "client_authenticated example_mock example_idp example_form (ar_ClientID example_code) w'"
    by (simp add: example_form_def example_code_def)
  with mock_code_replayable[OF example_idp_reachable _ _ s a] g show ?thesis by auto
qed

section \<open>A refresh\<close>

definition example_refresh :: RefreshTokenData where
  "example_refresh = \<lparr> rd_ClientID = ''client-id'', rd_RefreshToken = ''token'', rd_OriginalIDToken = [(''sub'', StrClaim ''user'')],
     rd_SessionID = ''u'' \<rparr>"

definition refreshing_idp :: idp where
  "refreshing_idp = empty_idp\<lparr> RefreshTokens := [''token'' \<mapsto> example_refresh] \<rparr>"

definition refresh_client :: client where
  "refresh_client = NewClient example_mock_config (cfg_Loginstatus example_config)"

definition example_refresh_form :: url_values where
  "example_refresh_form = out_form (refresh_request refresh_client ''token'' ''client-id'')"

lemma example_refresh_form_simps [simp]:
  "Values_Get example_refresh_form ''refresh_token'' = ''token''" "Values_Get example_refresh_form ''client_id'' = ''client-id''"
  "Values_Get example_refresh_form ''client_assertion'' = ''client-id''" "Values_Get example_refresh_form ''grant_type'' = ''refresh_token''"
  by (simp_all only: example_refresh_form_def refresh_request_form) (simp add: refresh_client_def NewClient_def)

lemma example_rotated:
  obtains w' rw' where "RefreshTokenGrant example_mock example_idp example_refresh_form (idp_world 9 refreshing_idp) new_response = (w', rw')"
    "Status rw' = Some 200"
proof -
  obtain w' rw' where t: "RefreshTokenGrant example_mock example_idp example_refresh_form (idp_world 9 refreshing_idp) new_response = (w', rw')"
    by fastforce
  have "refresh_accepted example_mock example_idp example_refresh_form (idp_world 9 refreshing_idp) example_refresh"
    by (simp add: refresh_accepted_def refreshing_idp_def example_refresh_def)
  with t new_response_simps(1) have "Status rw' = Some 200" by (cases rule: RefreshTokenGrant_cases) auto
  with t show thesis by (rule that)
qed

theorem mock_refresh_rotates_witness:
  "\<exists>w' rw' new. RefreshTokenGrant example_mock example_idp example_refresh_form (idp_world 9 refreshing_idp) new_response = (w', rw')
     \<and> Status rw' = Some 200 \<and> RefreshTokens (store w') = [new \<mapsto> example_refresh\<lparr> rd_RefreshToken := new \<rparr>]"
proof -
  obtain w' rw' where t: "RefreshTokenGrant example_mock example_idp example_refresh_form (idp_world 9 refreshing_idp) new_response = (w', rw')"
      "Status rw' = Some 200" by (rule example_rotated)
  have "RefreshTokens refreshing_idp ''token'' = Some example_refresh" "(RefreshTokens refreshing_idp)(''token'' := None) = Map.empty"
    by (simp_all add: refreshing_idp_def empty_idp_def)
  then show ?thesis
    using mock_refresh_rotates[where m = example_mock and ip = example_idp and form = example_refresh_form and w = "idp_world 9 refreshing_idp"] t by auto
qed

text \<open>A world whose remote server is the mock provider.\<close>

definition mocked_world :: "unit world" where
  "mocked_world = (quiet_world 0 ())\<lparr> remote := \<lambda>_ req. Inr (answer_of (snd (Token example_mock example_idp (Some (out_form req))
     (idp_world 9 refreshing_idp) new_response))) \<rparr>"

theorem mock_refresh_flow_witness:
  "\<exists>tr w'. RefreshGrant example_ext refresh_client ''token'' mocked_world = (Inr tr, w') \<and> tr_AccessToken tr = ''key'' \<and> tr_ExpiresIn tr = 60"
proof -
  have cfg: "c_cfg refresh_client = example_mock_config" by (simp add: refresh_client_def NewClient_def)
  obtain w1 where a: "MakeAssertion example_ext refresh_client DefaultClientAssertionLifetime mocked_world = (Inr ''client-id'', w1)"
    by (simp add: MakeAssertion_def Let_def time_Now_def cfg) (simp add: example_ext_def)
  have "TokenEndpoint (Provider (c_cfg refresh_client)) = ''http://idp/token''"
    by (simp add: cfg TokenEndpoint_def example_mock_config_def configure_endpoints_def Let_def set_metadata_def SetTokenEndpoint_def)
  moreover have "Parse ''http://idp/token'' = Inr (empty_url\<lparr> Scheme := ''http'', Host := ''idp'', Path := ''/token'' \<rparr>)" by code_simp
  ultimately obtain u where u: "Parse (TokenEndpoint (Provider (c_cfg refresh_client))) = Inr u" by simp
  obtain wi' rwi where t: "Token example_mock example_idp (Some (out_form (refresh_request refresh_client ''token'' ''client-id'')))
      (idp_world 9 refreshing_idp) new_response = (wi', rwi)" by fastforce
  have r: "remote mocked_world (calls mocked_world) (refresh_request refresh_client ''token'' ''client-id'') = Inr (answer_of rwi)"
    using t by (simp add: mocked_world_def)
  have d: "RefreshTokens (store (idp_world 9 refreshing_idp)) ''token'' = Some example_refresh" by (simp add: refreshing_idp_def)
  have c: "client_authenticated example_mock example_idp (out_form (refresh_request refresh_client ''token'' ''client-id''))
      (rd_ClientID example_refresh) (idp_world 9 refreshing_idp)"
    by (simp add: example_refresh_form_def[symmetric]) (simp add: example_refresh_def)
  have e: "0 \<le> TokenDuration example_idp" "TokenDuration example_idp \<le> maxDuration" by (simp_all add: duration_consts maxDuration_def)
  have "int64_of_float (Duration_Seconds (TokenDuration example_idp)) = 60"
    using int64_Seconds_bounds(3)[OF e] by (simp add: duration_consts)
  with mock_refresh_flow[OF a u t r _ d c _ _ e] show ?thesis by auto
qed

section \<open>A login\<close>

text \<open>An OAuth2 library that keeps its documented behaviour.\<close>

definition mock_ext :: ext where
  "mock_ext = example_ext\<lparr> oauth2_AuthCodeURL := \<lambda>c st opts. o2_AuthURL c @ ''?'' @ Values_Encode (authorization_values c st opts) \<rparr>"

definition mock_client :: client where
  "mock_client = NewClient example_mock_config (cfg_Loginstatus example_config)"

lemma Encode_chars: "c \<in> set (Values_Encode v) \<Longrightarrow> query_char c \<or> c = CHR ''&'' \<or> c = CHR ''=''"
proof -
  have p: "c \<in> set (encode_pair p) \<Longrightarrow> query_char c \<or> c = CHR ''=''" for p
    using QueryEscape_query_char by (auto simp: encode_pair_def)
  have "c \<in> set (join_with [s] xs) \<Longrightarrow> c = s \<or> (\<exists>x \<in> set xs. c \<in> set x)" for s and xs :: "string list"
    by (induction "[s]" xs rule: join_with.induct) auto
  then show "c \<in> set (Values_Encode v) \<Longrightarrow> ?thesis" using p by (fastforce simp: Values_Encode_def)
qed

lemma query_char_range: "query_char c \<Longrightarrow> 32 < byte_val c \<and> byte_val c < 127"
  by (auto simp: query_char_def is_alpha_def is_digit_def byte_val_def)

lemma cut_free: "c \<notin> set s \<Longrightarrow> cut_before c s = s" "c \<notin> set s \<Longrightarrow> cut_after c s = []"
proof -
  assume "c \<notin> set s"
  then have "takeWhile (\<lambda>x. x \<noteq> c) s = s" "dropWhile (\<lambda>x. x \<noteq> c) s = []"
    unfolding takeWhile_eq_all_conv dropWhile_eq_Nil_conv by auto
  then show "cut_before c s = s" "cut_after c s = []" unfolding cut_before_def cut_after_def by (simp_all only: list.sel)
qed

lemma Parse_authorize:
  assumes "\<And>c. c \<in> set q \<Longrightarrow> query_char c \<or> c = CHR ''&'' \<or> c = CHR ''=''" "q \<noteq> []"
  shows "Parse (''http://idp/authorize?'' @ q) = Inr (empty_url\<lparr> Scheme := ''http'', Host := ''idp'', Path := ''/authorize'', RawQuery := q \<rparr>)"
proof -
  let ?p = "''//idp/authorize''"
  have f: "CHR ''#'' \<notin> set q" "CHR ''?'' \<notin> set q" using assms(1) query_char_not by fastforce+
  have r: "\<forall>c \<in> set q. \<not> (byte_val c < 32 \<or> byte_val c = 127)" using assms(1) query_char_range by (force simp: byte_val_def)
  let ?raw = "''http:'' @ ?p @ CHR ''?'' # q"
  have "CHR ''#'' \<notin> set ?raw" using f(1) by simp
  then have h: "cut_before (CHR ''#'') ?raw = ?raw" "cut_after (CHR ''#'') ?raw = []"
    using cut_free by blast+
  have "list_ex (\<lambda>c. byte_val c < 32 \<or> byte_val c = 127) ?raw = False" using r by (auto simp: byte_val_def list_ex_iff)
  moreover have "getScheme ?raw = Inr (''http'', ?p @ CHR ''?'' # q)" by (simp add: getScheme_def is_alpha_def is_digit_def byte_val_def)
  moreover have "map to_lower ''http'' = ''http''" by code_simp
  ultimately have u: "url_parse ?raw = parse_rest ''http'' (?p @ CHR ''?'' # q)" by (simp add: url_parse_def)
  have ns: "\<not> HasSuffix (?p @ CHR ''?'' # q) ''?''"
  proof
    assume "HasSuffix (?p @ CHR ''?'' # q) ''?''"
    then have "last (?p @ CHR ''?'' # q) = CHR ''?''" unfolding HasSuffix_iff by (metis last_snoc)
    then show False using assms(2) f(2) last_in_set[of q] by simp
  qed
  have cut: "cut_before (CHR ''?'') (?p @ CHR ''?'' # q) = ?p" "cut_after (CHR ''?'') (?p @ CHR ''?'' # q) = q"
    by (simp_all add: cut_before_def cut_after_def)
  have "parseAuthority (cut_before (CHR ''/'') (drop 2 ?p)) = Inr (None, ''idp'')" "cut_from (CHR ''/'') (drop 2 ?p) = ''/authorize''"
    "HasPrefix ?p ''/''" "HasPrefix ?p ''//''" by code_simp+
  moreover have "unescape encodePath ''/authorize'' = Inr ''/authorize''" "escape encodePath ''/authorize'' = ''/authorize''" by code_simp+
  ultimately have "parse_rest ''http'' (?p @ CHR ''?'' # q) =
      Inr (empty_url\<lparr> Scheme := ''http'', Host := ''idp'', Path := ''/authorize'', RawQuery := q \<rparr>)"
    using ns cut by (simp add: parse_rest_def Let_def setPath_def empty_url_def del: append_Cons)
  with u h show ?thesis by (simp add: Parse_def)
qed

lemma example_auth_url_law: "auth_url_law mock_ext (c_oauth2Config mock_client)"
  unfolding auth_url_law_def
proof (intro allI)
  fix st opts
  let ?v = "authorization_values (c_oauth2Config mock_client) st opts"
  have "o2_AuthURL (c_oauth2Config mock_client) = ''http://idp/authorize''"
    by (simp add: mock_client_def NewClient_def AuthorizationEndpoint_def example_mock_config_def configure_endpoints_def Let_def
        set_metadata_def SetAuthorizationEndpoint_def SetEndSessionEndpoint_def SetIssuer_def SetJwksURI_def SetTokenEndpoint_def)
  then have url: "oauth2_AuthCodeURL mock_ext (c_oauth2Config mock_client) st opts = ''http://idp/authorize?'' @ Values_Encode ?v"
    by (simp add: mock_ext_def)
  have "ParseQuery [] = []" by (simp add: ParseQuery_def parse_pair_def)
  moreover have "Values_Get ?v k \<noteq> [] \<Longrightarrow> ?v \<noteq> []" for k by (auto simp: Values_Get_def)
  moreover have "set_values os v \<noteq> []" if "v \<noteq> []" for os v
    using that by (induction os rule: rev_induct) (auto simp: set_values_def Values_Set_def)
  then have "?v \<noteq> []" by (simp add: authorization_values_def)
  then have "ParseQuery (Values_Encode ?v) \<noteq> []" by (metis ParseQuery_Encode length_0_conv length_sort)
  ultimately have ne: "Values_Encode ?v \<noteq> []" by metis
  have "Parse (''http://idp/authorize?'' @ Values_Encode ?v) =
      Inr (empty_url\<lparr> Scheme := ''http'', Host := ''idp'', Path := ''/authorize'', RawQuery := Values_Encode ?v \<rparr>)"
    by (rule Parse_authorize[OF Encode_chars ne])
  then show "\<exists>u. Parse (oauth2_AuthCodeURL mock_ext (c_oauth2Config mock_client) st opts) = Inr u
      \<and> (\<forall>k. Values_Get (URL_Query u) k = Values_Get ?v k)"
    unfolding url by (intro exI conjI, assumption) (simp add: URL_Query_def)
qed

lemma example_mock_login:
  obtains l w' where "NewLogin mock_ext mock_client (example_request ''/oauth2/login'' []) (quiet_world 0 ()) = (Inr l, w')"
    "lc_RedirectURI (login_cookie l) = ''https://app.example/oauth2/callback''"
proof -
  have "\<And>n. entropy_ok (quiet_world 0 ()) n" by (simp add: quiet_world_def)
  then obtain p w' where p: "newLoginParameters (quiet_world 0 ()) = (Inr p, w')" by (rule newLoginParameters_total)
  have q: "Values_Get (req_Query (example_request ''/oauth2/login'' [])) k = []" for k
    by (simp add: example_request_def req_Query_def URL_Query_def ParseQuery_def parse_pair_def Values_Get_def)
  have "is_ok (make_authCodeURL mock_ext mock_client p (example_request ''/oauth2/login'' []) url)" for url
    by (simp add: make_authCodeURL_def withSecurityLevel_def withLocale_def withParamMapping_def LoginURLParameter_def
        q mock_client_def NewClient_def example_mock_config_def ACRValues_def ACRValuesSupported_def
        UILocales_def UILocalesSupported_def clientConfiguration_def mock_Config_def configure_endpoints_def Let_def
        set_metadata_def SetAuthorizationEndpoint_def SetEndSessionEndpoint_def SetIssuer_def SetJwksURI_def SetTokenEndpoint_def
        providerConfiguration_def)
  then obtain a where "make_authCodeURL mock_ext mock_client p (example_request ''/oauth2/login'' []) ''https://app.example/oauth2/callback'' = Inr a"
    unfolding is_ok_iff by blast
  then show thesis using that p by (simp add: NewLogin_def example_callback_url Let_def make_cookie_def)
qed


end
