(* ===== verification/MockSetup.thy ===== *)
theory MockSetup
  imports MockExamples Server
begin

text \<open>
  How \<^verbatim>\<open>pkg/mock\<close> puts a provider and the program together (\<^verbatim>\<open>NewIdentityProvider\<close> of \<^verbatim>\<open>openid.go\<close> and the
  constructors it calls). The two HTTP test servers are the addresses they listen on; a panic and a
  fatal log are errors. Configurations are pointers in the code: what is set through one is seen
  through all of them.
\<close>

section \<open>Construction\<close>

definition NewTestJwksProvider :: "mock_lib \<Rightarrow> 's world \<Rightarrow> jwk_pair result \<times> 's world" where
  "NewTestJwksProvider m w =
     (case NewJwkSet m w of
        (None, w1) \<Rightarrow> (Inl (ErrOther ''panic''), w1)
      | (Some (Inl e), w1) \<Rightarrow> (Inl (ErrOther ''fatal''), w1)
      | (Some (Inr jwksPair), w1) \<Rightarrow> (Inr jwksPair, w1))"

definition NewTestConfiguration :: "mock_lib \<Rightarrow> config \<Rightarrow> 's world \<Rightarrow> (client_config \<times> test_provider) result \<times> 's world" where
  "NewTestConfiguration m cfg w =
     (case NewJwk m w of
        (None, w1) \<Rightarrow> (Inl (ErrOther ''panic''), w1)
      | (Some (Inl e), w1) \<Rightarrow> (Inl (ErrOther ''panic''), w1)
      | (Some (Inr ky), w1) \<Rightarrow> (Inr (clientConfiguration cfg ky, providerConfiguration cfg), w1))"

record 's identity_provider =
  mp_Cfg :: config
  mp_OpenIDConfig :: openid_config
  mp_ProviderHandler :: idp_handler
  mp_ProviderState :: idp
  mp_RelyingPartyHandler :: "'s standard_handler"

definition mock_SetIngresses :: "map_order \<Rightarrow> string list \<Rightarrow> 's identity_provider \<Rightarrow> 's identity_provider result" where
  "mock_SetIngresses order ings ip =
     (let cfg = (mp_Cfg ip)\<lparr> Ingresses := ings \<rparr> in
      case ParseIngresses order cfg of
        Inl e \<Rightarrow> Inl (ErrOther ''panic'')
      | Inr parsed \<Rightarrow> Inr (ip\<lparr> mp_Cfg := cfg,
          mp_RelyingPartyHandler := SetIngresses ((mp_RelyingPartyHandler ip)\<lparr> sh_config := cfg \<rparr>) parsed \<rparr>))"

definition NewIdentityProvider ::
    "mock_lib \<Rightarrow> map_order \<Rightarrow> string \<Rightarrow> string \<Rightarrow> 's session_store_ops result \<Rightarrow> config \<Rightarrow> 's world
     \<Rightarrow> 's identity_provider result \<times> 's world" where
  "NewIdentityProvider m order serverURL rpURL newStore cfg w =
     (case NewTestConfiguration m cfg w of
        (Inl e, w1) \<Rightarrow> (Inl e, w1)
      | (Inr (testClient, testProvider), w1) \<Rightarrow>
      (case NewTestJwksProvider m w1 of
        (Inl e, w2) \<Rightarrow> (Inl e, w2)
      | (Inr jwksProvider, w2) \<Rightarrow>
      (case test_provider_config (configure_endpoints serverURL testProvider) of
        None \<Rightarrow> (Inl (ErrOther ''panic''), w2)
      | Some provider \<Rightarrow>
      let openidConfig = \<lparr> Client = testClient, Provider = provider \<rparr>;
          (hd, st) = newIdentityProviderHandler jwksProvider openidConfig;
          crypter = NewCrypter (EncryptionKey cfg); cookieOpts = Options_WithSecure False DefaultOptions
      in case NewHandler order cfg newStore cookieOpts openidConfig crypter of
        Inl e \<Rightarrow> (Inl (ErrOther ''panic''), w2)
      | Inr rpHandler \<Rightarrow>
          (mock_SetIngresses order [rpURL] \<lparr> mp_Cfg = cfg, mp_OpenIDConfig = openidConfig, mp_ProviderHandler = hd,
             mp_ProviderState = st, mp_RelyingPartyHandler = rpHandler \<rparr>, w2))))"

section \<open>Correctness\<close>

lemma configured_endpoints:
  assumes "test_provider_config (configure_endpoints url (providerConfiguration cfg)) = Some p"
  shows "AuthorizationEndpoint p = url @ ''/authorize''" "TokenEndpoint p = url @ ''/token''" "Issuer p = url"
    "JwksURI p = url @ ''/jwks''" "ACRValuesSupported p = [''Level3'', ''Level4'']" "UILocalesSupported p = [''nb'', ''nb'', ''en'', ''se'']"
  using assms
  by (auto simp: test_provider_config_def configure_endpoints_def Let_def set_metadata_def providerConfiguration_def
      SetAuthorizationEndpoint_def SetEndSessionEndpoint_def SetIssuer_def SetJwksURI_def SetTokenEndpoint_def
      AuthorizationEndpoint_def TokenEndpoint_def Issuer_def JwksURI_def ACRValuesSupported_def UILocalesSupported_def
      split: sum.splits)

text \<open>
  The mock fits the program. In what \<^verbatim>\<open>NewIdentityProvider\<close> builds, the provider and the program share one
  configuration, whose endpoints are routes of the provider; it supports every login that the program accepts; the
  program's cookies work without TLS, its sessions and cookies use one crypter, and its ingress is the
  address it listens on; and the provider starts in a reachable state, without codes and tokens.
\<close>

theorem mock_setup_correct:
  fixes w :: "'s world"
  assumes "NewIdentityProvider m order serverURL rpURL newStore cfg w = (Inr ip, w')" "op_ClientID (cfg_OpenID cfg) \<noteq> []"
  shows "ip_Config (mp_ProviderHandler ip) = sh_openidConfig (mp_RelyingPartyHandler ip)
    \<and> c_cfg (sh_client (mp_RelyingPartyHandler ip)) = sh_openidConfig (mp_RelyingPartyHandler ip)
    \<and> o2_AuthURL (c_oauth2Config (sh_client (mp_RelyingPartyHandler ip))) = serverURL @ ''/authorize''
    \<and> TokenEndpoint (Provider (sh_openidConfig (mp_RelyingPartyHandler ip))) = serverURL @ ''/token''
    \<and> mock_supports (sh_openidConfig (mp_RelyingPartyHandler ip))
    \<and> \<not> opt_Secure (sh_cookieOptions (mp_RelyingPartyHandler ip))
    \<and> h_crypter (sh_sessions (mp_RelyingPartyHandler ip)) = sh_crypter (mp_RelyingPartyHandler ip)
    \<and> ParseIngresses order (cfg\<lparr> Ingresses := [rpURL] \<rparr>) = Inr (sh_ingresses (mp_RelyingPartyHandler ip))
    \<and> (\<forall>v. store v = mp_ProviderState ip \<longrightarrow> idp_reachable m ord (mp_ProviderHandler ip) v)"
proof -
  obtain ky and w1 :: "'s world" where t: "NewTestConfiguration m cfg w = (Inr (clientConfiguration cfg ky, providerConfiguration cfg), w1)"
    using assms(1) by (auto simp: NewIdentityProvider_def NewTestConfiguration_def split: prod.splits option.splits sum.splits)
  obtain jwks and w2 :: "'s world" where j: "NewTestJwksProvider m w1 = (Inr jwks, w2)"
    using assms(1) t by (auto simp: NewIdentityProvider_def split: prod.splits sum.splits)
  obtain p where p: "test_provider_config (configure_endpoints serverURL (providerConfiguration cfg)) = Some p"
    using assms(1) t j by (auto simp: NewIdentityProvider_def split: prod.splits option.splits)
  let ?oc = "\<lparr> Client = clientConfiguration cfg ky, Provider = p \<rparr>"
  obtain hd st where n: "newIdentityProviderHandler jwks ?oc = (hd, st)" by (cases "newIdentityProviderHandler jwks ?oc")
  let ?new = "NewHandler order cfg newStore (Options_WithSecure False DefaultOptions) ?oc (NewCrypter (EncryptionKey cfg))"
  obtain rp where rp: "?new = Inr rp"
    using assms(1) t j p n by (cases ?new) (auto simp: NewIdentityProvider_def Let_def)
  have "mock_SetIngresses order [rpURL] \<lparr> mp_Cfg = cfg, mp_OpenIDConfig = ?oc, mp_ProviderHandler = hd,
             mp_ProviderState = st, mp_RelyingPartyHandler = rp \<rparr> = Inr ip"
    using assms(1) t j p n rp by (simp add: NewIdentityProvider_def Let_def)
  then obtain ings where i: "ParseIngresses order (cfg\<lparr> Ingresses := [rpURL] \<rparr>) = Inr ings" "mp_ProviderHandler ip = hd"
      "mp_ProviderState ip = st" "mp_RelyingPartyHandler ip = rp\<lparr> sh_config := cfg\<lparr> Ingresses := [rpURL] \<rparr>, sh_ingresses := ings \<rparr>"
    by (auto simp: mock_SetIngresses_def SetIngresses_def Let_def split: sum.splits)
  have r: "sh_openidConfig rp = ?oc" "sh_client rp = NewClient ?oc (cfg_Loginstatus cfg)" "\<not> opt_Secure (sh_cookieOptions rp)"
      "h_crypter (sh_sessions rp) = sh_crypter rp"
    using rp by (auto simp: NewHandler_def session_NewHandler_def Options_WithSecure_def Let_def split: sum.splits)
  have hd: "ip_Config hd = ?oc" "st = snd (newIdentityProviderHandler jwks (ip_Config hd))"
    using n by (auto simp: newIdentityProviderHandler_def)
  have "idp_reachable m ord hd v" if "store v = st" for v
    using that hd(2) idp_serves.start unfolding idp_reachable_def by metis
  then show ?thesis
    using r hd i configured_endpoints[OF p] assms(2)
    by (simp add: NewClient_def mock_supports_def clientConfiguration_def ClientID_def)
qed

theorem mock_setup_correct_witness:
  "\<exists>ip w'. NewIdentityProvider example_mock (\<lambda>m. m) ''http://idp'' ''http://127.0.0.1:8080'' (Inr memory_store) mock_Config
       (quiet_world 0 Map.empty) = (Inr ip, w')
     \<and> TokenEndpoint (Provider (sh_openidConfig (mp_RelyingPartyHandler ip))) = ''http://idp/token''
     \<and> mock_supports (ip_Config (mp_ProviderHandler ip))"
proof -
  have "case ParseIngresses (\<lambda>m. m) mock_Config of Inl _ \<Rightarrow> False | Inr _ \<Rightarrow> True" by code_simp
  then obtain i1 where i1: "ParseIngresses (\<lambda>m. m) mock_Config = Inr i1" by (cases "ParseIngresses (\<lambda>m. m) mock_Config") auto
  have "case ParseIngresses (\<lambda>m. m) (mock_Config\<lparr> Ingresses := [''http://127.0.0.1:8080''] \<rparr>) of Inl _ \<Rightarrow> False | Inr _ \<Rightarrow> True" by code_simp
  then obtain i2 where i2: "ParseIngresses (\<lambda>m. m) (mock_Config\<lparr> Ingresses := [''http://127.0.0.1:8080''] \<rparr>) = Inr i2"
    by (cases "ParseIngresses (\<lambda>m. m) (mock_Config\<lparr> Ingresses := [''http://127.0.0.1:8080''] \<rparr>)") auto
  obtain a where a: "AutoLogin_New mock_Config = Inr a" by (simp add: AutoLogin_New_def mock_Config_def)
  obtain ip w' where g: "NewIdentityProvider example_mock (\<lambda>m. m) ''http://idp'' ''http://127.0.0.1:8080'' (Inr memory_store) mock_Config
       (quiet_world 0 Map.empty :: memory world) = (Inr ip, w')"
    using i1 i2 a example_provider
    by (simp add: NewIdentityProvider_def NewTestConfiguration_def NewTestJwksProvider_def NewJwkSet_def NewJwk_def example_mock_def
        newIdentityProviderHandler_def NewHandler_def session_NewHandler_def mock_SetIngresses_def Let_def)
  have "op_ClientID (cfg_OpenID mock_Config) \<noteq> []" by (simp add: mock_Config_def)
  from mock_setup_correct[OF g this] g show ?thesis by auto
qed

section \<open>Requests of tests\<close>

text \<open>
  \<^verbatim>\<open>request.go\<close>, from the request that \<^verbatim>\<open>httptest.NewRequest\<close> has made of the target: it is given the
  context that the middleware would give it.
\<close>

definition RequestWithIngress :: "request \<Rightarrow> ingress \<Rightarrow> request" where
  "RequestWithIngress r ing = WithIngress r ing"

definition RequestWithPath :: "request \<Rightarrow> string \<Rightarrow> request" where
  "RequestWithPath r path = WithPath r path"

definition NewGetRequest :: "map_order \<Rightarrow> ingresses \<Rightarrow> request \<Rightarrow> request" where
  "NewGetRequest order ingresses req =
     (case MatchingIngress order ingresses req of
        Some m \<Rightarrow> let req1 = RequestWithIngress req m; req2 = RequestWithPath req1 (Ingress_Path m) in req2
      | None \<Rightarrow> req)"

definition mock_GetRequest :: "map_order \<Rightarrow> 's identity_provider \<Rightarrow> request \<Rightarrow> request" where
  "mock_GetRequest order ip req = NewGetRequest order (GetIngresses (mp_RelyingPartyHandler ip)) req"

text \<open>
  A test's request is one that the program would see: a request to an ingress has the same context as behind
  the ingress middleware; any other has no ingress either way.
\<close>

theorem mock_request_as_served:
  assumes "range_order order"
  shows "(case MatchingIngress order ings req of
      Some m \<Rightarrow> NewGetRequest order ings req = Ingress_Handler order ings req
    | None \<Rightarrow> NewGetRequest order ings req = req \<and> IngressFrom (Ingress_Handler order ings req) = IngressFrom req)"
  using MatchingIngress_Some(3)[OF assms]
  by (auto simp: NewGetRequest_def RequestWithIngress_def RequestWithPath_def Ingress_Handler_def WithIngress_def WithPath_def
      IngressFrom_def Let_def split: option.splits)

theorem mock_request_as_served_witness:
  "NewGetRequest id two_ingresses ((request_to ''b'' ''/app/x'')\<lparr> Header := [XForwardedHost \<mapsto> ''a''] \<rparr>)
     = Ingress_Handler id two_ingresses ((request_to ''b'' ''/app/x'')\<lparr> Header := [XForwardedHost \<mapsto> ''a''] \<rparr>)"
proof -
  let ?r = "(request_to ''b'' ''/app/x'')\<lparr> Header := [XForwardedHost \<mapsto> ''a''] \<rparr>"
  have "PathFrom (NewGetRequest id two_ingresses ?r) = Some ''/app''" by code_simp
  then have "MatchingIngress id two_ingresses ?r \<noteq> None"
    by (cases "MatchingIngress id two_ingresses ?r") (simp_all add: NewGetRequest_def PathFrom_def request_to_def)
  then obtain m where "MatchingIngress id two_ingresses ?r = Some m" by blast
  with mock_request_as_served[OF range_order_id, of two_ingresses ?r] show ?thesis by simp
qed

end
