(* ===== verification/ResponseCookies.thy ===== *)
theory ResponseCookies
  imports Server
begin

text \<open>
  The type of the program's cookies: what every cookie that any route sets looks like.
\<close>

section \<open>Well-formed cookies\<close>

text \<open>The path of the cookies that belong to a request: that of its ingress.\<close>

definition cookie_path :: "'s standard_handler \<Rightarrow> request \<Rightarrow> string" where
  "cookie_path s r = (if GetPath s r = [] then ''/'' else GetPath s r)"

text \<open>
  No cookie is readable by scripts, all are as secure as the server's options say. The program's own
  cookies are for the path of the request's ingress, those of the loginstatus service for its domain.
  The session and login cookies hold nothing but ciphertext of the server's crypter, unless they are
  cleared, and only login cookies may be sent across sites.
\<close>

definition cookie_wf :: "'s standard_handler \<Rightarrow> request \<Rightarrow> cookie \<Rightarrow> bool" where
  "cookie_wf s r c \<longleftrightarrow> ck_HttpOnly c \<and> ck_Secure c = opt_Secure (sh_cookieOptions s)
     \<and> (if ck_Name c \<in> {cookie_Session, cookie_Login, cookie_LoginLegacy, cookie_Retry}
        then ck_Path c = cookie_path s r \<and> ck_Domain c = opt_Domain (sh_cookieOptions s)
          \<and> (ck_SameSite c = SameSiteNoneMode \<longrightarrow> ck_Name c = cookie_Login \<or> opt_SameSite (sh_cookieOptions s) = SameSiteNoneMode)
          \<and> (ck_Name c \<noteq> cookie_Retry \<longrightarrow> (ck_MaxAge c = - 1 \<and> ck_Value c = []) \<or> is_ok (Cookie_Decrypt (sh_crypter s) (ck_Value c)))
        else Enabled (sh_loginstatus s) \<and> ck_Name c \<in> {CookieName (sh_loginstatus s), LoginserviceCookieName}
          \<and> ck_Path c = ''/'' \<and> ck_Domain c = CookieDomain (sh_loginstatus s))"

text \<open>The names are distinct; a configuration that names the loginstatus cookie like one of the program's is excluded.\<close>

definition loginstatus_named :: "'s standard_handler \<Rightarrow> bool" where
  "loginstatus_named s \<longleftrightarrow> CookieName (sh_loginstatus s) \<notin> {cookie_Session, cookie_Login, cookie_LoginLegacy, cookie_Retry}"

definition response_wf :: "'s standard_handler \<Rightarrow> request \<Rightarrow> response \<Rightarrow> bool" where
  "response_wf s r rw \<longleftrightarrow> (\<forall>c \<in> set (SetCookies rw). cookie_wf s r c)"

lemma response_wf_new [simp]: "response_wf s r new_response"
  by (simp add: response_wf_def)

lemma response_wf_SetCookie: "response_wf s r rw \<Longrightarrow> cookie_wf s r c \<Longrightarrow> response_wf s r (http_SetCookie c rw)"
  by (auto simp: response_wf_def http_SetCookie_def)

lemma response_wf_cong: "SetCookies rw' = SetCookies rw \<Longrightarrow> response_wf s r rw \<Longrightarrow> response_wf s r rw'"
  by (simp add: response_wf_def)

section \<open>Every operation sets well-formed cookies\<close>

lemma loginservice_name: "LoginserviceCookieName \<notin> {cookie_Session, cookie_Login, cookie_LoginLegacy, cookie_Retry}"
  by (simp add: LoginserviceCookieName_def cookie_Session_def cookie_Login_def cookie_LoginLegacy_def cookie_Retry_def)

lemma response_wf_Clear:
  assumes "response_wf s r rw" "name \<in> {cookie_Session, cookie_Login, cookie_LoginLegacy, cookie_Retry}"
    and "mode = SameSiteNoneMode \<longrightarrow> name = cookie_Login"
  shows "response_wf s r (cookie_Clear name (GetCookieOptsPathAware s r) rw)"
    and "response_wf s r (cookie_Clear name (Options_WithSameSite mode (GetCookieOptsPathAware s r)) rw)"
  using assms
  by (auto simp: cookie_Clear_def GetCookieOptsPathAware_def accessor_simps cookie_wf_def cookie_path_def
      intro!: response_wf_SetCookie)

lemma response_wf_EncryptAndSet:
  assumes "EncryptAndSet name v opts (sh_crypter s) w rw = (e, w', rw')" "response_wf s r rw"
    and "name \<in> {cookie_Session, cookie_Login, cookie_LoginLegacy}" "opt_Path opts = GetPath s r"
    and "opt_Domain opts = opt_Domain (sh_cookieOptions s)" "opt_Secure opts = opt_Secure (sh_cookieOptions s)"
    and "opt_SameSite opts = SameSiteNoneMode \<longrightarrow> name = cookie_Login \<or> opt_SameSite (sh_cookieOptions s) = SameSiteNoneMode"
  shows "response_wf s r rw'"
proof (cases e)
  case (Some x)
  then have "rw' = rw" using assms(1) by (auto simp: EncryptAndSet_def Let_def split: prod.splits sum.splits)
  then show ?thesis using assms(2) by simp
next
  case None
  obtain now w1 c where c: "Cookie_Encrypt (sh_crypter s) (cookie_Make name v opts now) w1 = (Inr c, w')" "rw' = http_SetCookie c rw"
    using assms(1) None by (auto simp: EncryptAndSet_def Let_def split: prod.splits sum.splits)
  obtain ct where ct: "Crypter_Encrypt (sh_crypter s) v w1 = (Inr ct, w')"
      "c = (cookie_Make name v opts now)\<lparr> ck_Value := EncodeToString StdEncoding ct \<rparr>"
    using c(1) by (auto simp: Cookie_Encrypt_def cookie_Make_def split: prod.splits sum.splits)
  have "Cookie_Decrypt (sh_crypter s) (ck_Value c) = Inr v"
    using aes_gcm.Decrypt_Encrypt[OF ct(1)] ct(2) by (simp add: Cookie_Decrypt_def)
  then have "cookie_wf s r c" using assms(3-) ct(2) by (auto simp: cookie_wf_def cookie_Make_def cookie_path_def)
  then show ?thesis using response_wf_SetCookie[OF assms(2)] c(2) by simp
qed

lemma response_wf_increment:
  assumes "incrementRetryAttempt r (GetCookieOptsPathAware s r) w rw = (w', rw')" "response_wf s r rw"
  shows "response_wf s r rw'"
  using assms by (auto simp: incrementRetryAttempt_def time_Now_def cookie_wf_def cookie_Make_def UnsetExpiry_def
      GetCookieOptsPathAware_def accessor_simps cookie_path_def intro!: response_wf_SetCookie)

lemma customErrorRedirect_cookies: "customErrorRedirect s r code rw = Inr rw' \<Longrightarrow> SetCookies rw' = SetCookies rw"
  by (auto simp: customErrorRedirect_def Let_def split: sum.splits)

lemma response_wf_respondError:
  assumes "respondError s r code w rw = (w', rw')" "response_wf s r rw"
  shows "response_wf s r rw'"
proof -
  obtain w1 rw1 where i: "incrementRetryAttempt r (GetCookieOptsPathAware s r) w rw = (w1, rw1)" by fastforce
  have "SetCookies rw' = SetCookies rw1"
    using assms(1) i
    by (auto simp: respondError_def Let_def defaultErrorResponse_def customErrorRedirect_cookies split: if_splits sum.splits)
  then show ?thesis using response_wf_increment[OF i assms(2)] by (rule response_wf_cong)
qed

lemma ls_cookie_wf:
  assumes "loginstatus_named s" "Enabled (sh_loginstatus s)" "ck_Name c \<in> {CookieName (sh_loginstatus s), LoginserviceCookieName}"
    and "ck_HttpOnly c" "ck_Secure c = opt_Secure (sh_cookieOptions s)" "ck_Path c = ''/''" "ck_Domain c = CookieDomain (sh_loginstatus s)"
  shows "cookie_wf s r c"
proof -
  have "ck_Name c \<notin> {cookie_Session, cookie_Login, cookie_LoginLegacy, cookie_Retry}"
    using assms(1,3) loginservice_name by (auto simp: loginstatus_named_def)
  then show ?thesis using assms(2-) by (simp add: cookie_wf_def)
qed

lemma response_wf_loginstatus_step:
  assumes "loginstatus_step s t w rw = (e, w', rw')" "loginstatus_named s" "response_wf s r rw"
  shows "response_wf s r rw'"
proof (cases "Enabled (sh_loginstatus s)")
  case False
  then show ?thesis using assms by (simp add: loginstatus_step_def accessor_simps ls_Enabled_def)
next
  case True
  have "rw' = rw \<or> (\<exists>tok v. (w', rw') = ls_SetCookie (sh_loginstatus s) tok (sh_cookieOptions s) v rw)"
    using assms(1) True by (auto simp: loginstatus_step_def accessor_simps ls_Enabled_def split: prod.splits sum.splits) metis
  then show ?thesis using assms(2,3) True
    by (auto simp: ls_SetCookie_def Let_def time_Now_def ls_CookieOptions_def accessor_simps cookie_Make_def
        intro!: response_wf_SetCookie ls_cookie_wf)
qed

lemma response_wf_clearSessionCookies:
  assumes "loginstatus_named s" "response_wf s r rw"
  shows "response_wf s r (clearSessionCookies s r rw)"
proof -
  have 1: "response_wf s r (cookie_Clear cookie_Session (GetCookieOptsPathAware s r) rw)"
    using assms(2) by (intro response_wf_Clear(1)[where mode = SameSiteLaxMode]) simp_all
  have "response_wf s r (ls_ClearCookie (sh_loginstatus s) (sh_cookieOptions s) rw')"
    if "response_wf s r rw'" "Enabled (sh_loginstatus s)" for rw'
    unfolding ls_ClearCookie_def cookie_Clear_def Let_def
    by (intro response_wf_SetCookie ls_cookie_wf that assms(1)) (simp_all add: ls_CookieOptions_def accessor_simps)
  then show ?thesis using 1 by (simp add: clearSessionCookies_def accessor_simps ls_Enabled_def Let_def)
qed

lemma response_wf_clearLoginCookies: "response_wf s r rw \<Longrightarrow> response_wf s r (clearLoginCookies s r rw)"
  by (simp add: clearLoginCookies_def Let_def response_wf_Clear(2))

lemma response_wf_http [simp]:
  "response_wf s r (http_Redirect q u code rw) = response_wf s r rw" "response_wf s r (WriteHeader code rw) = response_wf s r rw"
  "response_wf s r (http_NotFound rw) = response_wf s r rw"
  by (auto simp: response_wf_def http_NotFound_def)

section \<open>Every route answers with well-formed cookies\<close>

lemma setLoginCookies_wf:
  assumes "setLoginCookies s r c w rw = (e, w', rw')" "response_wf s r rw"
  shows "response_wf s r rw'"
proof -
  let ?o = "Options_WithSameSite SameSiteNoneMode (Options_WithExpiresIn CookieLifetime (GetCookieOptsPathAware s r))"
  obtain e1 w1 rw1 where 1: "EncryptAndSet cookie_Login (LoginCookie_Marshal c) ?o (sh_crypter s) w rw = (e1, w1, rw1)" by (metis prod.collapse)
  have "response_wf s r rw1"
    by (rule response_wf_EncryptAndSet[OF 1 assms(2)]) (simp_all add: GetCookieOptsPathAware_def accessor_simps)
  then show ?thesis
  proof (cases e1)
    case None
    then have "EncryptAndSet cookie_LoginLegacy (LoginCookie_Marshal c) (Options_WithSameSite SameSiteDefaultMode ?o) (sh_crypter s) w1 rw1 = (e, w', rw')"
      using assms(1) 1 by (auto simp: setLoginCookies_def accessor_simps Let_def split: prod.splits option.splits)
    then show ?thesis using \<open>response_wf s r rw1\<close>
      by (rule response_wf_EncryptAndSet) (simp_all add: GetCookieOptsPathAware_def accessor_simps)
  next
    case (Some x)
    then have "rw' = rw1" using assms(1) 1 by (simp add: setLoginCookies_def accessor_simps Let_def)
    then show ?thesis using \<open>response_wf s r rw1\<close> by simp
  qed
qed

lemma Login_wf:
  assumes "Login_Handler x s r w rw = (w', rw')" "response_wf s r rw"
  shows "response_wf s r rw'"
  using assms(1)
proof (cases rule: Login_Handler_cases)
  case (refused e w1 code)
  then show ?thesis using response_wf_respondError assms(2) by blast
next
  case (unset login w1 e w2 rw2)
  then show ?thesis using response_wf_respondError setLoginCookies_wf assms(2) by blast
next
  case (redirected login w1 rw2)
  then show ?thesis using setLoginCookies_wf[OF redirected(2) assms(2)] by simp
qed

lemma LoginCallback_wf:
  assumes "LoginCallback_Handler x s r w rw = (w', rw')" "loginstatus_named s" "response_wf s r rw"
  shows "response_wf s r rw'"
proof -
  note cleared = response_wf_clearLoginCookies[OF assms(3)]
  show ?thesis using assms(1)
  proof (cases rule: LoginCallback_cases)
    case (created c cb t w1 k w2)
    obtain e w3 rw3 where st: "EncryptAndSet cookie_Session k (session_cookie_options s r) (sh_crypter s) w2 (clearLoginCookies s r rw) = (e, w3, rw3)"
      by (metis prod.collapse)
    have 3: "response_wf s r rw3"
      by (rule response_wf_EncryptAndSet[OF st cleared])
        (simp_all add: session_cookie_options_def GetCookieOptsPathAware_def accessor_simps)
    show ?thesis
    proof (cases e)
      case (Some y)
      then show ?thesis using created(7) st response_wf_respondError[OF _ 3] by simp
    next
      case None
      obtain e' w4 rw4 where ls: "loginstatus_step s t w3 rw3 = (e', w4, rw4)" by (metis prod.collapse)
      note 4 = response_wf_loginstatus_step[OF ls assms(2) 3]
      show ?thesis
      proof (cases e')
        case (Some y)
        then show ?thesis using created(7) st None ls response_wf_respondError[OF _ 4] by simp
      next
        case n: None
        have "response_wf s r (cookie_Clear cookie_Retry (GetCookieOptsPathAware s r) rw4)"
          by (rule response_wf_Clear(1)[OF 4, where mode = SameSiteLaxMode]) simp_all
        then show ?thesis using created(7) st None ls n by auto
      qed
    qed
  qed (use response_wf_respondError cleared in blast)+
qed

lemma Logout_wf:
  assumes "Logout_Handler s r global w rw = (w', rw')" "loginstatus_named s" "response_wf s r rw"
  shows "response_wf s r rw'"
  using assms(1)
proof (cases rule: Logout_cases)
  case (finished l w1 w2 idToken)
  then show ?thesis using response_wf_clearSessionCookies[OF assms(2,3)] by simp
qed (use response_wf_respondError assms(3) in blast)+

lemma LogoutFrontchannel_wf:
  assumes "LogoutFrontchannel_Handler s r w rw = (w', rw')" "loginstatus_named s" "response_wf s r rw"
  shows "response_wf s r rw'"
proof -
  note cleared = response_wf_clearSessionCookies[OF assms(2,3)]
  have "response_wf s r (cookie_Clear cookie_Retry (GetCookieOptsPathAware s r) (clearSessionCookies s r rw))"
    by (rule response_wf_Clear(1)[OF cleared, where mode = SameSiteLaxMode]) simp_all
  with assms(1) cleared show ?thesis by (cases rule: LogoutFrontchannel_cases) auto
qed

lemma Session_wf:
  assumes "Session_Handler s r w rw = (w', rw')" "response_wf s r rw"
  shows "response_wf s r rw'"
proof -
  have "SetCookies rw' = SetCookies rw"
    using assms(1) by (auto simp: Session_Handler_def accessor_simps write_metadata_def write_metadata_with_refresh_def Let_def
        split: prod.splits sum.splits if_splits)
  then show ?thesis using assms(2) by (rule response_wf_cong)
qed

lemma SessionRefresh_wf:
  assumes "Standard_SessionRefresh x s r w rw = (w', rw')" "response_wf s r rw"
  shows "response_wf s r rw'"
proof -
  have "SetCookies rw' = SetCookies rw"
    using assms(1) by (auto simp: Standard_SessionRefresh_def SessionRefresh_Handler_def accessor_simps write_metadata_with_refresh_def
        http_NotFound_def Let_def split: prod.splits sum.splits if_splits)
  then show ?thesis using assms(2) by (rule response_wf_cong)
qed

text \<open>
  C20: Every cookie is well-formed. Whatever route answers a request, and however it ends, each cookie of
  the response is hidden from scripts, as secure as the server's cookies are configured to be, and limited to the path of the
  request's ingress, or, for loginstatus, to that service's domain; a session or login cookie that is not being
  cleared holds a ciphertext that the server's crypter decrypts; and only the login cookie may be sent across sites.
\<close>

theorem cookies_wellformed:
  assumes "dispatch x s h r w = (w', Responded rw')"
    and "CookieName (sh_loginstatus s) \<notin> {cookie_Session, cookie_Login, cookie_LoginLegacy, cookie_Retry}"
  shows "\<forall>c \<in> set (SetCookies rw'). cookie_wf s r c"
proof -
  note n = assms(2)[folded loginstatus_named_def]
  have resp: "f = (w', rw')" if "respond f = (w', Responded rw')" for f
    using that by (cases f) (simp add: respond_def)
  have "response_wf s r rw'"
  proof (cases h)
    case HLogin
    then show ?thesis using assms(1) by (auto simp: dispatch_def standard_defs dest!: resp intro: Login_wf)
  next
    case HLoginCallback
    then show ?thesis using assms(1) n by (auto simp: dispatch_def standard_defs dest!: resp intro: LoginCallback_wf)
  next
    case HLogout
    then show ?thesis using assms(1) n by (auto simp: dispatch_def standard_defs dest!: resp intro: Logout_wf)
  next
    case HLogoutCallback
    have "response_wf s r (cookie_Clear cookie_Retry (GetCookieOptsPathAware s r) new_response)"
      by (rule response_wf_Clear(1)[where mode = SameSiteLaxMode]) simp_all
    then show ?thesis using assms(1) HLogoutCallback by (auto simp: dispatch_def standard_defs LogoutCallback_Handler_def Let_def)
  next
    case HLogoutFrontChannel
    then show ?thesis using assms(1) n by (auto simp: dispatch_def standard_defs dest!: resp intro: LogoutFrontchannel_wf)
  next
    case HLogoutLocal
    then show ?thesis using assms(1) n by (auto simp: dispatch_def standard_defs dest!: resp intro: Logout_wf)
  next
    case HSession
    then show ?thesis using assms(1) by (auto simp: dispatch_def standard_defs dest!: resp intro: Session_wf)
  next
    case HSessionRefresh
    then show ?thesis using assms(1) by (auto simp: dispatch_def dest!: resp intro: SessionRefresh_wf)
  next
    case HReverseProxy
    then have "ReverseProxy_Handler x s r w new_response = (w', Responded rw')" using assms(1) by (simp add: dispatch_def standard_defs)
    then show ?thesis by (cases rule: ReverseProxy_cases) auto
  qed
  then show ?thesis by (simp add: response_wf_def)
qed

end
