(* ===== verification/ServerExamples.thy ===== *)
theory ServerExamples
  imports SessionExamples ResponseCookies
begin

text \<open>
  A concrete server on the in-memory store, and requests to it, on which the properties of its routes
  and of the proxy are evaluated.
\<close>

section \<open>A server\<close>

definition example_ingress :: url where
  "example_ingress = empty_url\<lparr> Scheme := ''https'', Host := ''app.example'' \<rparr>"

definition example_server :: "memory standard_handler" where
  "example_server = \<lparr> sh_autoLogin = \<lparr> al_Enabled = True, IgnorePatterns = [] \<rparr>, sh_client = example_client, sh_config = example_config,
     sh_cookieOptions = DefaultOptions, sh_crypter = example_crypter,
     sh_ingresses = \<lparr> ingressMap = [(''https://app.example'', example_ingress)], hosts = [''app.example''], paths = [[]],
       urls = [''https://app.example''] \<rparr>,
     sh_loginstatus = cfg_Loginstatus example_config, sh_openidConfig = example_openid, sh_sessions = example_handler,
     sh_upstreamHost = ''127.0.0.1:8080'' \<rparr>"

lemma example_server_simps [simp]:
  "sh_sessions example_server = example_handler" "sh_crypter example_server = example_crypter"
  "sh_client example_server = example_client" "sh_config example_server = example_config"
  "sh_cookieOptions example_server = DefaultOptions" "sh_autoLogin example_server = \<lparr> al_Enabled = True, IgnorePatterns = [] \<rparr>"
  "paths (sh_ingresses example_server) = [[]]"
  "ingressMap (sh_ingresses example_server) = [(''https://app.example'', example_ingress)]"
  "\<not> Enabled (sh_loginstatus example_server)"
  by (simp_all add: example_server_def example_config_def)

lemma example_server_handling: "session_handling (sh_sessions example_server) (\<lambda>s. s)"
  using example_handling by simp

lemma example_server_ok: "server_ok example_server"
  by (simp add: server_ok_def example_server_def example_config_def is_duration_def duration_consts maxDuration_def
      minDuration_def cookie_Session_def cookie_Login_def cookie_LoginLegacy_def cookie_Retry_def)

text \<open>The path of a request that did not pass the middleware, or did.\<close>

lemma example_no_loginstatus [simp]: "\<not> ls_NeedsLogin (sh_loginstatus example_server) r"
  by (simp add: example_server_def example_config_def ls_NeedsLogin_def ls_Enabled_def)

lemma browser_cookies_new_response [simp]: "browser_cookies jar new_response = jar"
  by (simp add: browser_cookies_def)

section \<open>A browser with a session\<close>

text \<open>Whatever the request: if it carries this cookie, it has the example's session.\<close>

lemma example_browser:
  obtains cv e where "\<forall>r. map_of (Cookies r) cookie_Session = Some cv \<longrightarrow> GetKey example_handler r = Inr example_key"
    "Data_Decrypt example_crypter e = Inr example_data"
proof -
  obtain r0 e where r: "GetKey example_handler r0 = Inr example_key" "Data_Decrypt example_crypter e = Inr example_data"
    by (metis example_session)
  then obtain cv where "map_of (Cookies r0) cookie_Session = Some cv"
    by (auto simp: GetKey_def GetDecrypted_def cookie_Get_def Request_Cookie_def split: option.splits)
  then show thesis using that[of cv e] r by (simp add: GetKey_def GetDecrypted_def cookie_Get_def Request_Cookie_def)
qed

abbreviation session_world :: "time \<Rightarrow> EncryptedData \<Rightarrow> memory world" where
  "session_world t e \<equiv> quiet_world t [example_key \<mapsto> e]"

lemma example_get:
  assumes "GetKey example_handler r = Inr example_key" "Data_Decrypt example_crypter e = Inr example_data"
  shows "Handler_Get example_handler r (session_world t e) = (Inr example_data, (session_world t e)\<lparr> dos := 1 \<rparr>)"
  using memory_read_session[of "session_world t e" example_key e] assms by (simp add: Handler_Get_def quiet_world_def)

lemma example_access:
  assumes "GetKey example_handler r = Inr example_key" "Data_Decrypt example_crypter e = Inr example_data"
  obtains w' where "GetAccessToken example_ext example_handler r (session_world (2 * Minute) e) = (Inr ''access'', w')"
proof -
  let ?w = "session_world (2 * Minute) e"
  have g: "GetForKey example_handler example_key ?w = (Inr example_data, ?w\<lparr> dos := Suc (dos ?w) \<rparr>)"
    using assms(2) by (intro memory_read_session[of _ _ e]) simp_all
  have "\<not> ShouldRefresh (2 * Minute) (2 * Minute) (2 * Minute) (data_Metadata example_data)"
    by (simp add: ShouldRefresh_def NextRefresh_def IsRefreshOnCooldown_iff example_cooldown Time_After_def Time_Before_def
        example_data_def NewMetadata_def Time_Add_def interval_consts)
  then have "\<exists>v. shouldRefresh example_handler example_data (?w\<lparr> dos := Suc (dos ?w) \<rparr>) = (False, v) \<and> clock v = clock ?w"
    by (simp add: shouldRefresh_def time_Now_def)
  then obtain v where v: "shouldRefresh example_handler example_data (?w\<lparr> dos := Suc (dos ?w) \<rparr>) = (False, v)" "clock v = clock ?w"
    by blast
  have "GetOrRefresh example_ext example_handler r ?w = (Inr example_data, v)"
    using assms(1) g v(1) by (simp add: GetOrRefresh_def example_not_timed_out)
  then have "GetAccessToken example_ext example_handler r ?w = (Inr ''access'', v\<lparr> ticks := Suc (ticks v) \<rparr>)"
    using v(2) by (simp add: GetAccessToken_def time_Now_def HasAccessToken_def example_data_def NewMetadata_def Time_Add_def duration_consts)
  then show thesis by (rule that)
qed

section \<open>The proxy\<close>

text \<open>A request of that browser, and one without a session.\<close>

definition browsing :: "string \<Rightarrow> (string \<times> string) list \<Rightarrow> request" where
  "browsing path cookies = (example_request path [])\<lparr> Cookies := cookies \<rparr>"

lemma browsing_simps [simp]:
  "Cookies (browsing path cookies) = cookies" "ctx_AccessToken (browsing path cookies) = None" "Header (browsing path cookies) = Map.empty"
  "Path (req_URL (browsing path cookies)) = path" "ctx_Path (browsing path cookies) = Some []" "Method (browsing path cookies) = ''GET''"
  by (simp_all add: browsing_def example_request_def)

theorem proxy_token_safe_witness:
  "\<exists>r e w' q. ReverseProxy_Handler example_ext example_server r (session_world (2 * Minute) e) new_response = (w', Proxied q)
     \<and> Header (proxy_request ''upstream'' q) ''Authorization'' = Some ''Bearer access''
     \<and> (\<exists>k. GetKey example_handler r = Inr k)"
proof -
  obtain cv e where c: "\<forall>r. map_of (Cookies r) cookie_Session = Some cv \<longrightarrow> GetKey example_handler r = Inr example_key"
      and d: "Data_Decrypt example_crypter e = Inr example_data"
    by (rule example_browser)
  let ?r = "browsing ''/'' [(cookie_Session, cv)]"
  have b: "GetKey example_handler ?r = Inr example_key" using c by simp
  obtain w' where a: "GetAccessToken example_ext example_handler ?r (session_world (2 * Minute) e) = (Inr ''access'', w')"
    using example_access[OF b d] .
  have p: "ReverseProxy_Handler example_ext example_server ?r (session_world (2 * Minute) e) new_response
      = (w', Proxied (WithAccessToken ?r ''access''))"
    using a by (simp add: ReverseProxy_Handler_def isAuthenticated_def accessor_simps AutoLogin_NeedsLogin_def)
  have h: "Header (proxy_request ''upstream'' (WithAccessToken ?r ''access'')) ''Authorization'' = Some ''Bearer access''"
    by (simp add: proxy_request_Authorization connection_headers_def WithAccessToken_def)
  have "\<exists>k. GetKey example_handler ?r = Inr k" using proxy_token_safe[OF example_server_handling p _ h] by auto
  then show ?thesis using p h by blast
qed


theorem connection_header_drops_token_witness:
  "\<exists>r e w' q. ReverseProxy_Handler example_ext example_server r (session_world (2 * Minute) e) new_response = (w', Proxied q)
     \<and> GetKey example_handler r = Inr example_key \<and> Header (proxy_request ''upstream'' q) ''Authorization'' = None"
proof -
  obtain cv e where c: "\<forall>r. map_of (Cookies r) cookie_Session = Some cv \<longrightarrow> GetKey example_handler r = Inr example_key"
      and d: "Data_Decrypt example_crypter e = Inr example_data"
    by (rule example_browser)
  let ?r = "(browsing ''/'' [(cookie_Session, cv)])\<lparr> Header := [''Connection'' \<mapsto> ''authorization''] \<rparr>"
  have b: "GetKey example_handler ?r = Inr example_key" using c by simp
  obtain w' where a: "GetAccessToken example_ext (sh_sessions example_server) ?r (session_world (2 * Minute) e) = (Inr ''access'', w')"
    using example_access[OF b d] by auto
  have "Header ?r ''Connection'' = Some ''authorization''" by simp
  from connection_header_drops_token[OF a example_no_loginstatus this] show ?thesis using b by blast
qed


section \<open>Logging out\<close>

lemma example_destroy:
  "\<exists>w'. DestroyForID example_handler ''sid-1'' ((session_world t e)\<lparr> dos := n \<rparr>) = (None, w')"
  by (simp add: DestroyForID_def destroyForKey_def retry_Do_def delete_attempt_def memory_store_def memory_Delete_def
      example_key_def)

lemma example_NewLogout: "\<exists>l. NewLogout (browsing path cookies) = Inr l"
  by (auto simp: NewLogout_def LogoutCallbackURL_def makeCallbackURL_def browsing_def example_request_def accessor_simps)

lemma example_external_id [simp]: "ExternalSessionID example_data = ''sid-1''"
  by (simp add: example_data_def)

theorem logout_correct_witness:
  "\<exists>r e w' rw'. GetKey example_handler r = Inr example_key
     \<and> Logout_Handler example_server r True (session_world 0 e) new_response = (w', rw')
     \<and> map_of (browser_cookies (Cookies r) rw') cookie_Session = None \<and> Status rw' = Some 307"
proof -
  obtain cv e where c: "\<forall>r. map_of (Cookies r) cookie_Session = Some cv \<longrightarrow> GetKey example_handler r = Inr example_key"
      and d: "Data_Decrypt example_crypter e = Inr example_data"
    by (rule example_browser)
  let ?r = "browsing ''/oauth2/logout'' [(cookie_Session, cv)]"
  have b: "GetKey (sh_sessions example_server) ?r = Inr example_key" using c by simp
  obtain w' rw' where l: "Logout_Handler example_server ?r True (session_world 0 e) new_response = (w', rw')" by fastforce
  have rw': "map_of (browser_cookies [] rw') cookie_Retry = None \<and> Status rw' = Some 307" using l
  proof (cases rule: Logout_cases)
    case (no_callback e')
    then show ?thesis using example_NewLogout by (metis Inl_Inr_False)
  next
    case (kept l' d' w1 e' w2)
    then show ?thesis using example_get[OF _ d, of ?r] b example_destroy[of 1 0 e] by auto
  next
    case (finished l' w1 w2 idToken)
    then show ?thesis by (simp add: clearSessionCookies_def accessor_simps ls_Enabled_def)
  qed
  have s: "Status new_response = None" "store (session_world 0 e) example_key = Some e" by simp_all
  have d': "Data_Decrypt (sh_crypter example_server) e = Inr example_data" using d by simp
  have "example_key = Key (sh_sessions example_server) (ExternalSessionID example_data)" by (simp add: example_key_def)
  from logout_correct[OF example_server_handling l s(1) example_server_ok conjunct1[OF rw'] b s(2) d' this, of "Cookies ?r"]
  have "map_of (browser_cookies (Cookies ?r) rw') cookie_Session = None" by (rule conjunct1)
  with rw' l b show ?thesis
    by (intro exI[of _ ?r] exI[of _ e] exI[of _ w'] exI[of _ rw'] conjI) simp_all
qed

theorem failed_logout_keeps_session_cookie_witness:
  "\<forall>jar. \<exists>w' rw'. Logout_Handler example_server ((browsing ''/oauth2/logout'' [])\<lparr> ctx_Ingress := None \<rparr>) True
       (quiet_world 0 Map.empty) new_response = (w', rw') \<and> map_of (browser_cookies jar rw') cookie_Session = map_of jar cookie_Session"
proof
  fix jar
  let ?r = "(browsing ''/oauth2/logout'' [])\<lparr> ctx_Ingress := None \<rparr>" and ?w = "quiet_world 0 Map.empty :: memory world"
  obtain w' rw' where l: "Logout_Handler example_server ?r True ?w new_response = (w', rw')" by fastforce
  have s: "Status new_response = None" "SetCookies new_response = []" by simp_all
  have n: "NewLogout ?r = Inl (ErrOther ''request host does not match any configured ingresses'')"
    by (simp add: NewLogout_def LogoutCallbackURL_def makeCallbackURL_def accessor_simps)
  from l n have "respondError example_server ?r 500 ?w new_response = (w', rw')"
    by (cases rule: Logout_cases) simp_all
  from respondError_effect(3)[OF this s(1), of "[]"] have "map_of (browser_cookies [] rw') cookie_Retry \<noteq> None" by auto
  from failed_logout_keeps_session_cookie[OF example_server_handling l s(1) example_server_ok s(2) this] l
  show "\<exists>w' rw'. Logout_Handler example_server ?r True ?w new_response = (w', rw')
      \<and> map_of (browser_cookies jar rw') cookie_Session = map_of jar cookie_Session" by blast
qed

theorem frontchannel_logout_correct_witness:
  "\<exists>w' rw'. LogoutFrontchannel_Handler example_server (example_request ''/oauth2/logout/frontchannel'' ''sid=sid-2'')
       (quiet_world 0 Map.empty) new_response = (w', rw') \<and> Status rw' = Some 202"
proof -
  let ?r = "example_request ''/oauth2/logout/frontchannel'' ''sid=sid-2''" and ?w = "quiet_world 0 Map.empty :: memory world"
  obtain w' rw' where l: "LogoutFrontchannel_Handler example_server ?r ?w new_response = (w', rw')" by fastforce
  have "Status new_response = None" by simp
  from frontchannel_logout_correct[OF example_server_handling l this] show ?thesis using l by auto
qed

section \<open>The session routes\<close>

theorem session_route_correct_witness:
  "\<exists>w' rw'. Session_Handler example_server (browsing ''/oauth2/session'' []) (quiet_world 0 Map.empty) new_response = (w', rw')
     \<and> Status rw' = Some 401"
proof -
  obtain w' rw' where l: "Session_Handler example_server (browsing ''/oauth2/session'' []) (quiet_world 0 Map.empty) new_response = (w', rw')"
    by fastforce
  have "\<exists>e. GetKey (sh_sessions example_server) (browsing ''/oauth2/session'' []) = Inl e"
    by (simp add: GetKey_def GetDecrypted_def cookie_Get_def Request_Cookie_def)
  then show ?thesis using session_route_correct[OF example_server_handling example_server_ok l] l by blast
qed

theorem session_refresh_route_correct_witness:
  "\<exists>w' rw'. SessionRefresh_Handler example_ext example_server (browsing ''/oauth2/session/refresh'' []) (quiet_world 0 Map.empty) new_response
     = (w', rw') \<and> Status rw' = Some 401"
proof -
  obtain w' rw' where l: "SessionRefresh_Handler example_ext example_server (browsing ''/oauth2/session/refresh'' [])
      (quiet_world 0 Map.empty) new_response = (w', rw')"
    by fastforce
  have "\<exists>e. GetKey (sh_sessions example_server) (browsing ''/oauth2/session/refresh'' []) = Inl e"
    by (simp add: GetKey_def GetDecrypted_def cookie_Get_def Request_Cookie_def)
  then show ?thesis using session_refresh_route_correct[OF example_server_handling l] l by blast
qed

section \<open>An inactive session\<close>

definition stale_data :: Data where
  "stale_data = example_data\<lparr> data_Metadata := (data_Metadata example_data)
     \<lparr> md_Session := (md_Session (data_Metadata example_data))\<lparr> TimeoutAt := 30 * Minute \<rparr> \<rparr> \<rparr>"

lemma stale_data_simps [simp]:
  "TimeoutAt (md_Session (data_Metadata stale_data)) = 30 * Minute" "RefreshToken stale_data = ''refresh''"
  "RefreshCooldown (data_Metadata stale_data) = Minute"
  using example_cooldown by (simp_all add: stale_data_def example_data_def RefreshCooldown_def TokenLifetime_def NewMetadata_def)

theorem inactive_session_refresh_fails_witness:
  "\<exists>r e w' rw'. SessionRefresh_Handler example_ext example_server r (session_world Hour e) new_response = (w', rw')
     \<and> GetKey example_handler r = Inr example_key \<and> Status rw' = Some 500"
proof -
  obtain cv e0 where c: "\<forall>r. map_of (Cookies r) cookie_Session = Some cv \<longrightarrow> GetKey example_handler r = Inr example_key"
      and "Data_Decrypt example_crypter e0 = Inr example_data"
    by (rule example_browser)
  have "marshallable (data_Metadata stale_data)"
    by (simp add: stale_data_def example_data_def marshallable_def NewMetadata_def Time_Add_def duration_consts day_ns_def)
  then obtain e v where e: "Data_Encrypt example_crypter stale_data (quiet_world 0 ()) = (Inr e, v)"
    using Data_Encrypt_total[OF example_crypter_ok, of "quiet_world 0 ()"] by auto
  have "valid_Data stale_data" using example_data_valid(1) by (simp add: stale_data_def valid_Data_def)
  then have d: "Data_Decrypt (sh_crypter example_server) e = Inr stale_data" using session_data.unseal_seal[OF e] by simp
  let ?r = "browsing ''/oauth2/session/refresh'' [(cookie_Session, cv)]" and ?w = "session_world Hour e"
  have k: "GetKey (sh_sessions example_server) ?r = Inr example_key" using c by simp
  obtain w' rw' where l: "SessionRefresh_Handler example_ext example_server ?r ?w new_response = (w', rw')" by fastforce
  have st: "store ?w example_key = Some e" by simp
  have "Status rw' = Some 500"
    by (rule inactive_session_refresh_fails[OF example_server_handling example_server_ok l k st d])
      (auto simp: duration_consts acquire_lock_def memory_store_def NoOpLock_Acquire_def same_env_def)
  then show ?thesis using l k by auto
qed

section \<open>Logging in\<close>

lemma example_set_login_cookies:
  assumes "\<And>n. entropy_ok w n" "Status rw = None"
  obtains w' rw' where "setLoginCookies example_server r c w rw = (None, w', rw')"
    "map_of (browser_cookies [] rw') cookie_Retry = map_of (browser_cookies [] rw) cookie_Retry"
proof -
  let ?o = "Options_WithSameSite SameSiteNoneMode (Options_WithExpiresIn CookieLifetime (GetCookieOptsPathAware example_server r))"
  let ?o' = "Options_WithSameSite SameSiteDefaultMode ?o"
  have o: "0 \<le> ExpiresIn ?o" "is_duration (ExpiresIn ?o)" "0 \<le> ExpiresIn ?o'" "is_duration (ExpiresIn ?o')"
    by (simp_all add: accessor_simps CookieLifetime_def Hour_def Minute_def Second_def is_duration_def minDuration_def maxDuration_def)
  obtain w1 rw1 where 1: "EncryptAndSet cookie_Login (LoginCookie_Marshal c) ?o example_crypter w rw = (None, w1, rw1)"
    using EncryptAndSet_total[OF example_crypter_ok assms(1)] .
  have "entropy_ok w1 (draws w1)" using EncryptAndSet_env[OF 1] assms(1) by (simp add: same_env_def)
  then obtain w2 rw2 where 2: "EncryptAndSet cookie_LoginLegacy (LoginCookie_Marshal c) ?o' example_crypter w1 rw1 = (None, w2, rw2)"
    using EncryptAndSet_total[OF example_crypter_ok] by metis
  have "setLoginCookies example_server r c w rw = (None, w2, rw2)"
    using 1 2 by (simp add: setLoginCookies_def accessor_simps Let_def)
  moreover have "map_of (browser_cookies [] rw2) cookie_Retry = map_of (browser_cookies [] rw) cookie_Retry"
    by (rule EncryptAndSet_jar[OF 1 assms(2) o(1,2), of "[]"], rule EncryptAndSet_jar[OF 2 _ o(3,4), of "[]"]) simp_all
  ultimately show thesis by (rule that)
qed

lemma example_login_response:
  obtains w' rw' where "Login_Handler example_ext example_server (example_request ''/oauth2/login'' []) (quiet_world t s) new_response = (w', rw')"
    "map_of (browser_cookies [] rw') cookie_Retry = None"
proof -
  let ?r = "example_request ''/oauth2/login'' []"
  obtain l w1 where l: "NewLogin example_ext example_client ?r (quiet_world t s) = (Inr l, w1)" by (rule example_login)
  have e: "\<And>n. entropy_ok w1 n" using NewLogin_env[OF l] by (simp add: same_env_def)
  obtain w2 rw2 where c: "setLoginCookies example_server ?r (login_cookie l) w1 new_response = (None, w2, rw2)"
      "map_of (browser_cookies [] rw2) cookie_Retry = None"
    by (rule example_set_login_cookies[where rw = new_response, OF e]) auto
  have "Login_Handler example_ext example_server ?r (quiet_world t s) new_response = (w2, http_Redirect ?r (authCodeURL l) 307 rw2)"
    using l c(1) by (simp add: Login_Handler_def Client_Login_def accessor_simps)
  then show thesis by (rule that) (simp add: c(2))
qed

theorem login_then_callback_witness:
  "\<exists>w' rw' (login :: Login). Login_Handler example_ext example_server (example_request ''/oauth2/login'' []) (quiet_world 0 Map.empty) new_response = (w', rw')
     \<and> GetLoginCookie (browsing ''/oauth2/callback'' (browser_cookies [] rw')) example_crypter = Inr (login_cookie login)
     \<and> Status rw' = Some 307"
proof -
  let ?r = "example_request ''/oauth2/login'' []" and ?w = "quiet_world 0 Map.empty :: memory world"
  obtain w' rw' where l: "Login_Handler example_ext example_server ?r ?w new_response = (w', rw')"
      "map_of (browser_cookies [] rw') cookie_Retry = None" by (rule example_login_response)
  have st: "Status new_response = None" by simp
  have c: "Cookies (browsing ''/oauth2/callback'' (browser_cookies [] rw')) = browser_cookies [] rw'" by simp
  have v: "valid_utf8 (CanonicalRedirect ?r)" by code_simp
  have "valid_utf8 ''https://app.example/oauth2/callback''" by code_simp
  then have u: "\<forall>u. LoginCallbackURL ?r = Inr u \<longrightarrow> valid_utf8 u" by (simp add: example_callback_url)
  obtain login :: Login where "Status rw' = Some 307"
      "GetLoginCookie (browsing ''/oauth2/callback'' (browser_cookies [] rw')) (sh_crypter example_server) = Inr (login_cookie login)"
    using login_then_callback[OF l(1) st l(2) c v u] by blast
  with l(1) show ?thesis by (intro exI[of _ w'] exI[of _ rw'] exI[of _ login]) simp
qed

section \<open>Logging in, the callback\<close>

lemma example_login_cookie:
  obtains cv where "\<forall>r. map_of (Cookies r) cookie_Login = Some cv \<longrightarrow> GetLoginCookie r example_crypter = Inr (cb_cookie example_callback)"
proof -
  obtain ct w' where "Crypter_Encrypt example_crypter (LoginCookie_Marshal (cb_cookie example_callback)) (quiet_world 0 ()) = (Inr ct, w')"
    using Crypter_Encrypt_total[OF example_crypter_ok, of "quiet_world 0 ()"] by auto
  from aes_gcm.Decrypt_Encrypt[OF this] have "Cookie_Decrypt example_crypter (EncodeToString StdEncoding ct) = Inr (LoginCookie_Marshal (cb_cookie example_callback))"
    by (simp add: Cookie_Decrypt_def)
  moreover have "valid_LoginCookie (cb_cookie example_callback)" by code_simp
  ultimately show thesis using that GetLoginCookie_jar by blast
qed

definition returning :: "string \<Rightarrow> request" where
  "returning cv = (example_request ''/oauth2/callback'' ''code=code&state=state'')\<lparr> Cookies := [(cookie_Login, cv)] \<rparr>"

lemma returning_query: "req_Query (returning cv) = cb_requestParams example_callback"
proof -
  have "ParseQuery ''code=code&state=state'' = cb_requestParams example_callback" by code_simp
  then show ?thesis by (simp add: returning_def example_request_def req_Query_def URL_Query_def)
qed

lemma example_callback_accepted:
  assumes "req_Query r = cb_requestParams example_callback"
  shows "NewLoginCallback r (Some (cb_cookie example_callback)) = Inr example_callback"
    "IdentityProviderError example_callback = None" "StateMismatchError example_callback = None"
  using assms by (simp_all add: NewLoginCallback_def example_callback_def IdentityProviderError_def StateMismatchError_def Values_Get_def)

text \<open>The whole callback, on the example's server: a session is stored and its cookie set.\<close>

lemma example_callback_response:
  assumes "GetLoginCookie r example_crypter = Inr (cb_cookie example_callback)" "req_Query r = cb_requestParams example_callback"
    and "clock w = (\<lambda>_. 0)" "\<And>n. entropy_ok w n" "\<And>n. backoffs w n = Stop"
  obtains w' rw' where "LoginCallback_Handler example_ext example_server r w new_response = (w', rw')"
    "map_of (browser_cookies [] rw') cookie_Retry = None" "map_of (browser_cookies [] rw') cookie_Session \<noteq> None"
    "store w' example_key \<noteq> None"
proof -
  note accepted = example_callback_accepted[OF assms(2)]
  obtain t w1 where t: "RedeemTokens example_ext example_client example_callback (w\<lparr> dos := Suc (dos w) \<rparr>) = (Inr t, w1)"
      "tk_Expiry t = Hour" "GetSidClaim (tk_IDToken t) = Inr ''sid-1''" by (rule example_redeem)
  have rt: "redeemValidTokens example_ext example_client example_callback w = (Inr t, w1)"
    unfolding redeemValidTokens_def by (rule retry_Do_Stop) (simp_all add: assms(5) redeem_attempt_def t(1))
  have w1: "clock w1 = (\<lambda>_. 0)" "\<And>n. entropy_ok w1 n" "\<And>n. backoffs w1 n = Stop"
    using RedeemTokens_env[OF t(1)] assms(3-5) by (simp_all add: same_env_def)
  obtain w2 where c: "Handler_Create example_handler r t Hour w1 = (Inr example_key, w2)"
    using example_create[OF t(3,2) _ w1, of Hour] by auto
  obtain e where created: "store w2 = (store w1)(example_key \<mapsto> e)" "same_env w1 w2"
    using session_handling.Create_Ok[OF example_handling c] by metis
  have e2: "entropy_ok w2 (draws w2)" using created(2) w1(2) by (simp add: same_env_def)
  let ?rw = "clearLoginCookies example_server r new_response"
  obtain w3 rw3 where s: "EncryptAndSet cookie_Session example_key (session_cookie_options example_server r) example_crypter w2 ?rw
      = (None, w3, rw3)"
    using EncryptAndSet_total[OF example_crypter_ok e2] .
  have o: "0 \<le> ExpiresIn (session_cookie_options example_server r)" "is_duration (ExpiresIn (session_cookie_options example_server r))"
    using example_server_ok by (simp_all add: session_cookie_options_def accessor_simps server_ok_def)
  have life: "MaxLifetime (cfg_Session example_config) = Hour" by (simp add: example_config_def)
  let ?w' = "w3\<lparr> logins := Suc (logins w3) \<rparr>"
  let ?rw' = "http_Redirect r (lc_Referer (cb_cookie example_callback)) 307
      (cookie_Clear cookie_Retry (GetCookieOptsPathAware example_server r) rw3)"
  have "LoginCallback_Handler example_ext example_server r w new_response = (?w', ?rw')"
    using assms(1) accepted rt c s
    by (simp add: LoginCallback_Handler_def accessor_simps session_cookie_options_def loginstatus_step_def ls_Enabled_def life Let_def)
  moreover have "Status ?rw = None" by (simp add: clearLoginCookies_def Let_def)
  then obtain cv where "map_of (browser_cookies [] rw3) cookie_Session = Some cv" "Status rw3 = None"
    using EncryptAndSet_jar[OF s _ o, of "[]"] by metis
  then have "map_of (browser_cookies [] ?rw') cookie_Retry = None" "map_of (browser_cookies [] ?rw') cookie_Session \<noteq> None" by simp_all
  moreover have "store ?w' example_key \<noteq> None" using created(1) EncryptAndSet_env[OF s] by simp
  ultimately show thesis by (rule that)
qed

theorem callback_safe_witness:
  "\<exists>cv w' rw'. LoginCallback_Handler example_ext example_server (returning cv) (quiet_world 0 Map.empty) new_response = (w', rw')
     \<and> map_of (browser_cookies [] rw') cookie_Session \<noteq> None
     \<and> (\<exists>c. GetLoginCookie (returning cv) example_crypter = Inr c \<and> lc_State c = ''state'')"
proof -
  obtain cv where g: "\<forall>r. map_of (Cookies r) cookie_Login = Some cv \<longrightarrow> GetLoginCookie r example_crypter = Inr (cb_cookie example_callback)"
    by (rule example_login_cookie)
  let ?r = "returning cv" and ?w = "quiet_world 0 Map.empty :: memory world"
  have r: "GetLoginCookie ?r example_crypter = Inr (cb_cookie example_callback)" using g by (simp add: returning_def)
  obtain w' rw' where c: "LoginCallback_Handler example_ext example_server ?r ?w new_response = (w', rw')"
      "map_of (browser_cookies [] rw') cookie_Session \<noteq> None"
    by (rule example_callback_response[OF r returning_query, of ?w]) (simp_all add: quiet_world_def)
  have st: "Status new_response = None" by simp
  have "store w' \<noteq> store ?w \<or>
      map_of (browser_cookies [] rw') cookie_Session \<noteq> map_of (browser_cookies [] new_response) cookie_Session"
    using c(2) by simp
  note safe = callback_safe[where contents = "\<lambda>s. s" and jar = "[]", OF example_server_handling c(1) st this]
  have "\<exists>c. GetLoginCookie ?r example_crypter = Inr c \<and> Values_Get (req_Query ?r) ''state'' = lc_State c"
    using safe unfolding example_server_simps by blast
  then have "\<exists>c. GetLoginCookie ?r example_crypter = Inr c \<and> lc_State c = ''state''"
    by (auto simp: returning_query example_callback_def Values_Get_def)
  then show ?thesis using c by blast
qed

theorem callback_creates_session_witness:
  "\<exists>cv w' rw'. LoginCallback_Handler example_ext example_server (returning cv) (quiet_world 0 Map.empty) new_response = (w', rw')
     \<and> Status rw' = Some 307 \<and> (\<exists>k. GetKey example_handler (browsing ''/'' (browser_cookies [(cookie_Login, cv)] rw')) = Inr k)
     \<and> map_of (browser_cookies [(cookie_Login, cv)] rw') cookie_Login = None"
proof -
  obtain cv where g: "\<forall>r. map_of (Cookies r) cookie_Login = Some cv \<longrightarrow> GetLoginCookie r example_crypter = Inr (cb_cookie example_callback)"
    by (rule example_login_cookie)
  let ?r = "returning cv" and ?w = "quiet_world 0 Map.empty :: memory world"
  have r: "GetLoginCookie ?r example_crypter = Inr (cb_cookie example_callback)" using g by (simp add: returning_def)
  obtain w' rw' where c: "LoginCallback_Handler example_ext example_server ?r ?w new_response = (w', rw')"
      "map_of (browser_cookies [] rw') cookie_Retry = None"
    by (rule example_callback_response[OF r returning_query, of ?w]) (simp_all add: quiet_world_def)
  have st: "Status new_response = None" by simp
  have b: "Cookies (browsing ''/'' (browser_cookies [(cookie_Login, cv)] rw')) = browser_cookies [(cookie_Login, cv)] rw'" by simp
  note created = callback_creates_session[OF example_server_handling c(1) st example_server_ok c(2) b]
  have "Status rw' = Some 307" "map_of (browser_cookies [(cookie_Login, cv)] rw') cookie_Login = None"
    "\<exists>k. GetKey example_handler (browsing ''/'' (browser_cookies [(cookie_Login, cv)] rw')) = Inr k"
    using created unfolding example_server_simps b by blast+
  then show ?thesis using c(1) by blast
qed

section \<open>Errors\<close>


theorem retry_keeps_target_witness:
  "RedirectDecoded (example_request ''/oauth2/login''
       (cut_after (CHR ''?'') (Retry example_server (browsing ''/oauth2/callback'' []) (Some (cb_cookie example_callback))))) = ''/''"
proof -
  let ?q = "cut_after (CHR ''?'') (Retry example_server (browsing ''/oauth2/callback'' []) (Some (cb_cookie example_callback)))"
  have q: "RawQuery (req_URL (example_request ''/oauth2/login'' ?q)) = ?q" by (simp add: example_request_def)
  have "\<not> HasSuffix (Path (req_URL (browsing ''/oauth2/callback'' []))) ''/oauth2/logout''"
    "\<not> HasSuffix (Path (req_URL (browsing ''/oauth2/callback'' []))) ''/oauth2/logout/frontchannel''"
    unfolding browsing_simps by code_simp+
  from retry_keeps_target[OF q this] show ?thesis by (simp add: example_callback_def)
qed

section \<open>Set-up and routing\<close>

definition example_chi :: router where
  "example_chi table r =
     (case find (\<lambda>(m, p, h). m = Method r \<and> p = Path (req_URL r)) table of
        Some (m, p, h) \<Rightarrow> Inl h
      | None \<Rightarrow> if HasPrefix (Path (req_URL r)) ''/oauth2'' then Inr 404 else Inl HReverseProxy)"

lemma example_chi_ok: "chi_ok example_chi [[]]"
proof -
  have "example_chi (route_table [[]]) r = Inl h"
    if "(m, p, h) \<in> set (concat (map prefix_routes [[]]))" "Method r = m" "Path (req_URL r) = p" for r m p h
  proof -
    have "list_all (\<lambda>(m, p, h). find (\<lambda>(m', p', h'). m' = m \<and> p' = p) (route_table [[]]) = Some (m, p, h))
        (concat (map prefix_routes [[]]))" by code_simp
    then have "find (\<lambda>(m', p', h'). m' = Method r \<and> p' = Path (req_URL r)) (route_table [[]]) = Some (m, p, h)"
      using that unfolding list_all_iff by fastforce
    then show ?thesis by (simp add: example_chi_def)
  qed
  moreover have "example_chi (route_table [[]]) r = Inl HReverseProxy"
    if "\<not> HasPrefix (Path (req_URL r)) ''/oauth2''" for r
  proof (cases "find (\<lambda>(m, p, h). m = Method r \<and> p = Path (req_URL r)) (route_table [[]])")
    case None
    then show ?thesis using that by (simp add: example_chi_def)
  next
    case (Some e)
    have find_in: "find P xs = Some y \<Longrightarrow> y \<in> set xs \<and> P y" for P y and xs :: "route list"
      by (induction xs) (auto split: if_splits)
    have "e \<in> set (route_table [[]])" "fst (snd e) = Path (req_URL r)"
      using find_in[OF Some] by (auto split: prod.splits)
    moreover obtain m p h where e: "e = (m, p, h)" by (cases e)
    moreover have "list_all (\<lambda>(m, p, h). HasPrefix p ''/oauth2'' \<or> h = HReverseProxy) (route_table [[]])" by code_simp
    ultimately have "snd (snd e) = HReverseProxy" using that unfolding list_all_iff by (fastforce simp: e)
    then show ?thesis using Some by (simp add: example_chi_def e)
  qed
  ultimately show ?thesis unfolding chi_ok_def paths_OAuth2_def by simp blast
qed


definition setup_world :: "memory world" where
  "setup_world = (quiet_world 0 Map.empty)\<lparr> remote := (\<lambda>_ _. Inr \<lparr> in_status = 200, in_body = Inr example_discovery \<rparr>) \<rparr>"

lemma example_setup:
  obtains s w' where "run_setup example_ext Inr (\<lambda>m. m) example_config (Inr memory_store) setup_world = (Inr s, w')"
proof -
  let ?w = setup_world
  obtain k w1 where k: "EncryptionKeyOrGenerate (EncryptionKey example_config) ?w = (Inr k, w1)" "remote w1 = remote ?w"
    by (auto simp: setup_world_def EncryptionKeyOrGenerate_def example_config_def rand_Read_def DecodeString_def split: sum.splits)
  have "Parse [] = Inr empty_url" by code_simp
  moreover have "pm_EndSessionEndpoint empty_metadata = []" by (simp add: empty_metadata_def)
  ultimately obtain oc w2 where c: "NewConfig Inr example_config w1 = (Inr oc, w2)"
    using k(2) by (simp add: setup_world_def NewConfig_def NewClientConfig_def NewProviderConfig_def http_Do_def example_discovery_decodes
        example_config_def ClientID_def WellKnownURL_def ProviderAzure_def ProviderIDPorten_def Let_def)
  obtain w3 where j: "NewJwksProvider example_ext oc w2 = (Inr (Provider oc), w3)"
    by (simp add: NewJwksProvider_def example_ext_def Let_def)
  have "case ParseIngresses (\<lambda>m. m) example_config of Inl e \<Rightarrow> False | Inr _ \<Rightarrow> True" by code_simp
  then obtain ings where "ParseIngresses (\<lambda>m. m) example_config = Inr ings"
    by (cases "ParseIngresses (\<lambda>m. m) example_config") auto
  moreover have "\<exists>a. AutoLogin_New example_config = Inr a" by (simp add: AutoLogin_New_def example_config_def)
  ultimately obtain s where "run_setup example_ext Inr (\<lambda>m. m) example_config (Inr memory_store) ?w = (Inr s, w3)"
    using k c j by (auto simp: run_setup_def NewHandler_def session_NewHandler_def Let_def)
  then show thesis by (rule that)
qed

theorem setup_correct_witness:
  "\<exists>s w'. run_setup example_ext Inr (\<lambda>m. m) example_config (Inr memory_store) setup_world = (Inr s, w')
     \<and> h_crypter (sh_sessions s) = sh_crypter s \<and> Ingresses example_config \<noteq> []"
proof -
  obtain s w' where "run_setup example_ext Inr (\<lambda>m. m) example_config (Inr memory_store) setup_world = (Inr s, w')"
    by (rule example_setup)
  from setup_correct[OF this] this show ?thesis by blast
qed

theorem cookies_wellformed_witness:
  "\<exists>w' rw' c. dispatch example_ext example_server HLogoutCallback (browsing ''/oauth2/logout/callback'' []) (quiet_world 0 Map.empty)
       = (w', Responded rw') \<and> SetCookies rw' = [c] \<and> ck_HttpOnly c \<and> ck_Path c = ''/''"
proof -
  let ?r = "browsing ''/oauth2/logout/callback'' []"
  let ?rw = "LogoutCallback_Handler example_server ?r new_response"
  have d: "dispatch example_ext example_server HLogoutCallback ?r (quiet_world 0 Map.empty) = (quiet_world 0 Map.empty, Responded ?rw)"
    by (simp add: dispatch_def standard_defs)
  have "CookieName (sh_loginstatus example_server) \<notin> {cookie_Session, cookie_Login, cookie_LoginLegacy, cookie_Retry}"
    by (simp add: example_server_def example_config_def cookie_Session_def cookie_Login_def cookie_LoginLegacy_def cookie_Retry_def)
  from cookies_wellformed[OF d this] have "\<forall>c \<in> set (SetCookies ?rw). cookie_wf example_server ?r c" .
  moreover obtain c where c: "SetCookies ?rw = [c]" "ck_Name c = cookie_Retry"
    by (simp add: LogoutCallback_Handler_def Let_def cookie_Clear_def)
  ultimately have "cookie_wf example_server ?r c" by simp
  then have "ck_HttpOnly c" "ck_Path c = ''/''" using c(2)
    by (simp_all add: cookie_wf_def cookie_path_def GetPath_def browsing_def example_request_def accessor_simps)
  then show ?thesis using d c(1) by blast
qed

end
