(* ===== verification/SessionInvariant.thy ===== *)
theory SessionInvariant
  imports Server
begin

text \<open>
  Where the sessions in the store come from. Whatever requests are served, by any number of instances
  that share the store, every session in it is the program's own encryption of data whose ID token was
  redeemed and validated in a login, stored under the key of that ID token's session.
\<close>

section \<open>Strings that have been through JSON\<close>

lemma valid_utf8_size: "utf8_size (p @ u) = length p \<Longrightarrow> p \<noteq> [] \<Longrightarrow> valid_utf8 (p @ u) \<longleftrightarrow> valid_utf8 u"
  by (cases p) auto

lemma unquote_bad: "json_unquote (CHR 0x5C # ''ufffd'' @ t) = rune_bad @ json_unquote t"
proof -
  have h: "ishex (CHR ''f'')" "ishex (CHR ''d'')" "unhex (CHR ''f'') = 15" "unhex (CHR ''d'') = 13"
    by (simp_all add: ishex_def unhex_def is_digit_def byte_val_def)
  have "val_byte 239 = CHR 0xEF" "val_byte 191 = CHR 0xBF" "val_byte 189 = CHR 0xBD"
    using val_byte_inverse[of "CHR 0xEF"] val_byte_inverse[of "CHR 0xBF"] val_byte_inverse[of "CHR 0xBD"]
    by (simp_all add: byte_val_def)
  then have "EncodeRune 65533 = rune_bad" by (simp add: EncodeRune_def rune_bad_def)
  then show ?thesis using getu4_u[OF h(1,1,1,2), of t] by (simp add: unicode_escape_def h)
qed

lemma valid_through_json: "valid_utf8 (json_unquote (json_escape s))"
proof (induction s rule: json_escape.induct)
  case (2 c s)
  define n where "n = utf8_size (c # s)"
  consider "n = 0" | "n = 1" | "1 < n" by linarith
  then show ?case
  proof cases
    case 1
    have "utf8_size (rune_bad @ u) = length rune_bad" for u
      by (simp add: utf8_size_def rune_bad_def Let_def cont_byte_def byte_val_def)
    then show ?thesis using 1 "2.IH"(1)[OF n_def] valid_utf8_size[of rune_bad] unquote_bad
      by (simp add: n_def[symmetric] rune_bad_def del: json_unquote.simps valid_utf8.simps)
  next
    case 2
    then have c: "byte_val c < 128" using utf8_size_ascii n_def by simp
    then have "utf8_size ([c] @ u) = length [c]" for u using utf8_size_ascii[of c u] by simp
    then show ?thesis using 2 "2.IH"(2)[OF n_def] valid_utf8_size[of "[c]"] unquote_escape_ascii[OF c]
      by (simp add: n_def[symmetric] del: json_unquote.simps valid_utf8.simps)
  next
    case 3
    have l: "length (take n (c # s)) = n" using utf8_size_length[of "c # s"] n_def by simp
    have "utf8_size (take n (c # s) @ u) = length (take n (c # s))" for u
      using utf8_size_take[of "c # s" n u] 3 n_def l by simp
    then have "valid_utf8 (take n (c # s) @ json_unquote (json_escape (drop (n - 1) s)))"
      using valid_utf8_size[of "take n (c # s)"] "2.IH"(3)[OF n_def] 3 l by (simp del: valid_utf8.simps)
    moreover have "json_unquote (json_escape (c # s)) = take n (c # s) @ json_unquote (json_escape (drop (n - 1) s))"
      using unquote_escape_multi[OF n_def[symmetric] 3] 3 by (simp add: n_def[symmetric] del: json_unquote.simps)
    ultimately show ?thesis by simp
  qed
qed simp

lemma through_json_idem [simp]: "through_json (through_json s) = through_json s"
  by (rule through_json_valid) (simp add: through_json_def valid_through_json)

section \<open>Relying on the others\<close>

text \<open>
  While a request waits for the lock, other requests change the store. What is shown of a request is
  relative to what these keep, as in rely-guarantee reasoning.
\<close>

fun wait_keeps :: "('s \<Rightarrow> bool) \<Rightarrow> 's lock_wait \<Rightarrow> bool" where
  "wait_keeps I WaitDone \<longleftrightarrow> True"
| "wait_keeps I WaitTimeout \<longleftrightarrow> True"
| "wait_keeps I (WaitTick others rest) \<longleftrightarrow> (\<forall>\<sigma>. I \<sigma> \<longrightarrow> I (others \<sigma>)) \<and> wait_keeps I rest"

definition others_keep :: "('s \<Rightarrow> bool) \<Rightarrow> 's world \<Rightarrow> bool" where
  "others_keep I w \<longleftrightarrow> (\<forall>n. wait_keeps I (waits w n))"

definition guarantees :: "('s \<Rightarrow> bool) \<Rightarrow> 's world \<Rightarrow> 's world \<Rightarrow> bool" where
  "guarantees I w w' \<longleftrightarrow> same_env w w' \<and> (others_keep I w \<longrightarrow> I (store w) \<longrightarrow> I (store w'))"

lemma guarantees_refl [simp, intro]: "guarantees I w w"
  by (simp add: guarantees_def)

lemma guarantees_trans [trans]: "guarantees I u v \<Longrightarrow> guarantees I v w \<Longrightarrow> guarantees I u w"
  by (auto simp: guarantees_def others_keep_def same_env_def)

lemma guarantees_store: "same_env w w' \<Longrightarrow> store w' = store w \<Longrightarrow> guarantees I w w'"
  by (simp add: guarantees_def)

section \<open>The invariant\<close>

text \<open>
  An ID token that was issued for a session of this client: it came out of a callback's redemption, and
  the session's identifier is the one that a login derives from it.
\<close>

definition issued :: "ext \<Rightarrow> 's standard_handler \<Rightarrow> string \<Rightarrow> string \<Rightarrow> bool" where
  "issued x s idt sid \<longleftrightarrow> (\<exists>cb t r (u :: 's world) u' (y :: 's world) y'.
     RedeemTokens x (sh_client s) cb u = (Inr t, u') \<and> IDOrGenerate (sh_sessions s) r t y = (Inr sid, y')
     \<and> idt = GetSerialized (tk_IDToken t))"

definition genuine :: "ext \<Rightarrow> 's standard_handler \<Rightarrow> string \<Rightarrow> EncryptedData \<Rightarrow> bool" where
  "genuine x s sid e \<longleftrightarrow> (\<exists>d idt (v :: 's world) v'. Data_Encrypt (h_crypter (sh_sessions s)) d v = (Inr e, v')
     \<and> through_json (ExternalSessionID d) = through_json sid
     \<and> issued x s idt sid \<and> through_json (data_IDToken d) = through_json idt)"

text \<open>The keys of locks end in \<^verbatim>\<open>.lock\<close>; what is under them is no session.\<close>

definition sessions_inv :: "ext \<Rightarrow> 's standard_handler \<Rightarrow> ('s \<Rightarrow> string \<rightharpoonup> EncryptedData) \<Rightarrow> 's \<Rightarrow> bool" where
  "sessions_inv x s contents \<sigma> \<longleftrightarrow>
     (\<forall>sid e. \<not> HasSuffix sid ''.lock'' \<and> contents \<sigma> (Key (sh_sessions s) sid) = Some e \<longrightarrow> genuine x s sid e)"

lemma lockKey_sid:
  assumes "Key h sid = lockKey k"
  shows "HasSuffix sid ''.lock''"
proof -
  obtain a where a: "Key h sid = a @ CHR '':'' # sid" by (simp add: Key_def)
  then have "suffix ''.lock'' (a @ CHR '':'' # sid)" using assms unfolding lockKey_def suffix_def by metis
  moreover have "suffix sid (a @ CHR '':'' # sid)" by (simp add: suffix_def)
  ultimately consider "suffix ''.lock'' sid" | "suffix sid ''.lock''" "sid \<noteq> ''.lock''" using suffix_same_cases by blast
  then show ?thesis
  proof cases
    case 1
    then show ?thesis by (auto simp: HasSuffix_iff suffix_def)
  next
    case 2
    have "suffix (CHR '':'' # sid) (a @ CHR '':'' # sid)" by (simp add: suffix_def)
    then have "suffix (CHR '':'' # sid) ''.lock'' \<or> suffix ''.lock'' (CHR '':'' # sid)"
      using \<open>suffix ''.lock'' (a @ CHR '':'' # sid)\<close> suffix_same_cases by blast
    then show ?thesis using 2 by (auto simp: suffix_def append_eq_Cons_conv Cons_eq_append_conv)
  qed
qed

lemma sessions_inv_update:
  assumes "sessions_inv x s contents \<sigma>"
    and "\<And>k. (\<nexists>k0. k = lockKey k0) \<Longrightarrow> contents \<sigma>' k = contents \<sigma> k \<or> contents \<sigma>' k = None \<or>
      (\<exists>e. contents \<sigma>' k = Some e \<and> (\<forall>sid. k = Key (sh_sessions s) sid \<and> \<not> HasSuffix sid ''.lock'' \<longrightarrow> genuine x s sid e))"
  shows "sessions_inv x s contents \<sigma>'"
  unfolding sessions_inv_def
proof (intro allI impI)
  fix sid e
  assume a: "\<not> HasSuffix sid ''.lock'' \<and> contents \<sigma>' (Key (sh_sessions s) sid) = Some e"
  then have "\<nexists>k0. Key (sh_sessions s) sid = lockKey k0" using lockKey_sid by blast
  from assms(2)[OF this] a show "genuine x s sid e" using assms(1) by (auto simp: sessions_inv_def)
qed

lemma genuine_new:
  assumes "RedeemTokens x (sh_client s) cb (u :: 's world) = (Inr t, u')"
    and "IDOrGenerate (sh_sessions s) r t (y :: 's world) = (Inr sid, y')"
    and "Data_Encrypt (h_crypter (sh_sessions s)) (NewData sid t (Some md)) (v :: 's world) = (Inr e, v')"
  shows "genuine x s sid e"
proof -
  have "issued x s (GetSerialized (tk_IDToken t)) sid" unfolding issued_def using assms(1,2) by metis
  moreover have "ExternalSessionID (NewData sid t (Some md)) = sid"
      "data_IDToken (NewData sid t (Some md)) = GetSerialized (tk_IDToken t)" by (simp_all add: NewData_def)
  ultimately show ?thesis unfolding genuine_def using assms(3) by metis
qed

lemma genuine_refreshed:
  assumes "genuine x s sid e0" "Data_Decrypt (h_crypter (sh_sessions s)) e0 = Inr d" "refreshed_from resp d d'"
    and "Data_Encrypt (h_crypter (sh_sessions s)) d' (v :: 's world) = (Inr e, v')"
  shows "genuine x (s :: 's standard_handler) sid e"
proof -
  obtain d0 idt and v0 v0' :: "'s world" where g: "Data_Encrypt (h_crypter (sh_sessions s)) d0 v0 = (Inr e0, v0')"
      "through_json (ExternalSessionID d0) = through_json sid" "issued x s idt sid" "through_json (data_IDToken d0) = through_json idt"
    using assms(1) unfolding genuine_def by blast
  have "d = through_store d0" using Data_Decrypt_Encrypt[OF g(1)] assms(2) by simp
  then have "through_json (ExternalSessionID d') = through_json sid" "through_json (data_IDToken d') = through_json idt"
    using assms(3) g(2,4) by (simp_all add: refreshed_from_def through_store_def)
  then show ?thesis using g(3) assms(4) unfolding genuine_def by blast
qed

section \<open>Every operation keeps it\<close>

context session_handling
begin

lemma Update_effect:
  assumes "Handler_Update h k d w = (r, w')"
  shows "same_env w w' \<and> (contents (store w') = contents (store w) \<or>
    (\<exists>e v'. contents (store w') = (contents (store w))(k \<mapsto> e) \<and> Data_Encrypt (h_crypter h) d w = (Inr e, v')))"
proof -
  obtain q w1 where q: "Data_Encrypt (h_crypter h) d w = (q, w1)" by fastforce
  have e1: "same_env w w1 \<and> store w1 = store w" using Data_Encrypt_env[OF q] .
  show ?thesis
  proof (cases q)
    case (Inl e)
    then show ?thesis using assms q e1 by (auto simp: Handler_Update_def)
  next
    case (Inr e)
    have st: "storable e" using Data_Encrypt_valid q Inr by (auto simp: storable_def)
    obtain z where "retry_Do (update_attempt h k e) w1 = (z, w')"
      using assms q Inr by (auto simp: Handler_Update_def split: prod.splits sum.splits)
    then have "sets contents k e w1 w'" by (rule retry_Do_rel) (auto intro: sets_trans update_attempt_sets[OF st])
    then have "same_env w1 w'" "contents (store w') = contents (store w) \<or> contents (store w') = (contents (store w))(k \<mapsto> e)"
      using e1 by (auto simp: sets_def dest: local_step_env)
    then show ?thesis using q Inr e1 same_env_trans by blast
  qed
qed

lemma refresh_locked_effect:
  assumes "refresh_locked x h k w = (res, w')"
  shows "contents (store w') = contents (store w) \<or>
    (\<exists>e0 d resp d' e v v'. contents (store w) k = Some e0 \<and> Data_Decrypt (h_crypter h) e0 = Inr d \<and> refreshed_from resp d d'
       \<and> Data_Encrypt (h_crypter h) d' (v :: 's world) = (Inr e, v') \<and> contents (store w') = (contents (store w))(k \<mapsto> e))"
  using assms
proof (cases rule: refresh_locked_cases)
  case (unread e)
  then show ?thesis using GetForKey_keeps[OF unread(1)] by (simp add: keeps_def)
next
  case (current d w1)
  then show ?thesis using GetForKey_data(3)[OF current(1)] canRefresh_env[OF current(2)] by simp
next
  case (inactive d w1 w2)
  then show ?thesis using GetForKey_data(3)[OF inactive(1)] canRefresh_env[OF inactive(2)] isTimedOut_env[OF inactive(3)] by simp
next
  case (refused d w1 w2 w3 e)
  then show ?thesis using GetForKey_data(3)[OF refused(1)] canRefresh_env[OF refused(2)] isTimedOut_env[OF refused(3)]
      grants_env[OF refused(4)] by simp
next
  case (granted d w1 w2 w3 resp w4 d' w5 r)
  have eq: "contents (store w5) = contents (store w)"
    using GetForKey_data(3)[OF granted(1)] canRefresh_env[OF granted(2)] isTimedOut_env[OF granted(3)] grants_env[OF granted(4)]
      refreshed_data_env[OF granted(5)] by simp
  then show ?thesis
    using Update_effect[OF granted(6)] GetForKey_data(1)[OF granted(1)] refreshed_data_from[OF granted(5)] by metis
qed

lemma acquire_loop_keeps:
  assumes "\<forall>\<sigma> \<sigma>'. I \<sigma> \<and> (\<forall>k'. k' \<noteq> lockKey k \<longrightarrow> contents \<sigma>' k' = contents \<sigma> k') \<longrightarrow> I \<sigma>'"
  shows "acquire_loop h k lw w = (r, w') \<Longrightarrow> wait_keeps I lw \<Longrightarrow> I (store w) \<Longrightarrow> I (store w')"
proof (induction lw arbitrary: w)
  case (WaitTick others rest)
  obtain q w1 where a: "st_Acquire (h_store h) k refreshLockDuration (w\<lparr> store := others (store w) \<rparr>) = (q, w1)"
    by fastforce
  have "I (others (store w))" using WaitTick.prems by simp
  moreover have "\<forall>k'. k' \<noteq> lockKey k \<longrightarrow> contents (store w1) k' = contents (others (store w)) k'"
    using Acquire_env[OF a] by simp
  ultimately have s: "I (store w1)" using assms by blast
  show ?case
  proof (cases "q = Inl ErrAcquireLock")
    case True
    then have "acquire_loop h k rest w1 = (r, w')" using WaitTick.prems a by simp
    then show ?thesis using WaitTick.IH[of w1] s WaitTick.prems(2) by simp
  next
    case False
    then have "w' = w1" using WaitTick.prems a by (auto split: sum.splits if_splits)
    then show ?thesis using s by simp
  qed
qed auto

lemma Refresh_guarantees:
  assumes "Handler_Refresh x h k d w = (res, w')"
    and lock: "\<And>\<sigma> \<sigma>'. I \<sigma> \<Longrightarrow> \<forall>k'. k' \<noteq> lockKey k \<longrightarrow> contents \<sigma>' k' = contents \<sigma> k' \<Longrightarrow> I \<sigma>'"
    and refreshed: "\<And>\<sigma> \<sigma>' e0 d resp d' e (v :: 's world) v'. I \<sigma> \<Longrightarrow> contents \<sigma> k = Some e0 \<Longrightarrow> Data_Decrypt (h_crypter h) e0 = Inr d \<Longrightarrow>
      refreshed_from resp d d' \<Longrightarrow> Data_Encrypt (h_crypter h) d' v = (Inr e, v') \<Longrightarrow> contents \<sigma>' = (contents \<sigma>)(k \<mapsto> e) \<Longrightarrow> I \<sigma>'"
  shows "guarantees I w w'"
proof -
  have acquired: "I (store w2)"
    if "acquire_lock h k (snd (canRefresh h d w)) = (q, w2)" "others_keep I w" "I (store w)" for q w2
  proof -
    obtain b w1 where b: "canRefresh h d w = (b, w1)" by fastforce
    have w1: "store w1 = store w" "waits w1 = waits w" using canRefresh_env[OF b] by (simp_all add: same_env_def)
    have "acquire_loop h k (waits w1 (locks w1)) (w1\<lparr> locks := Suc (locks w1) \<rparr>) = (q, w2)"
      using that(1) b by (simp add: acquire_lock_def)
    moreover have "wait_keeps I (waits w1 (locks w1))" using that(2) w1(2) by (simp add: others_keep_def)
    moreover have "I (store (w1\<lparr> locks := Suc (locks w1) \<rparr>))" using that(3) w1(1) by simp
    moreover have "\<forall>\<sigma> \<sigma>'. I \<sigma> \<and> (\<forall>k'. k' \<noteq> lockKey k \<longrightarrow> contents \<sigma>' k' = contents \<sigma> k') \<longrightarrow> I \<sigma>'"
      using lock by blast
    ultimately show ?thesis using acquire_loop_keeps by blast
  qed
  show ?thesis using assms(1)
  proof (cases rule: Refresh_cases)
    case skipped
    then show ?thesis by (intro guarantees_store)
  next
    case (unlocked e)
    then show ?thesis using acquired[OF unlocked(3)] by (simp add: guarantees_def)
  next
    case (locked l w2 w3)
    have "I (store w')" if "others_keep I w" "I (store w)"
    proof -
      have 2: "I (store w2)" using acquired[OF locked(2) that] .
      have 3: "I (store w3)" using refresh_locked_effect[OF locked(4)]
      proof (elim disjE exE conjE)
        assume "contents (store w3) = contents (store w2)"
        then show ?thesis by (intro lock[OF 2]) simp
      qed (rule refreshed[OF 2])
      show ?thesis by (rule lock[OF 3 locked(6)])
    qed
    then show ?thesis using locked(8) by (simp add: guarantees_def)
  qed
qed

end

section \<open>Every request keeps it\<close>

text \<open>One server on one store, with the invariant of its sessions.\<close>

lemma respondError_guarantees: "respondError s r code w rw = (w', rw') \<Longrightarrow> guarantees I w w'"
  by (auto simp: respondError_def incrementRetryAttempt_def time_Now_def Let_def guarantees_def
      split: if_splits sum.splits option.splits)

lemma setLoginCookies_guarantees:
  assumes "setLoginCookies s r c w rw = (e, w', rw')"
  shows "guarantees I w w'"
proof -
  let ?o = "Options_WithSameSite SameSiteNoneMode (Options_WithExpiresIn CookieLifetime (GetCookieOptsPathAware s r))"
  obtain q w1 rw1 where 1: "EncryptAndSet cookie_Login (LoginCookie_Marshal c) ?o (GetCrypter s) w rw = (q, w1, rw1)"
    by (metis prod.collapse)
  obtain z w2 rw2 where 2: "EncryptAndSet cookie_LoginLegacy (LoginCookie_Marshal c) (Options_WithSameSite SameSiteDefaultMode ?o)
      (GetCrypter s) w1 rw1 = (z, w2, rw2)" by (metis prod.collapse)
  have "w' = w1 \<or> w' = w2" using assms 1 2 by (auto simp: setLoginCookies_def Let_def split: option.splits)
  then show ?thesis using EncryptAndSet_env[OF 1] EncryptAndSet_env[OF 2]
    by (auto intro!: guarantees_store intro: same_env_trans)
qed

lemma Login_guarantees:
  assumes "Login_Handler x s r w rw = (w', rw')"
  shows "guarantees I w w'"
  using assms
proof (cases rule: Login_Handler_cases)
  case (refused e w1 code)
  have "guarantees I w w1" using refused(1) by (intro guarantees_store) (simp_all add: Client_Login_def NewLogin_env)
  then show ?thesis using respondError_guarantees[OF refused(2)] by (rule guarantees_trans)
next
  case (unset login w1 e w2 rw2)
  have "guarantees I w w1" using unset(1) by (intro guarantees_store) (simp_all add: Client_Login_def NewLogin_env)
  then show ?thesis
    using setLoginCookies_guarantees[OF unset(2)] respondError_guarantees[OF unset(3)] guarantees_trans by blast
next
  case (redirected login w1 rw2)
  have "guarantees I w w1" using redirected(1) by (intro guarantees_store) (simp_all add: Client_Login_def NewLogin_env)
  then show ?thesis using setLoginCookies_guarantees[OF redirected(2)] by (rule guarantees_trans)
qed

lemma sessions_inv_eq: "contents \<sigma>' = contents \<sigma> \<Longrightarrow> sessions_inv x s contents \<sigma> \<Longrightarrow> sessions_inv x s contents \<sigma>'"
  by (simp add: sessions_inv_def)

lemma sessions_inv_map_le: "contents \<sigma>' \<subseteq>\<^sub>m contents \<sigma> \<Longrightarrow> sessions_inv x s contents \<sigma> \<Longrightarrow> sessions_inv x s contents \<sigma>'"
  unfolding sessions_inv_def map_le_def by (metis domI)

lemma sessions_inv_drops: "drops contents k w w' \<Longrightarrow> guarantees (sessions_inv x s contents) w w'"
  by (auto simp: guarantees_def drops_def local_step_env sessions_inv_def split: if_splits)

lemma sessions_inv_keeps: "keeps contents w w' \<Longrightarrow> guarantees (sessions_inv x s contents) w w'"
  by (auto simp: guarantees_def keeps_def local_step_env sessions_inv_def)

lemma sessions_inv_set:
  assumes "sessions_inv x s contents \<sigma>" "contents \<sigma>' = (contents \<sigma>)(Key (sh_sessions s) sid \<mapsto> e)" "genuine x s sid e"
  shows "sessions_inv x s contents \<sigma>'"
  using assms(1)
proof (rule sessions_inv_update)
  fix k
  show "contents \<sigma>' k = contents \<sigma> k \<or> contents \<sigma>' k = None \<or>
      (\<exists>e. contents \<sigma>' k = Some e \<and> (\<forall>sid. k = Key (sh_sessions s) sid \<and> \<not> HasSuffix sid ''.lock'' \<longrightarrow> genuine x s sid e))"
    using assms(2,3) by (auto simp: Key_inject)
qed

lemma sessions_inv_Refresh:
  fixes s :: "'s standard_handler"
  assumes "session_handling (sh_sessions s) contents" "Handler_Refresh x (sh_sessions s) k d w = (res, w')"
  shows "guarantees (sessions_inv x s contents) w w'"
  using assms(1,2)
proof (rule session_handling.Refresh_guarantees)
  fix \<sigma> \<sigma>'
  assume i: "sessions_inv x s contents \<sigma>" and l: "\<forall>k'. k' \<noteq> lockKey k \<longrightarrow> contents \<sigma>' k' = contents \<sigma> k'"
  show "sessions_inv x s contents \<sigma>'" by (rule sessions_inv_update[OF i]) (use l in blast)
next
  fix \<sigma> \<sigma>' e0 d resp d' e and v v' :: "'s world"
  assume i: "sessions_inv x s contents \<sigma>"
    and r: "contents \<sigma> k = Some e0" "Data_Decrypt (h_crypter (sh_sessions s)) e0 = Inr d" "refreshed_from resp d d'"
      "Data_Encrypt (h_crypter (sh_sessions s)) d' v = (Inr e, v')" and u: "contents \<sigma>' = (contents \<sigma>)(k \<mapsto> e)"
  have "genuine x s sid e" if "k = Key (sh_sessions s) sid" "\<not> HasSuffix sid ''.lock''" for sid
    using i r(1) that genuine_refreshed[OF _ r(2-4)] unfolding sessions_inv_def by blast
  then show "sessions_inv x s contents \<sigma>'" by (intro sessions_inv_update[OF i]) (simp add: u)
qed

lemma Get_guarantees:
  assumes "session_handling (sh_sessions s) contents" "Handler_Get (sh_sessions s) r w = (q, w')"
  shows "guarantees (sessions_inv x s contents) w w'"
proof (cases "GetKey (sh_sessions s) r")
  case (Inl e)
  then show ?thesis using assms(2) by (simp add: Handler_Get_def)
next
  case (Inr k)
  then show ?thesis using assms(2) session_handling.GetForKey_keeps[OF assms(1)]
    by (intro sessions_inv_keeps) (simp add: Handler_Get_def)
qed

lemma Destroy_guarantees:
  assumes "session_handling (sh_sessions s) contents" "DestroyForID (sh_sessions s) sid w = (q, w')"
  shows "guarantees (sessions_inv x s contents) w w'"
  using session_handling.destroy_drops(1)[OF assms(1)] assms(2) by (intro sessions_inv_drops) (simp add: DestroyForID_def)

lemma LoginCallback_guarantees:
  fixes s :: "'s standard_handler"
  assumes "session_handling (sh_sessions s) contents" "LoginCallback_Handler x s r w rw = (w', rw')" "Status rw = None"
  shows "guarantees (sessions_inv x s contents) w w'"
proof -
  let ?I = "sessions_inv x s contents" and ?life = "MaxLifetime (cfg_Session (sh_config s))"
  have redeem: "guarantees ?I w w1" if "redeemValidTokens x (sh_client s) cb w = (q, w1)" for cb q w1
    using redeemValidTokens_env[OF that] by (intro guarantees_store) auto
  have create: "guarantees ?I w1 w2"
    if a: "redeemValidTokens x (sh_client s) cb w = (Inr t, w1)" and b: "Handler_Create (sh_sessions s) r t ?life w1 = (q, w2)" for cb t w1 q w2
  proof -
    obtain v where v: "RedeemTokens x (sh_client s) cb v = (Inr t, w1)"
      using redeemValidTokens_Ok[OF a] by blast
    note eff = session_handling.Create_effect[OF assms(1) b]
    have "?I (store w2)" if "?I (store w1)"
      using conjunct2[OF eff]
    proof (elim disjE exE conjE)
      fix sid u e md and y y' :: "'s world"
      assume c: "IDOrGenerate (sh_sessions s) r t w1 = (Inr sid, u)"
        "contents (store w2) = (contents (store w1))(Key (sh_sessions s) sid \<mapsto> e)"
        "Data_Encrypt (h_crypter (sh_sessions s)) (NewData sid t (Some md)) y = (Inr e, y')"
      show ?thesis using genuine_new[OF v c(1,3)] by (rule sessions_inv_set[OF that c(2)])
    next
      assume "contents (store w2) = contents (store w1)"
      then show ?thesis using that by (rule sessions_inv_eq)
    qed
    then show ?thesis using eff by (simp add: guarantees_def)
  qed
  show ?thesis using assms(2)
  proof (cases rule: LoginCallback_cases)
    case (rejected code)
    then show ?thesis by (intro respondError_guarantees)
  next
    case (unredeemed c cb e w1)
    show ?thesis by (rule guarantees_trans[OF redeem[OF unredeemed(5)] respondError_guarantees[OF unredeemed(6)]])
  next
    case (uncreated c cb t w1 e w2)
    have "guarantees ?I w w1" by (rule redeem[OF uncreated(5)])
    also have "guarantees ?I w1 w2" by (rule create[OF uncreated(5,6)])
    also have "guarantees ?I w2 w'" by (rule respondError_guarantees[OF uncreated(7)])
    finally show ?thesis .
  next
    case (created c cb t w1 k w2)
    have "Status (clearLoginCookies s r rw) = None" using assms(3) by simp
    with created(7) have "same_env w2 w'" "store w' = store w2" by (rule callback_end; simp)+
    then have "guarantees ?I w2 w'" by (rule guarantees_store)
    then show ?thesis by (rule guarantees_trans[OF guarantees_trans[OF redeem[OF created(5)] create[OF created(5,6)]]])
  qed
qed

lemma Logout_guarantees:
  assumes "session_handling (sh_sessions s) contents" "Logout_Handler s r global w rw = (w', rw')"
  shows "guarantees (sessions_inv x s contents) w w'"
  using assms(2)
proof (cases rule: Logout_cases)
  case (no_callback e)
  then show ?thesis by (intro respondError_guarantees)
next
  case (kept l d w1 e w2)
  have "guarantees (sessions_inv x s contents) w w1" by (rule Get_guarantees[OF assms(1) kept(2)])
  also have "guarantees (sessions_inv x s contents) w1 w2" by (rule Destroy_guarantees[OF assms(1) kept(3)])
  also have "guarantees (sessions_inv x s contents) w2 w'" by (rule respondError_guarantees[OF kept(5)])
  finally show ?thesis .
next
  case (finished l w1 w2 idToken)
  have "guarantees (sessions_inv x s contents) w w2" using finished(2)
  proof (elim disjE exE conjE)
    fix d q
    assume g: "Handler_Get (sh_sessions s) r w = (Inr d, w1)" "DestroyForID (sh_sessions s) (ExternalSessionID d) w1 = (q, w2)"
    show ?thesis by (rule guarantees_trans[OF Get_guarantees[OF assms(1) g(1)] Destroy_guarantees[OF assms(1) g(2)]])
  qed (simp add: Get_guarantees[OF assms(1)])
  also have "guarantees (sessions_inv x s contents) w2 w'" by (rule guarantees_store[OF finished(5,3)])
  finally show ?thesis .
qed

lemma LogoutFrontchannel_guarantees:
  assumes "session_handling (sh_sessions s) contents" "LogoutFrontchannel_Handler s r w rw = (w', rw')"
  shows "guarantees (sessions_inv x s contents) w w'"
proof -
  have get: "guarantees (sessions_inv x s contents) w v" if "GetForID (sh_sessions s) sid w = (q, v)" for sid q v
    using that session_handling.GetForKey_keeps[OF assms(1)] by (intro sessions_inv_keeps) (simp add: GetForID_def)
  show ?thesis using assms(2)
  proof (cases rule: LogoutFrontchannel_cases)
    case (kept d w1 e)
    show ?thesis by (rule guarantees_trans[OF get[OF kept(2)] Destroy_guarantees[OF assms(1) kept(3)]])
  next
    case (destroyed d w1 w2)
    have "guarantees (sessions_inv x s contents) w2 w'" using destroyed(4,6) by (intro guarantees_store)
    then show ?thesis by (rule guarantees_trans[OF guarantees_trans[OF get[OF destroyed(2)] Destroy_guarantees[OF assms(1) destroyed(3)]]])
  qed (use get in auto)
qed

lemma Session_guarantees:
  assumes "session_handling (sh_sessions s) contents" "Session_Handler s r w rw = (w', rw')"
  shows "guarantees (sessions_inv x s contents) w w'"
proof -
  obtain g w1 where g: "Handler_Get (sh_sessions s) r w = (g, w1)" by fastforce
  have wr1: "guarantees I w1 v" if "write_metadata m w1 q = (v, q')" for I m q q' v
    using that by (intro guarantees_store)
      (auto simp: write_metadata_def timeout_reading_def time_Now_def Let_def same_env_def split: prod.splits if_splits)
  have wr2: "guarantees I w1 v" if "write_metadata_with_refresh m w1 q = (v, q')" for I m q q' v
    using that by (intro guarantees_store)
      (auto simp: write_metadata_with_refresh_def timeout_reading_def time_Now_def Let_def same_env_def split: prod.splits if_splits)
  have "guarantees (sessions_inv x s contents) w1 w'"
    using assms(2) g
    by (auto simp: Session_Handler_def accessor_simps Let_def intro: wr1 wr2 split: sum.splits if_splits)
  then show ?thesis by (rule guarantees_trans[OF Get_guarantees[OF assms(1) g]])
qed

lemma SessionRefresh_guarantees:
  assumes "session_handling (sh_sessions s) contents" "SessionRefresh_Handler x s r w rw = (w', rw')"
  shows "guarantees (sessions_inv x s contents) w w'"
proof (cases "GetKey (sh_sessions s) r")
  case (Inl e)
  then show ?thesis using assms(2) by (simp add: SessionRefresh_Handler_def accessor_simps)
next
  case (Inr k)
  obtain g w1 where g: "Handler_Get (sh_sessions s) r w = (g, w1)" by fastforce
  note get = Get_guarantees[OF assms(1) g, of x]
  show ?thesis
  proof (cases g)
    case (Inl e)
    then have "w' = w1" using assms(2) g \<open>GetKey _ _ = Inr k\<close> by (auto simp: SessionRefresh_Handler_def accessor_simps split: if_splits)
    then show ?thesis using get by simp
  next
    case d: (Inr d)
    obtain q w2 where q: "Handler_Refresh x (sh_sessions s) k d w1 = (q, w2)" by fastforce
    have "guarantees (sessions_inv x s contents) w2 w'"
    proof (cases q)
      case (Inl e)
      then have "w' = w2" using assms(2) g \<open>GetKey _ _ = Inr k\<close> d q
        by (auto simp: SessionRefresh_Handler_def accessor_simps split: if_splits)
      then show ?thesis by simp
    next
      case (Inr d')
      then show ?thesis using assms(2) g \<open>GetKey _ _ = Inr k\<close> d q
        by (intro guarantees_store)
          (auto simp: SessionRefresh_Handler_def accessor_simps write_metadata_with_refresh_def timeout_reading_def
            time_Now_def Let_def same_env_def split: prod.splits if_splits)
    qed
    then show ?thesis
      by (rule guarantees_trans[OF guarantees_trans[OF get sessions_inv_Refresh[OF assms(1) q]]])
  qed
qed

lemma GetAccessToken_guarantees:
  assumes "session_handling (sh_sessions s) contents" "GetAccessToken x (sh_sessions s) r w = (q, w')"
  shows "guarantees (sessions_inv x s contents) w w'"
proof -
  let ?h = "sh_sessions s" and ?I = "sessions_inv x s contents"
  obtain g v where g: "GetOrRefresh x ?h r w = (g, v)" by fastforce
  have "guarantees ?I v w'"
    using assms(2) g by (auto simp: GetAccessToken_def time_Now_def guarantees_def split: sum.splits if_splits)
  moreover have "guarantees ?I w v"
  proof (cases "GetKey ?h r")
    case (Inl e)
    then show ?thesis using g by (simp add: GetOrRefresh_def)
  next
    case (Inr k)
    obtain d w1 where d: "GetForKey ?h k w = (d, w1)" by fastforce
    have 1: "guarantees ?I w w1" using session_handling.GetForKey_keeps[OF assms(1) d] by (rule sessions_inv_keeps)
    show ?thesis
    proof (cases d)
      case (Inl e)
      then show ?thesis using g \<open>GetKey ?h r = Inr k\<close> d 1 by (simp add: GetOrRefresh_def)
    next
      case dd: (Inr d')
      obtain b w2 where b: "isTimedOut ?h d' w1 = (b, w2)" by fastforce
      obtain c w3 where c: "shouldRefresh ?h d' w2 = (c, w3)" by fastforce
      obtain z w4 where z: "Handler_Refresh x ?h k d' w3 = (z, w4)" by fastforce
      have 2: "guarantees ?I w1 w2" using isTimedOut_env[OF b] by (intro guarantees_store) simp_all
      have 3: "guarantees ?I w2 w3" using shouldRefresh_env[OF c] by (intro guarantees_store) simp_all
      have 4: "guarantees ?I w3 w4" by (rule sessions_inv_Refresh[OF assms(1) z])
      have "v = w2 \<or> v = w3 \<or> v = w4"
        using g Inr d dd b c z by (auto simp: GetOrRefresh_def split: bool.splits sum.splits if_splits)
      then show ?thesis using 1 2 3 4 guarantees_trans by metis
    qed
  qed
  ultimately show ?thesis using guarantees_trans by blast
qed

lemma dispatch_guarantees:
  assumes "session_handling (sh_sessions s) contents" "dispatch x s h r w = (w', out)"
  shows "guarantees (sessions_inv x s contents) w w'"
proof -
  let ?I = "sessions_inv x s contents"
  have resp: "\<exists>rw'. f = (w', rw')" if "respond f = (w', out)" for f
    using that by (cases f) (simp add: respond_def)
  show ?thesis
  proof (cases h)
    case HLogin
    then show ?thesis using assms(2) resp Login_guarantees by (fastforce simp: dispatch_def standard_defs)
  next
    case HLoginCallback
    then obtain rw' where "LoginCallback_Handler x s r w new_response = (w', rw')"
      using assms(2) resp by (fastforce simp: dispatch_def standard_defs)
    then show ?thesis using LoginCallback_guarantees[OF assms(1)] by simp
  next
    case HLogout
    then show ?thesis using assms(2) resp Logout_guarantees[OF assms(1)] by (fastforce simp: dispatch_def standard_defs)
  next
    case HLogoutCallback
    then show ?thesis using assms(2) by (simp add: dispatch_def)
  next
    case HLogoutFrontChannel
    then show ?thesis using assms(2) resp LogoutFrontchannel_guarantees[OF assms(1)] by (fastforce simp: dispatch_def standard_defs)
  next
    case HLogoutLocal
    then show ?thesis using assms(2) resp Logout_guarantees[OF assms(1)] by (fastforce simp: dispatch_def standard_defs)
  next
    case HSession
    then show ?thesis using assms(2) resp Session_guarantees[OF assms(1)] by (fastforce simp: dispatch_def standard_defs)
  next
    case HSessionRefresh
    then obtain rw' where "Standard_SessionRefresh x s r w new_response = (w', rw')"
      using assms(2) resp by (fastforce simp: dispatch_def)
    then show ?thesis using SessionRefresh_guarantees[OF assms(1)]
      by (auto simp: Standard_SessionRefresh_def split: if_splits)
  next
    case HReverseProxy
    then have "ReverseProxy_Handler x s r w new_response = (w', out)" using assms(2) by (simp add: dispatch_def standard_defs)
    then show ?thesis by (cases rule: ReverseProxy_cases) (auto intro: GetAccessToken_guarantees[OF assms(1)])
  qed
qed

lemma Serve_guarantees:
  assumes "session_handling (sh_sessions s) contents" "Router_Serve x order chi s r w = (w', out)"
  shows "guarantees (sessions_inv x s contents) w w'"
proof -
  obtain r1 w1 where c: "CorrelationIDHandler x r w = (r1, w1)" by fastforce
  have "guarantees (sessions_inv x s contents) w w1"
    using c by (intro guarantees_store) (auto simp: CorrelationIDHandler_def Let_def split: if_splits)
  also have "guarantees (sessions_inv x s contents) w1 w'"
    using assms(2) c dispatch_guarantees[OF assms(1)] by (auto simp: Router_Serve_def Let_def split: sum.splits)
  finally show ?thesis .
qed

section \<open>Reachable stores\<close>

text \<open>
  The states of a store that is shared by any number of instances of the server, which start with an
  empty one: an instance serves a request, in whatever world (its own clock, random source, provider
  and network); entries expire. While a request waits for a lock, others change the store, in ways
  that keep the invariant themselves.
\<close>

inductive reachable ::
    "ext \<Rightarrow> map_order \<Rightarrow> router \<Rightarrow> 's standard_handler \<Rightarrow> ('s \<Rightarrow> string \<rightharpoonup> EncryptedData) \<Rightarrow> 's \<Rightarrow> bool"
  for x order chi s contents where
  start: "contents \<sigma> = Map.empty \<Longrightarrow> reachable x order chi s contents \<sigma>"
| serve: "reachable x order chi s contents (store w) \<Longrightarrow> Router_Serve x order chi s r w = (w', out) \<Longrightarrow>
    others_keep (sessions_inv x s contents) w \<Longrightarrow> reachable x order chi s contents (store w')"
| expire: "reachable x order chi s contents \<sigma> \<Longrightarrow> contents \<sigma>' \<subseteq>\<^sub>m contents \<sigma> \<Longrightarrow> reachable x order chi s contents \<sigma>'"

lemma reachable_inv:
  assumes "session_handling (sh_sessions s) contents" "reachable x order chi s contents \<sigma>"
  shows "sessions_inv x s contents \<sigma>"
  using assms(2)
proof (induction rule: reachable.induct)
  case (start \<sigma>)
  then show ?case by (simp add: sessions_inv_def)
next
  case (serve w r w' out)
  then show ?case using Serve_guarantees[OF assms(1) serve.hyps(2)] by (simp add: guarantees_def)
next
  case (expire \<sigma> \<sigma>')
  show ?case by (rule sessions_inv_map_le[OF expire.hyps(2) expire.IH])
qed

lemma reachable_session:
  fixes s :: "'s standard_handler"
  assumes "session_handling (sh_sessions s) contents" "reachable x order chi s contents \<sigma>"
    and "contents \<sigma> (Key (sh_sessions s) sid) = Some e" "\<not> HasSuffix sid ''.lock''"
  shows "\<exists>d idt lt keys now now' nonce. Data_Decrypt (h_crypter (sh_sessions s)) e = Inr d
    \<and> (valid_utf8 sid \<longrightarrow> ExternalSessionID d = sid) \<and> (valid_utf8 idt \<longrightarrow> data_IDToken d = idt)
    \<and> issued x s idt sid
    \<and> jwt_ParseString x now AcceptableClockSkew keys idt = Inr lt
    \<and> jwt_Validate x now' (validate_options (c_cfg (sh_client s)) nonce) lt = None"
proof -
  have "genuine x s sid e" using reachable_inv[OF assms(1,2)] assms(3,4) by (simp add: sessions_inv_def)
  then obtain d0 idt and v v' :: "'s world" where d: "Data_Encrypt (h_crypter (sh_sessions s)) d0 v = (Inr e, v')"
      "through_json (ExternalSessionID d0) = through_json sid" "through_json (data_IDToken d0) = through_json idt"
      and i: "issued x s idt sid"
    unfolding genuine_def by blast
  obtain cb t and u u' :: "'s world" where t: "RedeemTokens x (sh_client s) cb u = (Inr t, u')" "idt = GetSerialized (tk_IDToken t)"
    using i unfolding issued_def by blast
  obtain keys lt now now' where "jwt_ParseString x now AcceptableClockSkew keys idt = Inr lt"
      "jwt_Validate x now' (validate_options (c_cfg (sh_client s)) (lc_Nonce (cb_cookie cb))) lt = None"
    using RedeemTokens_Ok[OF t(1)] t(2) by (metis (no_types, lifting) GetSerialized_def NewToken_def jwt_token.select_convs(1) tokens.select_convs(3))
  then show ?thesis using Data_Decrypt_Encrypt[OF d(1)] d(2,3) i
    by (intro exI[of _ "through_store d0"] exI[of _ idt] exI[of _ lt] exI[of _ keys] exI[of _ now] exI[of _ now']
        exI[of _ "lc_Nonce (cb_cookie cb)"]) (simp add: through_store_def)
qed

text \<open>
  C4: Every session comes from a login. In every store that the program can reach from an empty one,
  whatever requests were served and by however many instances, an entry under the key of an identifier
  is an encryption made by the program; it decrypts to data that carries this identifier, and an ID
  token that was verified with the provider's keys and validated for this client, with the nonce of a
  login, and from which a login derives this identifier.
\<close>

theorem sessions_come_from_logins:
  fixes s :: "'s standard_handler"
  assumes "session_handling (sh_sessions s) contents" "reachable x order chi s contents \<sigma>"
    and "contents \<sigma> (Key (sh_sessions s) sid) = Some e" "\<not> HasSuffix sid ''.lock''"
  shows "\<exists>d idt lt keys now now' nonce. Data_Decrypt (h_crypter (sh_sessions s)) e = Inr d
    \<and> (valid_utf8 sid \<longrightarrow> ExternalSessionID d = sid) \<and> (valid_utf8 idt \<longrightarrow> data_IDToken d = idt)
    \<and> issued x s idt sid
    \<and> jwt_ParseString x now AcceptableClockSkew keys idt = Inr lt
    \<and> jwt_Validate x now' (validate_options (c_cfg (sh_client s)) nonce) lt = None"
  using assms by (rule reachable_session)

text \<open>
  Logging out finds the session. In a reachable store, the data of a session whose identifier is
  valid UTF-8 lies under the key that its own identifier gives, which is the key that logout destroys.
\<close>

theorem session_under_its_own_key:
  fixes s :: "'s standard_handler"
  assumes "session_handling (sh_sessions s) contents" "reachable x order chi s contents \<sigma>"
    and "contents \<sigma> (Key (sh_sessions s) sid) = Some e" "\<not> HasSuffix sid ''.lock''" "valid_utf8 sid"
    and "Data_Decrypt (h_crypter (sh_sessions s)) e = Inr d"
  shows "Key (sh_sessions s) (ExternalSessionID d) = Key (sh_sessions s) sid"
proof -
  have "genuine x s sid e" using reachable_inv[OF assms(1,2)] assms(3,4) by (simp add: sessions_inv_def)
  then obtain d0 and v v' :: "'s world" where "Data_Encrypt (h_crypter (sh_sessions s)) d0 v = (Inr e, v')"
      "through_json (ExternalSessionID d0) = through_json sid"
    unfolding genuine_def by blast
  then show ?thesis using Data_Decrypt_Encrypt assms(5,6) by (fastforce simp: through_store_def)
qed

end
