(* ===== verification/ReachableExamples.thy ===== *)
theory ReachableExamples
  imports ServerExamples SessionInvariant
begin

text \<open>
  A reachable store with a session: the example's server, started on an empty store, serves the
  callback of a login. On it the invariants of the whole program are evaluated.
\<close>

definition served_request :: "string \<Rightarrow> request" where
  "served_request cv = Ingress_Handler (\<lambda>m. m) (sh_ingresses example_server)
     (fst (CorrelationIDHandler example_ext (returning cv) (quiet_world 0 Map.empty :: memory world)))"

lemma served_request_eq: "Cookies (served_request cv) = [(cookie_Login, cv)]" "req_Query (served_request cv) = cb_requestParams example_callback"
    "Path (req_URL (served_request cv)) = ''/oauth2/callback''" "Method (served_request cv) = ''GET''"
  using returning_query[of cv]
  by (simp_all add: served_request_def Ingress_Handler_def CorrelationIDHandler_def Let_def WithPath_def WithIngress_def returning_def
      req_Query_def example_request_def split: option.split)

lemma example_reachable:
  obtains \<sigma> where "reachable example_ext (\<lambda>m. m) example_chi example_server (\<lambda>s. s) \<sigma>" "\<sigma> example_key \<noteq> None"
proof -
  obtain cv where g: "\<forall>r. map_of (Cookies r) cookie_Login = Some cv \<longrightarrow> GetLoginCookie r example_crypter = Inr (cb_cookie example_callback)"
    by (rule example_login_cookie)
  let ?w = "quiet_world 0 Map.empty :: memory world"
  let ?r = "served_request cv" and ?v = "snd (CorrelationIDHandler example_ext (returning cv) ?w)"
  have r: "GetLoginCookie ?r example_crypter = Inr (cb_cookie example_callback)" using g by (simp add: served_request_eq)
  have v: "clock ?v = (\<lambda>_. 0)" "\<And>n. entropy_ok ?v n" "\<And>n. backoffs ?v n = Stop"
    by (simp_all add: CorrelationIDHandler_def quiet_world_def Let_def)
  obtain w' rw' where c: "LoginCallback_Handler example_ext example_server ?r ?v new_response = (w', rw')" "store w' example_key \<noteq> None"
    by (rule example_callback_response[OF r served_request_eq(2) v])
  have "(''GET'', ''/oauth2/callback'', HLoginCallback) \<in> set (concat (map prefix_routes [[]]))"
    by (simp add: prefix_routes_def paths_OAuth2_def paths_LoginCallback_def Let_def)
  moreover have "RawPath (req_URL ?r) = []"
    by (simp add: served_request_def Ingress_Handler_def CorrelationIDHandler_def Let_def WithPath_def WithIngress_def returning_def
        example_request_def empty_url_def split: option.split)
  ultimately have "example_chi (route_table [[]]) ?r = Inl HLoginCallback"
    using example_chi_ok served_request_eq(3,4)[of cv] unfolding chi_ok_def by metis
  then have serve: "Router_Serve example_ext (\<lambda>m. m) example_chi example_server (returning cv) ?w = (w', Responded rw')"
    using c(1) by (simp add: Router_Serve_def served_request_def[symmetric] accessor_simps dispatch_def standard_defs respond_def
        case_prod_beta)
  have start: "reachable example_ext (\<lambda>m. m) example_chi example_server (\<lambda>s. s) (store ?w)" by (rule reachable.start) simp
  have "others_keep (sessions_inv example_ext example_server (\<lambda>s. s)) ?w" by (simp add: others_keep_def)
  with start serve have "reachable example_ext (\<lambda>m. m) example_chi example_server (\<lambda>s. s) (store w')" by (rule reachable.serve)
  then show thesis using c(2) by (rule that)
qed

theorem sessions_come_from_logins_witness:
  "\<exists>\<sigma> e d. reachable example_ext (\<lambda>m. m) example_chi example_server (\<lambda>s. s) \<sigma> \<and> \<sigma> example_key = Some e
     \<and> Data_Decrypt example_crypter e = Inr d \<and> ExternalSessionID d = ''sid-1''"
proof -
  obtain \<sigma> e where s: "reachable example_ext (\<lambda>m. m) example_chi example_server (\<lambda>s. s) \<sigma>" "\<sigma> example_key = Some e"
    using example_reachable by (metis not_None_eq)
  have k: "\<sigma> (Key (sh_sessions example_server) ''sid-1'') = Some e" using s(2) by (simp add: example_key_def)
  have "\<not> HasSuffix ''sid-1'' ''.lock''" "valid_utf8 ''sid-1''" by code_simp+
  with sessions_come_from_logins[where contents = "\<lambda>s. s", OF example_server_handling s(1) k] s show ?thesis by auto
qed

theorem session_under_its_own_key_witness:
  "\<exists>\<sigma> e d. reachable example_ext (\<lambda>m. m) example_chi example_server (\<lambda>s. s) \<sigma> \<and> \<sigma> example_key = Some e
     \<and> Data_Decrypt example_crypter e = Inr d \<and> Key example_handler (ExternalSessionID d) = example_key"
proof -
  obtain \<sigma> e where s: "reachable example_ext (\<lambda>m. m) example_chi example_server (\<lambda>s. s) \<sigma>" "\<sigma> example_key = Some e"
    using example_reachable by (metis not_None_eq)
  have k: "\<sigma> (Key (sh_sessions example_server) ''sid-1'') = Some e" using s(2) by (simp add: example_key_def)
  have v: "\<not> HasSuffix ''sid-1'' ''.lock''" "valid_utf8 ''sid-1''" by code_simp+
  have "sessions_inv example_ext example_server (\<lambda>s. s) \<sigma>"
    by (rule reachable_inv[where contents = "\<lambda>s. s", OF example_server_handling s(1)])
  then obtain d where d: "Data_Decrypt (h_crypter (sh_sessions example_server)) e = Inr d"
    using k v Data_Decrypt_Encrypt unfolding sessions_inv_def genuine_def by metis
  from session_under_its_own_key[where contents = "\<lambda>s. s", OF example_server_handling s(1) k v d]
  have "Key example_handler (ExternalSessionID d) = example_key" by (simp add: example_key_def)
  then show ?thesis using s d by auto
qed

end
