(* ===== verification/StoreSetup.thy ===== *)
theory StoreSetup
  imports SessionExamples Config
begin

text \<open>
  How the session store is chosen (\<^verbatim>\<open>NewStore\<close> in \<^verbatim>\<open>pkg/session/store.go\<close>, \<^verbatim>\<open>pkg/config/redis.go\<close>), and
  what the stores leave open: the end of a session, and updates that are not atomic.
\<close>

section \<open>Choosing a store\<close>

record redis_options =
  ro_Network :: string
  ro_Addr :: string
  ro_Username :: string
  ro_Password :: string
  ro_MinIdleConns :: int
  ro_TLSConfig :: bool

definition redis_Client :: "(redis_options \<Rightarrow> 'r redis_client) \<Rightarrow> redis_config \<Rightarrow> 'r redis_client result" where
  "redis_Client redis_NewClient r =
     (let opts = \<lparr> ro_Network = ''tcp'', ro_Addr = Address r, ro_Username = Username r, ro_Password = Password r,
                   ro_MinIdleConns = 1, ro_TLSConfig = False \<rparr>;
          opts = (if TLS r then opts\<lparr> ro_TLSConfig := True \<rparr> else opts)
      in Inr (redis_NewClient opts))"

text \<open>The store: in memory or in Redis. The Redis client and the answer to its ping are the library's.\<close>

definition NewStore ::
    "(redis_options \<Rightarrow> 'r redis_client) \<Rightarrow> ('r redis_client \<Rightarrow> err) \<Rightarrow> config
     \<Rightarrow> (memory session_store_ops + 'r session_store_ops) result" where
  "NewStore redis_NewClient ping cfg =
     (if length (Address (cfg_Redis cfg)) = 0 then Inr (Inl memory_store)
      else case redis_Client redis_NewClient (cfg_Redis cfg) of
        Inl e \<Rightarrow> Inl (ErrOther ''failed to create Redis Client'')
      | Inr redisClient \<Rightarrow>
          (case ping redisClient of
             Some e \<Rightarrow> Inl (ErrOther ''failed to connect to configured Redis'')
           | None \<Rightarrow> Inr (Inr (redis_store redisClient))))"

text \<open>
  C10: Whichever store is chosen keeps the contract of session stores. Without an address it is the one in
  memory; with one it is Redis at that address, with the configured credentials and transport, once it
  has answered.
\<close>

theorem new_store_correct:
  assumes "NewStore redis_NewClient ping cfg = Inr st" "\<forall>opts. redis_laws (redis_NewClient opts) kv"
  shows "case st of
      Inl m \<Rightarrow> Address (cfg_Redis cfg) = [] \<and> session_store m (\<lambda>s. s)
    | Inr c \<Rightarrow> Address (cfg_Redis cfg) \<noteq> [] \<and> session_store c (redis_contents kv)
        \<and> (\<exists>opts. c = redis_store (redis_NewClient opts) \<and> ping (redis_NewClient opts) = None
             \<and> ro_Addr opts = Address (cfg_Redis cfg) \<and> ro_Password opts = Password (cfg_Redis cfg)
             \<and> ro_Username opts = Username (cfg_Redis cfg) \<and> ro_TLSConfig opts = TLS (cfg_Redis cfg))"
  using assms redis_session_store memory.session_store_axioms
  by (auto simp: NewStore_def redis_Client_def Let_def split: if_splits sum.splits option.splits)

theorem new_store_correct_witness:
  "\<exists>c. NewStore (\<lambda>_. map_client) (\<lambda>_. None) (example_config\<lparr> cfg_Redis := \<lparr> Address = ''redis:6379'', Username = [], Password = [],
      TLS = True \<rparr> \<rparr>) = Inr (Inr c) \<and> session_store c (redis_contents (\<lambda>s. s))"
proof -
  let ?cfg = "example_config\<lparr> cfg_Redis := \<lparr> Address = ''redis:6379'', Username = [], Password = [], TLS = True \<rparr> \<rparr>"
  have n: "NewStore (\<lambda>_. map_client) (\<lambda>_. None) ?cfg = Inr (Inr (redis_store map_client))"
    by (simp add: NewStore_def redis_Client_def Let_def)
  have "\<forall>opts :: redis_options. redis_laws map_client (\<lambda>s. s)" using map_client_laws by simp
  from new_store_correct[OF n this] n show ?thesis by auto
qed

section \<open>The end of a session\<close>

text \<open>
  The end of a session is left to the store, and the store in memory does not keep it. A session in it
  whose end is long past still gives out its access token, as long as the token itself has not expired
  (here in a server that does not refresh tokens; only the browser's cookie ends with the session).
\<close>

theorem ended_session_still_served:
  assumes "h_store h = memory_store" "GetKey h r = Inr k" "store w k = Some e" "Data_Decrypt (h_crypter h) e = Inr d"
    and "\<not> cfg_Refresh (h_cfg h)" "\<not> Inactivity (h_cfg h)" "AccessToken d \<noteq> []" "backoffs w (dos w) = Stop"
    and "\<forall>i. EndsAt (md_Session (data_Metadata d)) < clock w i \<and> clock w i \<le> ExpireAt (md_Tokens (data_Metadata d))"
  shows "fst (GetAccessToken x h r w) = Inr (AccessToken d)"
proof -
  have "GetForKey h k w = (Inr d, w\<lparr> dos := Suc (dos w) \<rparr>)"
    using assms(1,3,4,8) by (simp add: GetForKey_def retry_Do_def read_attempt_def memory_store_def memory_Read_def)
  then have "GetOrRefresh x h r w = (Inr d, w\<lparr> dos := Suc (dos w) \<rparr>)"
    using assms(2,5,6) by (simp add: GetOrRefresh_def isTimedOut_def shouldRefresh_def)
  then show ?thesis using assms(7,9)
    by (simp add: GetAccessToken_def HasAccessToken_def time_Now_def IsExpired_def Time_After_def not_less)
qed

definition plain_handler :: "memory session_handler" where
  "plain_handler = example_handler\<lparr> h_cfg := \<lparr> Inactivity = False, InactivityTimeout = 30 * Minute, MaxLifetime = Minute, cfg_Refresh = False \<rparr> \<rparr>"

definition ended_data :: Data where
  "ended_data = example_data\<lparr> data_Metadata := NewMetadata 0 Hour Minute \<rparr>"

theorem ended_session_still_served_witness:
  "\<exists>r e. fst (GetAccessToken example_ext plain_handler r (quiet_world (30 * Minute) [example_key \<mapsto> e])) = Inr ''access''
     \<and> Data_Decrypt example_crypter e = Inr ended_data \<and> EndsAt (md_Session (data_Metadata ended_data)) = Minute"
proof -
  obtain r e0 where k: "GetKey example_handler r = Inr example_key" "Data_Decrypt example_crypter e0 = Inr example_data"
    by (metis example_session)
  have "marshallable (data_Metadata ended_data)"
    by (simp add: ended_data_def marshallable_def NewMetadata_def Time_Add_def duration_consts day_ns_def)
  then obtain e v where e: "Data_Encrypt example_crypter ended_data (quiet_world 0 ()) = (Inr e, v)"
    using Data_Encrypt_total[OF example_crypter_ok, of "quiet_world 0 ()"] by auto
  have "valid_Data ended_data" using example_data_valid(1) by (simp add: ended_data_def valid_Data_def)
  then have d: "Data_Decrypt (h_crypter plain_handler) e = Inr ended_data"
    using session_data.unseal_seal[OF e] by (simp add: plain_handler_def)
  have "GetKey plain_handler r = Inr example_key" using k by (simp add: plain_handler_def GetKey_def)
  have "fst (GetAccessToken example_ext plain_handler r (quiet_world (30 * Minute) [example_key \<mapsto> e])) = Inr (AccessToken ended_data)"
  proof (rule ended_session_still_served[OF _ \<open>GetKey plain_handler r = Inr example_key\<close> _ d])
    show "h_store plain_handler = memory_store" by (simp add: plain_handler_def)
    show "store (quiet_world (30 * Minute) [example_key \<mapsto> e]) example_key = Some e" by simp
    show "\<not> cfg_Refresh (h_cfg plain_handler)" "\<not> Inactivity (h_cfg plain_handler)" by (simp_all add: plain_handler_def)
    show "AccessToken ended_data \<noteq> []" by (simp add: ended_data_def example_data_def)
  qed (simp_all add: ended_data_def NewMetadata_def Time_Add_def duration_consts)
  then show ?thesis using d
    by (auto simp: plain_handler_def ended_data_def example_data_def NewMetadata_def Time_Add_def duration_consts)
qed

section \<open>Updates are not atomic\<close>

text \<open>
  C32: A concurrent refresh can undo a logout. An update of the Redis store first reads the entry and then
  overwrites it, in two commands. If another instance deletes the session between the two, the session is
  in the store again after the update, which reports success; logging out takes no lock.
\<close>

theorem logout_undone_by_update:
  assumes "redis_laws c kv" "storable e'" "redis_Read c k w = (Inr e, w1)"
    and "redis_Delete c [k] w1 = (None, w2)" "redis_overwrite c k e' w2 = (None, w3)"
  shows "redis_Update c k e' w = redis_overwrite c k e' w1
    \<and> redis_contents kv (store w2) k = None \<and> redis_contents kv (store w3) k = Some e'"
proof -
  have "kv (store w2) k = None"
    using assms(1,4) by (fastforce simp: redis_laws_def redis_Delete_def split: prod.splits option.splits redis_error.splits)
  moreover have "kv (store w3) = (kv (store w2))(k \<mapsto> EncryptedData_MarshalBinary e')"
  proof -
    obtain s where s: "rc_Set c k (EncryptedData_MarshalBinary e') KeepTTL (store w2) = (None, s)" "store w3 = s"
      using assms(5) by (auto simp: redis_overwrite_def split: prod.splits option.splits)
    then show ?thesis using redis_lawsD(4)[OF assms(1) s(1)] by simp
  qed
  moreover have "EncryptedData_UnmarshalBinary (EncryptedData_MarshalBinary e') = Inr e'"
    using EncryptedData_round_trip[of e'] assms(2) by (simp add: storable_def)
  ultimately show ?thesis using assms(3) by (simp add: redis_Update_def redis_contents_def)
qed

theorem logout_undone_by_update_witness:
  "\<exists>e w1 w2 w3. redis_Read map_client ''k'' (quiet_world 0 [''k'' \<mapsto> EncryptedData_MarshalBinary e]) = (Inr e, w1)
     \<and> redis_Delete map_client [''k''] w1 = (None, w2) \<and> redis_overwrite map_client ''k'' e w2 = (None, w3)
     \<and> redis_contents (\<lambda>s. s) (store w2) ''k'' = None \<and> redis_contents (\<lambda>s. s) (store w3) ''k'' = Some e"
proof -
  obtain e where e: "storable e" by (metis example_session)
  then have m: "EncryptedData_UnmarshalBinary (EncryptedData_MarshalBinary e) = Inr e"
    using EncryptedData_round_trip[of e] by (simp add: storable_def)
  let ?w = "quiet_world 0 [''k'' \<mapsto> EncryptedData_MarshalBinary e]"
  have r: "redis_Read map_client ''k'' ?w = (Inr e, ?w)"
    using m by (simp add: redis_Read_def map_client_def)
  obtain w2 where d: "redis_Delete map_client [''k''] ?w = (None, w2)" by (simp add: redis_Delete_def map_client_def)
  obtain w3 where u: "redis_overwrite map_client ''k'' e w2 = (None, w3)" by (simp add: redis_overwrite_def map_client_def)
  from logout_undone_by_update[OF map_client_laws e r d u] r d u show ?thesis by blast
qed

end
