(* ===== verification/ConfigInit.thy ===== *)
theory ConfigInit
  imports Config
begin

text \<open>
  How the configuration is read: \<^verbatim>\<open>Initialize\<close> in \<^verbatim>\<open>pkg/config/config.go\<close>, with the flags of \<^verbatim>\<open>openid.go\<close> and
  \<^verbatim>\<open>redis.go\<close>, the providers' environment variables in \<^verbatim>\<open>azure.go\<close> and \<^verbatim>\<open>idporten.go\<close>, and \<^verbatim>\<open>pkg/logging\<close>.
  The libraries pflag, viper and conftools keep the values; they are the parameter \<open>viper_lib\<close>, whose
  state is the list of settings that the program has registered so far.
\<close>

section \<open>Settings\<close>

datatype setting =
    StringFlag string string
  | BoolFlag string bool
  | StringSliceFlag string "string list"
  | DurationFlag string duration
  | BindEnv string string
  | SetDefault string string
  | SetValue string string

definition OpenIDProvider :: string where "OpenIDProvider = ''openid.provider''"
definition OpenIDClientID :: string where "OpenIDClientID = ''openid.client-id''"
definition OpenIDClientJWK :: string where "OpenIDClientJWK = ''openid.client-jwk''"
definition OpenIDPostLogoutRedirectURI :: string where "OpenIDPostLogoutRedirectURI = ''openid.post-logout-redirect-uri''"
definition OpenIDScopes :: string where "OpenIDScopes = ''openid.scopes''"
definition OpenIDWellKnownURL :: string where "OpenIDWellKnownURL = ''openid.well-known-url''"
definition OpenIDACRValues :: string where "OpenIDACRValues = ''openid.acr-values''"
definition OpenIDUILocales :: string where "OpenIDUILocales = ''openid.ui-locales''"

lemmas setting_names = OpenIDProvider_def OpenIDClientID_def OpenIDClientJWK_def OpenIDPostLogoutRedirectURI_def OpenIDScopes_def
  OpenIDWellKnownURL_def OpenIDACRValues_def OpenIDUILocales_def

definition base_flags :: "setting list" where
  "base_flags =
     [StringFlag ''bind-address'' ''127.0.0.1:3000'', StringFlag ''log-format'' ''json'', StringFlag ''log-level'' ''info'',
      StringFlag ''metrics-bind-address'' ''127.0.0.1:3001'',
      BoolFlag ''auto-login'' False, StringSliceFlag ''auto-login-ignore-paths'' [], StringFlag ''encryption-key'' [],
      StringFlag ''error-path'' [], StringSliceFlag ''ingress'' [], StringFlag ''upstream-host'' ''127.0.0.1:8080'',
      BoolFlag ''session.inactivity'' False, DurationFlag ''session.inactivity-timeout'' (30 * Minute),
      DurationFlag ''session.max-lifetime'' Hour, BoolFlag ''session.refresh'' False,
      BoolFlag ''loginstatus.enabled'' False, StringFlag ''loginstatus.cookie-domain'' [], StringFlag ''loginstatus.cookie-name'' [],
      StringFlag ''loginstatus.resource-indicator'' [], StringFlag ''loginstatus.token-url'' []]"

definition redisFlags :: "setting list" where
  "redisFlags = [StringFlag ''redis.address'' [], StringFlag ''redis.password'' [], BoolFlag ''redis.tls'' True, StringFlag ''redis.username'' []]"

definition openIDFlags :: "setting list" where
  "openIDFlags =
     [StringFlag OpenIDClientID [], StringFlag OpenIDClientJWK [], StringFlag OpenIDPostLogoutRedirectURI [],
      StringSliceFlag OpenIDScopes [], StringFlag OpenIDWellKnownURL [], StringFlag OpenIDACRValues [], StringFlag OpenIDUILocales []]"

definition azureFlags :: "setting list" where
  "azureFlags = [BindEnv OpenIDClientID ''AZURE_APP_CLIENT_ID'', BindEnv OpenIDClientJWK ''AZURE_APP_JWK'',
     BindEnv OpenIDWellKnownURL ''AZURE_APP_WELL_KNOWN_URL'']"

definition idportenFlags :: "setting list" where
  "idportenFlags =
     [BindEnv OpenIDClientID ''IDPORTEN_CLIENT_ID'', BindEnv OpenIDClientJWK ''IDPORTEN_CLIENT_JWK'',
      BindEnv OpenIDWellKnownURL ''IDPORTEN_WELL_KNOWN_URL'',
      SetDefault OpenIDPostLogoutRedirectURI ''https://www.nav.no/no/utlogget'', SetDefault OpenIDACRValues ''Level4'',
      SetDefault OpenIDUILocales ''nb'']"

section \<open>The libraries\<close>

text \<open>What reading the configuration file finds: the file, none, or one that cannot be used.\<close>

datatype config_file = FileRead | FileNotFound | FileError error

record viper_lib =
  vp_ReadInConfig :: "setting list \<Rightarrow> config_file"
  vp_BindPFlags :: "setting list \<Rightarrow> err"
  vp_GetString :: "setting list \<Rightarrow> string \<Rightarrow> string"
  vp_Load :: "setting list \<Rightarrow> config result"
  log_ParseLevel :: "string \<Rightarrow> string result"

section \<open>Reading\<close>

datatype log_formatter = TextFormatter | JsonFormatter

text \<open>The formatter and the level that logging is set up with.\<close>

definition Setup :: "viper_lib \<Rightarrow> string \<Rightarrow> string \<Rightarrow> (log_formatter \<times> string) result" where
  "Setup v level format =
     (let formatter = (if format = ''json'' then Inr JsonFormatter else if format = ''text'' then Inr TextFormatter
                       else Inl (ErrOther ''log format is not recognized'')) in
      case formatter of
        Inl e \<Rightarrow> Inl e
      | Inr f \<Rightarrow>
          (case log_ParseLevel v level of
             Inl e \<Rightarrow> Inl (ErrOther ''while setting log level'')
           | Inr logLevel \<Rightarrow> Inr (f, logLevel)))"

definition provider_settings :: "string \<Rightarrow> setting list" where
  "provider_settings provider =
     (if provider = ProviderIDPorten then idportenFlags
      else if provider = ProviderAzure then azureFlags
      else [SetValue OpenIDProvider ProviderOpenID])"

definition initial_settings :: "setting list" where
  "initial_settings = base_flags @ redisFlags @ openIDFlags @ [StringFlag OpenIDProvider ProviderOpenID]"

text \<open>
  An error in the file is asserted, without a check, to be the one for a missing file: any other is a
  panic, here an error like the others. (\<^verbatim>\<open>flag.Parse\<close> ends the program if it fails.)
\<close>

definition Initialize :: "viper_lib \<Rightarrow> config result" where
  "Initialize v =
     (let s = initial_settings in
      case vp_ReadInConfig v s of
        FileError e \<Rightarrow> Inl (ErrOther ''panic: interface conversion'')
      | _ \<Rightarrow>
      (case vp_BindPFlags v s of
        Some e \<Rightarrow> Inl e
      | None \<Rightarrow>
      let s' = s @ provider_settings (vp_GetString v s OpenIDProvider) in
      (case vp_Load v s' of
        Inl e \<Rightarrow> Inl e
      | Inr cfg \<Rightarrow>
      (case Setup v (LogLevel cfg) (LogFormat cfg) of
        Inl e \<Rightarrow> Inl e
      | Inr _ \<Rightarrow>
      (case Config_Validate cfg of
        Some e \<Rightarrow> Inl (ErrOther ''validating config'')
      | None \<Rightarrow> Inr cfg)))))"

section \<open>What the libraries document\<close>

text \<open>
  The value of a setting, from the highest precedence to the lowest: a value that the program has set;
  one that the operator gave by a flag, in the environment or in the file; a default that the program
  has set; the default of the flag.
\<close>

fun last_set :: "setting list \<Rightarrow> string \<Rightarrow> string option" where
  "last_set [] k = None"
| "last_set (SetValue k' v # ss) k = (case last_set ss k of Some u \<Rightarrow> Some u | None \<Rightarrow> if k' = k then Some v else None)"
| "last_set (_ # ss) k = last_set ss k"

fun last_default :: "setting list \<Rightarrow> string \<Rightarrow> string option" where
  "last_default [] k = None"
| "last_default (SetDefault k' v # ss) k = (case last_default ss k of Some u \<Rightarrow> Some u | None \<Rightarrow> if k' = k then Some v else None)"
| "last_default (_ # ss) k = last_default ss k"

fun flag_default :: "setting list \<Rightarrow> string \<Rightarrow> string" where
  "flag_default [] k = []"
| "flag_default (StringFlag k' v # ss) k = (if k' = k then v else flag_default ss k)"
| "flag_default (_ # ss) k = flag_default ss k"

definition setting_value :: "(setting list \<Rightarrow> string \<Rightarrow> string option) \<Rightarrow> setting list \<Rightarrow> string \<Rightarrow> string" where
  "setting_value operator ss k =
     (case last_set ss k of Some v \<Rightarrow> v
      | None \<Rightarrow> (case operator ss k of Some v \<Rightarrow> v
      | None \<Rightarrow> (case last_default ss k of Some v \<Rightarrow> v | None \<Rightarrow> flag_default ss k)))"

text \<open>Only binding a variable to a setting can change what the operator has given for it.\<close>

definition viper_laws :: "viper_lib \<Rightarrow> (setting list \<Rightarrow> string \<Rightarrow> string option) \<Rightarrow> bool" where
  "viper_laws v operator \<longleftrightarrow>
     (\<forall>ss k. vp_GetString v ss k = setting_value operator ss k)
   \<and> (\<forall>ss ss' k. (\<forall>e. BindEnv k e \<notin> set ss') \<longrightarrow> operator (ss @ ss') k = operator ss k)
   \<and> (\<forall>ss cfg. vp_Load v ss = Inr cfg \<longrightarrow>
        op_Provider (cfg_OpenID cfg) = vp_GetString v ss OpenIDProvider
      \<and> op_ClientID (cfg_OpenID cfg) = vp_GetString v ss OpenIDClientID
      \<and> op_PostLogoutRedirectURI (cfg_OpenID cfg) = vp_GetString v ss OpenIDPostLogoutRedirectURI
      \<and> op_ACRValues (cfg_OpenID cfg) = vp_GetString v ss OpenIDACRValues
      \<and> op_UILocales (cfg_OpenID cfg) = vp_GetString v ss OpenIDUILocales)"

section \<open>Every configuration is sound\<close>

lemma initial_settings_plain [simp]:
  "last_set initial_settings k = None" "last_default initial_settings k = None"
  "flag_default initial_settings OpenIDProvider = ProviderOpenID"
proof -
  show "last_set initial_settings k = None" "last_default initial_settings k = None"
    by (simp_all add: initial_settings_def base_flags_def redisFlags_def openIDFlags_def)
  show "flag_default initial_settings OpenIDProvider = ProviderOpenID" by code_simp
qed

lemma last_set_append: "last_set (ss @ ss') k = (case last_set ss' k of Some v \<Rightarrow> Some v | None \<Rightarrow> last_set ss k)"
  by (induction ss k rule: last_set.induct) (auto split: option.splits)

lemma last_default_append:
  "last_default (ss @ ss') k = (case last_default ss' k of Some v \<Rightarrow> Some v | None \<Rightarrow> last_default ss k)"
  by (induction ss k rule: last_default.induct) (auto split: option.splits)

lemma provider_settings_eqs [simp]:
  "last_set (provider_settings p) k =
     (if p \<notin> {ProviderIDPorten, ProviderAzure} \<and> k = OpenIDProvider then Some ProviderOpenID else None)"
  "\<forall>e. BindEnv OpenIDProvider e \<notin> set (provider_settings p)" "\<forall>e. BindEnv OpenIDACRValues e \<notin> set (provider_settings p)"
  "\<forall>e. BindEnv OpenIDUILocales e \<notin> set (provider_settings p)" "\<forall>e. BindEnv OpenIDPostLogoutRedirectURI e \<notin> set (provider_settings p)"
  "last_default (provider_settings ProviderIDPorten) OpenIDACRValues = Some ''Level4''"
  "last_default (provider_settings ProviderIDPorten) OpenIDUILocales = Some ''nb''"
  "last_default (provider_settings ProviderIDPorten) OpenIDPostLogoutRedirectURI = Some ''https://www.nav.no/no/utlogget''"
proof -
  show "last_set (provider_settings p) k =
     (if p \<notin> {ProviderIDPorten, ProviderAzure} \<and> k = OpenIDProvider then Some ProviderOpenID else None)"
    by (simp add: provider_settings_def idportenFlags_def azureFlags_def)
  show "last_default (provider_settings ProviderIDPorten) OpenIDACRValues = Some ''Level4''"
    "last_default (provider_settings ProviderIDPorten) OpenIDUILocales = Some ''nb''"
    "last_default (provider_settings ProviderIDPorten) OpenIDPostLogoutRedirectURI = Some ''https://www.nav.no/no/utlogget''" by code_simp+
qed (simp_all add: provider_settings_def idportenFlags_def azureFlags_def setting_names)

text \<open>
  C21: Every configuration that is read is sound. Its provider is one of the three that the program
  knows, and whatever else the operator names becomes a plain OpenID provider; sessions time out by
  inactivity only if they can be refreshed; logging has a known format; and with ID-porten, the
  security level, the locale and the page after logout have the defaults that ID-porten prescribes,
  unless the operator gives them.
\<close>

theorem initialize_correct:
  assumes "viper_laws v operator" "Initialize v = Inr cfg"
  shows "op_Provider (cfg_OpenID cfg) =
      (case operator initial_settings OpenIDProvider of
         Some p \<Rightarrow> if p \<in> {ProviderIDPorten, ProviderAzure} then p else ProviderOpenID | None \<Rightarrow> ProviderOpenID)
    \<and> (Inactivity (cfg_Session cfg) \<longrightarrow> cfg_Refresh (cfg_Session cfg))
    \<and> LogFormat cfg \<in> {''json'', ''text''} \<and> is_ok (log_ParseLevel v (LogLevel cfg))
    \<and> (op_Provider (cfg_OpenID cfg) = ProviderIDPorten \<longrightarrow>
         op_ACRValues (cfg_OpenID cfg) = case_option ''Level4'' id (operator initial_settings OpenIDACRValues)
       \<and> op_UILocales (cfg_OpenID cfg) = case_option ''nb'' id (operator initial_settings OpenIDUILocales)
       \<and> op_PostLogoutRedirectURI (cfg_OpenID cfg) =
           case_option ''https://www.nav.no/no/utlogget'' id (operator initial_settings OpenIDPostLogoutRedirectURI))"
proof -
  let ?p = "vp_GetString v initial_settings OpenIDProvider"
  let ?s = "initial_settings @ provider_settings ?p"
  have l: "vp_Load v ?s = Inr cfg" "is_ok (Setup v (LogLevel cfg) (LogFormat cfg))" "Config_Validate cfg = None"
    using assms(2) by (auto simp: Initialize_def Let_def split: config_file.splits option.splits sum.splits)
  have val: "vp_GetString v ss k = setting_value operator ss k" for ss k using assms(1) by (simp add: viper_laws_def)
  have op: "operator (ss @ ss') k = operator ss k" if "\<forall>e. BindEnv k e \<notin> set ss'" for ss ss' k
    using assms(1) that by (simp add: viper_laws_def)
  have f: "op_Provider (cfg_OpenID cfg) = setting_value operator ?s OpenIDProvider"
      "op_ACRValues (cfg_OpenID cfg) = setting_value operator ?s OpenIDACRValues"
      "op_UILocales (cfg_OpenID cfg) = setting_value operator ?s OpenIDUILocales"
      "op_PostLogoutRedirectURI (cfg_OpenID cfg) = setting_value operator ?s OpenIDPostLogoutRedirectURI"
    using assms(1) l(1) val by (auto simp: viper_laws_def)
  have p: "?p = (case operator initial_settings OpenIDProvider of Some p \<Rightarrow> p | None \<Rightarrow> ProviderOpenID)"
    by (simp add: val setting_value_def split: option.splits)
  have names: "ProviderIDPorten \<noteq> ProviderAzure" "ProviderOpenID \<notin> {ProviderIDPorten, ProviderAzure}"
    by (simp_all add: ProviderIDPorten_def ProviderAzure_def ProviderOpenID_def)
  have prov: "op_Provider (cfg_OpenID cfg) = (if ?p \<in> {ProviderIDPorten, ProviderAzure} then ?p else ProviderOpenID)"
  proof (cases "?p \<in> {ProviderIDPorten, ProviderAzure}")
    case True
    then have "operator initial_settings OpenIDProvider = Some ?p" using p names by (auto split: option.splits)
    then show ?thesis using True
      by (simp add: f(1) setting_value_def last_set_append provider_settings_eqs op)
  qed (simp add: f(1) setting_value_def last_set_append provider_settings_eqs)
  have porten: "op_ACRValues (cfg_OpenID cfg) = case_option ''Level4'' id (operator initial_settings OpenIDACRValues)
       \<and> op_UILocales (cfg_OpenID cfg) = case_option ''nb'' id (operator initial_settings OpenIDUILocales)
       \<and> op_PostLogoutRedirectURI (cfg_OpenID cfg) =
           case_option ''https://www.nav.no/no/utlogget'' id (operator initial_settings OpenIDPostLogoutRedirectURI)"
    if i: "?p = ProviderIDPorten"
  proof -
    have st: "last_set (initial_settings @ provider_settings ProviderIDPorten) k = None" for k
      by (simp only: last_set_append provider_settings_eqs(1)) simp
    have df: "last_default (initial_settings @ provider_settings ProviderIDPorten) k = last_default (provider_settings ProviderIDPorten) k" for k
      by (simp add: last_default_append split: option.split)
    have sv: "setting_value operator (initial_settings @ provider_settings ProviderIDPorten) k = case_option u id (operator initial_settings k)"
      if "last_default (provider_settings ProviderIDPorten) k = Some u" "\<forall>e. BindEnv k e \<notin> set (provider_settings ProviderIDPorten)" for k u
      using op[OF that(2), of initial_settings] that(1) by (simp only: setting_value_def st df) (simp split: option.split)
    show ?thesis unfolding f(2-4) i by (intro conjI sv provider_settings_eqs)
  qed
  have "op_Provider (cfg_OpenID cfg) = (case operator initial_settings OpenIDProvider of
         Some p \<Rightarrow> if p \<in> {ProviderIDPorten, ProviderAzure} then p else ProviderOpenID | None \<Rightarrow> ProviderOpenID)"
    unfolding prov p using names(2) by (cases "operator initial_settings OpenIDProvider") simp_all
  moreover have "?p = ProviderIDPorten" if "op_Provider (cfg_OpenID cfg) = ProviderIDPorten"
    using that prov names by (metis insertCI)
  moreover have "Inactivity (cfg_Session cfg) \<longrightarrow> cfg_Refresh (cfg_Session cfg)"
    using l(3) by (auto simp: Config_Validate_def split: if_splits)
  moreover have "LogFormat cfg \<in> {''json'', ''text''} \<and> is_ok (log_ParseLevel v (LogLevel cfg))"
    using l(2) by (auto simp: Setup_def Let_def is_ok_def split: if_splits sum.splits)
  ultimately show ?thesis using porten by (intro conjI impI) blast+
qed

section \<open>An instance\<close>

text \<open>An operator who asks for ID-porten and gives nothing else.\<close>

definition example_operator :: "setting list \<Rightarrow> string \<Rightarrow> string option" where
  "example_operator ss k = (if k = OpenIDProvider then Some ProviderIDPorten else None)"

definition example_viper :: viper_lib where
  "example_viper = \<lparr> vp_ReadInConfig = (\<lambda>_. FileNotFound), vp_BindPFlags = (\<lambda>_. None),
     vp_GetString = setting_value example_operator,
     vp_Load = (\<lambda>ss. Inr (example_config\<lparr> cfg_OpenID := (cfg_OpenID example_config)
       \<lparr> op_Provider := setting_value example_operator ss OpenIDProvider,
          op_ClientID := setting_value example_operator ss OpenIDClientID,
          op_PostLogoutRedirectURI := setting_value example_operator ss OpenIDPostLogoutRedirectURI,
          op_ACRValues := setting_value example_operator ss OpenIDACRValues,
          op_UILocales := setting_value example_operator ss OpenIDUILocales \<rparr> \<rparr>)),
     log_ParseLevel = Inr \<rparr>"

lemma example_viper_laws: "viper_laws example_viper example_operator"
  by (simp add: viper_laws_def example_viper_def example_operator_def)

theorem initialize_correct_witness:
  "\<exists>cfg. Initialize example_viper = Inr cfg \<and> op_Provider (cfg_OpenID cfg) = ProviderIDPorten \<and> op_ACRValues (cfg_OpenID cfg) = ''Level4''"
proof -
  obtain cfg where c: "Initialize example_viper = Inr cfg"
    by (simp add: Initialize_def example_viper_def Let_def Setup_def Config_Validate_def example_config_def)
  have o: "example_operator initial_settings OpenIDProvider = Some ProviderIDPorten"
    "example_operator initial_settings OpenIDACRValues = None"
    by (simp_all add: example_operator_def setting_names)
  show ?thesis using initialize_correct[OF example_viper_laws c] c unfolding o by auto
qed

end
