(* ===== verification/Program.thy ===== *)
theory Program
  imports ReachableExamples StoreSetup ConfigInit
begin

text \<open>
  The program as \<^verbatim>\<open>run\<close> in \<^verbatim>\<open>cmd/wonderwall/main.go\<close> puts it together: the configuration is read
  (ConfigInit), the store is chosen (StoreSetup), the handler is built (Server), and requests are served
  (SessionInvariant). What each part guarantees is composed into a statement about the whole.
\<close>

section \<open>Putting it together\<close>

text \<open>
  The result is the handler that is served, with the store in memory or in Redis. The environment
  is given for either, since a world carries its store.
\<close>

definition run ::
    "viper_lib \<Rightarrow> ext \<Rightarrow> (string \<Rightarrow> jwk_key result) \<Rightarrow> map_order \<Rightarrow> (redis_options \<Rightarrow> 'r redis_client)
     \<Rightarrow> ('r redis_client \<Rightarrow> err) \<Rightarrow> memory world \<Rightarrow> 'r world
     \<Rightarrow> (memory standard_handler \<times> memory world + 'r standard_handler \<times> 'r world) result" where
  "run v x jwk_ParseKey order redis_NewClient ping wm wr =
     (case Initialize v of
        Inl e \<Rightarrow> Inl e
      | Inr cfg \<Rightarrow>
      (case NewStore redis_NewClient ping cfg of
        Inr (Inl m) \<Rightarrow> (case run_setup x jwk_ParseKey order cfg (Inr m) wm of (Inl e, _) \<Rightarrow> Inl e | (Inr s, w) \<Rightarrow> Inr (Inl (s, w)))
      | Inr (Inr c) \<Rightarrow> (case run_setup x jwk_ParseKey order cfg (Inr c) wr of (Inl e, _) \<Rightarrow> Inl e | (Inr s, w) \<Rightarrow> Inr (Inr (s, w)))
      | Inl e \<Rightarrow> (case run_setup x jwk_ParseKey order cfg (Inl e) wr of (Inl e', _) \<Rightarrow> Inl e' | (Inr s, w) \<Rightarrow> Inr (Inr (s, w)))))"

section \<open>What the parts give\<close>

lemma run_setup_parts:
  fixes w w' :: "'s world"
  assumes "run_setup x jwk_ParseKey order cfg newStore w = (Inr s, w')"
  shows "newStore = Inr (h_store (sh_sessions s))" "sh_config s = cfg" "h_crypter (sh_sessions s) = sh_crypter s"
    "c_cfg (sh_client s) = sh_openidConfig s" "cl_OpenID (Client (sh_openidConfig s)) = cfg_OpenID cfg"
    "op_ClientID (cfg_OpenID cfg) \<noteq> []" "h_cfg (sh_sessions s) = cfg_Session cfg"
proof -
  obtain k oc and w1 w2 :: "'s world" where oc: "NewConfig jwk_ParseKey cfg w1 = (Inr oc, w2)"
      and h: "NewHandler order cfg newStore DefaultOptions oc (NewCrypter k) = Inr s"
    using assms by (auto simp: run_setup_def Let_def split: prod.splits sum.splits)
  obtain cc where cc: "NewClientConfig jwk_ParseKey cfg = Inr cc" "Client oc = cc"
    using oc by (auto simp: NewConfig_def split: sum.splits prod.splits)
  have "cl_OpenID cc = cfg_OpenID cfg" "op_ClientID (cfg_OpenID cfg) \<noteq> []"
    using cc(1) by (auto simp: NewClientConfig_def Let_def ClientID_def split: sum.splits if_splits)
  then have c: "cl_OpenID (Client oc) = cfg_OpenID cfg" "op_ClientID (cfg_OpenID cfg) \<noteq> []" using cc(2) by simp_all
  show "newStore = Inr (h_store (sh_sessions s))" "sh_config s = cfg" "h_crypter (sh_sessions s) = sh_crypter s"
    "c_cfg (sh_client s) = sh_openidConfig s" "cl_OpenID (Client (sh_openidConfig s)) = cfg_OpenID cfg"
    "op_ClientID (cfg_OpenID cfg) \<noteq> []" "h_cfg (sh_sessions s) = cfg_Session cfg"
    using h c by (auto simp: NewHandler_def session_NewHandler_def NewClient_def Let_def split: sum.splits)
qed

lemma run_parts:
  fixes wr :: "'r world"
  assumes "run v x jwk_ParseKey order redis_NewClient ping wm wr = Inr started"
  obtains cfg where "Initialize v = Inr cfg"
    "case started of
        Inl (s, w) \<Rightarrow> NewStore redis_NewClient ping cfg = Inr (Inl (h_store (sh_sessions s)))
          \<and> run_setup x jwk_ParseKey order cfg (Inr (h_store (sh_sessions s))) wm = (Inr s, w)
      | Inr (s, w) \<Rightarrow> NewStore redis_NewClient ping cfg = Inr (Inr (h_store (sh_sessions s)))
          \<and> run_setup x jwk_ParseKey order cfg (Inr (h_store (sh_sessions s))) wr = (Inr s, w)"
proof -
  obtain cfg where i: "Initialize v = Inr cfg" using assms by (auto simp: run_def split: sum.splits)
  have no: "fst (run_setup x jwk_ParseKey order cfg (Inl e :: 'r session_store_ops result) wr) \<noteq> Inr s" for e s
    using run_setup_parts(1)[of x jwk_ParseKey order cfg "Inl e" wr s] by (metis Inl_Inr_False surjective_pairing)
  show thesis
  proof (cases "NewStore redis_NewClient ping cfg")
    case (Inl e)
    then show thesis using assms i no[of e] by (auto simp: run_def split: prod.splits sum.splits)
  next
    case (Inr st)
    show thesis
    proof (cases st)
      case (Inl m)
      then obtain s w where "run_setup x jwk_ParseKey order cfg (Inr m) wm = (Inr s, w)" "started = Inl (s, w)"
        using assms i Inr by (auto simp: run_def split: prod.splits sum.splits)
      then show thesis using i Inr Inl run_setup_parts(1) that by fastforce
    next
      case (Inr c)
      then obtain s w where "run_setup x jwk_ParseKey order cfg (Inr c) wr = (Inr s, w)" "started = Inr (s, w)"
        using assms i \<open>NewStore redis_NewClient ping cfg = Inr st\<close> by (auto simp: run_def split: prod.splits sum.splits)
      then show thesis using i Inr \<open>NewStore redis_NewClient ping cfg = Inr st\<close> run_setup_parts(1) that by fastforce
    qed
  qed
qed

lemma new_store_contract:
  assumes "NewStore redis_NewClient ping cfg = Inr st" "\<forall>opts. redis_laws (redis_NewClient opts) kv"
  shows "case st of Inl m \<Rightarrow> Address (cfg_Redis cfg) = [] \<and> session_store m (\<lambda>\<sigma>. \<sigma>)
    | Inr c \<Rightarrow> Address (cfg_Redis cfg) \<noteq> [] \<and> session_store c (redis_contents kv)"
  using assms redis_session_store memory.session_store_axioms
  by (auto simp: NewStore_def redis_Client_def Let_def split: if_splits sum.splits option.splits)

section \<open>The whole program\<close>

text \<open>
  Every session that any store reachable by serving requests holds under the key of an identifier
  decrypts, and its ID token was verified by keys and is valid for the given client and nonce.
\<close>

definition sessions_verified ::
    "ext \<Rightarrow> map_order \<Rightarrow> router \<Rightarrow> 's standard_handler \<Rightarrow> ('s \<Rightarrow> string \<rightharpoonup> EncryptedData) \<Rightarrow> string \<Rightarrow> bool" where
  "sessions_verified x order chi s contents client_id \<longleftrightarrow>
     (\<forall>\<sigma> sid e. reachable x order chi s contents \<sigma> \<longrightarrow> contents \<sigma> (Key (sh_sessions s) sid) = Some e \<longrightarrow>
        \<not> HasSuffix sid ''.lock'' \<longrightarrow>
        (\<exists>d idt lt keys now now' nonce opts. Data_Decrypt (sh_crypter s) e = Inr d
           \<and> (valid_utf8 sid \<longrightarrow> ExternalSessionID d = sid) \<and> (valid_utf8 idt \<longrightarrow> data_IDToken d = idt)
           \<and> jwt_ParseString x now AcceptableClockSkew keys idt = Inr lt \<and> jwt_Validate x now' opts lt = None
           \<and> {WithAudience client_id, WithClaimValue ''nonce'' nonce, WithIssuer (Issuer (Provider (sh_openidConfig s)))} \<subseteq> set opts))"

lemma setup_sessions_verified:
  fixes s :: "'s standard_handler"
  assumes "run_setup x jwk_ParseKey order cfg (Inr (h_store (sh_sessions s))) w = (Inr s, w')"
    and "session_store (h_store (sh_sessions s)) contents"
  shows "sessions_verified x order' chi s contents (op_ClientID (cfg_OpenID cfg))"
proof -
  note p = run_setup_parts[OF assms(1)]
  have h: "session_handling (sh_sessions s) contents" using assms(2) by (simp add: session_handling_def)
  have o: "{WithAudience (op_ClientID (cfg_OpenID cfg)), WithClaimValue ''nonce'' nonce,
      WithIssuer (Issuer (Provider (sh_openidConfig s)))} \<subseteq> set (validate_options (c_cfg (sh_client s)) nonce)" for nonce
    using p(4,5) by (simp add: validate_options_def ClientID_def)
  show ?thesis unfolding sessions_verified_def
  proof (intro allI impI)
    fix \<sigma> sid e
    assume "reachable x order' chi s contents \<sigma>" "contents \<sigma> (Key (sh_sessions s) sid) = Some e" "\<not> HasSuffix sid ''.lock''"
    from reachable_session[OF h this] show "\<exists>d idt lt keys now now' nonce opts. Data_Decrypt (sh_crypter s) e = Inr d
           \<and> (valid_utf8 sid \<longrightarrow> ExternalSessionID d = sid) \<and> (valid_utf8 idt \<longrightarrow> data_IDToken d = idt)
           \<and> jwt_ParseString x now AcceptableClockSkew keys idt = Inr lt \<and> jwt_Validate x now' opts lt = None
           \<and> {WithAudience (op_ClientID (cfg_OpenID cfg)), WithClaimValue ''nonce'' nonce, WithIssuer (Issuer (Provider (sh_openidConfig s)))} \<subseteq> set opts"
      using o p(3) by (metis (no_types, lifting))
  qed
qed


definition configured_viper :: viper_lib where
  "configured_viper = example_viper\<lparr> vp_Load := (\<lambda>_. Inr example_config) \<rparr>"

lemma configured_viper_initialize: "Initialize configured_viper = Inr example_config"
  by (simp add: configured_viper_def Initialize_def example_viper_def Let_def Setup_def Config_Validate_def example_config_def)

lemma program_starts:
  "\<exists>s w. run configured_viper example_ext Inr (\<lambda>m. m) (\<lambda>_. map_client) (\<lambda>_. None) setup_world (quiet_world 0 Map.empty) = Inr (Inl (s, w))"
proof -
  obtain s w where r: "run_setup example_ext Inr (\<lambda>m. m) example_config (Inr memory_store) setup_world = (Inr s, w)"
    by (rule example_setup)
  have "NewStore (\<lambda>_. map_client) (\<lambda>_. None) example_config = Inr (Inl memory_store)"
    by (simp add: NewStore_def example_config_def)
  then show ?thesis using r configured_viper_initialize by (simp add: run_def)
qed


end
