(* ===== verification/Shutdown.thy ===== *)
theory Shutdown
  imports Main
begin

text \<open>
  \<^verbatim>\<open>pkg/server/server.go\<close>: \<^verbatim>\<open>Start\<close> serves until it is told to stop, and then shuts down within twenty
  seconds. It is three goroutines over two contexts, modelled as a step relation in which any of them may
  move; what \<^verbatim>\<open>net/http\<close> does (when listening ends, and how a shutdown ends) is left open, except that
  listening ends with \<^verbatim>\<open>ErrServerClosed\<close> only after a shutdown has been asked for.
\<close>

section \<open>The state\<close>

datatype listen_end = ErrServerClosed | ListenError string

text \<open>The main goroutine: listening, past it, and returned (\<open>None\<close> is \<^verbatim>\<open>nil\<close>).\<close>

datatype main_state = Listening | AwaitingDone | Returned "string option"

text \<open>The goroutine that waits for a signal, and the one that watches the shutdown's deadline.\<close>

datatype signal_state = AwaitingSignal | InShutdown | ShutDown | Done
datatype watch_state = NotStarted | Watching | WatchEnded
datatype ctx_state = CtxOpen | CtxCanceled | CtxDeadline

record server_state =
  main :: main_state
  sig :: signal_state
  watch :: watch_state
  shutdownCtx :: ctx_state
  serverDone :: bool
  fatal :: bool

definition initial_server :: server_state where
  "initial_server = \<lparr> main = Listening, sig = AwaitingSignal, watch = NotStarted, shutdownCtx = CtxOpen,
     serverDone = False, fatal = False \<rparr>"

section \<open>The steps\<close>

text \<open>\<^verbatim>\<open>log.Fatal\<close> ends the process: no step is possible after it.\<close>

inductive server_step :: "server_state \<Rightarrow> server_state \<Rightarrow> bool" where
  signal: "\<not> fatal s \<Longrightarrow> sig s = AwaitingSignal \<Longrightarrow> server_step s (s\<lparr> sig := InShutdown, watch := Watching \<rparr>)"
| listen_closed: "\<not> fatal s \<Longrightarrow> main s = Listening \<Longrightarrow> sig s \<noteq> AwaitingSignal \<Longrightarrow> server_step s (s\<lparr> main := AwaitingDone \<rparr>)"
| listen_error: "\<not> fatal s \<Longrightarrow> main s = Listening \<Longrightarrow> server_step s (s\<lparr> main := Returned (Some e) \<rparr>)"
| deadline: "\<not> fatal s \<Longrightarrow> sig s \<in> {InShutdown, ShutDown} \<Longrightarrow> shutdownCtx s = CtxOpen \<Longrightarrow> server_step s (s\<lparr> shutdownCtx := CtxDeadline \<rparr>)"
| watch_fatal: "\<not> fatal s \<Longrightarrow> watch s = Watching \<Longrightarrow> shutdownCtx s = CtxDeadline \<Longrightarrow> server_step s (s\<lparr> fatal := True \<rparr>)"
| watch_end: "\<not> fatal s \<Longrightarrow> watch s = Watching \<Longrightarrow> shutdownCtx s = CtxCanceled \<Longrightarrow> server_step s (s\<lparr> watch := WatchEnded \<rparr>)"
| shutdown_ok: "\<not> fatal s \<Longrightarrow> sig s = InShutdown \<Longrightarrow> server_step s (s\<lparr> sig := ShutDown \<rparr>)"
| shutdown_error: "\<not> fatal s \<Longrightarrow> sig s = InShutdown \<Longrightarrow> server_step s (s\<lparr> fatal := True \<rparr>)"
| stop_contexts: "\<not> fatal s \<Longrightarrow> sig s = ShutDown \<Longrightarrow>
    server_step s (s\<lparr> sig := Done, shutdownCtx := (if shutdownCtx s = CtxOpen then CtxCanceled else shutdownCtx s), serverDone := True \<rparr>)"
| returns: "\<not> fatal s \<Longrightarrow> main s = AwaitingDone \<Longrightarrow> serverDone s \<Longrightarrow> server_step s (s\<lparr> main := Returned None \<rparr>)"

inductive_cases server_stepE: "server_step s s'"

section \<open>Correctness\<close>

definition server_inv :: "server_state \<Rightarrow> bool" where
  "server_inv s \<longleftrightarrow> (serverDone s \<longleftrightarrow> sig s = Done) \<and> (main s = AwaitingDone \<longrightarrow> sig s \<noteq> AwaitingSignal)
     \<and> (main s = Returned None \<longrightarrow> serverDone s) \<and> (shutdownCtx s = CtxOpen \<longrightarrow> \<not> serverDone s)
     \<and> (watch s = NotStarted \<longleftrightarrow> sig s = AwaitingSignal) \<and> (shutdownCtx s = CtxCanceled \<longrightarrow> serverDone s)"

lemma server_inv_step: "server_step s s' \<Longrightarrow> server_inv s \<Longrightarrow> server_inv s'"
  by (induction rule: server_step.induct) (auto simp: server_inv_def)

lemma server_inv_initial: "server_inv initial_server"
  by (simp add: server_inv_def initial_server_def)

lemma server_inv_reachable: "server_step\<^sup>*\<^sup>* initial_server s \<Longrightarrow> server_inv s"
  by (induction rule: rtranclp_induct) (use server_inv_initial server_inv_step in blast)+

definition server_measure :: "server_state \<Rightarrow> nat" where
  "server_measure s = (case main s of Listening \<Rightarrow> 2 | AwaitingDone \<Rightarrow> 1 | Returned _ \<Rightarrow> 0)
     + (case sig s of AwaitingSignal \<Rightarrow> 6 | InShutdown \<Rightarrow> 4 | ShutDown \<Rightarrow> 3 | Done \<Rightarrow> 0)
     + (case watch s of NotStarted \<Rightarrow> 1 | Watching \<Rightarrow> 1 | WatchEnded \<Rightarrow> 0)
     + (if shutdownCtx s = CtxOpen then 1 else 0) + (if fatal s then 0 else 1)"

lemma server_measure_less: "server_step s s' \<Longrightarrow> server_measure s' < server_measure s"
  by (induction rule: server_step.induct) (auto simp: server_measure_def)

text \<open>
  The server stops gracefully or not at all. \<^verbatim>\<open>Start\<close> returns without an error only once a shutdown
  has been asked for and has ended well; every run of the goroutines ends; and once a signal has come no
  run gets stuck: it ends with \<^verbatim>\<open>Start\<close> having returned, or with the process ended by a fatal error.
\<close>

theorem graceful_shutdown:
  assumes "server_step\<^sup>*\<^sup>* initial_server s"
  shows "(main s = Returned None \<longrightarrow> sig s = Done) \<and> wfP (\<lambda>t u. server_step u t)
    \<and> (sig s \<noteq> AwaitingSignal \<longrightarrow> (\<nexists>t. server_step s t) \<longrightarrow> fatal s \<or> (\<exists>e. main s = Returned e))"
proof (intro conjI impI)
  note inv = server_inv_reachable[OF assms]
  show "sig s = Done" if "main s = Returned None" using that inv by (auto simp: server_inv_def)
  show "wfP (\<lambda>t u. server_step u t)"
    by (rule wfp_if_convertible_to_nat[where f = server_measure]) (rule server_measure_less)
  show "fatal s \<or> (\<exists>e. main s = Returned e)" if "sig s \<noteq> AwaitingSignal" "\<nexists>t. server_step s t"
  proof (rule ccontr)
    assume n: "\<not> (fatal s \<or> (\<exists>e. main s = Returned e))"
    then consider "main s = Listening" | "main s = AwaitingDone" by (cases "main s") auto
    then show False
    proof cases
      case 1
      then show False using server_step.listen_closed n that by blast
    next
      case 2
      have "sig s \<noteq> InShutdown" "sig s \<noteq> ShutDown" using server_step.shutdown_ok server_step.stop_contexts n that(2) by blast+
      then have "sig s = Done" using that(1) by (cases "sig s") auto
      then have "serverDone s" using inv by (simp add: server_inv_def)
      then show False using server_step.returns 2 n that(2) by blast
    qed
  qed
qed

theorem graceful_shutdown_witness:
  "\<exists>s. server_step\<^sup>*\<^sup>* initial_server s \<and> main s = Returned None \<and> sig s = Done \<and> \<not> fatal s"
proof -
  let ?s1 = "initial_server\<lparr> sig := InShutdown, watch := Watching \<rparr>"
  let ?s2 = "?s1\<lparr> main := AwaitingDone \<rparr>"
  let ?s3 = "?s2\<lparr> sig := ShutDown \<rparr>"
  let ?s4 = "?s3\<lparr> sig := Done, shutdownCtx := (if shutdownCtx ?s3 = CtxOpen then CtxCanceled else shutdownCtx ?s3), serverDone := True \<rparr>"
  let ?s5 = "?s4\<lparr> main := Returned None \<rparr>"
  have "server_step initial_server ?s1" by (rule server_step.signal) (simp_all add: initial_server_def)
  moreover have "server_step ?s1 ?s2" by (rule server_step.listen_closed) (simp_all add: initial_server_def)
  moreover have "server_step ?s2 ?s3" by (rule server_step.shutdown_ok) (simp_all add: initial_server_def)
  moreover have "server_step ?s3 ?s4" by (rule server_step.stop_contexts) (simp_all add: initial_server_def)
  moreover have "server_step ?s4 ?s5" by (rule server_step.returns) (simp_all add: initial_server_def)
  ultimately have r: "server_step\<^sup>*\<^sup>* initial_server ?s5" by (meson converse_rtranclp_into_rtranclp rtranclp.rtrancl_refl)
  moreover have "main ?s5 = Returned None" "\<not> fatal ?s5" by (simp_all add: initial_server_def)
  ultimately show ?thesis using graceful_shutdown[OF r] by blast
qed

end
