(* ===== verification/Metrics.thy ===== *)
theory Metrics
  imports ErrorHandler
begin

text \<open>
  \<^verbatim>\<open>pkg/metrics/metrics.go\<close> and \<^verbatim>\<open>pkg/middleware/prometheus.go\<close>: what is counted and measured. The
  collectors are those of the Prometheus client, a record of operations on abstract counters, vectors of
  counters and vectors of histograms; what its documentation says of the vectors is \<open>prom_laws\<close>. A
  result \<open>None\<close> is a panic.
\<close>

section \<open>The library\<close>

record collector_opts =
  co_Name :: string
  co_Namespace :: string
  co_ConstLabels :: "(string \<times> string) list"

text \<open>\<open>Vec_With\<close> finds or creates a child from named labels, \<open>Vec_WithLabelValues\<close> from values in order.\<close>

record ('c, 'v, 'h) prom_lib =
  NewCounter :: "collector_opts \<Rightarrow> 'c"
  Counter_Inc :: "'c \<Rightarrow> 'c"
  NewCounterVec :: "collector_opts \<Rightarrow> string list \<Rightarrow> 'v"
  Vec_With :: "'v \<Rightarrow> (string \<times> string) list \<Rightarrow> (string list \<times> 'v) option"
  Vec_WithLabelValues :: "'v \<Rightarrow> string list \<Rightarrow> (string list \<times> 'v) option"
  Vec_Inc :: "'v \<Rightarrow> string list \<Rightarrow> 'v"
  ExponentialBuckets :: "rat \<Rightarrow> rat \<Rightarrow> nat \<Rightarrow> rat list"
  NewHistogramVec :: "collector_opts \<Rightarrow> rat list \<Rightarrow> string list \<Rightarrow> 'h"
  Hist_With :: "'h \<Rightarrow> (string \<times> string) list \<Rightarrow> (string list \<times> 'h) option"
  Hist_WithLabelValues :: "'h \<Rightarrow> string list \<Rightarrow> (string list \<times> 'h) option"
  Hist_Observe :: "'h \<Rightarrow> string list \<Rightarrow> rat \<Rightarrow> 'h"

section \<open>Package metrics\<close>

definition Namespace :: string where "Namespace = ''wonderwall''"
definition LabelHpa :: string where "LabelHpa = ''hpa''"
definition LabelOperation :: string where "LabelOperation = ''operation''"
definition LabelProvider :: string where "LabelProvider = ''provider''"
definition HpaRate :: string where "HpaRate = ''rate''"
definition LogoutOperationFrontChannel :: string where "LogoutOperationFrontChannel = ''front_channel''"
definition LogoutOperationLocal :: string where "LogoutOperationLocal = ''local''"
definition LogoutOperationSelfInitiated :: string where "LogoutOperationSelfInitiated = ''self_initiated''"

text \<open>The variadic argument: the first element, if any, replaces the constant labels.\<close>

definition redisLatency :: "('c, 'v, 'h) prom_lib \<Rightarrow> (string \<times> string) list list \<Rightarrow> 'h" where
  "redisLatency p constLabels =
     (let opts = \<lparr> co_Name = ''redis_latency'', co_Namespace = Namespace, co_ConstLabels = [] \<rparr>;
          opts = (if length constLabels > 0 then opts\<lparr> co_ConstLabels := hd constLabels \<rparr> else opts)
      in NewHistogramVec p opts (ExponentialBuckets p (1 / 1000) 2 16) [LabelOperation])"

definition metrics_logins :: "('c, 'v, 'h) prom_lib \<Rightarrow> (string \<times> string) list list \<Rightarrow> 'c" where
  "metrics_logins p constLabels =
     (let opts = \<lparr> co_Name = ''logins'', co_Namespace = Namespace, co_ConstLabels = [(LabelHpa, HpaRate)] \<rparr>;
          opts = (if length constLabels > 0 then opts\<lparr> co_ConstLabels := hd constLabels \<rparr> else opts)
      in NewCounter p opts)"

definition metrics_logouts :: "('c, 'v, 'h) prom_lib \<Rightarrow> (string \<times> string) list list \<Rightarrow> 'v" where
  "metrics_logouts p constLabels =
     (let opts = \<lparr> co_Name = ''logouts'', co_Namespace = Namespace, co_ConstLabels = [(LabelHpa, HpaRate)] \<rparr>;
          opts = (if length constLabels > 0 then opts\<lparr> co_ConstLabels := hd constLabels \<rparr> else opts)
      in NewCounterVec p opts [LabelOperation])"

text \<open>The package's variables.\<close>

record ('c, 'v, 'h) metrics_vars =
  RedisLatency :: 'h
  Logins :: 'c
  Logouts :: 'v

definition initial_metrics :: "('c, 'v, 'h) prom_lib \<Rightarrow> ('c, 'v, 'h) metrics_vars" where
  "initial_metrics p = \<lparr> RedisLatency = redisLatency p [], Logins = metrics_logins p [], Logouts = metrics_logouts p [] \<rparr>"

definition WithProvider :: "('c, 'v, 'h) prom_lib \<Rightarrow> string \<Rightarrow> ('c, 'v, 'h) metrics_vars \<Rightarrow> ('c, 'v, 'h) metrics_vars" where
  "WithProvider p provider m = m\<lparr> RedisLatency := redisLatency p [[(LabelProvider, provider)]],
     Logins := metrics_logins p [[(LabelHpa, HpaRate), (LabelProvider, provider)]],
     Logouts := metrics_logouts p [[(LabelHpa, HpaRate), (LabelProvider, provider)]] \<rparr>"

fun init_labels :: "('c, 'v, 'h) prom_lib \<Rightarrow> string list \<Rightarrow> 'v \<Rightarrow> 'v option" where
  "init_labels p [] v = Some v"
| "init_labels p (operation # os) v =
     (case Vec_With p v [(LabelOperation, operation)] of None \<Rightarrow> None | Some (_, v') \<Rightarrow> init_labels p os v')"

definition InitLabels :: "('c, 'v, 'h) prom_lib \<Rightarrow> ('c, 'v, 'h) metrics_vars \<Rightarrow> ('c, 'v, 'h) metrics_vars option" where
  "InitLabels p m =
     (let logoutOperations = [LogoutOperationSelfInitiated, LogoutOperationFrontChannel] in
      case init_labels p logoutOperations (Logouts m) of None \<Rightarrow> None | Some v \<Rightarrow> Some (m\<lparr> Logouts := v \<rparr>))"

text \<open>
  \<^verbatim>\<open>Handle\<close>, up to the serving of what the registry gathers; \<open>register\<close> tells whether the registry takes
  the three collectors, which panics otherwise.
\<close>

definition metrics_Handle ::
    "('c, 'v, 'h) prom_lib \<Rightarrow> ('h \<times> 'c \<times> 'v \<Rightarrow> bool) \<Rightarrow> string \<Rightarrow> ('c, 'v, 'h) metrics_vars \<Rightarrow> ('c, 'v, 'h) metrics_vars option" where
  "metrics_Handle p register provider m =
     (let m1 = WithProvider p provider m in
      if register (RedisLatency m1, Logins m1, Logouts m1) then InitLabels p m1 else None)"

definition ObserveRedisLatency ::
    "('c, 'v, 'h) prom_lib \<Rightarrow> string \<Rightarrow> ('s world \<Rightarrow> err \<times> 's world) \<Rightarrow> ('c, 'v, 'h) metrics_vars \<Rightarrow> 's world
     \<Rightarrow> (err \<times> ('c, 'v, 'h) metrics_vars \<times> 's world) option" where
  "ObserveRedisLatency p operation f m w =
     (let (timer, w1) = time_Now w; (e, w2) = f w1; (now, w3) = time_Now w2; used = Time_Sub now timer in
      case Hist_With p (RedisLatency m) [(LabelOperation, operation)] of
        None \<Rightarrow> None
      | Some (child, h) \<Rightarrow> Some (e, m\<lparr> RedisLatency := Hist_Observe p h child (Duration_Seconds used) \<rparr>, w3))"

definition ObserveLogin :: "('c, 'v, 'h) prom_lib \<Rightarrow> ('c, 'v, 'h) metrics_vars \<Rightarrow> ('c, 'v, 'h) metrics_vars" where
  "ObserveLogin p m = m\<lparr> Logins := Counter_Inc p (Logins m) \<rparr>"

definition ObserveLogout ::
    "('c, 'v, 'h) prom_lib \<Rightarrow> string \<Rightarrow> ('c, 'v, 'h) metrics_vars \<Rightarrow> ('c, 'v, 'h) metrics_vars option" where
  "ObserveLogout p operation m =
     (case Vec_With p (Logouts m) [(LabelOperation, operation)] of
        None \<Rightarrow> None
      | Some (child, v) \<Rightarrow> Some (m\<lparr> Logouts := Vec_Inc p v child \<rparr>))"

section \<open>The middleware\<close>

definition defaultBuckets :: "rat list" where
  "defaultBuckets = [1/1000, 1/100, 5/100, 1/10, 5/10, 1, 15/10, 2, 25/10, 3, 35/10, 4, 45/10, 5]"

record ('v, 'h) prometheus_middleware =
  reqs :: 'v
  latency :: 'h

definition request_labels :: "string list" where "request_labels = [''code'', ''method'', ''path'', ''host'']"

definition Prometheus :: "('c, 'v, 'h) prom_lib \<Rightarrow> string \<Rightarrow> rat list \<Rightarrow> ('v, 'h) prometheus_middleware" where
  "Prometheus p provider buckets =
     (let labels = [(''service'', ''wonderwall''), (LabelProvider, provider)];
          buckets = (if length buckets = 0 then defaultBuckets else buckets)
      in \<lparr> reqs = NewCounterVec p \<lparr> co_Name = ''requests_total'', co_Namespace = [], co_ConstLabels = labels \<rparr> request_labels,
           latency = NewHistogramVec p \<lparr> co_Name = ''request_duration_seconds'', co_Namespace = [], co_ConstLabels = labels \<rparr>
             buckets request_labels \<rparr>)"

definition Prometheus_Initialize ::
    "('c, 'v, 'h) prom_lib \<Rightarrow> ('v, 'h) prometheus_middleware \<Rightarrow> string \<Rightarrow> string \<Rightarrow> int \<Rightarrow> ('v, 'h) prometheus_middleware option" where
  "Prometheus_Initialize p m path meth code =
     (case Vec_WithLabelValues p (reqs m) [Itoa code, meth, path] of None \<Rightarrow> None | Some (_, v) \<Rightarrow> Some (m\<lparr> reqs := v \<rparr>))"

text \<open>The wrapped response reports the status 0 when the handler has written none.\<close>

definition Prometheus_Handler ::
    "('c, 'v, 'h) prom_lib \<Rightarrow> (request \<Rightarrow> 's world \<Rightarrow> response \<Rightarrow> 's world \<times> response) \<Rightarrow> request
     \<Rightarrow> ('v, 'h) prometheus_middleware \<Rightarrow> 's world \<Rightarrow> response \<Rightarrow> (('v, 'h) prometheus_middleware \<times> 's world \<times> response) option" where
  "Prometheus_Handler p handler r m w rw =
     (let (start, w1) = time_Now w; (w2, rw') = handler r w1 rw;
          statusCode = Itoa (case Status rw' of None \<Rightarrow> 0 | Some c \<Rightarrow> c);
          (now, w3) = time_Now w2; elapsed = Time_Sub now start; vs = [statusCode, Method r, Path (req_URL r), req_Host r]
      in case Vec_WithLabelValues p (reqs m) vs of
           None \<Rightarrow> None
         | Some (child, v) \<Rightarrow>
             (case Hist_WithLabelValues p (latency m) vs of
                None \<Rightarrow> None
              | Some (child', h) \<Rightarrow> Some (m\<lparr> reqs := Vec_Inc p v child, latency := Hist_Observe p h child' (Duration_Seconds elapsed) \<rparr>, w3, rw')))"

section \<open>What the library promises\<close>

text \<open>
  \<open>names\<close> and \<open>children\<close> are what a vector of counters holds: asking for a child panics unless there is a
  value for each name; otherwise it creates the child at zero if it is not there; incrementing adds one
  to that child.
\<close>

definition touch :: "string list \<Rightarrow> (string list \<rightharpoonup> nat) \<Rightarrow> (string list \<rightharpoonup> nat)" where
  "touch vs f = (if f vs = None then f(vs \<mapsto> 0) else f)"

definition vec_laws :: "('v \<Rightarrow> string list \<Rightarrow> (string list \<times> 'v) option) \<Rightarrow> ('v \<Rightarrow> (string \<times> string) list \<Rightarrow> (string list \<times> 'v) option)
    \<Rightarrow> ('v \<Rightarrow> string list) \<Rightarrow> ('v \<Rightarrow> string list \<rightharpoonup> nat) \<Rightarrow> bool" where
  "vec_laws with_values with_labels names children \<longleftrightarrow>
     (\<forall>v vs. case with_values v vs of
        None \<Rightarrow> length vs \<noteq> length (names v)
      | Some (c, v') \<Rightarrow> length vs = length (names v) \<and> c = vs \<and> names v' = names v \<and> children v' = touch vs (children v))
   \<and> (\<forall>v n x. names v = [n] \<longrightarrow> with_labels v [(n, x)] = with_values v [x])"

definition prom_laws ::
    "('c, 'v, 'h) prom_lib \<Rightarrow> ('v \<Rightarrow> string list) \<Rightarrow> ('v \<Rightarrow> string list \<rightharpoonup> nat) \<Rightarrow> ('h \<Rightarrow> string list) \<Rightarrow> ('h \<Rightarrow> string list \<rightharpoonup> nat) \<Rightarrow> bool" where
  "prom_laws p names children hnames hchildren \<longleftrightarrow>
     vec_laws (Vec_WithLabelValues p) (Vec_With p) names children
   \<and> vec_laws (Hist_WithLabelValues p) (Hist_With p) hnames hchildren
   \<and> (\<forall>opts ls. names (NewCounterVec p opts ls) = ls \<and> children (NewCounterVec p opts ls) = Map.empty)
   \<and> (\<forall>opts b ls. hnames (NewHistogramVec p opts b ls) = ls \<and> hchildren (NewHistogramVec p opts b ls) = Map.empty)
   \<and> (\<forall>v vs n. children v vs = Some n \<longrightarrow> names (Vec_Inc p v vs) = names v \<and> children (Vec_Inc p v vs) = (children v)(vs \<mapsto> Suc n))
   \<and> (\<forall>h vs n s. hchildren h vs = Some n \<longrightarrow> hnames (Hist_Observe p h vs s) = hnames h
        \<and> hchildren (Hist_Observe p h vs s) = (hchildren h)(vs \<mapsto> Suc n))"

lemma prom_lawsD:
  assumes "prom_laws p names children hnames hchildren"
  shows "length vs = length (names v) \<Longrightarrow> \<exists>v'. Vec_WithLabelValues p v vs = Some (vs, v') \<and> names v' = names v
      \<and> children v' = touch vs (children v)"
    "length vs \<noteq> length (names v) \<Longrightarrow> Vec_WithLabelValues p v vs = None"
    "length vs = length (hnames h) \<Longrightarrow> \<exists>h'. Hist_WithLabelValues p h vs = Some (vs, h') \<and> hnames h' = hnames h
      \<and> hchildren h' = touch vs (hchildren h)"
    "names v = [n] \<Longrightarrow> \<exists>v'. Vec_With p v [(n, y)] = Some ([y], v') \<and> names v' = names v \<and> children v' = touch [y] (children v)"
    "names (NewCounterVec p opts ls) = ls" "children (NewCounterVec p opts ls) = Map.empty"
    "hnames (NewHistogramVec p opts b ls) = ls" "hchildren (NewHistogramVec p opts b ls) = Map.empty"
    "children v vs = Some k \<Longrightarrow> names (Vec_Inc p v vs) = names v \<and> children (Vec_Inc p v vs) = (children v)(vs \<mapsto> Suc k)"
    "hchildren h vs = Some k \<Longrightarrow> hnames (Hist_Observe p h vs s) = hnames h \<and> hchildren (Hist_Observe p h vs s) = (hchildren h)(vs \<mapsto> Suc k)"
proof -
  note l = assms[unfolded prom_laws_def]
  have w: "case Vec_WithLabelValues p v vs of None \<Rightarrow> length vs \<noteq> length (names v)
      | Some (c, v') \<Rightarrow> length vs = length (names v) \<and> c = vs \<and> names v' = names v \<and> children v' = touch vs (children v)" for v vs
    using l unfolding vec_laws_def by blast
  have h: "case Hist_WithLabelValues p v vs of None \<Rightarrow> length vs \<noteq> length (hnames v)
      | Some (c, v') \<Rightarrow> length vs = length (hnames v) \<and> c = vs \<and> hnames v' = hnames v \<and> hchildren v' = touch vs (hchildren v)" for v vs
    using l unfolding vec_laws_def by blast
  show 1: "length vs = length (names v) \<Longrightarrow> \<exists>v'. Vec_WithLabelValues p v vs = Some (vs, v') \<and> names v' = names v
      \<and> children v' = touch vs (children v)" for vs v
    using w[where v = v and vs = vs] by (auto split: option.splits)
  show "length vs \<noteq> length (names v) \<Longrightarrow> Vec_WithLabelValues p v vs = None"
    using w[where v = v and vs = vs] by (auto split: option.splits)
  show "length vs = length (hnames h) \<Longrightarrow> \<exists>h'. Hist_WithLabelValues p h vs = Some (vs, h') \<and> hnames h' = hnames h
      \<and> hchildren h' = touch vs (hchildren h)"
    using h[where v = h and vs = vs] by (auto split: option.splits)
  have "\<forall>v n x. names v = [n] \<longrightarrow> Vec_With p v [(n, x)] = Vec_WithLabelValues p v [x]"
    using l unfolding vec_laws_def by (elim conjE)
  then have "names v = [n] \<Longrightarrow> Vec_With p v [(n, y)] = Vec_WithLabelValues p v [y]" by simp
  then show "names v = [n] \<Longrightarrow> \<exists>v'. Vec_With p v [(n, y)] = Some ([y], v') \<and> names v' = names v \<and> children v' = touch [y] (children v)"
    using 1[of "[y]" v] by simp
qed (use assms[unfolded prom_laws_def] in blast)+

definition count :: "(string list \<rightharpoonup> nat) \<Rightarrow> string list \<Rightarrow> nat" where
  "count f vs = (case f vs of None \<Rightarrow> 0 | Some n \<Rightarrow> n)"

lemma touch_Some: "\<exists>n. touch vs f vs = Some n \<and> n = count f vs"
  by (auto simp: touch_def count_def split: option.splits)

lemma count_touch: "touch vs f vs = Some n \<Longrightarrow> count ((touch vs f)(vs \<mapsto> Suc n)) us = count f us + (if us = vs then 1 else 0)"
  by (auto simp: touch_def count_def split: if_splits option.splits)

section \<open>Correctness\<close>


text \<open>
  Logouts are counted by kind, but not every kind is announced. Once the collectors are registered, the labels
  that are zeroed are those of self-initiated and front-channel logouts only, not the one of local logouts,
  although the function is documented to zero all possible ones; a logout then adds one to its own kind.
\<close>

theorem init_labels_incomplete:
  assumes "prom_laws p names children hnames hchildren" "\<And>c. register c"
  shows "\<exists>m'. metrics_Handle p register provider m = Some m'
    \<and> children (Logouts m') = [[''self_initiated''] \<mapsto> 0, [''front_channel''] \<mapsto> 0]
    \<and> (\<exists>m''. ObserveLogout p LogoutOperationLocal m' = Some m''
         \<and> children (Logouts m'') = [[''self_initiated''] \<mapsto> 0, [''front_channel''] \<mapsto> 0, [''local''] \<mapsto> 1])"
proof -
  note l = prom_lawsD[OF assms(1)]
  let ?v = "Logouts (WithProvider p provider m)"
  have v: "names ?v = [LabelOperation]" "children ?v = Map.empty"
    using l(5,6) by (simp_all add: WithProvider_def metrics_logouts_def Let_def)
  obtain v1 where v1: "Vec_With p ?v [(LabelOperation, LogoutOperationSelfInitiated)] = Some ([LogoutOperationSelfInitiated], v1)"
      "names v1 = [LabelOperation]" "children v1 = [[''self_initiated''] \<mapsto> 0]"
    using l(4)[OF v(1), of LogoutOperationSelfInitiated] v by (auto simp: touch_def LogoutOperationSelfInitiated_def)
  obtain v2 where v2: "Vec_With p v1 [(LabelOperation, LogoutOperationFrontChannel)] = Some ([LogoutOperationFrontChannel], v2)"
      "names v2 = [LabelOperation]" "children v2 = [[''self_initiated''] \<mapsto> 0, [''front_channel''] \<mapsto> 0]"
    using l(4)[OF v1(2), of LogoutOperationFrontChannel] v1 by (auto simp: touch_def LogoutOperationFrontChannel_def)
  obtain v3 where v3: "Vec_With p v2 [(LabelOperation, LogoutOperationLocal)] = Some ([''local''], v3)"
      "children v3 = [[''self_initiated''] \<mapsto> 0, [''front_channel''] \<mapsto> 0, [''local''] \<mapsto> 0]"
    using l(4)[OF v2(2), of LogoutOperationLocal] v2 by (auto simp: touch_def LogoutOperationLocal_def)
  have i: "InitLabels p (WithProvider p provider m) = Some ((WithProvider p provider m)\<lparr> Logouts := v2 \<rparr>)"
    using v1(1) v2(1) by (simp add: InitLabels_def Let_def)
  have "children (Vec_Inc p v3 [''local'']) = [[''self_initiated''] \<mapsto> 0, [''front_channel''] \<mapsto> 0, [''local''] \<mapsto> 1]"
    using l(9)[of v3 "[''local'']" 0] v3(2) by simp
  then show ?thesis using i v2(3) v3(1) assms(2) by (simp add: ObserveLogout_def metrics_Handle_def Let_def)
qed

text \<open>
  \<^verbatim>\<open>Initialize\<close> of the middleware, meant to announce a series, always panics: it gives three values for
  the four labels of the counter that \<^verbatim>\<open>Prometheus\<close> makes (the host is missing).
\<close>

theorem prometheus_initialize_panics:
  assumes "prom_laws p names children hnames hchildren"
  shows "Prometheus_Initialize p (Prometheus p provider buckets) path meth code = None"
  using prom_lawsD(2,5)[OF assms] by (simp add: Prometheus_Initialize_def Prometheus_def request_labels_def Let_def)

section \<open>An instance\<close>

type_synonym example_vec = "string list \<times> (string list \<rightharpoonup> nat)"

definition example_with :: "example_vec \<Rightarrow> string list \<Rightarrow> (string list \<times> example_vec) option" where
  "example_with v vs = (if length vs = length (fst v) then Some (vs, (fst v, touch vs (snd v))) else None)"

definition example_inc :: "example_vec \<Rightarrow> string list \<Rightarrow> example_vec" where
  "example_inc v vs = (fst v, (snd v)(vs \<mapsto> Suc (count (snd v) vs)))"

definition example_prom :: "(nat, example_vec, example_vec) prom_lib" where
  "example_prom = \<lparr> NewCounter = (\<lambda>_. 0), Counter_Inc = Suc, NewCounterVec = (\<lambda>_ ls. (ls, Map.empty)),
     Vec_With = (\<lambda>v ls. example_with v (map snd ls)), Vec_WithLabelValues = example_with, Vec_Inc = example_inc,
     ExponentialBuckets = (\<lambda>start factor n. map (\<lambda>i. start * factor ^ i) [0..<n]), NewHistogramVec = (\<lambda>_ _ ls. (ls, Map.empty)), Hist_With = (\<lambda>v ls. example_with v (map snd ls)),
     Hist_WithLabelValues = example_with, Hist_Observe = (\<lambda>v vs _. example_inc v vs) \<rparr>"

lemma example_prom_laws: "prom_laws example_prom fst snd fst snd"
  by (simp add: prom_laws_def vec_laws_def example_prom_def example_with_def example_inc_def count_def)


theorem init_labels_incomplete_witness:
  "\<exists>m'. metrics_Handle example_prom (\<lambda>_. True) ''azure'' (initial_metrics example_prom) = Some m'
     \<and> snd (Logouts m') [LogoutOperationLocal] = None"
  using init_labels_incomplete[OF example_prom_laws, of "\<lambda>_. True" "''azure''" "initial_metrics example_prom"]
  by (auto simp: LogoutOperationLocal_def)

theorem prometheus_initialize_panics_witness:
  "Prometheus_Initialize example_prom (Prometheus example_prom ''azure'' []) ''/'' ''GET'' 200 = None"
  by (rule prometheus_initialize_panics[OF example_prom_laws])

end
