(* ===== verification/Process.thy ===== *)
theory Process
  imports Program Shutdown Metrics
begin

text \<open>
  \<^verbatim>\<open>main\<close> and the two goroutines of \<^verbatim>\<open>run\<close> in \<^verbatim>\<open>cmd/wonderwall/main.go\<close>, up to the exit status of the process:
  set-up (Program), the server's life (Shutdown) and the metrics server beside it (Metrics) as one
  step relation, in which any goroutine may move.
\<close>

section \<open>The state\<close>

datatype metrics_state = MetricsOff | MetricsStarting | MetricsServing

record process_state =
  srv :: "server_state option"
  metrics_srv :: metrics_state
  exit_status :: "nat option"

definition initial_process :: process_state where
  "initial_process = \<lparr> srv = None, metrics_srv = MetricsOff, exit_status = None \<rparr>"

section \<open>The steps\<close>

text \<open>
  \<open>started\<close> is what set-up comes to and \<open>metered\<close> what \<^verbatim>\<open>metrics.Handle\<close> comes to before it listens. \<^verbatim>\<open>log.Fatalf\<close>
  exits with status 1, a panic with status 2, and a \<^verbatim>\<open>main\<close> that returns with status 0. Serving
  metrics ends only by an error, since nothing ever shuts that server down.
\<close>

inductive process_step :: "'h result \<Rightarrow> 'm option \<Rightarrow> process_state \<Rightarrow> process_state \<Rightarrow> bool"
  for started :: "'h result" and metered :: "'m option" where
  setup_fails: "exit_status p = None \<Longrightarrow> srv p = None \<Longrightarrow> started = Inl e \<Longrightarrow>
    process_step started metered p (p\<lparr> exit_status := Some 1 \<rparr>)"
| setup_done: "exit_status p = None \<Longrightarrow> srv p = None \<Longrightarrow> started = Inr h \<Longrightarrow>
    process_step started metered p (p\<lparr> srv := Some initial_server, metrics_srv := MetricsStarting \<rparr>)"
| metrics_listens: "exit_status p = None \<Longrightarrow> metrics_srv p = MetricsStarting \<Longrightarrow> metered = Some m \<Longrightarrow>
    process_step started metered p (p\<lparr> metrics_srv := MetricsServing \<rparr>)"
| metrics_panics: "exit_status p = None \<Longrightarrow> metrics_srv p = MetricsStarting \<Longrightarrow> metered = None \<Longrightarrow>
    process_step started metered p (p\<lparr> exit_status := Some 2 \<rparr>)"
| metrics_fails: "exit_status p = None \<Longrightarrow> metrics_srv p = MetricsServing \<Longrightarrow>
    process_step started metered p (p\<lparr> exit_status := Some 1 \<rparr>)"
| serves: "exit_status p = None \<Longrightarrow> srv p = Some s \<Longrightarrow> server_step s s' \<Longrightarrow>
    process_step started metered p (p\<lparr> srv := Some s', exit_status := (if fatal s' then Some 1 else None) \<rparr>)"
| main_returns: "exit_status p = None \<Longrightarrow> srv p = Some s \<Longrightarrow> main s = Returned e \<Longrightarrow>
    process_step started metered p (p\<lparr> exit_status := Some (case e of None \<Rightarrow> 0 | Some _ \<Rightarrow> 1) \<rparr>)"

inductive_cases process_stepE: "process_step started metered p p'"

section \<open>How the process ends\<close>

lemma process_fatal:
  assumes "(process_step started metered)\<^sup>*\<^sup>* initial_process p" "srv p = Some s" "fatal s"
  shows "exit_status p \<noteq> None"
proof -
  have "\<forall>s. srv p = Some s \<longrightarrow> fatal s \<longrightarrow> exit_status p \<noteq> None"
    using assms(1)
  proof (induction rule: rtranclp_induct)
    case (step p p')
    from step(2) show ?case using step(3) by cases (auto simp: initial_server_def)
  qed (simp add: initial_process_def)
  then show ?thesis using assms(2,3) by blast
qed

text \<open>What holds of every state: where the server is, that set-up succeeded, and what each status means.\<close>

definition process_inv :: "'h result \<Rightarrow> 'm option \<Rightarrow> process_state \<Rightarrow> bool" where
  "process_inv started metered p \<longleftrightarrow>
     (case srv p of
        None \<Rightarrow> metrics_srv p = MetricsOff \<and> exit_status p \<in> {None, Some 1} \<and> (exit_status p = Some 1 \<longrightarrow> \<not> is_ok started)
      | Some s \<Rightarrow> is_ok started \<and> server_step\<^sup>*\<^sup>* initial_server s \<and> metrics_srv p \<noteq> MetricsOff
          \<and> exit_status p \<in> {None, Some 0, Some 1, Some 2}
          \<and> (exit_status p = Some 0 \<longrightarrow> main s = Returned None)
          \<and> (exit_status p = Some 2 \<longrightarrow> metered = None)
          \<and> (exit_status p = Some 1 \<longrightarrow> fatal s \<or> (\<exists>e. main s = Returned (Some e)) \<or> metrics_srv p = MetricsServing))"

lemma process_inv_step:
  assumes "process_step started metered p p'" "process_inv started metered p"
  shows "process_inv started metered p'"
  using assms
proof (induction rule: process_step.induct)
  case (serves p s s')
  then have "server_step\<^sup>*\<^sup>* initial_server s'" by (auto simp: process_inv_def intro: rtranclp.rtrancl_into_rtrancl)
  then show ?case using serves by (simp add: process_inv_def)
qed (auto simp: process_inv_def is_ok_iff split: option.splits)

lemma process_inv_reachable:
  "(process_step started metered)\<^sup>*\<^sup>* initial_process p \<Longrightarrow> process_inv started metered p"
proof (induction rule: rtranclp_induct)
  case base
  then show ?case by (simp add: process_inv_def initial_process_def)
next
  case (step p p')
  then show ?case using process_inv_step by blast
qed

definition process_measure :: "process_state \<Rightarrow> nat" where
  "process_measure p = (if exit_status p = None then 1 else 0)
     + (case metrics_srv p of MetricsOff \<Rightarrow> 2 | MetricsStarting \<Rightarrow> 1 | MetricsServing \<Rightarrow> 0)
     + (case srv p of None \<Rightarrow> 3 + server_measure initial_server | Some s \<Rightarrow> server_measure s)"

lemma process_measure_less: "process_step started metered p p' \<Longrightarrow> process_measure p' < process_measure p"
proof (induction rule: process_step.induct)
  case (serves p s s')
  then show ?case using server_measure_less[of s s'] by (simp add: process_measure_def)
qed (simp_all add: process_measure_def split: metrics_state.splits)


section \<open>A process that is told to stop\<close>

lemma fatal_final: "server_step s s' \<Longrightarrow> \<not> fatal s"
  by (induction rule: server_step.induct) simp_all

lemma process_serves:
  assumes "server_step\<^sup>*\<^sup>* s s'" "\<not> fatal s'" "srv p = Some s" "exit_status p = None"
  shows "(process_step started metered)\<^sup>*\<^sup>* p (p\<lparr> srv := Some s' \<rparr>)"
  using assms
proof (induction rule: rtranclp_induct)
  case base
  have "p\<lparr> srv := Some s \<rparr> = p" using base by (cases p) simp
  then show ?case by simp
next
  case (step u t)
  then have "(process_step started metered)\<^sup>*\<^sup>* p (p\<lparr> srv := Some u \<rparr>)" using fatal_final by blast
  moreover have "process_step started metered (p\<lparr> srv := Some u \<rparr>) (p\<lparr> srv := Some u \<rparr>\<lparr> srv := Some t, exit_status := (if fatal t then Some 1 else None) \<rparr>)"
    using step by (intro process_step.serves) simp_all
  moreover have "p\<lparr> srv := Some u \<rparr>\<lparr> srv := Some t, exit_status := (if fatal t then Some 1 else None) \<rparr> = p\<lparr> srv := Some t \<rparr>"
    using step by (cases p) simp
  ultimately show ?case by (metis rtranclp.rtrancl_into_rtrancl)
qed


end
