(* ===== verification/ErrorPage.thy ===== *)
theory ErrorPage
  imports ServerExamples
begin

text \<open>
  \<^verbatim>\<open>pkg/handler/templates/error.go\<close> and \<^verbatim>\<open>error.gohtml\<close>: the error page as a user agent receives it. The
  template has two holes, the link to retry and the request's identifier; \<^verbatim>\<open>html/template\<close> escapes what
  goes into them by the context each one stands in, here with the escapers of Go 1.19. The text of
  the template before the first hole is an argument of the page.
\<close>

section \<open>Escaping by context\<close>

text \<open>
  \<^verbatim>\<open>strings.EqualFold\<close> with a lower-case ASCII word: the two non-ASCII runes that fold to an ASCII letter
  are the long s (\<^verbatim>\<open>C5 BF\<close>) and the Kelvin sign (\<^verbatim>\<open>E2 84 AA\<close>).
\<close>

fun fold_case :: "string \<Rightarrow> string" where
  "fold_case [] = []"
| "fold_case (c # cs) =
     (if c = CHR 0xC5 \<and> cs \<noteq> [] \<and> hd cs = CHR 0xBF then CHR ''s'' # fold_case (tl cs)
      else if c = CHR 0xE2 \<and> length cs \<ge> 2 \<and> take 2 cs = [CHR 0x84, CHR 0xAA] then CHR ''k'' # fold_case (drop 2 cs)
      else to_lower c # fold_case cs)"

definition EqualFold :: "string \<Rightarrow> string \<Rightarrow> bool" where
  "EqualFold s word \<longleftrightarrow> fold_case s = word"

definition isSafeURL :: "string \<Rightarrow> bool" where
  "isSafeURL s =
     (if CHR '':'' \<in> set s \<and> CHR ''/'' \<notin> set (cut_before (CHR '':'') s)
      then EqualFold (cut_before (CHR '':'') s) ''http'' \<or> EqualFold (cut_before (CHR '':'') s) ''https''
        \<or> EqualFold (cut_before (CHR '':'') s) ''mailto''
      else True)"

definition urlFilter :: "string \<Rightarrow> string" where
  "urlFilter s = (if isSafeURL s then s else ''#ZgotmplZ'')"

definition url_kept :: "char \<Rightarrow> bool" where
  "url_kept c \<longleftrightarrow> c \<in> set ''!#$&*+,/:;=?@[]'' \<or> c \<in> set ''-._~'' \<or> is_alpha c \<or> is_digit c"

definition hex_follows :: "string \<Rightarrow> bool" where
  "hex_follows s = (case s of a # b # r \<Rightarrow> ishex a \<and> ishex b | _ \<Rightarrow> False)"

fun urlNormalizer :: "string \<Rightarrow> string" where
  "urlNormalizer [] = []"
| "urlNormalizer (c # cs) =
     (if url_kept c \<or> c = CHR ''%'' \<and> hex_follows cs then [c]
      else [CHR ''%'', lowerhex (byte_val c div 16), lowerhex (byte_val c mod 16)]) @ urlNormalizer cs"

definition html_char :: "char \<Rightarrow> string" where
  "html_char c =
     (if c = CHR 0x00 then [CHR 0xEF, CHR 0xBF, CHR 0xBD]
      else if c = CHR 0x22 then ''&#34;''
      else if c = CHR ''&'' then ''&amp;''
      else if c = CHR 0x27 then ''&#39;''
      else if c = CHR ''+'' then ''&#43;''
      else if c = CHR ''<'' then ''&lt;''
      else if c = CHR ''>'' then ''&gt;''
      else [c])"

definition htmlReplacer :: "string \<Rightarrow> string" where
  "htmlReplacer s = concat (map html_char s)"

section \<open>The page\<close>

text \<open>The data of the template, \<^verbatim>\<open>Page\<close> of the error handler, and the pipelines of its two holes.\<close>

definition RetryURI_hole :: "string \<Rightarrow> string" where
  "RetryURI_hole uri = htmlReplacer (urlNormalizer (urlFilter uri))"

definition CorrelationID_hole :: "string \<Rightarrow> string" where
  "CorrelationID_hole i = htmlReplacer i"

text \<open>The template's text between the holes and after them; \<open>nl k\<close> is a new line indented by \<open>k\<close>.\<close>

definition nl :: "nat \<Rightarrow> string" where "nl k = CHR 0x0A # replicate k (CHR 0x20)"

definition dq :: "string \<Rightarrow> string" where "dq s = CHR 0x22 # s @ [CHR 0x22]"

definition template_between :: string where
  "template_between =
     CHR 0x22 # ''>Trykk her for '' @ [CHR 0xC3, CHR 0xA5] @ '' pr'' @ [CHR 0xC3, CHR 0xB8] @ ''ve igjen.</a>'' @ nl 8 @ ''</p>''
     @ nl 8 @ ''<p class='' @ dq ''typo-normal'' @ ''>''
     @ nl 12 @ ''<a class='' @ dq ''navLink'' @ '' href='' @ dq ''https://www.nav.no'' @ ''>Trykk her for ''
       @ [CHR 0xC3, CHR 0xA5] @ '' g'' @ [CHR 0xC3, CHR 0xA5] @ '' tilbake til nav.no.</a>'' @ nl 8 @ ''</p>''
     @ nl 8 @ ''<p class='' @ dq ''typo-normal'' @ ''>'' @ nl 12 @ ''Request ID: ''"

definition template_after :: string where
  "template_after =
     nl 8 @ ''</p>'' @ nl 4 @ ''</div>'' @ nl 0 @ ''</div>'' @ nl 0
     @ nl 0 @ ''<footer class='' @ dq ''footer'' @ ''>''
     @ nl 4 @ ''<div class='' @ dq ''copyright'' @ ''>'' @ nl 8 @ ''<p>Arbeids- og velferdsetaten</p>'' @ nl 4 @ ''</div>''
     @ nl 0 @ ''</footer>'' @ nl 0 @ ''</body>'' @ nl 0 @ ''</html>'' @ nl 0"

definition ErrorTemplate :: "string \<Rightarrow> string \<Rightarrow> string \<Rightarrow> string" where
  "ErrorTemplate template_before correlationID retryURI =
     template_before @ RetryURI_hole retryURI @ template_between @ CorrelationID_hole correlationID @ template_after"

text \<open>What a response's body is on the wire, where it is an error page.\<close>

definition page_bytes :: "string \<Rightarrow> response \<Rightarrow> string list" where
  "page_bytes template_before rw =
     concat (map (\<lambda>b. case b of ErrorPage i uri \<Rightarrow> [ErrorTemplate template_before i uri] | _ \<Rightarrow> []) (Body rw))"

section \<open>What a user agent reads\<close>

text \<open>Character references, as an HTML parser decodes the ones the escaper writes.\<close>

fun html_decode :: "string \<Rightarrow> string" where
  "html_decode [] = []"
| "html_decode (c # cs) =
     (if c \<noteq> CHR ''&'' then c # html_decode cs
      else if HasPrefix cs ''#34;'' then CHR 0x22 # html_decode (drop 4 cs)
      else if HasPrefix cs ''#39;'' then CHR 0x27 # html_decode (drop 4 cs)
      else if HasPrefix cs ''#43;'' then CHR ''+'' # html_decode (drop 4 cs)
      else if HasPrefix cs ''amp;'' then CHR ''&'' # html_decode (drop 4 cs)
      else if HasPrefix cs ''lt;'' then CHR ''<'' # html_decode (drop 3 cs)
      else if HasPrefix cs ''gt;'' then CHR ''>'' # html_decode (drop 3 cs)
      else c # html_decode cs)"

definition no_NUL :: "string \<Rightarrow> string" where
  "no_NUL s = concat (map (\<lambda>c. if c = CHR 0x00 then [CHR 0xEF, CHR 0xBF, CHR 0xBD] else [c]) s)"

definition inert :: "string \<Rightarrow> bool" where
  "inert s \<longleftrightarrow> set s \<inter> {CHR ''<'', CHR ''>'', CHR 0x22, CHR 0x27, CHR 0x00} = {}"

lemma html_decode_other: "c \<noteq> CHR ''&'' \<Longrightarrow> html_decode (c # cs) = c # html_decode cs"
  by simp

lemma html_decode_char: "html_decode (html_char c @ s) = no_NUL [c] @ html_decode s"
  by (simp add: html_char_def no_NUL_def HasPrefix_def)

lemma html_decode_replacer: "html_decode (htmlReplacer s) = no_NUL s"
proof (induction s)
  case (Cons c s)
  have "htmlReplacer (c # s) = html_char c @ htmlReplacer s" by (simp add: htmlReplacer_def)
  moreover have "no_NUL (c # s) = no_NUL [c] @ no_NUL s" by (simp add: no_NUL_def)
  ultimately show ?case using Cons by (simp only: html_decode_char)
qed (simp add: htmlReplacer_def no_NUL_def)

lemma html_char_inert: "inert (html_char c)"
  by (simp add: html_char_def inert_def)

lemma inert_replacer: "inert (htmlReplacer s)"
  using html_char_inert by (auto simp: htmlReplacer_def inert_def)

lemma no_NUL_id: "CHR 0x00 \<notin> set s \<Longrightarrow> no_NUL s = s"
  by (induction s) (auto simp: no_NUL_def)

section \<open>The link of the page\<close>

lemma lowerhex_kept: "n < 16 \<Longrightarrow> url_kept (lowerhex n)"
proof -
  assume "n < 16"
  then have "n \<in> set [0..<16]" by simp
  then show ?thesis
    by (auto simp: lowerhex_def url_kept_def is_alpha_def is_digit_def byte_val_def val_byte_def upt_rec)
qed

lemma url_kept_not: "\<not> url_kept (CHR 0x00)" "\<not> url_kept (CHR 0x22)" "\<not> url_kept (CHR 0x27)"
  "\<not> url_kept (CHR ''<'')" "\<not> url_kept (CHR ''>'')" "\<not> url_kept (CHR ''%'')" "\<not> url_kept (CHR 0x20)"
  by (simp_all add: url_kept_def is_alpha_def is_digit_def byte_val_def)

lemma urlNormalizer_chars: "c \<in> set (urlNormalizer s) \<Longrightarrow> url_kept c \<or> c = CHR ''%''"
proof (induction s)
  case (Cons d s)
  then show ?case using lowerhex_kept[OF byte_val_hex_less(1)[of d]] lowerhex_kept[OF byte_val_hex_less(2)[of d]]
    by (auto split: if_splits)
qed simp

lemma urlNormalizer_no_NUL: "no_NUL (urlNormalizer s) = urlNormalizer s"
proof (rule no_NUL_id)
  show "CHR 0x00 \<notin> set (urlNormalizer s)" using urlNormalizer_chars[of "CHR 0x00" s] url_kept_not(1) by auto
qed

lemma html_decode_RetryURI: "html_decode (RetryURI_hole uri) = urlNormalizer (urlFilter uri)"
  by (simp add: RetryURI_hole_def html_decode_replacer urlNormalizer_no_NUL)

lemma urlNormalizer_Cons:
  assumes "urlNormalizer s = c # t" "c \<noteq> CHR ''%''"
  obtains s' where "s = c # s'" "urlNormalizer s' = t"
  using assms by (cases s) (auto split: if_splits)

lemma urlNormalizer_prefix:
  assumes "urlNormalizer s = p @ t" "CHR ''%'' \<notin> set p"
  shows "\<exists>s'. s = p @ s'"
  using assms
proof (induction p arbitrary: s)
  case (Cons c p)
  then obtain s' where s': "s = c # s'" "urlNormalizer s' = p @ t" using urlNormalizer_Cons[of s c "p @ t"] by auto
  then show ?case using Cons.IH[of s'] Cons.prems(2) by simp
qed simp

definition scheme_char :: "char \<Rightarrow> bool" where
  "scheme_char c \<longleftrightarrow> is_alpha c \<or> is_digit c \<or> c \<in> set ''+-.''"

lemma getScheme_from_prefix:
  assumes "getScheme_from raw acc s = Inr (sch, rest)" "sch \<noteq> []"
  shows "\<exists>p. s = p @ CHR '':'' # rest \<and> sch = acc @ p \<and> list_all scheme_char p"
  using assms
proof (induction s arbitrary: acc)
  case (Cons c s)
  show ?case
  proof (cases "is_alpha c \<or> (is_digit c \<or> c \<in> set ''+-.'') \<and> acc \<noteq> []")
    case True
    then have "getScheme_from raw (acc @ [c]) s = Inr (sch, rest)" using Cons.prems by (auto split: if_splits)
    then obtain p where "s = p @ CHR '':'' # rest" "sch = (acc @ [c]) @ p" "list_all scheme_char p"
      using Cons.IH Cons.prems(2) by blast
    moreover have "scheme_char c" using True by (auto simp: scheme_char_def)
    ultimately show ?thesis by (intro exI[of _ "c # p"]) simp
  next
    case False
    then show ?thesis using Cons.prems by (auto simp: url_error_def split: if_splits)
  qed
qed simp

lemma scheme_char_not: "scheme_char c \<Longrightarrow> c \<notin> {CHR '':'', CHR ''/'', CHR ''%'', CHR 0xC5, CHR 0xE2}"
  by (auto simp: scheme_char_def is_alpha_def is_digit_def byte_val_def)

lemma fold_case_scheme: "list_all scheme_char s \<Longrightarrow> fold_case s = map to_lower s"
  by (induction s) (auto dest: scheme_char_not)

text \<open>A link that names a scheme names one of the three that the filter lets through.\<close>

lemma RetryURI_scheme:
  assumes "getScheme (html_decode (RetryURI_hole uri)) = Inr (sch, rest)" "sch \<noteq> []"
  shows "map to_lower sch \<in> {''http'', ''https'', ''mailto''}"
proof -
  define s where "s = urlFilter uri"
  have "getScheme (urlNormalizer s) = Inr (sch, rest)" using assms(1) by (simp add: html_decode_RetryURI s_def)
  then obtain p where p: "urlNormalizer s = p @ CHR '':'' # rest" "sch = p" "list_all scheme_char p"
    using getScheme_from_prefix[of _ "[]" "urlNormalizer s" sch rest] assms(2) by (auto simp: getScheme_def)
  have n: "CHR '':'' \<notin> set p" "CHR ''/'' \<notin> set p" "CHR ''%'' \<notin> set p"
    using p(3) scheme_char_not by (auto simp: list_all_iff)
  then obtain s' where s': "s = (p @ '':'') @ s'" using urlNormalizer_prefix[of s "p @ '':''" rest] p(1) by auto
  have c: "cut_before (CHR '':'') s = p" using n(1) by (simp add: s' cut_before_def takeWhile_append)
  have safe: "isSafeURL uri" "s = uri"
  proof -
    have "s \<noteq> ''#ZgotmplZ''" using s' by (auto simp: append_eq_Cons_conv)
    then show "isSafeURL uri" "s = uri" by (auto simp: s_def urlFilter_def split: if_splits)
  qed
  have "CHR '':'' \<in> set uri" "cut_before (CHR '':'') uri = p" using s' safe(2) c by simp_all
  then have "EqualFold p ''http'' \<or> EqualFold p ''https'' \<or> EqualFold p ''mailto''"
    using safe(1) n(2) by (simp add: isSafeURL_def)
  then show ?thesis using fold_case_scheme[OF p(3)] p(2) by (auto simp: EqualFold_def)
qed

text \<open>
  C28: The error page is inert: whatever identifier and link a failed request brings, what the page puts
  into its two holes has none of the characters that would end an attribute or start a tag, a
  user agent reads the identifier back as it was (a NUL byte replaced), and the link, if it names a
  scheme at all, names \<^verbatim>\<open>http\<close>, \<^verbatim>\<open>https\<close> or \<^verbatim>\<open>mailto\<close>.
\<close>

theorem error_page_safe:
  "\<exists>href i. page_bytes before (defaultErrorResponse s r code new_response) = [before @ href @ template_between @ i @ template_after]
    \<and> inert href \<and> inert i
    \<and> html_decode i = no_NUL (ctx_RequestID r)
    \<and> html_decode href = urlNormalizer (urlFilter (Retry s r (login_cookie_or_nil s r)))
    \<and> (case getScheme (html_decode href) of Inl e \<Rightarrow> True
       | Inr (sch, rest) \<Rightarrow> sch = [] \<or> map to_lower sch \<in> {''http'', ''https'', ''mailto''})"
proof -
  define uri where "uri = Retry s r (login_cookie_or_nil s r)"
  have "page_bytes before (defaultErrorResponse s r code new_response)
      = [before @ RetryURI_hole uri @ template_between @ CorrelationID_hole (ctx_RequestID r) @ template_after]"
    by (simp add: defaultErrorResponse_def page_bytes_def ErrorTemplate_def Write_Body_def WriteHeader_def
        new_response_def Let_def uri_def)
  moreover have "inert (RetryURI_hole uri)" "inert (CorrelationID_hole (ctx_RequestID r))"
    by (simp_all add: RetryURI_hole_def CorrelationID_hole_def inert_replacer)
  moreover have "html_decode (CorrelationID_hole (ctx_RequestID r)) = no_NUL (ctx_RequestID r)"
    by (simp add: CorrelationID_hole_def html_decode_replacer)
  moreover have "case getScheme (html_decode (RetryURI_hole uri)) of Inl e \<Rightarrow> True
       | Inr (sch, rest) \<Rightarrow> sch = [] \<or> map to_lower sch \<in> {''http'', ''https'', ''mailto''}"
    using RetryURI_scheme by (auto split: sum.splits prod.splits)
  ultimately show ?thesis using html_decode_RetryURI unfolding uri_def[symmetric] by blast
qed

section \<open>The link works\<close>

lemma upperhex_hex: "n < 16 \<Longrightarrow> ishex (upperhex n) \<and> url_kept (upperhex n)"
proof -
  assume "n < 16"
  then have "n \<in> set [0..<16]" by simp
  then show ?thesis
    by (auto simp: upperhex_def url_kept_def ishex_def is_alpha_def is_digit_def byte_val_def val_byte_def upt_rec)
qed

lemma unescaped_kept:
  "m \<in> {encodePath, encodeQueryComponent} \<Longrightarrow> \<not> shouldEscape c m \<Longrightarrow> url_kept c"
  by (auto simp: shouldEscape_def url_kept_def split: if_splits)

lemma urlNormalizer_escape_char:
  assumes "m \<in> {encodePath, encodeQueryComponent}"
  shows "urlNormalizer (escape_char m c @ t) = escape_char m c @ urlNormalizer t"
proof -
  have "url_kept (CHR ''+'')" by (simp add: url_kept_def)
  then show ?thesis
    using assms unescaped_kept[OF assms, of c] url_kept_not(6)
      upperhex_hex[OF byte_val_hex_less(1)[of c]] upperhex_hex[OF byte_val_hex_less(2)[of c]]
    by (simp add: escape_char_def hex_follows_def)
qed

lemma urlNormalizer_escape:
  assumes "m \<in> {encodePath, encodeQueryComponent}"
  shows "urlNormalizer (escape m s @ t) = escape m s @ urlNormalizer t"
  using urlNormalizer_escape_char[OF assms] by (induction s) (simp_all add: escape_def)

lemma urlNormalizer_kept: "list_all url_kept p \<Longrightarrow> urlNormalizer (p @ t) = p @ urlNormalizer t"
  by (induction p) auto

text \<open>The login URL below an ingress path, which is empty or starts with a slash.\<close>

lemma path_Join_rooted:
  assumes "pfx = [] \<or> hd pfx = CHR ''/''" "e \<noteq> []" "hd e = CHR ''/''" "q \<noteq> []"
  shows "\<exists>t. path_Join [pfx, e, q] = CHR ''/'' # t"
proof (cases "pfx = []")
  case True
  then show ?thesis using assms(2-4) by (cases e) (simp_all add: path_Join_def path_Clean_def Let_def)
next
  case False
  then show ?thesis using assms by (cases pfx) (simp_all add: path_Join_def path_Clean_def Let_def)
qed

lemma LoginURL_shape:
  assumes "pfx = [] \<or> hd pfx = CHR ''/''"
  shows "\<exists>t. path_Join [pfx, paths_OAuth2, paths_Login] = CHR ''/'' # t \<and>
    LoginURL pfx target = escape encodePath (CHR ''/'' # t) @ CHR ''?'' # QueryEscape RedirectURLEncodedParameter
      @ CHR ''='' # QueryEscape (RedirectEncoded target)"
proof -
  obtain t where t: "path_Join [pfx, paths_OAuth2, paths_Login] = CHR ''/'' # t"
    using path_Join_rooted[of pfx paths_OAuth2 paths_Login] assms by (auto simp: paths_OAuth2_def paths_Login_def)
  define p where "p = escape encodePath (CHR ''/'' # t)"
  obtain p' where p': "p = CHR ''/'' # p'" by (simp add: p_def escape_Cons slash_path)
  have "EscapedPath (empty_url\<lparr> Path := CHR ''/'' # t, RawQuery := q \<rparr>) = p" for q
    by (simp add: EscapedPath_def empty_url_def p_def)
  moreover have "Values_Encode [(k, v)] = QueryEscape k @ CHR ''='' # QueryEscape v" for k v
    by (simp add: Values_Encode_def encode_pair_def)
  ultimately have "LoginURL pfx target = p @ CHR ''?'' # QueryEscape RedirectURLEncodedParameter
      @ CHR ''='' # QueryEscape (RedirectEncoded target)"
    using p' by (simp add: LoginURL_def t URL_String_def Let_def authority_String_def empty_url_def Values_Set_def cut_before_def)
  then show ?thesis using t by (simp add: p_def)
qed

lemma LoginURL_unchanged:
  assumes "pfx = [] \<or> hd pfx = CHR ''/''"
  shows "urlNormalizer (urlFilter (LoginURL pfx target)) = LoginURL pfx target"
proof -
  obtain t where t: "LoginURL pfx target = escape encodePath (CHR ''/'' # t) @ CHR ''?'' # QueryEscape RedirectURLEncodedParameter
      @ CHR ''='' # QueryEscape (RedirectEncoded target)"
    using LoginURL_shape[OF assms] by blast
  have q: "urlNormalizer (QueryEscape s @ u) = QueryEscape s @ urlNormalizer u" for s u
    by (simp add: QueryEscape_def urlNormalizer_escape)
  have k: "url_kept (CHR ''?'')" "url_kept (CHR ''='')" by (simp_all add: url_kept_def)
  have "urlNormalizer (QueryEscape s) = QueryEscape s" for s using q[of s "[]"] by simp
  then have "urlNormalizer (LoginURL pfx target) = LoginURL pfx target"
    using k by (simp add: t urlNormalizer_escape q)
  moreover have "isSafeURL (LoginURL pfx target)"
  proof -
    obtain u where "LoginURL pfx target = CHR ''/'' # u" by (simp add: t escape_Cons slash_path)
    then show ?thesis by (simp add: isSafeURL_def cut_before_def)
  qed
  ultimately show ?thesis by (simp add: urlFilter_def)
qed



end
