(* ===== verification/JwksRefresh.thy ===== *)
theory JwksRefresh
  imports OpenIDClient
begin

text \<open>
  How often \<^verbatim>\<open>pkg/openid/provider/provider.go\<close> asks the provider for its keys: over any number of calls of
  \<^verbatim>\<open>RefreshPublicJwkSet\<close>, by any number of requests. Its mutex puts the calls of one process in an order.
\<close>

section \<open>The calls that reach the provider\<close>

text \<open>
  Whether a call asks the provider is seen from outside: with a cache that always answers and a provider
  that never does, the call fails exactly if it asks the provider.
\<close>

definition deaf_provider :: "ext \<Rightarrow> ext" where
  "deaf_provider x = x\<lparr> jwk_Cache_Get := (\<lambda>_ _. Inr []), jwk_Cache_Refresh := (\<lambda>_ _. Inl ErrUnexpected) \<rparr>"

definition asks_provider :: "ext \<Rightarrow> provider_config \<Rightarrow> 's world \<Rightarrow> bool" where
  "asks_provider x p w \<longleftrightarrow> \<not> is_ok (fst (RefreshPublicJwkSet (deaf_provider x) p w))"

text \<open>
  The instants at which a sequence of calls asks the provider. Before each call the rest of the
  program may do anything to the world.
\<close>

fun fetch_times :: "ext \<Rightarrow> provider_config \<Rightarrow> ('s world \<Rightarrow> 's world) list \<Rightarrow> 's world \<Rightarrow> time list" where
  "fetch_times x p [] w = []"
| "fetch_times x p (f # fs) w =
     (let w1 = f w; rest = fetch_times x p fs (snd (RefreshPublicJwkSet x p w1))
      in if asks_provider x p w1 then clock w1 (ticks w1) # rest else rest)"

text \<open>The rest of the program keeps the clock going forward and has no access to the time of the last refresh.\<close>

definition leaves_jwks_lock :: "('s world \<Rightarrow> 's world) \<Rightarrow> bool" where
  "leaves_jwks_lock f \<longleftrightarrow> (\<forall>w. clock (f w) = clock w \<and> ticks w \<le> ticks (f w) \<and> lastRefresh (f w) = lastRefresh w)"

section \<open>Spacing\<close>

lemma asks_provider_iff:
  "asks_provider x p w \<longleftrightarrow> JwkMinimumRefreshInterval \<le> Time_Sub (clock w (ticks w)) (lastRefresh w)"
  by (auto simp: asks_provider_def deaf_provider_def RefreshPublicJwkSet_def GetPublicJwkSet_def Let_def time_Now_def)

lemma asks_provider_interval:
  assumes "asks_provider x p w"
  shows "lastRefresh w + JwkMinimumRefreshInterval \<le> clock w (ticks w)"
  using assms
  by (simp add: asks_provider_iff Time_Sub_def minDuration_def maxDuration_def JwkMinimumRefreshInterval_def
      Second_def Let_def split: if_splits)

lemma refresh_lock_state:
  assumes "RefreshPublicJwkSet x p w = (res, w')"
  shows "clock w' = clock w" "ticks w \<le> ticks w'"
    "lastRefresh w' = (if asks_provider x p w then clock w (Suc (ticks w)) else lastRefresh w)"
    "asks_provider x p w \<Longrightarrow> Suc (ticks w) < ticks w'"
  using assms
  by (auto simp: asks_provider_iff RefreshPublicJwkSet_def GetPublicJwkSet_def Let_def time_Now_def split: sum.splits if_splits)

lemma fetch_times_after:
  assumes "mono (clock w)" "\<forall>f \<in> set fs. leaves_jwks_lock f" "t \<in> set (fetch_times x p fs w)"
  shows "lastRefresh w + JwkMinimumRefreshInterval \<le> t"
  using assms
proof (induction fs arbitrary: w)
  case (Cons f fs)
  define w1 where "w1 = f w"
  obtain res w2 where r: "RefreshPublicJwkSet x p w1 = (res, w2)" by (cases "RefreshPublicJwkSet x p w1")
  have f: "clock w1 = clock w" "lastRefresh w1 = lastRefresh w"
    using Cons.prems(2) by (simp_all add: leaves_jwks_lock_def w1_def)
  note r' = refresh_lock_state[OF r]
  have later: "lastRefresh w + JwkMinimumRefreshInterval \<le> t" if "t \<in> set (fetch_times x p fs w2)"
  proof -
    have "lastRefresh w2 + JwkMinimumRefreshInterval \<le> t"
      using Cons.IH[of w2] Cons.prems(1,2) that r'(1) f(1) by simp
    moreover have "lastRefresh w \<le> lastRefresh w2"
    proof (cases "asks_provider x p w1")
      case True
      have "clock w (ticks w1) \<le> clock w (Suc (ticks w1))" using Cons.prems(1) by (simp add: mono_def)
      moreover have "lastRefresh w + JwkMinimumRefreshInterval \<le> clock w (ticks w1)"
        using asks_provider_interval[OF True] f by simp
      moreover have "0 \<le> JwkMinimumRefreshInterval"
        by (simp add: JwkMinimumRefreshInterval_def Second_def)
      ultimately show ?thesis using r'(3) True f by simp
    qed (use r'(3) f in simp)
    ultimately show ?thesis by linarith
  qed
  have "t = clock w1 (ticks w1) \<and> asks_provider x p w1 \<or> t \<in> set (fetch_times x p fs w2)"
    using Cons.prems(3) r by (auto simp: w1_def Let_def split: if_splits)
  then show ?case using later asks_provider_interval[of x p w1] f by auto
qed simp

lemma fetch_times_spaced:
  assumes "mono (clock w)" "\<forall>f \<in> set fs. leaves_jwks_lock f"
  shows "sorted_wrt (\<lambda>t u. t + JwkMinimumRefreshInterval \<le> u) (fetch_times x p fs w)"
  using assms
proof (induction fs arbitrary: w)
  case (Cons f fs)
  define w1 where "w1 = f w"
  obtain res w2 where r: "RefreshPublicJwkSet x p w1 = (res, w2)" by (cases "RefreshPublicJwkSet x p w1")
  have f: "clock w1 = clock w" using Cons.prems(2) by (simp add: leaves_jwks_lock_def w1_def)
  note r' = refresh_lock_state[OF r]
  have m: "mono (clock w2)" "\<forall>f \<in> set fs. leaves_jwks_lock f" using Cons.prems r'(1) f by simp_all
  have "clock w1 (ticks w1) + JwkMinimumRefreshInterval \<le> u"
    if "asks_provider x p w1" "u \<in> set (fetch_times x p fs w2)" for u
  proof -
    have "clock w1 (ticks w1) \<le> lastRefresh w2" using r'(3) that(1) Cons.prems(1) f by (simp add: mono_def)
    then show ?thesis using fetch_times_after[OF m that(2)] by linarith
  qed
  then show ?case using Cons.IH[OF m] r by (simp add: w1_def[symmetric] Let_def)
qed simp

lemma spaced_count:
  fixes a d :: int
  assumes "sorted_wrt (\<lambda>t u. t + d \<le> u) zs" "\<forall>z \<in> set zs. a \<le> z \<and> z < a + int n * d" "0 < d"
  shows "length zs \<le> n"
  using assms
proof (induction zs arbitrary: a n)
  case (Cons z zs)
  have "0 < int n * d" using Cons.prems(2) by auto
  then obtain k where k: "n = Suc k" by (cases n) auto
  have "a + d \<le> u \<and> u < a + d + int k * d" if "u \<in> set zs" for u
  proof -
    have "z + d \<le> u" "a \<le> z" "u < a + int n * d" using Cons.prems(1,2) that by auto
    moreover have "a + int n * d = a + d + int k * d" by (simp add: k distrib_right)
    ultimately show ?thesis by linarith
  qed
  then have "length zs \<le> k" using Cons.IH[of "a + d" k] Cons.prems(1,3) by simp
  then show ?case by (simp add: k)
qed simp

text \<open>
  C27: The provider is asked for its keys at most once in five seconds. However many callbacks meet an ID token
  that does not verify, at whatever times, and whatever the provider answers: in any \<open>n\<close> times five
  seconds the provider is asked at most \<open>n\<close> times, and two such requests are five seconds apart.
\<close>

theorem jwks_fetches_bounded:
  fixes w :: "'s world"
  assumes "mono (clock w)" "\<forall>f \<in> set fs. leaves_jwks_lock f"
  shows "length (filter (\<lambda>t. a \<le> t \<and> t < a + int n * (5 * Second)) (fetch_times x p fs w)) \<le> n
    \<and> sorted_wrt (\<lambda>t u. t + 5 * Second \<le> u) (fetch_times x p fs w)"
proof -
  have s: "sorted_wrt (\<lambda>t u. t + 5 * Second \<le> u) (fetch_times x p fs w)"
    using fetch_times_spaced[OF assms] by (simp add: JwkMinimumRefreshInterval_def)
  have "(0::int) < 5 * Second" by (simp add: Second_def)
  then show ?thesis
    using spaced_count[OF sorted_wrt_filter[OF s], of "\<lambda>t. a \<le> t \<and> t < a + int n * (5 * Second)" a n] s by simp
qed

text \<open>A clock that shows one second more at each reading.\<close>

definition ticking :: "nat \<Rightarrow> time \<Rightarrow> nat \<Rightarrow> unit world" where
  "ticking n l c = (quiet_world 0 ())\<lparr> clock := (\<lambda>i. int i * Second), ticks := n, lastRefresh := l, calls := c \<rparr>"

definition tick :: "unit world \<Rightarrow> unit world" where "tick w = w\<lparr> ticks := Suc (ticks w) \<rparr>"

lemma ticking_step:
  "fetch_times example_ext p (tick # fs) (ticking n l c) =
     (if JwkMinimumRefreshInterval \<le> Time_Sub (int (n + 1) * Second) l
      then (int (n + 1) * Second) # fetch_times example_ext p fs (ticking (n + 3) (int (n + 2) * Second) (Suc c))
      else fetch_times example_ext p fs (ticking (n + 2) l (Suc c)))"
proof -
  let ?w = "ticking (n + 1) l c"
  have t: "tick (ticking n l c) = ?w" by (simp add: ticking_def tick_def)
  have "snd (RefreshPublicJwkSet example_ext p ?w) = (if JwkMinimumRefreshInterval \<le> Time_Sub (int (n + 1) * Second) l
      then ticking (n + 3) (int (n + 2) * Second) (Suc c) else ticking (n + 2) l (Suc c))"
    by (simp add: RefreshPublicJwkSet_def GetPublicJwkSet_def time_Now_def Let_def ticking_def quiet_world_def example_ext_def numeral_3_eq_3)
  moreover have "clock ?w (ticks ?w) = int (n + 1) * Second" "lastRefresh ?w = l" by (simp_all add: ticking_def)
  ultimately show ?thesis by (simp only: fetch_times.simps Let_def t asks_provider_iff split: if_split) simp
qed

theorem jwks_fetches_bounded_witness:
  "fetch_times example_ext (Provider example_openid) (replicate 6 tick) (ticking 0 0 0) = [5 * Second, 12 * Second]
   \<and> length (filter (\<lambda>t. 5 * Second \<le> t \<and> t < 5 * Second + int 2 * (5 * Second))
       (fetch_times example_ext (Provider example_openid) (replicate 6 tick) (ticking 0 0 0))) \<le> 2"
proof -
  have m: "mono (clock (ticking 0 0 0))" by (auto simp: ticking_def mono_def Second_def)
  have l: "\<forall>f \<in> set (replicate 6 tick). leaves_jwks_lock f" by (simp add: leaves_jwks_lock_def tick_def)
  have six: "replicate 6 tick = [tick, tick, tick, tick, tick, tick]" by (simp add: numeral_eq_Suc)
  have "fetch_times example_ext (Provider example_openid) (replicate 6 tick) (ticking 0 0 0) = [5 * Second, 12 * Second]"
    unfolding six ticking_step
    by (simp add: JwkMinimumRefreshInterval_def Time_Sub_def minDuration_def maxDuration_def Second_def)
  then show ?thesis using jwks_fetches_bounded[OF m l] by blast
qed

end
