(* ===== verification/Spec2Isabelle.thy ===== *)
theory Spec2Isabelle
  imports RequestLog StoreEquivalence RefreshConcurrency RetryBackoff MockSetup Process ErrorPage JwksRefresh
begin

text \<open>
  Wonderwall is a reverse proxy that runs beside an application and gives its users an OpenID Connect
  login: it sends a browser to an identity provider, redeems the authorization code that comes back,
  keeps the tokens in a session store, encrypted, and puts the session's access token on every request
  that it passes on to the application. This development models the program as HOL functions and proves
  what its parts and their composition guarantee.

  \<^bold>\<open>The parts and how they interact.\<close> \<^verbatim>\<open>cmd/wonderwall/main.go\<close> builds one standard handler
  (\<^verbatim>\<open>pkg/handler\<close>) from the configuration. The router (\<^verbatim>\<open>pkg/router\<close>) dispatches a request to one of the
  API handlers (\<^verbatim>\<open>pkg/handler/api\<close>) or to the reverse proxy (\<^verbatim>\<open>pkg/handler/reverseproxy\<close>). These use the
  OpenID client (\<^verbatim>\<open>pkg/openid/client\<close>) to talk to the provider, and the session handler
  (\<^verbatim>\<open>pkg/session\<close>) to create, read, refresh and destroy sessions in a store, which is a map in memory or
  Redis. What the program must remember between requests is in the browser's encrypted cookies
  (\<^verbatim>\<open>pkg/cookie\<close>, \<^verbatim>\<open>pkg/crypto\<close>), which hold the pending login and the key of the session. For development and tests there is an identity
  provider of its own (\<^verbatim>\<open>pkg/mock\<close>).

  \<^bold>\<open>Theories.\<close>
  \<^item> Prelude holds results (\<open>error + 'a\<close>) and lemma collections; GoTime, GoBase64, GoCipher, GoRFC3339,
    GoJSON, GoSHA256 and GoURL model the parts of the Go library that the program computes with: times
    and durations as 64-bit nanoseconds with their wrap-around, base64, AES-GCM, RFC 3339 times, JSON with the
    decoding of records, SHA-256, and \<^verbatim>\<open>net/url\<close>. Http models requests, responses and redirects.
  \<^item> World is the state that operations pass on, \<open>'s world\<close>: the session store \<open>'s\<close>, and the environment
    as functions of how often it was asked (clock, random bytes, remote answers, backoffs of retries,
    waits for a lock), with the counters. Every statement therefore holds for all behaviours of it.
  \<^item> Config and Tokens model \<^verbatim>\<open>pkg/config\<close>, \<^verbatim>\<open>pkg/openid/config\<close>, \<^verbatim>\<open>pkg/openid/tokens.go\<close> and \<^verbatim>\<open>pkg/jwt\<close>;
    Crypto \<^verbatim>\<open>pkg/crypto\<close>; Cookie \<^verbatim>\<open>pkg/cookie\<close>, with a model of a browser's cookie jar; Ingress
    \<^verbatim>\<open>pkg/ingress\<close>; HandlerURL \<^verbatim>\<open>pkg/handler/url\<close>; AutoLogin \<^verbatim>\<open>pkg/handler/autologin\<close>; Loginstatus
    \<^verbatim>\<open>pkg/loginstatus\<close>; OpenIDClient \<^verbatim>\<open>pkg/openid/client\<close>; RequestLog \<^verbatim>\<open>pkg/middleware/logentry.go\<close>.
  \<^item> SessionMetadata and SessionData model \<^verbatim>\<open>pkg/session/data.go\<close>; SessionStore the stores and locks, with
    the locale \<open>session_store\<close> as their contract, interpreted for the memory store and, over any Redis
    client that obeys the documented laws of its commands, for Redis; SessionHandler \<^verbatim>\<open>pkg/session/handler.go\<close>.
    SessionLifecycle and SessionErrors prove, inside the locale \<open>session_handling\<close>, what the operations do on success
    and on every error. SessionExamples evaluates them on a concrete handler.
  \<^item> StandardHandler, ErrorHandler, ApiHandlers, ReverseProxy and Server model the handlers of requests,
    the proxy, the router and the set-up of the program. LoginFlow and LogoutFlow prove what a login, a callback, a
    logout and the session routes do, as seen by the browser, the store and the provider; ResponseCookies what
    every cookie of every response is like.
  \<^item> SessionInvariant states the invariant of the store and proves that every request keeps it, for any
    number of server instances on one store. ServerExamples and ReachableExamples evaluate the properties
    of the whole server on a concrete one.
  \<^item> RefreshConcurrency lets any number of requests refresh one session at the same time: a step relation whose steps are
    the operations of \<^verbatim>\<open>Handler.Refresh\<close> on the lock, the store and the provider, with named faults, and a refinement
    that relates it to the model of that function.
  \<^item> ConfigInit models how \<^verbatim>\<open>pkg/config\<close> gets the configuration from flags, files and the environment, and
    \<^verbatim>\<open>pkg/logging\<close>; StoreSetup how the store is chosen and connected to, with what the stores do not
    promise; StoreEquivalence compares the two stores; RetryBackoff models \<^verbatim>\<open>pkg/retry\<close> and shows how long the
    retries of World go on; Shutdown is \<^verbatim>\<open>pkg/server\<close> as a step relation of its goroutines; Metrics is
    \<^verbatim>\<open>pkg/metrics\<close> and \<^verbatim>\<open>pkg/middleware/prometheus.go\<close>.
  \<^item> Program composes all of it as \<^verbatim>\<open>run\<close> does: from what the operator configured to every session that the program can
    ever hold. Process adds \<^verbatim>\<open>main\<close> and the metrics server beside the server, up to the exit status of the process.
  \<^item> ErrorPage is \<^verbatim>\<open>pkg/handler/templates\<close>: the error page on the wire, with the contextual escaping of \<^verbatim>\<open>html/template\<close>, and what a
    user agent reads from it. JwksRefresh bounds how often \<^verbatim>\<open>pkg/openid/provider\<close> (in Tokens) asks the provider for its keys.
  \<^item> MockProvider models \<^verbatim>\<open>pkg/mock\<close> with the keys of \<^verbatim>\<open>pkg/crypto/jwk.go\<close> and \<^verbatim>\<open>jwks.go\<close>; MockCorrect proves what its
    endpoints guarantee and an invariant of its state; MockFlow and MockRefresh compose it with the program's
    login and refresh; MockSetup is how it is put together with the program, and the requests of tests; MockExamples evaluates them.

  \<^bold>\<open>What the lemmas show.\<close> The login flow: a login is bound to the browser by its cookie (state, nonce,
  code verifier), only a matching callback changes anything, and it stores exactly one session, for tokens whose ID
  token was verified. The store: data read back is the data written; every session in it comes from such a
  login. The proxy: a token is handed out only for a live session and only to the owner of its key. Logout:
  the session is deleted and the browser's cookie removed. Errors: which status each failure has, that failures
  leave sessions alone, and that automatic retries end. Set-up and process: which configurations are accepted, that the chosen store keeps
  the contract, that the two stores cannot be told apart by their operations, that concurrent refreshes are safe
  under a lock that holds, and not without, that retry loops end, that the provider's keys are not fetched more
  often than every five seconds, and with which status the process exits. The error page: nothing that is put into it can
  add markup, and its link leads back to the login. The mock provider: a login of the program is accepted by it and its code can be redeemed only with that login's
  verifier. Parsers and printers: round trips for
  the encodings. Some lemmas show where the code does not do what it means to; the manifest lists them.

  \<^bold>\<open>Loops and bounds.\<close> No definition uses fuel. Retries recurse on the backoff of the environment, which is a
  finite sequence of answers (RetryBackoff proves that the program's backoff gives at most twenty), and waiting for a lock on a finite list of ticks, since the program gives both
  a time limit; other recursions are structural or have a measure. Integers that can overflow are
  reduced to 64 bits where the code computes them.

  \<^bold>\<open>Parameters.\<close> Code outside the repository is an argument of the definitions that use it, the record
  \<open>ext\<close> of Tokens: the JWT, OAuth 2.0 and UUID libraries and glob matching; the Redis client; viper (\<open>viper_lib\<close>),
  the retry library (\<open>backoff_lib\<close>), the Prometheus client (\<open>prom_lib\<close>) and the key functions of the mock
  (\<open>mock_lib\<close>); the router's matching (\<open>chi\<close>); the order in which Go ranges over a map (\<open>order\<close>). Where a property relies on their
  documentation, the law is a named hypothesis (\<open>redis_laws\<close>, \<open>viper_laws\<close>, \<open>backoff_laws\<close>, \<open>prom_laws\<close>, \<open>chi_ok\<close>, \<open>range_order\<close>), and a concrete instance
  satisfies it.

  \<^bold>\<open>Not modelled.\<close> Network listening itself, whose outcomes are left open, and the HTTP test servers around the mock
  provider (\<^verbatim>\<open>net/http/httptest\<close>). The error template's text before its first hole is an argument, and so is the
  request that \<^verbatim>\<open>httptest.NewRequest\<close> makes. What is logged is modelled for requests and responses only; other
  log lines and the printing of the configuration are left out. Requests carry one value
  per header; a response's headers are the ones the program sets. The upstream application is a parameter, and so is the
  exchange with it (trailers and protocol upgrades are left out).
\<close>

end
